(* ===== verification/Prelude.thy ===== *)
theory Prelude
  imports Main "HOL-Library.Char_ord" "HOL-Library.List_Lexorder" "HOL-Library.AList"
begin

text \<open>
  Shared vocabulary of the development: Python text as lists of characters, the
  string methods the source calls (strip, split, join, lower), decimal rendering
  of integers, insertion-ordered dictionaries, and the generic lemmas on lists
  that more than one component needs.

  A Python string is a \<open>string\<close>, that is a list of code points up to U+00FF. A byte
  string is a \<open>string\<close> too. Everything below is defined for that range as Python
  defines it, including the two Latin-1 white-space characters outside ASCII.
\<close>

named_theorems model_defs \<open>definitions unfolded when a model is evaluated\<close>

type_synonym bytes = string
type_synonym ('k, 'v) dict = "('k \<times> 'v) list"


section \<open>Characters and white space\<close>

text \<open>The code points below 256 for which \<open>str.isspace\<close> holds, which are those
  \<open>str.strip\<close> and \<open>str.split\<close> treat as white space.\<close>

definition is_space :: "char \<Rightarrow> bool" where
  "is_space c \<longleftrightarrow> (let n = (of_char c :: nat) in
     n \<in> {9, 10, 11, 12, 13, 28, 29, 30, 31, 32, 133, 160})"

definition strip_with :: "(char \<Rightarrow> bool) \<Rightarrow> string \<Rightarrow> string" where
  "strip_with p s = rev (dropWhile p (rev (dropWhile p s)))"

definition strip :: "string \<Rightarrow> string" where
  "strip s = strip_with is_space s"

text \<open>The maximal non-empty runs of characters that satisfy \<open>p\<close>, in order.\<close>

fun runs_acc :: "(char \<Rightarrow> bool) \<Rightarrow> string \<Rightarrow> string \<Rightarrow> string list" where
  "runs_acc p acc [] = (if acc = [] then [] else [rev acc])"
| "runs_acc p acc (c # cs) =
     (if p c then runs_acc p (c # acc) cs
      else (if acc = [] then runs_acc p [] cs else rev acc # runs_acc p [] cs))"

definition runs :: "(char \<Rightarrow> bool) \<Rightarrow> string \<Rightarrow> string list" where
  "runs p s = runs_acc p [] s"

text \<open>\<open>str.split()\<close> with no argument.\<close>

definition split_ws :: "string \<Rightarrow> string list" where
  "split_ws s = runs (\<lambda>c. \<not> is_space c) s"

text \<open>\<open>str.split(sep)\<close> for a one-character separator: never empty.\<close>

fun split_on :: "char \<Rightarrow> string \<Rightarrow> string list" where
  "split_on sep [] = [[]]"
| "split_on sep (c # cs) =
     (if c = sep then [] # split_on sep cs
      else (case split_on sep cs of [] \<Rightarrow> [[c]] | w # ws \<Rightarrow> (c # w) # ws))"

text \<open>\<open>sep.join(parts)\<close>.\<close>

fun join :: "string \<Rightarrow> string list \<Rightarrow> string" where
  "join sep [] = []"
| "join sep [x] = x"
| "join sep (x # y # ys) = x @ sep @ join sep (y # ys)"

text \<open>\<open>str.lower\<close> on code points below 256.\<close>

definition lower_char :: "char \<Rightarrow> char" where
  "lower_char c = (let n = (of_char c :: nat) in
     if (65 \<le> n \<and> n \<le> 90) \<or> (192 \<le> n \<and> n \<le> 222 \<and> n \<noteq> 215) then char_of (n + 32) else c)"

definition lower :: "string \<Rightarrow> string" where
  "lower s = map lower_char s"

definition has_prefix :: "string \<Rightarrow> string \<Rightarrow> bool" where
  "has_prefix p s \<longleftrightarrow> take (length p) s = p"

definition has_suffix :: "string \<Rightarrow> string \<Rightarrow> bool" where
  "has_suffix p s \<longleftrightarrow> has_prefix (rev p) (rev s)"


text \<open>\<open>p in s\<close>.\<close>

fun has_infix :: "string \<Rightarrow> string \<Rightarrow> bool" where
  "has_infix p [] = (p = [])"
| "has_infix p (c # cs) = (has_prefix p (c # cs) \<or> has_infix p cs)"


section \<open>Decimal rendering of integers\<close>

definition digit_char :: "nat \<Rightarrow> char" where
  "digit_char d = char_of (48 + d)"

fun nat_str :: "nat \<Rightarrow> string" where
  "nat_str n = (if n < 10 then [digit_char n] else nat_str (n div 10) @ [digit_char (n mod 10)])"

declare nat_str.simps [simp del]

definition int_str :: "int \<Rightarrow> string" where
  "int_str i = (if i < 0 then CHR ''-'' # nat_str (nat (- i)) else nat_str (nat i))"


section \<open>Lists\<close>

text \<open>Keep the first occurrence of every element, as building a dictionary from a
  sequence of keys does.\<close>

fun firsts :: "'a list \<Rightarrow> 'a list \<Rightarrow> 'a list" where
  "firsts seen [] = []"
| "firsts seen (x # xs) = (if x \<in> set seen then firsts seen xs else x # firsts (x # seen) xs)"

abbreviation uniq :: "'a list \<Rightarrow> 'a list" where
  "uniq xs \<equiv> firsts [] xs"

lemma set_firsts: "set (firsts seen xs) = set xs - set seen"
  by (induction seen xs rule: firsts.induct) auto

lemma set_uniq [simp]: "set (uniq xs) = set xs"
  by (simp add: set_firsts)

lemma distinct_firsts [simp]: "distinct (firsts seen xs)"
  by (induction seen xs rule: firsts.induct) (auto simp: set_firsts)

lemma firsts_id: "distinct xs \<Longrightarrow> set xs \<inter> set seen = {} \<Longrightarrow> firsts seen xs = xs"
  by (induction seen xs rule: firsts.induct) auto

text \<open>\<open>enumerate(xs, start=n)\<close>.\<close>

definition enum_from :: "nat \<Rightarrow> 'a list \<Rightarrow> (nat \<times> 'a) list" where
  "enum_from n xs = zip [n ..< n + length xs] xs"

lemma enum_from_Nil [simp]: "enum_from n [] = []"
  by (simp add: enum_from_def)

lemma enum_from_Cons [simp]: "enum_from n (x # xs) = (n, x) # enum_from (Suc n) xs"
  by (simp add: enum_from_def upt_conv_Cons del: upt_Suc)

lemma map_snd_enum_from [simp]: "map snd (enum_from n xs) = xs"
  by (simp add: enum_from_def)

lemma length_enum_from [simp]: "length (enum_from n xs) = length xs"
  by (simp add: enum_from_def)

lemma enum_from_snoc [simp]: "enum_from n (xs @ [x]) = enum_from n xs @ [(n + length xs, x)]"
  by (simp add: enum_from_def)

text \<open>A loop over the numbered rows, as a fold whose invariant speaks of the rows consumed
  so far.\<close>

definition for_rows :: "(nat \<times> 'a \<Rightarrow> 's \<Rightarrow> 's) \<Rightarrow> 'a list \<Rightarrow> 's \<Rightarrow> 's" where
  "for_rows f xs s = fold f (enum_from 1 xs) s"

lemma for_rows_Nil [simp]: "for_rows f [] s = s"
  by (simp add: for_rows_def)

lemma for_rows_snoc [simp]: "for_rows f (xs @ [x]) s = f (Suc (length xs), x) (for_rows f xs s)"
  by (simp add: for_rows_def)

lemma for_rows_inv [consumes 0, case_names init step]:
  assumes "I [] s"
    and "\<And>ys y st. I ys st \<Longrightarrow> I (ys @ [y]) (f (Suc (length ys), y) st)"
  shows "I xs (for_rows f xs s)"
  using assms by (induction xs rule: rev_induct) simp_all

lemma filter_dropWhile_id: "(\<forall>x \<in> set xs. \<not> p x) \<Longrightarrow> dropWhile p xs = xs"
  by (cases xs) auto

text \<open>A list no element of which satisfies a predicate is left alone by stripping.\<close>

lemma strip_with_id:
  assumes "s \<noteq> []" and "\<not> p (hd s)" and "\<not> p (last s)"
  shows "strip_with p s = s"
proof -
  from assms(1,2) have "dropWhile p s = s" by (cases s) auto
  moreover from assms(1,3) have "dropWhile p (rev s) = rev s"
    by (cases s rule: rev_cases) auto
  ultimately show ?thesis by (simp add: strip_with_def)
qed

lemma strip_with_Nil [simp]: "strip_with p [] = []"
  by (simp add: strip_with_def)

lemma dropWhile_last: "dropWhile p xs \<noteq> [] \<Longrightarrow> last (dropWhile p xs) = last xs"
  by (induction xs) (auto split: if_splits)

lemma hd_strip_with: "strip_with p s \<noteq> [] \<Longrightarrow> \<not> p (hd (strip_with p s))"
proof -
  assume a: "strip_with p s \<noteq> []"
  let ?d = "dropWhile p s"
  from a have r: "dropWhile p (rev ?d) \<noteq> []" by (simp add: strip_with_def)
  have "hd (strip_with p s) = last (dropWhile p (rev ?d))"
    using r by (simp add: strip_with_def hd_rev)
  also have "\<dots> = last (rev ?d)" using r by (rule dropWhile_last)
  also have "\<dots> = hd ?d" using r by (cases ?d) auto
  finally have "hd (strip_with p s) = hd ?d" .
  moreover have "?d \<noteq> []"
  proof
    assume "?d = []"
    with r show False by simp
  qed
  ultimately show ?thesis by (simp add: hd_dropWhile)
qed

lemma last_strip_with: "strip_with p s \<noteq> [] \<Longrightarrow> \<not> p (last (strip_with p s))"
  by (simp add: strip_with_def last_rev hd_dropWhile)

lemma strip_with_idem [simp]: "strip_with p (strip_with p s) = strip_with p s"
proof (cases "strip_with p s = []")
  case False
  from strip_with_id [OF this hd_strip_with [OF this] last_strip_with [OF this]]
  show ?thesis .
qed simp

lemma strip_with_snoc: "p c \<Longrightarrow> strip_with p (l @ [c]) = strip_with p l"
proof -
  assume c: "p c"
  show ?thesis
  proof (cases "\<forall>x \<in> set l. p x")
    case True
    then have "dropWhile p l = []" and "dropWhile p (l @ [c]) = []"
      unfolding dropWhile_eq_Nil_conv using c by auto
    then show ?thesis by (simp only: strip_with_def rev.simps dropWhile.simps)
  next
    case False
    then obtain x where "x \<in> set l" "\<not> p x" by auto
    then have "dropWhile p (l @ [c]) = dropWhile p l @ [c]" by (rule dropWhile_append1)
    with c show ?thesis by (simp add: strip_with_def)
  qed
qed

lemma strip_with_Cons: "\<not> p c \<Longrightarrow> \<exists>v. strip_with p (c # w) = c # v"
proof -
  assume c: "\<not> p c"
  have "dropWhile p (xs @ [c]) = dropWhile p xs @ [c]" for xs
    using c by (induction xs) auto
  with c show ?thesis by (simp add: strip_with_def)
qed

lemma split_on_Nil_iff [simp]: "split_on sep s \<noteq> []"
  by (induction s) (auto split: list.splits)

lemma split_on_no_sep: "sep \<notin> set s \<Longrightarrow> split_on sep s = [s]"
  by (induction s) auto

lemma split_on_append_sep: "split_on sep (s @ sep # t) = split_on sep s @ split_on sep t"
proof (induction s)
  case (Cons c s)
  then show ?case by (cases "split_on sep s") auto
qed simp

lemma split_on_sep_free: "w \<in> set (split_on sep s) \<Longrightarrow> sep \<notin> set w"
proof (induction s arbitrary: w)
  case (Cons c s)
  then show ?case by (cases "split_on sep s") (auto split: if_splits)
qed simp

lemma join_split_on: "join [sep] (split_on sep s) = s"
proof (induction s)
  case (Cons c s)
  obtain w ws where w: "split_on sep s = w # ws" by (cases "split_on sep s") auto
  from Cons w have "join [sep] (w # ws) = s" by simp
  with w show ?case by (cases ws) auto
qed simp


section \<open>Dictionaries\<close>

text \<open>A Python dictionary is an association list in insertion order. Assignment is
  \<open>AList.update\<close>: an existing key keeps its position, a new key goes to the end.\<close>

abbreviation dget :: "('k, 'v) dict \<Rightarrow> 'k \<Rightarrow> 'v option" where
  "dget d k \<equiv> map_of d k"

abbreviation dset :: "'k \<Rightarrow> 'v \<Rightarrow> ('k, 'v) dict \<Rightarrow> ('k, 'v) dict" where
  "dset k v d \<equiv> AList.update k v d"

abbreviation ddel :: "'k \<Rightarrow> ('k, 'v) dict \<Rightarrow> ('k, 'v) dict" where
  "ddel k d \<equiv> AList.delete k d"

abbreviation dkeys :: "('k, 'v) dict \<Rightarrow> 'k list" where
  "dkeys d \<equiv> map fst d"

lemma dget_dset: "dget (dset k v d) k' = (if k' = k then Some v else dget d k')"
  by (simp add: update_conv')

lemma dget_ddel: "dget (ddel k d) k' = (if k' = k then None else dget d k')"
  by (auto simp: delete_conv')

lemma dkeys_dset: "set (dkeys (dset k v d)) = insert k (set (dkeys d))"
  using dom_update [of k v d] by (simp add: dom_map_of_conv_image_fst)


lemma map_of_rev_distinct: "distinct (map fst xs) \<Longrightarrow> map_of (rev xs) = map_of xs"
  using map_of_inject_set [of "rev xs" xs] by (simp add: rev_map [symmetric])


lemma map_insort: "map g (insort_key (\<lambda>x. f (g x)) x xs) = insort_key f (g x) (map g xs)"
  by (induction xs) auto

lemma map_sort: "map g (sort_key (\<lambda>x. f (g x)) xs) = sort_key f (map g xs)"
  by (induction xs) (simp_all add: map_insort)


lemma map_of_map_snd: "map_of (map (\<lambda>kv. (fst kv, f (snd kv))) xs) k = map_option f (map_of xs k)"
  by (induction xs) auto

end
