(* ===== verification/Py_Float.thy ===== *)
theory Py_Float
  imports Complex_Main Prelude
begin

text \<open>
  Python floats, for the finite values the modelled code computes with: a float is the
  rational number it denotes and every operation rounds its exact result to the nearest
  binary64 value, ties to the even significand, with gradual underflow. Overflow to an
  infinity and NaN are outside the model.
\<close>

text \<open>\<open>int.bit_length\<close> of a non-negative integer.\<close>

function bits :: "int \<Rightarrow> int" where
  "bits n = (if n \<le> 0 then 0 else 1 + bits (n div 2))"
  by pat_completeness auto
termination by (relation "measure nat") auto

declare bits.simps [simp del]

definition pow2 :: "int \<Rightarrow> rat" where
  "pow2 e = (if 0 \<le> e then 2 ^ nat e else 1 / 2 ^ nat (- e))"

lemma pow2_code [code]: "pow2 e = (if 0 \<le> e then of_int (2 ^ nat e) else Fract 1 (2 ^ nat (- e)))"
  by (simp add: pow2_def Fract_of_int_quotient)

text \<open>The exponent \<open>e\<close> with \<open>2^e \<le> \<bar>x\<bar> < 2^(e+1)\<close>, for \<open>x \<noteq> 0\<close>.\<close>

definition exponent :: "rat \<Rightarrow> int" where
  "exponent x = (let (n, d) = quotient_of \<bar>x\<bar>;
       e = bits n - bits d
     in if pow2 e \<le> \<bar>x\<bar> then e else e - 1)"

definition round_half_even :: "rat \<Rightarrow> int" where
  "round_half_even x = (let f = \<lfloor>x\<rfloor>; d = x - of_int f in
     if d < 1 / 2 then f else if 1 / 2 < d then f + 1 else if even f then f else f + 1)"

definition fl :: "rat \<Rightarrow> rat" where
  "fl x = (if x = 0 then 0 else
     let q = max (exponent x - 52) (- 1074)
     in of_int (round_half_even (x / pow2 q)) * pow2 q)"

definition fadd :: "rat \<Rightarrow> rat \<Rightarrow> rat" where "fadd a b = fl (a + b)"
definition fsub :: "rat \<Rightarrow> rat \<Rightarrow> rat" where "fsub a b = fl (a - b)"
definition fmul :: "rat \<Rightarrow> rat \<Rightarrow> rat" where "fmul a b = fl (a * b)"
definition fdiv :: "rat \<Rightarrow> rat \<Rightarrow> rat" where "fdiv a b = fl (a / b)"

text \<open>An integer operand of a float operation is converted first; \<open>int(x)\<close> truncates
  towards zero; \<open>a / b\<close> on two integers is the correctly rounded quotient.\<close>

definition int_times_float :: "int \<Rightarrow> rat \<Rightarrow> rat" where
  "int_times_float i x = fmul (fl (of_int i)) x"

definition trunc :: "rat \<Rightarrow> int" where
  "trunc x = (if x < 0 then - \<lfloor>- x\<rfloor> else \<lfloor>x\<rfloor>)"

definition int_div_int :: "int \<Rightarrow> int \<Rightarrow> rat" where
  "int_div_int a b = fl (of_int a / of_int b)"

text \<open>\<open>round(x, n)\<close>: the decimal nearest to the exact value (ties to even), as a float.\<close>

definition py_round :: "rat \<Rightarrow> nat \<Rightarrow> rat" where
  "py_round x n = fl (of_int (round_half_even (x * 10 ^ n)) / 10 ^ n)"

lemma round_half_even_of_int [simp]: "round_half_even (of_int i) = i"
  by (simp add: round_half_even_def)

lemma pow2_pos [simp]: "0 < pow2 e"
  by (simp add: pow2_def)

lemma fl_0 [simp]: "fl 0 = 0"
  by (simp add: fl_def)

lemma round_half_even_mono: "x \<le> y \<Longrightarrow> round_half_even x \<le> round_half_even y"
proof -
  assume le: "x \<le> y"
  have fm: "\<lfloor>x\<rfloor> \<le> \<lfloor>y\<rfloor>" using le by (rule floor_mono)
  show ?thesis
  proof (cases "\<lfloor>x\<rfloor> = \<lfloor>y\<rfloor>")
    case True
    then show ?thesis using le by (auto simp: round_half_even_def Let_def)
  next
    case False
    with fm have "\<lfloor>x\<rfloor> + 1 \<le> \<lfloor>y\<rfloor>" by simp
    then show ?thesis by (auto simp: round_half_even_def Let_def)
  qed
qed

lemma round_half_even_nonneg: "0 \<le> x \<Longrightarrow> 0 \<le> round_half_even x"
  using round_half_even_mono [of 0 x] round_half_even_of_int [of 0] by simp

lemma fl_nonneg: "0 \<le> x \<Longrightarrow> 0 \<le> fl x"
proof -
  assume "0 \<le> x"
  then have "0 \<le> round_half_even (x / pow2 q)" for q
    by (intro round_half_even_nonneg divide_nonneg_pos) simp_all
  then have "0 \<le> of_int (round_half_even (x / pow2 q)) * pow2 q" for q
    by (simp add: less_imp_le)
  then show ?thesis by (simp add: fl_def Let_def)
qed

lemma fl_nonpos: "x \<le> 0 \<Longrightarrow> fl x \<le> 0"
proof -
  assume "x \<le> 0"
  then have "x / pow2 q \<le> 0" for q by (simp add: divide_nonpos_pos)
  then have "round_half_even (x / pow2 q) \<le> 0" for q
    using round_half_even_mono [of "x / pow2 q" 0] round_half_even_of_int [of 0] by simp
  then have "of_int (round_half_even (x / pow2 q)) * pow2 q \<le> 0" for q
    by (simp add: mult_nonpos_nonneg less_imp_le)
  then show ?thesis by (simp add: fl_def Let_def)
qed

lemma fl_tenth: "fl (1/10) = 3602879701896397 / 36028797018963968"
  by code_simp



text \<open>Rounding respects a power of two that the rounded grid contains, so a quotient in the unit
  interval rounds into it.\<close>

lemma pow2_quotient: "q \<le> k \<Longrightarrow> pow2 k / pow2 q = of_int (2 ^ nat (k - q))"
proof -
  assume le: "q \<le> k"
  have p: "pow2 e = (2::rat) powi e" for e
    by (cases "0 \<le> e") (simp_all only: pow2_def power_int_def if_True if_False power_one_over inverse_eq_divide)
  have "(2::rat) powi k / 2 powi q = 2 powi (k - q)" by (simp add: power_int_diff)
  then show ?thesis using le by (simp add: p power_int_def)
qed

lemma grid_le: "q \<le> k \<Longrightarrow> x \<le> pow2 k \<Longrightarrow> of_int (round_half_even (x / pow2 q)) * pow2 q \<le> pow2 k"
proof -
  assume q: "q \<le> k" and x: "x \<le> pow2 k"
  have "x / pow2 q \<le> pow2 k / pow2 q" using x by (simp add: divide_right_mono less_imp_le)
  then have "round_half_even (x / pow2 q) \<le> 2 ^ nat (k - q)"
    using round_half_even_mono round_half_even_of_int by (metis pow2_quotient [OF q])
  then have "of_int (round_half_even (x / pow2 q)) \<le> pow2 k / pow2 q"
    unfolding pow2_quotient [OF q] by simp
  then show ?thesis by (simp add: pos_le_divide_eq)
qed

lemma grid_ge: "q \<le> k \<Longrightarrow> pow2 k \<le> x \<Longrightarrow> pow2 k \<le> of_int (round_half_even (x / pow2 q)) * pow2 q"
proof -
  assume q: "q \<le> k" and x: "pow2 k \<le> x"
  have "pow2 k / pow2 q \<le> x / pow2 q" using x by (simp add: divide_right_mono less_imp_le)
  then have "2 ^ nat (k - q) \<le> round_half_even (x / pow2 q)"
    using round_half_even_mono round_half_even_of_int by (metis pow2_quotient [OF q])
  then have "pow2 k / pow2 q \<le> of_int (round_half_even (x / pow2 q))"
    unfolding pow2_quotient [OF q] by simp
  then show ?thesis by (simp add: pos_divide_le_eq)
qed

lemma bits_mono: "m \<le> n \<Longrightarrow> bits m \<le> bits n"
proof (induction m arbitrary: n rule: bits.induct)
  case (1 m)
  show ?case
  proof (cases "m \<le> 0")
    case True
    have "0 \<le> bits k" for k by (induction k rule: bits.induct) (simp add: bits.simps)
    with True show ?thesis by (simp add: bits.simps [of m])
  next
    case False
    with 1 have "bits (m div 2) \<le> bits (n div 2)" by (simp add: zdiv_mono1)
    with False 1(2) show ?thesis by (simp add: bits.simps [of m] bits.simps [of n])
  qed
qed

lemma exponent_unit: "0 \<le> x \<Longrightarrow> x \<le> 1 \<Longrightarrow> exponent x \<le> 0"
proof -
  assume x: "0 \<le> x" "x \<le> 1"
  obtain n d where q: "quotient_of x = (n, d)" by force
  have d: "0 < d" and f: "x = of_int n / of_int d"
    using quotient_of_denom_pos [OF q] quotient_of_div [OF q] by auto
  with x have "(of_int n :: rat) \<le> of_int d" by (simp add: pos_divide_le_eq)
  then have "bits n \<le> bits d" by (intro bits_mono) simp
  with q x show ?thesis by (simp add: exponent_def Let_def)
qed

lemma fl_unit: "0 \<le> x \<Longrightarrow> x \<le> 1 \<Longrightarrow> 0 \<le> fl x \<and> fl x \<le> 1"
  using grid_le [of "max (exponent x - 52) (- 1074)" 0 x] exponent_unit [of x] fl_nonneg [of x]
  by (simp add: fl_def Let_def pow2_def [of 0])

lemma fl_ge_half: "1 / 2 \<le> x \<Longrightarrow> x \<le> 1 \<Longrightarrow> 1 / 2 \<le> fl x"
  using grid_ge [of "max (exponent x - 52) (- 1074)" "- 1" x] exponent_unit [of x]
  by (simp add: fl_def Let_def pow2_def [of "- 1"])

lemma py_round_unit: "0 \<le> x \<Longrightarrow> x \<le> 1 \<Longrightarrow> 0 \<le> py_round x n \<and> py_round x n \<le> 1"
proof -
  assume x: "0 \<le> x" "x \<le> 1"
  have "round_half_even (x * 10 ^ n) \<le> round_half_even (of_int (10 ^ n))"
    using x by (intro round_half_even_mono) (simp add: mult_left_le_one_le)
  moreover have "0 \<le> round_half_even (x * 10 ^ n)" using x by (intro round_half_even_nonneg) simp
  ultimately have "0 \<le> (of_int (round_half_even (x * 10 ^ n)) :: rat)"
    and "(of_int (round_half_even (x * 10 ^ n)) :: rat) \<le> of_int (10 ^ n)"
    by (simp_all only: round_half_even_of_int of_int_le_iff of_int_0_le_iff)
  then show ?thesis
    unfolding py_round_def by (intro fl_unit) (simp_all add: pos_divide_le_eq)
qed

end
