(* ===== verification/Json_Text.thy ===== *)
theory Json_Text
  imports Json_Value
begin

text \<open>
  The text written by \<open>json.dumps\<close> determines the value. The argument is the usual one
  for a self-delimiting code: every value's text can be told apart from whatever follows
  it, as long as what follows is the end of the text or one of the characters that close
  or separate items. The interface is the locale \<open>item_code\<close>; the serializer is its
  interpretation.
\<close>

section \<open>Self-delimiting codes for items of a list\<close>

definition stop_chars :: "char set" where
  "stop_chars = {CHR '','', CHR '']'', CHR ''}''}"

definition stops :: "string \<Rightarrow> bool" where
  "stops r \<longleftrightarrow> r = [] \<or> hd r \<in> stop_chars"

text \<open>\<open>legal\<close> is the side condition on the environment under which the code is
  unambiguous; \<open>ok\<close> picks the items for which it is known to be, so that the laws can be
  used for the items of a list while they are being proved for the list itself.\<close>

locale item_code =
  fixes enc :: "'a \<Rightarrow> string" and legal :: bool and ok :: "'a \<Rightarrow> bool"
  assumes enc_starts: "legal \<Longrightarrow> enc x \<noteq> [] \<and> hd (enc x) \<notin> stop_chars"
    and enc_delimited: "legal \<Longrightarrow> ok x \<Longrightarrow> enc x @ r = enc y @ r' \<Longrightarrow> stops r \<Longrightarrow> stops r'
      \<Longrightarrow> x = y \<and> r = r'"
begin

lemma join_starts: "legal \<Longrightarrow> xs \<noteq> [] \<Longrightarrow> join sep (map enc xs) \<noteq> [] \<and> hd (join sep (map enc xs)) \<notin> stop_chars"
  using enc_starts by (cases xs rule: remdups_adj.cases) auto

lemma join_delimited:
  assumes legal: legal and "\<forall>x \<in> set xs. ok x" and "c \<in> {CHR '']'', CHR ''}''}"
    and "join (CHR '','' # s) (map enc xs) @ c # r = join (CHR '','' # s) (map enc ys) @ c # r'"
  shows "xs = ys \<and> r = r'"
  using assms(2-)
proof (induction xs arbitrary: ys)
  case Nil
  show ?case
  proof (cases "ys = []")
    case False
    then have "hd (join (CHR '','' # s) (map enc ys) @ c # r') \<noteq> c"
      using join_starts [OF legal False, of "CHR '','' # s"] Nil.prems(2) by (auto simp: stop_chars_def)
    with Nil.prems(3) show ?thesis by (metis append_Nil join.simps(1) list.sel(1) list.simps(8))
  qed (use Nil in simp)
next
  case (Cons x xs)
  show ?case
  proof (cases ys)
    case Nil
    have "hd (join (CHR '','' # s) (map enc (x # xs)) @ c # r) \<noteq> c"
      using join_starts [OF legal, of "x # xs" "CHR '','' # s"] Cons.prems(2) by (auto simp: stop_chars_def)
    with Cons.prems(3) Nil show ?thesis by (metis append_Nil join.simps(1) list.sel(1) list.simps(8))
  next
    case (Cons y ys')
    let ?tail = "\<lambda>zs r. (if zs = [] then c # r else CHR '','' # s @ join (CHR '','' # s) (map enc zs) @ c # r)"
    have split: "join (CHR '','' # s) (map enc (z # zs)) @ c # q = enc z @ ?tail zs q" for z zs q
      by (cases zs) auto
    have "stops (?tail zs q)" for zs q
      using Cons.prems(2) by (auto simp: stops_def stop_chars_def)
    with enc_delimited [OF legal, of x "?tail xs r" y "?tail ys' r'"] Cons.prems Cons split
    have eq: "x = y" and tl: "?tail xs r = ?tail ys' r'" by auto
    have ne: "c \<noteq> CHR '',''" using Cons.prems(2) by auto
    show ?thesis
    proof (cases "xs = [] \<or> ys' = []")
      case True
      with tl ne Cons eq show ?thesis by (auto split: if_splits)
    next
      case False
      with tl have "join (CHR '','' # s) (map enc xs) @ c # r = join (CHR '','' # s) (map enc ys') @ c # r'"
        by simp
      with Cons.IH [of ys'] Cons.prems(1,2) Cons eq show ?thesis by simp
    qed
  qed
qed

end


section \<open>Characters and numbers\<close>

lemma hex_val_digit: "d < 16 \<Longrightarrow> hex_val (hex_digit d) = d"
  by (simp add: hex_val_def hex_digit_def)

text \<open>A reader of one escaped character: it undoes \<open>esc_char\<close> whatever follows.\<close>

fun unesc :: "string \<Rightarrow> (char \<times> string) option" where
  "unesc [] = None"
| "unesc (c # cs) =
     (if c \<noteq> CHR 0x5C then Some (c, cs)
      else (case cs of
          [] \<Rightarrow> None
        | k # ks \<Rightarrow>
            (if k = CHR ''n'' then Some (CHR 0x0A, ks)
             else if k = CHR ''r'' then Some (CHR 0x0D, ks)
             else if k = CHR ''t'' then Some (CHR 0x09, ks)
             else if k = CHR ''f'' then Some (CHR 0x0C, ks)
             else if k = CHR ''b'' then Some (CHR 0x08, ks)
             else if k = CHR ''u'' then
               (case ks of _ # _ # h # l # rest \<Rightarrow> Some (char_of (16 * hex_val h + hex_val l), rest)
                | _ \<Rightarrow> None)
             else Some (k, ks))))"

lemma unesc_unicode: "unesc (esc_unicode c @ r) = Some (c, r)"
proof -
  have lt: "(of_char c :: nat) < 256" by simp
  then have "(of_char c :: nat) div 16 < 16" by (simp add: less_mult_imp_div_less)
  then have "16 * hex_val (hex_digit ((of_char c :: nat) div 16)) + hex_val (hex_digit (of_char c mod 16))
      = (of_char c :: nat)"
    by (simp add: hex_val_digit)
  then show ?thesis by (simp add: esc_unicode_def Let_def)
qed

lemma unesc_esc: "unesc (esc_char ea c @ r) = Some (c, r)"
  using unesc_unicode [of c r] by (simp add: esc_char_def)

lemma esc_char_head: "esc_char ea c \<noteq> [] \<and> hd (esc_char ea c) \<noteq> CHR 0x22"
  by (auto simp: esc_char_def esc_unicode_def Let_def)

lemma esc_concat_delimited:
  "concat (map (esc_char ea) s) @ CHR 0x22 # r = concat (map (esc_char ea) t) @ CHR 0x22 # r'
   \<Longrightarrow> s = t \<and> r = r'"
proof (induction s arbitrary: t)
  case Nil
  show ?case
  proof (cases t)
    case (Cons d t')
    have "hd (concat (map (esc_char ea) t) @ CHR 0x22 # r') \<noteq> CHR 0x22"
      using Cons esc_char_head [of ea d] by simp
    moreover have "hd (concat (map (esc_char ea) []) @ CHR 0x22 # r) = CHR 0x22" by simp
    ultimately show ?thesis using Nil by metis
  qed (use Nil in simp)
next
  case (Cons c s)
  show ?case
  proof (cases t)
    case Nil
    with Cons.prems esc_char_head [of ea c] show ?thesis by (auto simp: append_eq_Cons_conv)
  next
    case (Cons d t')
    from Cons.prems Cons
    have "esc_char ea c @ concat (map (esc_char ea) s) @ CHR 0x22 # r
        = esc_char ea d @ concat (map (esc_char ea) t') @ CHR 0x22 # r'" by simp
    then have "Some (c, concat (map (esc_char ea) s) @ CHR 0x22 # r)
        = Some (d, concat (map (esc_char ea) t') @ CHR 0x22 # r')"
      by (metis unesc_esc)
    with Cons.IH [of t'] Cons show ?thesis by simp
  qed
qed

lemma quote_json_delimited: "quote_json ea s @ r = quote_json ea t @ r' \<Longrightarrow> s = t \<and> r = r'"
  unfolding quote_json_def by (rule esc_concat_delimited [of ea]) simp

definition nat_val :: "string \<Rightarrow> nat" where
  "nat_val s = foldl (\<lambda>a c. 10 * a + (of_char c - 48)) 0 s"

lemma of_digit_char: "d < 10 \<Longrightarrow> (of_char (digit_char d) :: nat) = 48 + d"
  by (simp add: digit_char_def)

lemma nat_val_nat_str [simp]: "nat_val (nat_str n) = n"
proof (induction n rule: nat_str.induct)
  case (1 n)
  show ?case
  proof (cases "n < 10")
    case True
    then show ?thesis by (simp add: nat_str.simps [of n] nat_val_def of_digit_char)
  next
    case False
    with 1 have "nat_val (nat_str (n div 10)) = n div 10" by simp
    with False show ?thesis
      by (simp add: nat_str.simps [of n] of_digit_char) (simp add: nat_val_def of_digit_char)
  qed
qed

definition digits :: "char set" where
  "digits = digit_char ` {..<10}"

lemma set_nat_str: "nat_str n \<noteq> [] \<and> set (nat_str n) \<subseteq> digits"
proof (induction n rule: nat_str.induct)
  case (1 n)
  then show ?case by (auto simp: nat_str.simps [of n] digits_def)
qed

lemma digits_code: "c \<in> digits \<longleftrightarrow> (48 \<le> (of_char c :: nat) \<and> (of_char c :: nat) \<le> 57)"
proof
  assume "48 \<le> (of_char c :: nat) \<and> (of_char c :: nat) \<le> 57"
  then have "digit_char (of_char c - 48) = c" and "(of_char c :: nat) - 48 < 10"
    by (auto simp: digit_char_def)
  then show "c \<in> digits" by (auto simp: digits_def intro: rev_image_eqI)
qed (auto simp: digits_def of_digit_char)

definition num_chars :: "char set" where
  "num_chars = digits \<union> {CHR ''-'', CHR ''+'', CHR ''.'', CHR ''e''}"

lemma int_str_inj: "int_str i = int_str j \<Longrightarrow> i = j"
proof -
  assume a: "int_str i = int_str j"
  have m: "CHR ''-'' \<notin> set (nat_str n)" for n
    using set_nat_str [of n] by (auto simp: digits_code)
  have inj: "nat_str a = nat_str b \<Longrightarrow> a = b" for a b by (metis nat_val_nat_str)
  have hd: "nat_str n \<noteq> CHR ''-'' # w" for n w using m [of n] by auto
  show ?thesis using a hd [of "nat i"] hd [of "nat j"]
    by (auto simp: int_str_def dest: inj split: if_splits) (metis hd)+
qed

lemma int_str_chars: "int_str i \<noteq> [] \<and> set (int_str i) \<subseteq> digits \<union> {CHR ''-''}"
  using set_nat_str by (auto simp: int_str_def)

text \<open>What \<open>float.__repr__\<close> promises for finite values: the text is made of digits, a sign,
  a point and an exponent mark; it is never an integer literal; distinct values have
  distinct texts.\<close>

definition float_repr_ok :: "(rat \<Rightarrow> string) \<Rightarrow> bool" where
  "float_repr_ok fr \<longleftrightarrow> inj fr
     \<and> (\<forall>x. fr x \<noteq> [] \<and> set (fr x) \<subseteq> num_chars \<and> \<not> set (fr x) \<subseteq> digits \<union> {CHR ''-''})"

lemma stop_not_num: "c \<in> stop_chars \<Longrightarrow> c \<notin> num_chars"
  by (auto simp: stop_chars_def num_chars_def digits_code)

lemma num_delimited:
  assumes "set s \<subseteq> num_chars" and "set t \<subseteq> num_chars" and "s @ r = t @ r'" and "stops r" and "stops r'"
  shows "s = t \<and> r = r'"
proof -
  have tw: "takeWhile (\<lambda>c. c \<in> num_chars) (u @ q) = u" if "set u \<subseteq> num_chars" and "stops q" for u q
  proof -
    from that(2) have "takeWhile (\<lambda>c. c \<in> num_chars) q = []"
      by (cases q) (auto simp: stops_def dest: stop_not_num)
    with that(1) show ?thesis by (subst takeWhile_append2) auto
  qed
  from tw [OF assms(1,4)] tw [OF assms(2,5)] assms(3) have "s = t" by simp
  with assms(3) show ?thesis by simp
qed


section \<open>The serializer is unambiguous\<close>

lemma dumps_raw_starts:
  assumes "float_repr_ok fr"
  shows "dumps_raw fr ea isep ksep v \<noteq> [] \<and> hd (dumps_raw fr ea isep ksep v) \<notin> stop_chars"
proof (cases v)
  case (JInt i)
  with int_str_chars [of i] show ?thesis
    by (cases "int_str i") (auto simp: stop_chars_def digits_code)
next
  case (JFloat x)
  from assms have "fr x \<noteq> [] \<and> set (fr x) \<subseteq> num_chars" by (auto simp: float_repr_ok_def)
  with JFloat stop_not_num show ?thesis by (cases "fr x") auto
qed (auto simp: stop_chars_def quote_json_def)

text \<open>A value's text starts with a character that tells its constructor, up to the two kinds
  of number.\<close>

fun kind :: "json \<Rightarrow> nat" where
  "kind JNull = 0"
| "kind (JBool b) = (if b then 1 else 2)"
| "kind (JInt i) = 3"
| "kind (JFloat x) = 3"
| "kind (JStr s) = 4"
| "kind (JList vs) = 5"
| "kind (JObj kvs) = 6"

definition kind_of_char :: "char \<Rightarrow> nat" where
  "kind_of_char c = (if c = CHR ''n'' then 0 else if c = CHR ''t'' then 1 else if c = CHR ''f'' then 2
     else if c = CHR 0x22 then 4 else if c = CHR ''['' then 5 else if c = CHR ''{'' then 6 else 3)"

lemma kind_of_num_char: "c \<in> num_chars \<Longrightarrow> kind_of_char c = 3"
  by (auto simp: num_chars_def kind_of_char_def digits_code)

lemma kind_of_dumps:
  assumes "float_repr_ok fr"
  shows "kind_of_char (hd (dumps_raw fr ea isep ksep v)) = kind v"
proof (cases v)
  case (JInt i)
  with int_str_chars [of i] show ?thesis
    by (cases "int_str i") (auto simp: num_chars_def intro!: kind_of_num_char)
next
  case (JFloat x)
  from assms have "fr x \<noteq> [] \<and> set (fr x) \<subseteq> num_chars" by (auto simp: float_repr_ok_def)
  with JFloat show ?thesis by (cases "fr x") (auto intro!: kind_of_num_char)
qed (auto simp: kind_of_char_def quote_json_def)

lemma dumps_num_delimited:
  assumes fr: "float_repr_ok fr" and kinds: "kind v = 3" "kind w = 3"
    and eq: "dumps_raw fr ea isep ksep v @ r = dumps_raw fr ea isep ksep w @ r'"
    and st: "stops r" "stops r'"
  shows "v = w \<and> r = r'"
proof -
  have num: "set (dumps_raw fr ea isep ksep z) \<subseteq> num_chars" if "kind z = 3" for z
    using that fr int_str_chars by (cases z) (auto simp: float_repr_ok_def num_chars_def split: if_splits)
  have both: "dumps_raw fr ea isep ksep v = dumps_raw fr ea isep ksep w \<and> r = r'"
    using num_delimited [OF num [OF kinds(1)] num [OF kinds(2)] eq st] .
  have mixed: "int_str i \<noteq> fr x" for i x
    using int_str_chars [of i] fr by (metis float_repr_ok_def)
  have "v = w"
    using both kinds fr mixed mixed [symmetric]
    by (cases v; cases w) (auto simp: float_repr_ok_def inj_eq dest: int_str_inj split: if_splits)
  with both show ?thesis by simp
qed

lemma dumps_raw_delimited:
  assumes fr: "float_repr_ok fr"
  shows "dumps_raw fr ea (CHR '','' # s) (CHR '':'' # k) v @ r
       = dumps_raw fr ea (CHR '','' # s) (CHR '':'' # k) w @ r'
    \<Longrightarrow> stops r \<Longrightarrow> stops r' \<Longrightarrow> v = w \<and> r = r'"
proof (induction v arbitrary: w r r')
  let ?d = "dumps_raw fr ea (CHR '','' # s) (CHR '':'' # k)"
  let ?p = "\<lambda>kv. quote_json ea (fst kv) @ (CHR '':'' # k) @ ?d (snd kv)"
  have kinds: "kind a = kind b" if "?d a @ q = ?d b @ q'" for a b q q'
  proof -
    have "hd (?d a @ q) = hd (?d b @ q')" using that by simp
    then have "hd (?d a) = hd (?d b)" using dumps_raw_starts [OF fr] by simp
    then show ?thesis using kind_of_dumps [OF fr] by metis
  qed
  {
    case JNull
    then show ?case using kinds [of JNull r w r'] by (cases w) (auto split: if_splits)
  next
    case (JBool b)
    then show ?case using kinds [of "JBool b" r w r'] by (cases w) (auto split: if_splits)
  next
    case (JInt i)
    then show ?case using kinds [of "JInt i" r w r'] dumps_num_delimited [OF fr, of "JInt i" w] by auto
  next
    case (JFloat x)
    then show ?case using kinds [of "JFloat x" r w r'] dumps_num_delimited [OF fr, of "JFloat x" w] by auto
  next
    case (JStr t)
    then show ?case using kinds [of "JStr t" r w r'] by (cases w) (auto dest: quote_json_delimited split: if_splits)
  next
    case (JList vs)
    from JList.prems(1) kinds [of "JList vs" r w r'] obtain ws where w: "w = JList ws"
      by (cases w) (auto split: if_splits)
    have code: "item_code ?d True (\<lambda>v. v \<in> set vs)"
      using dumps_raw_starts [OF fr] JList.IH by unfold_locales blast+
    from JList.prems(1) w
    have "join (CHR '','' # s) (map ?d vs) @ CHR '']'' # r = join (CHR '','' # s) (map ?d ws) @ CHR '']'' # r'"
      by simp
    from item_code.join_delimited [OF code _ _ _ this] w show ?case by simp
  next
    case (JObj kvs)
    from JObj.prems(1) kinds [of "JObj kvs" r w r'] obtain ws where w: "w = JObj ws"
      by (cases w) (auto split: if_splits)
    have IH: "v = u \<and> q = q'"
      if "v \<in> snd ` set kvs" "?d v @ q = ?d u @ q'" "stops q" "stops q'" for v u q q'
    proof -
      from \<open>v \<in> snd ` set kvs\<close> obtain kv where kv: "kv \<in> set kvs" "v = snd kv" by auto
      have "v \<in> Basic_BNFs.snds kv" unfolding kv(2) by (cases kv) simp
      from JObj.IH [OF kv(1) this, of q u q'] that show ?thesis by blast
    qed
    have code: "item_code ?p True (\<lambda>kv. kv \<in> set kvs)"
    proof
      show "?p x \<noteq> [] \<and> hd (?p x) \<notin> stop_chars" for x
        by (simp add: quote_json_def stop_chars_def)
      show "x = y \<and> q = q'"
        if m: "x \<in> set kvs" and e: "?p x @ q = ?p y @ q'" and st: "stops q" "stops q'" for x y q q'
      proof -
        from e have "quote_json ea (fst x) @ (CHR '':'' # k) @ ?d (snd x) @ q
            = quote_json ea (fst y) @ (CHR '':'' # k) @ ?d (snd y) @ q'" by simp
        from quote_json_delimited [OF this]
        have "fst x = fst y" and "?d (snd x) @ q = ?d (snd y) @ q'" by auto
        with IH [of "snd x" q "snd y" q', OF imageI [OF m]] st show ?thesis by (auto simp: prod_eq_iff)
      qed
    qed
    from JObj.prems(1) w
    have "join (CHR '','' # s) (map ?p kvs) @ CHR ''}'' # r = join (CHR '','' # s) (map ?p ws) @ CHR ''}'' # r'"
      by simp
    from item_code.join_delimited [OF code _ _ _ this] w show ?case by simp
  }
qed

interpretation json_text: item_code "dumps_raw fr ea (CHR '','' # s) (CHR '':'' # k)" "float_repr_ok fr" "\<lambda>_. True"
  by unfold_locales (use dumps_raw_starts dumps_raw_delimited in blast)+

text \<open>The exact signature identifies a row up to the order of object keys.\<close>

lemma dumps_compact_eq_iff:
  assumes "float_repr_ok (float_repr rt)"
  shows "dumps_compact rt v = dumps_compact rt w \<longleftrightarrow> canon v = canon w"
proof
  assume "dumps_compact rt v = dumps_compact rt w"
  then have "dumps_raw (float_repr rt) True '','' '':'' (canon v) @ []
      = dumps_raw (float_repr rt) True '','' '':'' (canon w) @ []"
    by (simp add: dumps_compact_def)
  from dumps_raw_delimited [OF assms this] show "canon v = canon w" by (simp add: stops_def)
qed (simp add: dumps_compact_def)


section \<open>No control characters\<close>

text \<open>Every character the serializer writes is printable: in particular a serialized value
  never contains a line terminator, so one value is one line.\<close>

definition printable :: "char \<Rightarrow> bool" where
  "printable c \<longleftrightarrow> (32 :: nat) \<le> of_char c"

lemma printable_hex: "d < 16 \<Longrightarrow> printable (hex_digit d)"
  by (simp add: printable_def hex_digit_def)

lemma printable_esc: "\<forall>x \<in> set (esc_char ea c). printable x"
proof -
  have "(of_char c :: nat) < 256" by simp
  then have "(of_char c :: nat) div 16 < 16" by (simp add: less_mult_imp_div_less)
  then have "\<forall>x \<in> set (esc_unicode c). printable x"
    by (simp add: esc_unicode_def Let_def printable_hex) (simp add: printable_def)
  then show ?thesis by (simp add: esc_char_def) (simp add: printable_def)
qed

lemma printable_quote: "\<forall>x \<in> set (quote_json ea s). printable x"
  using printable_esc by (auto simp: quote_json_def) (simp_all add: printable_def)

lemma printable_num: "c \<in> num_chars \<Longrightarrow> printable c"
  by (auto simp: num_chars_def digits_code printable_def)

lemma set_join: "set (join sep xs) \<subseteq> set sep \<union> \<Union> (set ` set xs)"
  by (induction sep xs rule: join.induct) auto

lemma printable_dumps:
  assumes "float_repr_ok fr" and "\<forall>x \<in> set isep. printable x" and "\<forall>x \<in> set ksep. printable x"
  shows "\<forall>x \<in> set (dumps_raw fr ea isep ksep v). printable x"
proof (induction v)
  case (JInt i)
  then show ?case using int_str_chars [of i] by (auto simp: num_chars_def intro!: printable_num)
next
  case (JFloat x)
  then show ?case using assms(1) by (auto simp: float_repr_ok_def intro!: printable_num)
next
  case (JStr s)
  then show ?case by (simp add: printable_quote)
next
  case (JList vs)
  have "\<forall>x \<in> set (join isep (map (dumps_raw fr ea isep ksep) vs)). printable x"
    using set_join [of isep "map (dumps_raw fr ea isep ksep) vs"] assms(2) JList.IH
    by (fastforce dest!: subsetD)
  then show ?case by (auto simp: printable_def)
next
  case (JObj kvs)
  let ?p = "\<lambda>kv. quote_json ea (fst kv) @ ksep @ dumps_raw fr ea isep ksep (snd kv)"
  have "\<forall>x \<in> set (?p kv). printable x" if "kv \<in> set kvs" for kv
  proof -
    have "snd kv \<in> Basic_BNFs.snds kv" by (cases kv) simp
    from JObj.IH [OF that this] printable_quote assms(3) show ?thesis by auto
  qed
  then have "\<forall>x \<in> set (join isep (map ?p kvs)). printable x"
    using set_join [of isep "map ?p kvs"] assms(2) by (fastforce dest!: subsetD)
  then show ?case by (auto simp: printable_def)
qed (auto simp: printable_def)

lemma utf8_ascii: "\<forall>c \<in> set s. (of_char c :: nat) < 128 \<Longrightarrow> utf8 s = s"
  by (induction s) (auto simp: utf8_def utf8_char_def Let_def)

lemma utf8_append [simp]: "utf8 (s @ t) = utf8 s @ utf8 t"
  by (simp add: utf8_def)

lemma utf8_Cons_ascii: "(of_char c :: nat) < 128 \<Longrightarrow> utf8 (c # s) = c # utf8 s"
  by (simp add: utf8_def utf8_char_def Let_def)

lemma printable_utf8: "\<forall>c \<in> set s. printable c \<Longrightarrow> \<forall>c \<in> set (utf8 s). printable c"
proof -
  have "printable x" if c: "printable c" "x \<in> set (utf8_char c)" for c x
  proof -
    have "(of_char c :: nat) < 256" by simp
    then have "(of_char c :: nat) div 64 < 4" by (simp add: less_mult_imp_div_less)
    moreover have "(of_char c :: nat) mod 64 < 64" by simp
    ultimately have "192 + (of_char c :: nat) div 64 < 256" and "128 + (of_char c :: nat) mod 64 < 256"
      by linarith+
    with c show ?thesis
      by (auto simp: utf8_char_def Let_def printable_def split: if_splits)
  qed
  then show "\<forall>c \<in> set s. printable c \<Longrightarrow> \<forall>c \<in> set (utf8 s). printable c"
    by (auto simp: utf8_def)
qed

end
