(* ===== verification/Row_Text.thy ===== *)
theory Row_Text
  imports Json_Text
begin

text \<open>
  The two signatures every duplicate check of the program uses: the exact one
  (\<open>exporters/cleaning.py\<close>, shared with quality, leakage and versioning) and the
  normalised one (\<open>quality/text.py\<close> and \<open>quality/basic_quality.py\<close>), which compares
  the lower-cased tokens of every field.
\<close>

text \<open>\<open>\w\<close> of a Unicode pattern, for code points below 256.\<close>

definition is_word :: "char \<Rightarrow> bool" where
  "is_word c \<longleftrightarrow> (let n = (of_char c :: nat) in
     (48 \<le> n \<and> n \<le> 57) \<or> (65 \<le> n \<and> n \<le> 90) \<or> n = 95 \<or> (97 \<le> n \<and> n \<le> 122)
     \<or> n \<in> {170, 178, 179, 181, 185, 186, 188, 189, 190}
     \<or> (192 \<le> n \<and> n \<noteq> 215 \<and> n \<noteq> 247))"

text \<open>\<open>str(value)\<close> of a scalar.\<close>

fun scalar_str :: "runtime \<Rightarrow> json \<Rightarrow> string" where
  "scalar_str rt (JStr s) = s"
| "scalar_str rt (JBool b) = (if b then ''True'' else ''False'')"
| "scalar_str rt (JInt i) = int_str i"
| "scalar_str rt (JFloat x) = float_repr rt x"
| "scalar_str rt _ = ''None''"

fun collect_text_values :: "runtime \<Rightarrow> json \<Rightarrow> string list" where
  "collect_text_values rt (JStr s) = [s]"
| "collect_text_values rt (JObj kvs) = concat (map (\<lambda>kv. collect_text_values rt (snd kv)) kvs)"
| "collect_text_values rt (JList vs) = concat (map (collect_text_values rt) vs)"
| "collect_text_values rt JNull = []"
| "collect_text_values rt v = [scalar_str rt v]"

text \<open>The character ranges of the pattern's first alternative (CJK, kana, Hangul) lie above
  U+00FF, so on this text the pattern matches maximal runs of word characters.\<close>

definition tokenize_text_values :: "runtime \<Rightarrow> json \<Rightarrow> string list" where
  "tokenize_text_values rt v = runs is_word (lower (nfkc rt (join '' '' (collect_text_values rt v))))"

definition field_sep :: string where
  "field_sep = [CHR 0x1F]"

definition field_signature :: "runtime \<Rightarrow> string \<times> json \<Rightarrow> string" where
  "field_signature rt kv = fst kv @ ''='' @ join '' '' (tokenize_text_values rt (snd kv))"

fun normalized_text_signature :: "runtime \<Rightarrow> json \<Rightarrow> string" where
  "normalized_text_signature rt (JObj kvs) = join field_sep (map (field_signature rt) (sort_key fst kvs))"
| "normalized_text_signature rt v = join '' '' (tokenize_text_values rt v)"

definition exact_signature :: "runtime \<Rightarrow> json \<Rightarrow> string" where
  "exact_signature rt v = dumps_compact rt v"

lemma exact_signature_canon [simp]: "exact_signature rt (canon v) = exact_signature rt v"
  by (simp add: exact_signature_def dumps_compact_def)

lemma exact_signature_eq_iff:
  "float_repr_ok (float_repr rt) \<Longrightarrow> exact_signature rt v = exact_signature rt w \<longleftrightarrow> canon v = canon w"
  by (simp add: exact_signature_def dumps_compact_eq_iff)

text \<open>A row is an object; its normalised signature does not depend on the order of its keys.\<close>

lemma normalized_text_signature_perm:
  assumes "distinct (map fst kvs)" and "mset kvs = mset kvs'"
  shows "normalized_text_signature rt (JObj kvs) = normalized_text_signature rt (JObj kvs')"
proof -
  have "inj_on fst (set kvs)" using assms(1) by (simp add: distinct_map)
  moreover have "mset kvs = mset (sort_key fst kvs')" using assms(2) by simp
  ultimately have "sort_key fst kvs = sort_key fst kvs'"
    by (intro sort_key_inj_key_eq) auto
  then show ?thesis by simp
qed

lemma normalized_text_signature_empty_iff:
  "normalized_text_signature rt (JObj kvs) = [] \<longleftrightarrow> kvs = []"
proof -
  have "join field_sep (map (field_signature rt) xs) \<noteq> []" if "xs \<noteq> []" for xs
    using that by (cases xs rule: remdups_adj.cases) (auto simp: field_signature_def)
  moreover have "kvs \<noteq> [] \<Longrightarrow> sort_key fst kvs \<noteq> []"
    by (metis length_0_conv length_sort)
  ultimately show ?thesis by auto
qed

end
