(* ===== verification/Row_Store.thy ===== *)
theory Row_Store
  imports Row_Text
begin

text \<open>
  The content-addressed row store of the dataset versions (\<open>versions/row_store.py\<close>):
  one JSON line per unique row, appended under the version-store lock, read line by line
  by readers that skip every line they cannot decode. The file is modelled as its bytes;
  a missing file is \<open>None\<close>.
\<close>

abbreviation nl :: char where "nl \<equiv> CHR 0x0A"

definition ROW_MANIFEST_ALGO :: string where
  "ROW_MANIFEST_ALGO = ''sha256-exact-v1''"

definition UTF8_BOM :: bytes where
  "UTF8_BOM = [CHR 0xEF, CHR 0xBB, CHR 0xBF]"

definition json_space :: "char \<Rightarrow> bool" where
  "json_space c \<longleftrightarrow> c \<in> {CHR '' '', CHR 0x09, CHR 0x0D, CHR 0x0A}"

abbreviation json_strip :: "bytes \<Rightarrow> bytes" where
  "json_strip \<equiv> strip_with json_space"

definition row_id :: "runtime \<Rightarrow> json \<Rightarrow> string" where
  "row_id rt row = sha256_hex rt (utf8 (exact_signature rt row))"

definition store_object :: "string \<Rightarrow> json \<Rightarrow> json" where
  "store_object rid row = JObj [(''row_id'', JStr rid), (''row'', row)]"

definition store_line :: "runtime \<Rightarrow> string \<Rightarrow> json \<Rightarrow> string" where
  "store_line rt rid row = dumps_sorted rt (store_object rid row) @ [nl]"


section \<open>Readers\<close>

text \<open>Iterating over a file opened in binary mode: every line with its terminator.\<close>

fun iter_lines :: "bytes \<Rightarrow> bytes list" where
  "iter_lines [] = []"
| "iter_lines (c # cs) =
     (if c = nl then [c] # iter_lines cs
      else (case iter_lines cs of [] \<Rightarrow> [[c]] | l # ls \<Rightarrow> (c # l) # ls))"

definition strip_bom :: "bytes \<Rightarrow> bytes" where
  "strip_bom s = (if has_prefix UTF8_BOM s then drop (length UTF8_BOM) s else s)"

text \<open>Decode one stripped line; only an object is an entry.\<close>

definition loads_object :: "runtime \<Rightarrow> bytes \<Rightarrow> (string, json) dict option" where
  "loads_object rt s = (case json_loads rt s of Some (JObj kvs) \<Rightarrow> Some kvs | _ \<Rightarrow> None)"

definition entry_of_line :: "runtime \<Rightarrow> bytes \<Rightarrow> (string, json) dict option" where
  "entry_of_line rt raw = (let s = json_strip raw in if s = [] then None else loads_object rt s)"

text \<open>A read fault after \<open>k\<close> lines ends the iteration there, as the readers' handler of
  \<open>OSError\<close> does.\<close>

definition iter_store_entries :: "runtime \<Rightarrow> nat option \<Rightarrow> bytes \<Rightarrow> (string, json) dict list" where
  "iter_store_entries rt fault content =
     (let raws = (case iter_lines content of [] \<Rightarrow> [] | l # ls \<Rightarrow> strip_bom l # ls);
          readable = (case fault of None \<Rightarrow> raws | Some k \<Rightarrow> take k raws)
      in List.map_filter (entry_of_line rt) readable)"

definition entry_id :: "(string, json) dict \<Rightarrow> string option" where
  "entry_id e = (case dget e ''row_id'' of Some (JStr s) \<Rightarrow> Some s | _ \<Rightarrow> None)"

definition entry_row :: "(string, json) dict \<Rightarrow> json" where
  "entry_row e = (case dget e ''row'' of Some r \<Rightarrow> r | None \<Rightarrow> JNull)"

definition load_row_id_set :: "runtime \<Rightarrow> nat option \<Rightarrow> bytes option \<Rightarrow> string set" where
  "load_row_id_set rt fault store = (case store of None \<Rightarrow> {}
     | Some content \<Rightarrow> set (List.map_filter entry_id (iter_store_entries rt fault content)))"

text \<open>The loop of \<open>load_rows_by_id\<close>, which stops once every id is found.\<close>

fun find_rows :: "string set \<Rightarrow> (string, json) dict \<Rightarrow> (string, json) dict list \<Rightarrow> (string, json) dict" where
  "find_rows ids found [] = found"
| "find_rows ids found (e # es) =
     (case entry_id e of
        Some rid \<Rightarrow>
          if rid \<in> ids \<and> dget found rid = None
          then (let found' = dset rid (entry_row e) found
                in if length found' = card ids then found' else find_rows ids found' es)
          else find_rows ids found es
      | None \<Rightarrow> find_rows ids found es)"

definition load_rows_by_id ::
  "runtime \<Rightarrow> nat option \<Rightarrow> bytes option \<Rightarrow> string set \<Rightarrow> (string, json) dict" where
  "load_rows_by_id rt fault store ids = (case store of None \<Rightarrow> []
     | Some content \<Rightarrow> if ids = {} then [] else find_rows ids [] (iter_store_entries rt fault content))"


section \<open>Writers\<close>

text \<open>\<open>terminate_torn_tail\<close>: the flag says whether a newline was added. \<open>writable\<close> is
  whether the store can be opened for writing; it is only opened when a repair is needed.\<close>

datatype os_error = OSError

definition terminate_torn_tail :: "bool \<Rightarrow> bytes option \<Rightarrow> os_error + (bool \<times> bytes option)" where
  "terminate_torn_tail writable store = (case store of
       None \<Rightarrow> Inr (False, None)
     | Some content \<Rightarrow>
         if content = [] \<or> last content = nl then Inr (False, Some content)
         else if writable then Inr (True, Some (content @ [nl]))
         else Inl OSError)"

definition append_bytes :: "bytes option \<Rightarrow> bytes \<Rightarrow> bytes option" where
  "append_bytes store b = Some ((case store of None \<Rightarrow> [] | Some c \<Rightarrow> c) @ b)"

text \<open>The loop of \<open>append_rows\<close>: \<open>opened\<close> is whether the handle exists (the first row
  that has to be written repairs a torn tail and opens the file).\<close>

record append_state =
  as_store :: "bytes option"
  as_ids :: "string set"
  as_opened :: bool
  as_written :: nat

definition append_row :: "runtime \<Rightarrow> string \<times> json \<Rightarrow> append_state \<Rightarrow> append_state" where
  "append_row rt rr st =
     (let (rid, row) = rr in
      if rid \<in> as_ids st then st
      else
        let base = (if as_opened st then as_store st
                    else (case as_store st of
                            None \<Rightarrow> Some []
                          | Some c \<Rightarrow> if c = [] \<or> last c = nl then Some c else Some (c @ [nl])))
        in \<lparr>as_store = append_bytes base (utf8 (store_line rt rid row)),
            as_ids = insert rid (as_ids st), as_opened = True, as_written = as_written st + 1\<rparr>)"

definition append_rows ::
  "runtime \<Rightarrow> bytes option \<Rightarrow> (string \<times> json) list \<Rightarrow> string set \<Rightarrow> nat \<times> bytes option \<times> string set" where
  "append_rows rt store rows existing =
     (let st = fold (append_row rt) rows
                 \<lparr>as_store = store, as_ids = existing, as_opened = False, as_written = 0\<rparr>
      in (as_written st, as_store st, as_ids st))"


section \<open>The lines of the store\<close>

text \<open>The non-blank lines as both the readers and the collector see them.\<close>

definition stripped_lines :: "bytes \<Rightarrow> bytes list" where
  "stripped_lines content = filter (\<lambda>l. l \<noteq> []) (map json_strip (split_on nl (strip_bom content)))"

lemma json_strip_nl: "json_strip (l @ [nl]) = json_strip l"
  by (rule strip_with_snoc) (simp add: json_space_def)

lemma iter_lines_eq:
  "iter_lines c = map (\<lambda>w. w @ [nl]) (butlast (split_on nl c))
     @ (if last (split_on nl c) = [] then [] else [last (split_on nl c)])"
proof (induction c)
  case (Cons a c)
  obtain w ws where w: "split_on nl c = w # ws" by (cases "split_on nl c") auto
  show ?case
  proof (cases ws)
    case Nil
    with Cons w show ?thesis by (cases "w = []") auto
  next
    case (Cons v vs)
    with Cons.IH w show ?thesis by auto
  qed
qed simp

lemma iter_lines_split:
  "filter (\<lambda>l. l \<noteq> []) (map json_strip (iter_lines c)) = filter (\<lambda>l. l \<noteq> []) (map json_strip (split_on nl c))"
proof -
  obtain B L where ws: "split_on nl c = B @ [L]"
    by (cases "split_on nl c" rule: rev_cases) auto
  then show ?thesis
    by (simp add: iter_lines_eq json_strip_nl comp_def)
qed

text \<open>A byte order mark holds no newline, so it belongs to the first line.\<close>

lemma iter_lines_append_free: "nl \<notin> set b \<Longrightarrow> b \<noteq> [] \<Longrightarrow>
    iter_lines (b @ c) = (case iter_lines c of [] \<Rightarrow> [b] | l # ls \<Rightarrow> (b @ l) # ls)"
proof (induction b)
  case (Cons x b)
  then show ?case by (cases "b = []") (auto split: list.splits)
qed simp

lemma iter_lines_hd: "iter_lines c = l # ls \<Longrightarrow> \<exists>r. c = l @ r"
proof (induction c arbitrary: l ls)
  case (Cons a c)
  then show ?case by (cases "iter_lines c") (auto split: if_splits)
qed simp

lemma iter_store_entries_lines:
  "iter_store_entries rt None content = List.map_filter (loads_object rt) (stripped_lines content)"
proof -
  have e: "List.map_filter (entry_of_line rt) ls
      = List.map_filter (loads_object rt) (filter (\<lambda>l. l \<noteq> []) (map json_strip ls))" for ls
    by (induction ls) (auto simp: entry_of_line_def Let_def map_filter_simps split: option.splits)
  have "filter (\<lambda>l. l \<noteq> []) (map json_strip (case iter_lines content of [] \<Rightarrow> [] | l # ls \<Rightarrow> strip_bom l # ls))
      = filter (\<lambda>l. l \<noteq> []) (map json_strip (iter_lines (strip_bom content)))"
  proof (cases "has_prefix UTF8_BOM content")
    case True
    then obtain r where r: "content = UTF8_BOM @ r" by (metis append_take_drop_id has_prefix_def)
    have "nl \<notin> set UTF8_BOM" and ne: "UTF8_BOM \<noteq> []" by (simp_all add: UTF8_BOM_def)
    from iter_lines_append_free [OF this, of r] r show ?thesis
      by (auto simp: strip_bom_def has_prefix_def split: list.splits)
  next
    case False
    have "strip_bom l = l" if "iter_lines content = l # ls" for l ls
    proof -
      from iter_lines_hd [OF that] obtain r where "content = l @ r" by blast
      with False have "\<not> has_prefix UTF8_BOM l"
        by (auto simp: has_prefix_def)
      then show ?thesis by (simp add: strip_bom_def)
    qed
    with False show ?thesis by (auto simp: strip_bom_def split: list.splits)
  qed
  then show ?thesis
    by (simp add: iter_store_entries_def Let_def e iter_lines_split stripped_lines_def)
qed


section \<open>How an append changes the lines\<close>

definition text_lines :: "bytes \<Rightarrow> bytes list" where
  "text_lines s = filter (\<lambda>l. l \<noteq> []) (map json_strip (split_on nl s))"

definition complete :: "bytes \<Rightarrow> bool" where
  "complete c \<longleftrightarrow> c = [] \<or> last c = nl"

text \<open>A line that is written as it is read back: no newline inside, nothing to strip, and no
  byte order mark.\<close>

definition clean_line :: "bytes \<Rightarrow> bool" where
  "clean_line b \<longleftrightarrow> b \<noteq> [] \<and> nl \<notin> set b \<and> json_strip b = b \<and> hd b \<noteq> CHR 0xEF"

lemma stripped_lines_text: "stripped_lines c = text_lines (strip_bom c)"
  by (simp add: stripped_lines_def text_lines_def)

lemma text_lines_Nil [simp]: "text_lines [] = []"
  by (simp add: text_lines_def)

lemma text_lines_nl: "text_lines (s @ nl # t) = text_lines s @ text_lines t"
  by (simp add: text_lines_def split_on_append_sep)

lemma text_lines_line: "nl \<notin> set b \<Longrightarrow> json_strip b = b \<Longrightarrow> b \<noteq> [] \<Longrightarrow> text_lines b = [b]"
  by (simp add: text_lines_def split_on_no_sep)

lemma text_lines_clean: "l \<in> set (text_lines s) \<Longrightarrow> l \<noteq> [] \<and> nl \<notin> set l \<and> json_strip l = l"
proof -
  assume "l \<in> set (text_lines s)"
  then obtain w where w: "w \<in> set (split_on nl s)" "l = json_strip w" "l \<noteq> []"
    by (auto simp: text_lines_def)
  have "set (json_strip w) \<subseteq> set w"
    by (auto simp: strip_with_def dest!: set_dropWhileD)
  with w split_on_sep_free [OF w(1)] show ?thesis by auto
qed

lemma text_lines_concat:
  assumes "\<forall>l \<in> set ls. l \<noteq> [] \<and> nl \<notin> set l \<and> json_strip l = l"
  shows "text_lines (concat (map (\<lambda>l. l @ [nl]) ls)) = ls"
  using assms
proof (induction ls)
  case (Cons l ls)
  then show ?case by (simp add: text_lines_nl text_lines_line)
qed simp

lemma strip_bom_id: "\<not> has_prefix UTF8_BOM s \<Longrightarrow> strip_bom s = s"
  by (simp add: strip_bom_def)

lemma strip_bom_hd: "s = [] \<or> hd s \<noteq> CHR 0xEF \<Longrightarrow> strip_bom s = s"
  by (cases s) (auto simp: strip_bom_def has_prefix_def UTF8_BOM_def)

lemma has_bom_append_nl: "has_prefix UTF8_BOM (s @ nl # t) = has_prefix UTF8_BOM s"
proof -
  have "has_prefix UTF8_BOM (s @ nl # t) \<longleftrightarrow> has_prefix UTF8_BOM s" if "s = a # b # c # d" for a b c d
    using that by (simp add: has_prefix_def UTF8_BOM_def)
  moreover have "\<exists>a b c d. s = a # b # c # d" if "\<not> length s < 3"
    using that by (cases s; cases "tl s"; cases "tl (tl s)") auto
  moreover have "\<not> has_prefix UTF8_BOM (s @ nl # t)" "\<not> has_prefix UTF8_BOM s" if "length s < 3"
    using that by (cases s; cases "tl s"; auto simp: has_prefix_def UTF8_BOM_def)+
  ultimately show ?thesis by blast
qed

lemma strip_bom_append_nl: "strip_bom (s @ nl # t) = strip_bom s @ nl # t"
proof (cases "has_prefix UTF8_BOM s")
  case True
  then have "take 3 s = UTF8_BOM" by (simp add: has_prefix_def UTF8_BOM_def numeral_3_eq_3)
  then have "length (take 3 s) = 3" by (simp add: UTF8_BOM_def)
  then have "3 \<le> length s" by simp
  with True has_bom_append_nl [of s t] show ?thesis
    by (simp add: strip_bom_def) (simp add: UTF8_BOM_def)
next
  case False
  then show ?thesis by (simp add: strip_bom_def has_bom_append_nl)
qed

text \<open>Terminating a torn last line changes no line.\<close>

lemma stripped_lines_terminate [simp]: "stripped_lines (c @ [nl]) = stripped_lines c"
  using text_lines_nl [of "strip_bom c" "[]"] by (simp add: stripped_lines_text strip_bom_append_nl)

text \<open>Appending one clean line to a complete file adds exactly that line.\<close>

lemma stripped_lines_append:
  assumes "complete c" and "clean_line b"
  shows "stripped_lines (c @ b @ [nl]) = stripped_lines c @ [b]"
proof (cases "c = []")
  case True
  have "strip_bom (b @ [nl]) = b @ [nl]"
    using assms(2) by (intro strip_bom_hd) (simp add: clean_line_def)
  with True assms(2) show ?thesis
    using text_lines_nl [of b "[]"]
    by (simp add: stripped_lines_text clean_line_def text_lines_line strip_bom_def)
next
  case False
  with assms(1) obtain c' where c: "c = c' @ [nl]"
    by (cases c rule: rev_cases) (auto simp: complete_def)
  have "text_lines (b @ [nl]) = [b]"
    using text_lines_nl [of b "[]"] assms(2) by (simp add: clean_line_def text_lines_line)
  then show ?thesis
    using text_lines_nl [of "strip_bom c'" "b @ [nl]"] text_lines_nl [of "strip_bom c'" "[]"]
    by (simp add: stripped_lines_text c strip_bom_append_nl)
qed

text \<open>A file written as clean lines reads back as those lines, provided the first one does not
  begin with a byte order mark.\<close>

lemma stripped_lines_rewrite:
  assumes "\<forall>l \<in> set ls. l \<noteq> [] \<and> nl \<notin> set l \<and> json_strip l = l"
    and "ls \<noteq> [] \<Longrightarrow> \<not> has_prefix UTF8_BOM (hd ls)"
  shows "stripped_lines (concat (map (\<lambda>l. l @ [nl]) ls)) = ls"
proof -
  have "\<not> has_prefix UTF8_BOM (concat (map (\<lambda>l. l @ [nl]) ls))"
  proof (cases ls)
    case Nil
    then show ?thesis by (simp add: has_prefix_def UTF8_BOM_def)
  next
    case (Cons l ls')
    with assms(2) show ?thesis by (simp add: has_bom_append_nl)
  qed
  then show ?thesis
    by (simp add: stripped_lines_text strip_bom_id text_lines_concat [OF assms(1)])
qed


section \<open>The line written for a row\<close>

definition store_bytes :: "runtime \<Rightarrow> string \<Rightarrow> json \<Rightarrow> bytes" where
  "store_bytes rt rid row = utf8 (dumps_sorted rt (store_object rid row))"

lemma store_line_bytes: "utf8 (store_line rt rid row) = store_bytes rt rid row @ [nl]"
  by (simp add: store_line_def store_bytes_def utf8_ascii)

lemma store_line_clean:
  assumes "float_repr_ok (float_repr rt)"
  shows "clean_line (store_bytes rt rid row)"
proof -
  let ?d = "dumps_sorted rt (store_object rid row)"
  have pr: "\<forall>x \<in> set (store_bytes rt rid row). printable x"
    unfolding store_bytes_def dumps_sorted_def
    by (intro printable_utf8 printable_dumps assms) (simp_all add: printable_def)
  obtain body where body: "?d = CHR ''{'' # body @ [CHR ''}'']"
    by (simp add: dumps_sorted_def store_object_def)
  have u: "utf8 ?d = CHR ''{'' # utf8 body @ [CHR ''}'']"
    by (simp add: body utf8_Cons_ascii utf8_ascii)
  have "json_strip (utf8 ?d) = utf8 ?d"
    by (rule strip_with_id) (simp_all add: u json_space_def)
  moreover have "nl \<notin> set (store_bytes rt rid row)"
    using pr by (auto simp: printable_def)
  ultimately show ?thesis by (simp add: clean_line_def store_bytes_def u)
qed


section \<open>The store as a map from ids to rows\<close>

text \<open>The abstract view of a store: the pairs of its entries in file order, of which the first
  one with an id wins.\<close>

definition entry_pair :: "(string, json) dict \<Rightarrow> (string \<times> json) option" where
  "entry_pair e = map_option (\<lambda>rid. (rid, entry_row e)) (entry_id e)"

definition line_pair :: "runtime \<Rightarrow> bytes \<Rightarrow> (string \<times> json) option" where
  "line_pair rt l = Option.bind (loads_object rt l) entry_pair"

definition store_pairs :: "runtime \<Rightarrow> bytes \<Rightarrow> (string \<times> json) list" where
  "store_pairs rt content = List.map_filter (line_pair rt) (stripped_lines content)"

definition store_get :: "runtime \<Rightarrow> bytes option \<Rightarrow> string \<Rightarrow> json option" where
  "store_get rt store rid =
     (case store of None \<Rightarrow> None | Some content \<Rightarrow> map_of (store_pairs rt content) rid)"

lemma map_filter_bind:
  "List.map_filter (\<lambda>x. Option.bind (f x) g) xs = List.map_filter g (List.map_filter f xs)"
  by (induction xs) (auto simp: map_filter_simps split: option.splits)

lemma store_pairs_entries:
  "store_pairs rt content = List.map_filter entry_pair (iter_store_entries rt None content)"
  unfolding store_pairs_def iter_store_entries_lines map_filter_bind [symmetric]
  by (simp add: line_pair_def [abs_def])

lemma map_filter_snoc: "List.map_filter f (xs @ [x]) = List.map_filter f xs @ (case f x of None \<Rightarrow> [] | Some y \<Rightarrow> [y])"
  by (induction xs) (auto simp: map_filter_simps split: option.splits)

lemma find_rows_get:
  assumes "finite ids" and "set (dkeys found) \<subseteq> ids" and "distinct (dkeys found)"
    and "length found < card ids"
  shows "dget (find_rows ids found es) k =
     (case dget found k of Some v \<Rightarrow> Some v
      | None \<Rightarrow> if k \<in> ids then map_of (List.map_filter entry_pair es) k else None)"
  using assms
proof (induction ids found es rule: find_rows.induct)
  case (1 ids found)
  then show ?case by (auto split: option.splits)
next
  case (2 ids found e es)
  show ?case
  proof (cases "entry_id e")
    case None
    with 2 show ?thesis by (auto simp: map_filter_simps entry_pair_def split: option.splits)
  next
    case (Some rid)
    show ?thesis
    proof (cases "rid \<in> ids \<and> dget found rid = None")
      case True
      let ?f = "dset rid (entry_row e) found"
      have ks: "dkeys ?f = dkeys found @ [rid]"
        using True by (simp add: update_keys map_of_eq_None_iff)
      have sub: "set (dkeys ?f) \<subseteq> ids" and dis: "distinct (dkeys ?f)"
        unfolding ks using 2(5-6) True by (auto simp: map_of_eq_None_iff)
      have len: "length ?f = Suc (length found)" using arg_cong [OF ks, of length] by simp
      show ?thesis
      proof (cases "length ?f = card ids")
        case full: True
        have "card (set (dkeys ?f)) = card ids"
          using full distinct_card [OF dis] by simp
        with 2(4) sub have "set (dkeys ?f) = ids" by (simp add: card_subset_eq)
        then have "dget ?f k \<noteq> None" if "k \<in> ids"
          using that by (simp only: map_of_eq_None_iff set_map [symmetric]) simp
        then have outside: "dget found k = None \<Longrightarrow> k \<noteq> rid \<Longrightarrow> k \<notin> ids"
          by (auto simp only: dget_dset if_False)
        have e1: "find_rows ids found (e # es) = ?f" using True Some full by (simp add: Let_def)
        have e2: "List.map_filter entry_pair (e # es) = (rid, entry_row e) # List.map_filter entry_pair es"
          using Some by (simp add: map_filter_simps entry_pair_def)
        from True have new: "rid \<in> ids" "dget found rid = None" by auto
        show ?thesis
        proof (cases "k = rid")
          case True
          then show ?thesis unfolding e1 e2 dget_dset using new by simp
        next
          case False
          then show ?thesis unfolding e1 dget_dset using outside by (cases "dget found k") simp_all
        qed
      next
        case False
        with 2(7) len have "length ?f < card ids" by simp
        with 2(2) [OF Some True refl False 2(4) sub dis] True Some False show ?thesis
          by (auto simp: Let_def dget_dset map_filter_simps entry_pair_def split: option.splits)
      qed
    next
      case False
      with 2(3) [OF Some False 2(4-7)] Some show ?thesis
        by (auto simp: map_filter_simps entry_pair_def split: option.splits)
    qed
  qed
qed

text \<open>The reader of the store agrees with the abstract view on every id it is asked for.\<close>

lemma load_rows_by_id_get:
  assumes "finite ids"
  shows "dget (load_rows_by_id rt None store ids) rid =
     (if rid \<in> ids then store_get rt store rid else None)"
proof (cases store)
  case (Some content)
  show ?thesis
  proof (cases "ids = {}")
    case False
    with assms have "length ([] :: (string, json) dict) < card ids" by (simp add: card_gt_0_iff)
    from find_rows_get [OF assms _ _ this, of "iter_store_entries rt None content" rid] False Some
    show ?thesis by (simp add: load_rows_by_id_def store_get_def store_pairs_entries)
  qed (simp add: load_rows_by_id_def Some)
qed (simp add: load_rows_by_id_def store_get_def)

lemma load_row_id_set_get: "load_row_id_set rt None store = {rid. store_get rt store rid \<noteq> None}"
proof (cases store)
  case (Some content)
  have "set (List.map_filter entry_id es) = fst ` set (List.map_filter entry_pair es)" for es
    by (induction es) (auto simp: map_filter_simps entry_pair_def split: option.splits)
  then show ?thesis
    by (simp add: Some load_row_id_set_def store_get_def store_pairs_entries map_of_eq_None_iff)
qed (simp add: load_row_id_set_def store_get_def)

text \<open>Requested rows depend only on the entries with a requested id.\<close>

lemma find_rows_filter:
  assumes "\<forall>e \<in> set es. \<not> P e \<longrightarrow> (\<forall>rid. entry_id e = Some rid \<longrightarrow> rid \<notin> ids)"
  shows "find_rows ids found (filter P es) = find_rows ids found es"
  using assms by (induction es arbitrary: found) (auto simp: Let_def split: option.splits)


section \<open>The interface of the store\<close>

text \<open>What a writer of rows relies on: a store is looked up by key, and putting a row under a
  key that is not there adds exactly that binding. The value that comes back is the row in the
  store's normal form.\<close>

locale content_store =
  fixes get :: "'s \<Rightarrow> 'k \<Rightarrow> 'v option"
    and put :: "'k \<times> 'r \<Rightarrow> 's \<Rightarrow> 's"
    and valid :: "'s \<Rightarrow> bool"
    and ok :: "'k \<times> 'r \<Rightarrow> bool"
    and norm :: "'r \<Rightarrow> 'v"
  assumes put_valid: "valid s \<Longrightarrow> ok kr \<Longrightarrow> valid (put kr s)"
    and put_get: "valid s \<Longrightarrow> ok kr \<Longrightarrow>
      get (put kr s) k = (case get s k of Some v \<Rightarrow> Some v
                          | None \<Rightarrow> if k = fst kr then Some (norm (snd kr)) else None)"
begin

lemma put_all_valid: "valid s \<Longrightarrow> \<forall>kr \<in> set krs. ok kr \<Longrightarrow> valid (fold put krs s)"
  by (induction krs arbitrary: s) (auto simp: put_valid)

lemma put_all_get:
  "valid s \<Longrightarrow> \<forall>kr \<in> set krs. ok kr \<Longrightarrow>
     get (fold put krs s) k = (case get s k of Some v \<Rightarrow> Some v
                               | None \<Rightarrow> map_option norm (map_of krs k))"
proof (induction krs arbitrary: s)
  case (Cons kr krs)
  then show ?case by (cases kr) (auto simp: put_valid put_get split: option.splits)
qed (simp split: option.splits)

lemma put_all_keeps: "valid s \<Longrightarrow> \<forall>kr \<in> set krs. ok kr \<Longrightarrow> get s k = Some v \<Longrightarrow>
    get (fold put krs s) k = Some v"
  by (simp add: put_all_get)

end

definition put_row :: "runtime \<Rightarrow> string \<times> json \<Rightarrow> bytes \<Rightarrow> bytes" where
  "put_row rt rr c = c @ utf8 (store_line rt (fst rr) (snd rr))"

text \<open>\<open>json.loads\<close> reads the line of this row back.\<close>

definition reads_back :: "runtime \<Rightarrow> string \<times> json \<Rightarrow> bool" where
  "reads_back rt rr \<longleftrightarrow>
     json_loads rt (store_bytes rt (fst rr) (snd rr)) = Some (canon (store_object (fst rr) (snd rr)))"

lemma canon_store_object:
  "canon (store_object rid row) = JObj [(''row'', canon row), (''row_id'', JStr rid)]"
  by (simp add: store_object_def sort_key_def)

lemma line_pair_row:
  "reads_back rt rr \<Longrightarrow> line_pair rt (store_bytes rt (fst rr) (snd rr)) = Some (fst rr, canon (snd rr))"
  unfolding reads_back_def canon_store_object
  by (simp add: line_pair_def loads_object_def entry_pair_def entry_id_def entry_row_def)

lemma store_pairs_put:
  assumes "complete c" and "float_repr_ok (float_repr rt)" and "reads_back rt rr"
  shows "store_pairs rt (put_row rt rr c) = store_pairs rt c @ [(fst rr, canon (snd rr))]"
  using stripped_lines_append [OF assms(1) store_line_clean [OF assms(2), of "fst rr" "snd rr"]]
  by (simp add: store_pairs_def put_row_def store_line_bytes map_filter_snoc line_pair_row [OF assms(3)])

interpretation store_file: content_store
  "\<lambda>c. map_of (store_pairs rt c)" "put_row rt"
  "\<lambda>c. complete c \<and> float_repr_ok (float_repr rt)" "reads_back rt" canon
proof
  fix c rr
  assume v: "complete c \<and> float_repr_ok (float_repr rt)" and r: "reads_back rt rr"
  from v show "complete (put_row rt rr c) \<and> float_repr_ok (float_repr rt)"
    by (simp add: put_row_def store_line_bytes complete_def)
  fix k
  from v r show "map_of (store_pairs rt (put_row rt rr c)) k =
      (case map_of (store_pairs rt c) k of Some v \<Rightarrow> Some v
       | None \<Rightarrow> if k = fst rr then Some (canon (snd rr)) else None)"
    by (simp add: store_pairs_put map_add_Some_iff [symmetric] split: option.splits)
       (auto simp: map_add_def)
qed

text \<open>The rows a writer actually appends: the first occurrence of every id it does not know.\<close>

fun fresh :: "string set \<Rightarrow> (string \<times> json) list \<Rightarrow> (string \<times> json) list" where
  "fresh seen [] = []"
| "fresh seen (rr # rest) =
     (if fst rr \<in> seen then fresh seen rest else rr # fresh (insert (fst rr) seen) rest)"

lemma map_of_fresh: "map_of (fresh seen rrs) k = (if k \<in> seen then None else map_of rrs k)"
  by (induction seen rrs rule: fresh.induct) auto

lemma fresh_subset: "set (fresh seen rrs) \<subseteq> set rrs"
  by (induction seen rrs rule: fresh.induct) auto

lemma fresh_snoc: "fresh seen (rrs @ [rr]) =
    fresh seen rrs @ (if fst rr \<in> seen \<union> fst ` set rrs then [] else [rr])"
  by (induction seen rrs rule: fresh.induct) auto

text \<open>A torn tail is terminated without changing what is stored.\<close>

lemma store_pairs_terminate [simp]: "store_pairs rt (c @ [nl]) = store_pairs rt c"
  by (simp add: store_pairs_def)

end
