(* ===== verification/Sample_Runtime.thy ===== *)
theory Sample_Runtime
  imports Row_Store
begin

text \<open>
  A concrete runtime for the witnesses: a float representation that meets the documented
  shape of \<open>float.__repr__\<close>, a small 64-digit checksum in place of SHA-256, and a reader
  that knows the lines of three sample rows.
\<close>

definition sample_repr :: "rat \<Rightarrow> string" where
  "sample_repr x = (case quotient_of x of (p, q) \<Rightarrow> int_str p @ CHR ''.'' # int_str q)"

lemma same_prefix: "c \<notin> set xs \<Longrightarrow> c \<notin> set xs' \<Longrightarrow> xs @ c # ys = xs' @ c # ys' \<Longrightarrow> xs = xs' \<and> ys = ys'"
proof (induction xs arbitrary: xs')
  case Nil
  then show ?case by (cases xs') auto
next
  case (Cons x xs)
  then show ?case by (cases xs') auto
qed

lemma sample_repr_ok: "float_repr_ok sample_repr"
proof -
  have dot: "CHR ''.'' \<notin> set (int_str p)" for p
    using int_str_chars [of p] by (auto simp: digits_code)
  have "inj sample_repr"
  proof (rule injI)
    fix x y assume eq: "sample_repr x = sample_repr y"
    obtain p q where x: "quotient_of x = (p, q)" by force
    obtain r s where y: "quotient_of y = (r, s)" by force
    from eq have "int_str p @ CHR ''.'' # int_str q = int_str r @ CHR ''.'' # int_str s"
      by (simp add: sample_repr_def x y)
    from same_prefix [OF dot dot this]
    have "int_str p = int_str r" "int_str q = int_str s" by blast+
    then have "quotient_of x = quotient_of y" by (simp add: x y int_str_inj)
    then show "x = y" by (rule quotient_of_inject)
  qed
  moreover have "sample_repr x \<noteq> [] \<and> set (sample_repr x) \<subseteq> num_chars
      \<and> \<not> set (sample_repr x) \<subseteq> digits \<union> {CHR ''-''}" for x
  proof -
    obtain p q where x: "quotient_of x = (p, q)" by force
    have "CHR ''.'' \<in> num_chars" by (simp add: num_chars_def)
    then show ?thesis
      using int_str_chars [of p] int_str_chars [of q]
      by (auto simp: sample_repr_def x num_chars_def digits_code)
  qed
  ultimately show ?thesis by (simp add: float_repr_ok_def)
qed

definition sample_hash :: "bytes \<Rightarrow> string" where
  "sample_hash s = replicate 63 (CHR ''0'') @ [hex_digit (length s mod 16)]"

definition row_a :: json where "row_a = JObj [(''text'', JStr ''alpha'')]"
definition row_b :: json where "row_b = JObj [(''text'', JStr ''beta''), (''n'', JInt 2)]"
definition row_c :: json where "row_c = JObj [(''text'', JStr ''gamma gamma'')]"

definition id_a :: string where "id_a = replicate 63 (CHR ''0'') @ ''0''"
definition id_b :: string where "id_b = replicate 63 (CHR ''0'') @ ''5''"
definition id_c :: string where "id_c = replicate 63 (CHR ''0'') @ ''6''"

text \<open>The store lines and the dataset lines of the three rows.\<close>

definition line_a :: string where
  \<open>line_a = ''{"row": {"text": "alpha"}, "row_id": "'' @ id_a @ ''"}''\<close>
definition line_b :: string where
  \<open>line_b = ''{"row": {"n": 2, "text": "beta"}, "row_id": "'' @ id_b @ ''"}''\<close>
definition line_c :: string where
  \<open>line_c = ''{"row": {"text": "gamma gamma"}, "row_id": "'' @ id_c @ ''"}''\<close>

definition sample_lines :: "(string \<times> json) list" where
  \<open>sample_lines =
    [(line_a, JObj [(''row'', row_a), (''row_id'', JStr id_a)]),
     (line_b, JObj [(''row'', canon row_b), (''row_id'', JStr id_b)]),
     (line_c, JObj [(''row'', row_c), (''row_id'', JStr id_c)]),
     (''{"text": "alpha"}'', row_a),
     (''{"text": "beta", "n": 2}'', row_b),
     (''{"text": "gamma gamma"}'', row_c)]\<close>

definition sample_rt :: runtime where
  "sample_rt = \<lparr>float_repr = sample_repr, nfkc = (\<lambda>s. s), sha256_hex = sample_hash,
     json_loads = (\<lambda>s. map_of sample_lines s),
     line_loads = (\<lambda>s. map_of sample_lines (strip s))\<rparr>"

lemma sample_float_ok: "float_repr_ok (float_repr sample_rt)"
  by (simp add: sample_rt_def sample_repr_ok)

lemma sample_row_ids:
  "row_id sample_rt row_a = id_a" "row_id sample_rt row_b = id_b" "row_id sample_rt row_c = id_c"
  by code_simp+

lemma sample_store_lines:
  "store_bytes sample_rt id_a row_a = line_a" "store_bytes sample_rt id_b row_b = line_b"
  "store_bytes sample_rt id_c row_c = line_c"
  by code_simp+

lemma sample_reads_back:
  "reads_back sample_rt (id_a, row_a)" "reads_back sample_rt (id_b, row_b)"
  "reads_back sample_rt (id_c, row_c)"
  by code_simp+

end
