(* ===== verification/Splitters.thy ===== *)
theory Splitters
  imports Py_Float Sample_Runtime "HOL-Library.Product_Lexorder"
begin

text \<open>
  \<open>splitters/random_splitter.py\<close> and \<open>splitters/leakage.py\<close>: partition the rows into
  train, validation and test, and report the groups of rows with one normalised signature
  that ended up in more than one of them.
\<close>

section \<open>Random split\<close>

text \<open>\<open>random.Random(seed).shuffle\<close> is a parameter: a permutation that depends on the seed.\<close>

record split_result =
  sr_train :: "json list"
  sr_validation :: "json list"
  sr_test :: "json list"

datatype split_error = Negative_ratio | Ratios_exceed_one

definition random_split ::
  "(int \<Rightarrow> json list \<Rightarrow> json list) \<Rightarrow> json list \<Rightarrow> rat \<Rightarrow> rat \<Rightarrow> int \<Rightarrow> split_error + split_result" where
  "random_split shuffle rows train_ratio validation_ratio seed =
     (if train_ratio < 0 \<or> validation_ratio < 0 then Inl Negative_ratio
      else if fadd 1 (fl (1 / 1000000000)) < fadd train_ratio validation_ratio then Inl Ratios_exceed_one
      else
        let rows_copy = shuffle seed rows;
            total = int (length rows_copy);
            train_end = trunc (int_times_float total train_ratio);
            count0 = trunc (int_times_float total validation_ratio);
            validation_count =
              (if 0 < validation_ratio \<and> count0 = 0 \<and> 1 \<le> train_end \<and> 1 \<le> total - train_end
               then 1 else count0);
            validation_end = train_end + validation_count
        in Inr \<lparr>sr_train = take (nat train_end) rows_copy,
                sr_validation = drop (nat train_end) (take (nat validation_end) rows_copy),
                sr_test = drop (nat validation_end) rows_copy\<rparr>)"

lemma trunc_nonneg: "0 \<le> x \<Longrightarrow> 0 \<le> trunc x"
  by (simp add: trunc_def)

lemma int_times_float_nonneg: "0 \<le> x \<Longrightarrow> 0 \<le> int_times_float (int n) x"
  by (simp add: int_times_float_def fmul_def fl_nonneg mult_nonneg_nonneg)

lemma slices_partition: "a \<le> b \<Longrightarrow> take a xs @ drop a (take b xs) @ drop b xs = xs"
  by (metis append.assoc append_take_drop_id min.absorb1 take_take)

text \<open>The three slices are a partition of the shuffled rows, whatever the rounding does.\<close>

lemma random_split_concat:
  assumes "random_split shuffle rows tr vr seed = Inr s"
  shows "sr_train s @ sr_validation s @ sr_test s = shuffle seed rows"
proof -
  let ?n = "length (shuffle seed rows)"
  let ?te = "trunc (int_times_float (int ?n) tr)" and ?vc = "trunc (int_times_float (int ?n) vr)"
  from assms have ge: "0 \<le> tr" "0 \<le> vr" by (auto simp: random_split_def split: if_splits)
  then have "0 \<le> ?te" "0 \<le> ?vc" by (auto intro!: trunc_nonneg int_times_float_nonneg)
  then show ?thesis
    using assms ge by (auto simp: random_split_def Let_def slices_partition split: if_splits)
qed


section \<open>Leakage\<close>

definition SPLIT_LEAKAGE_SAMPLE_LIMIT :: nat where
  "SPLIT_LEAKAGE_SAMPLE_LIMIT = 20"

record split_leakage =
  sl_splits :: "string list"
  sl_row_count :: nat
  sl_exact :: bool
  sl_sample :: string

record leakage_report =
  lr_leaked_group_count :: nat
  lr_rows_shared_across_splits :: nat
  lr_leaks :: "split_leakage list"

text \<open>The dictionary entry of one signature.\<close>

record leak_group =
  lg_splits :: "(string, nat) dict"
  lg_exact :: "string set"
  lg_sample_row :: json

definition group_row :: "runtime \<Rightarrow> string \<times> json \<Rightarrow> (string, leak_group) dict \<Rightarrow> (string, leak_group) dict" where
  "group_row rt nr groups =
     (let (split_name, row) = nr; sig = normalized_text_signature rt row in
      if sig = [] then groups
      else
        let g = (case dget groups sig of Some g \<Rightarrow> g
                 | None \<Rightarrow> \<lparr>lg_splits = [], lg_exact = {}, lg_sample_row = row\<rparr>);
            c = (case dget (lg_splits g) split_name of Some c \<Rightarrow> c | None \<Rightarrow> 0)
        in dset sig (g\<lparr>lg_splits := dset split_name (c + 1) (lg_splits g),
                        lg_exact := insert (exact_signature rt row) (lg_exact g)\<rparr>) groups)"

definition named_rows :: "json list \<Rightarrow> json list \<Rightarrow> json list \<Rightarrow> (string \<times> json) list" where
  "named_rows train validation test =
     map (\<lambda>r. (''train'', r)) train @ map (\<lambda>r. (''validation'', r)) validation
     @ map (\<lambda>r. (''test'', r)) test"

definition group_rows :: "runtime \<Rightarrow> (string \<times> json) list \<Rightarrow> (string, leak_group) dict" where
  "group_rows rt nrs = fold (group_row rt) nrs []"

definition group_total :: "leak_group \<Rightarrow> nat" where
  "group_total g = sum_list (map snd (lg_splits g))"

definition group_max :: "leak_group \<Rightarrow> nat" where
  "group_max g = fold max (map snd (lg_splits g)) 0"

definition leak_of :: "runtime \<Rightarrow> leak_group \<Rightarrow> split_leakage" where
  "leak_of rt g = \<lparr>sl_splits = sort (dkeys (lg_splits g)), sl_row_count = group_total g,
     sl_exact = (card (lg_exact g) = 1), sl_sample = take 120 (dumps_plain rt (lg_sample_row g))\<rparr>"

definition leaking_groups :: "(string, leak_group) dict \<Rightarrow> leak_group list" where
  "leaking_groups groups = filter (\<lambda>g. 2 \<le> length (lg_splits g)) (map snd groups)"

definition detect_split_leakage ::
  "runtime \<Rightarrow> json list \<Rightarrow> json list \<Rightarrow> json list \<Rightarrow> leakage_report" where
  "detect_split_leakage rt train validation test =
     (let gs = leaking_groups (group_rows rt (named_rows train validation test));
          leaks = sort_key (\<lambda>l. (- int (sl_row_count l), sl_sample l)) (map (leak_of rt) gs)
      in \<lparr>lr_leaked_group_count = length leaks,
          lr_rows_shared_across_splits = sum_list (map (\<lambda>g. group_total g - group_max g) gs),
          lr_leaks = take SPLIT_LEAKAGE_SAMPLE_LIMIT leaks\<rparr>)"


subsection \<open>What the dictionary holds after the loop\<close>

text \<open>How many rows of one split have a given signature.\<close>

definition copies :: "runtime \<Rightarrow> (string \<times> json) list \<Rightarrow> string \<Rightarrow> string \<Rightarrow> nat" where
  "copies rt nrs sig name =
     length (filter (\<lambda>nr. fst nr = name \<and> normalized_text_signature rt (snd nr) = sig) nrs)"

definition group_ok :: "runtime \<Rightarrow> (string \<times> json) list \<Rightarrow> string \<Rightarrow> leak_group \<Rightarrow> bool" where
  "group_ok rt nrs sig g \<longleftrightarrow>
     distinct (dkeys (lg_splits g))
     \<and> (\<forall>name. dget (lg_splits g) name =
          (if copies rt nrs sig name = 0 then None else Some (copies rt nrs sig name)))
     \<and> lg_exact g = {exact_signature rt r | name r. (name, r) \<in> set nrs \<and> normalized_text_signature rt r = sig}"

definition groups_ok :: "runtime \<Rightarrow> (string \<times> json) list \<Rightarrow> (string, leak_group) dict \<Rightarrow> bool" where
  "groups_ok rt nrs groups \<longleftrightarrow>
     distinct (dkeys groups)
     \<and> set (dkeys groups) = normalized_text_signature rt ` snd ` set nrs - {[]}
     \<and> (\<forall>sig g. dget groups sig = Some g \<longrightarrow> group_ok rt nrs sig g)"

lemma copies_Nil [simp]: "copies rt [] sig name = 0"
  by (simp add: copies_def)

lemma copies_snoc: "copies rt (nrs @ [(n, r)]) sig name =
    copies rt nrs sig name + (if n = name \<and> normalized_text_signature rt r = sig then 1 else 0)"
  by (simp add: copies_def)

lemma copies_0_iff: "copies rt nrs sig name = 0 \<longleftrightarrow>
    (\<forall>r. (name, r) \<in> set nrs \<longrightarrow> normalized_text_signature rt r \<noteq> sig)"
  by (auto simp: copies_def filter_empty_conv)

lemma group_rows_snoc: "group_rows rt (nrs @ [nr]) = group_row rt nr (group_rows rt nrs)"
  by (simp add: group_rows_def)

lemma group_ok_other:
  "normalized_text_signature rt r \<noteq> sig \<Longrightarrow> group_ok rt (nrs @ [(n, r)]) sig g = group_ok rt nrs sig g"
proof -
  assume ne: "normalized_text_signature rt r \<noteq> sig"
  then have "{exact_signature rt q | name q. (name, q) \<in> set (nrs @ [(n, r)]) \<and> normalized_text_signature rt q = sig}
      = {exact_signature rt q | name q. (name, q) \<in> set nrs \<and> normalized_text_signature rt q = sig}"
    by auto
  with ne show ?thesis by (simp add: group_ok_def copies_snoc)
qed

lemma group_ok_fresh:
  assumes "sig \<notin> normalized_text_signature rt ` snd ` set nrs"
  shows "group_ok rt nrs sig \<lparr>lg_splits = [], lg_exact = {}, lg_sample_row = row\<rparr>"
proof -
  from assms have "normalized_text_signature rt r \<noteq> sig" if "(name, r) \<in> set nrs" for name r
    using that by force
  then show ?thesis by (auto simp: group_ok_def copies_0_iff)
qed

lemma group_ok_add:
  assumes "group_ok rt nrs sig g" and "normalized_text_signature rt r = sig"
  shows "group_ok rt (nrs @ [(n, r)]) sig
    (g\<lparr>lg_splits := dset n ((case dget (lg_splits g) n of Some c \<Rightarrow> c | None \<Rightarrow> 0) + 1) (lg_splits g),
       lg_exact := insert (exact_signature rt r) (lg_exact g)\<rparr>)"
proof -
  have "{exact_signature rt q | name q. (name, q) \<in> set (nrs @ [(n, r)]) \<and> normalized_text_signature rt q = sig}
      = insert (exact_signature rt r)
          {exact_signature rt q | name q. (name, q) \<in> set nrs \<and> normalized_text_signature rt q = sig}"
    using assms(2) by auto
  with assms show ?thesis
    by (auto simp: group_ok_def copies_snoc dget_dset distinct_update)
qed

lemma group_rows_ok: "groups_ok rt nrs (group_rows rt nrs)"
proof (induction nrs rule: rev_induct)
  case Nil
  show ?case by (simp add: groups_ok_def group_rows_def)
next
  case (snoc nr nrs)
  obtain n r where nr: "nr = (n, r)" by (cases nr)
  let ?sig = "normalized_text_signature rt r" and ?gs = "group_rows rt nrs"
  show ?case
  proof (cases "?sig = []")
    case True
    have "group_ok rt (nrs @ [(n, r)]) sig g" if "dget ?gs sig = Some g" for sig g
    proof -
      from that have "sig \<in> set (dkeys ?gs)" by (force dest: map_of_SomeD)
      with snoc True have "?sig \<noteq> sig" by (auto simp: groups_ok_def)
      with that snoc show ?thesis by (simp add: groups_ok_def group_ok_other)
    qed
    with snoc True have "groups_ok rt (nrs @ [(n, r)]) ?gs" by (auto simp: groups_ok_def)
    with True nr show ?thesis by (simp add: group_rows_snoc group_row_def)
  next
    case False
    define g where "g = (case dget ?gs ?sig of Some g \<Rightarrow> g
       | None \<Rightarrow> \<lparr>lg_splits = [], lg_exact = {}, lg_sample_row = r\<rparr>)"
    have g_ok: "group_ok rt nrs ?sig g"
    proof (cases "dget ?gs ?sig")
      case None
      then have "?sig \<notin> set (dkeys ?gs)" by (simp add: map_of_eq_None_iff)
      with snoc False have "?sig \<notin> normalized_text_signature rt ` snd ` set nrs"
        by (auto simp: groups_ok_def)
      with None show ?thesis by (simp add: g_def group_ok_fresh)
    qed (use snoc in \<open>simp add: g_def groups_ok_def\<close>)
    define g' where "g' = g\<lparr>lg_splits := dset n ((case dget (lg_splits g) n of Some c \<Rightarrow> c | None \<Rightarrow> 0) + 1) (lg_splits g),
       lg_exact := insert (exact_signature rt r) (lg_exact g)\<rparr>"
    have gs': "group_rows rt (nrs @ [nr]) = dset ?sig g' ?gs"
      using False nr by (simp add: group_rows_snoc group_row_def Let_def g_def g'_def)
    have "group_ok rt (nrs @ [(n, r)]) ?sig g'"
      unfolding g'_def by (rule group_ok_add [OF g_ok refl])
    then have "group_ok rt (nrs @ [nr]) sig h" if "dget (dset ?sig g' ?gs) sig = Some h" for sig h
      using that snoc nr by (cases "sig = ?sig") (auto simp: dget_dset groups_ok_def group_ok_other)
    moreover have "set (dkeys (dset ?sig g' ?gs)) = normalized_text_signature rt ` snd ` set (nrs @ [nr]) - {[]}"
    proof -
      have "set (dkeys (dset ?sig g' ?gs)) = insert ?sig (normalized_text_signature rt ` snd ` set nrs - {[]})"
        using snoc unfolding dkeys_dset groups_ok_def by simp
      then show ?thesis using False nr by auto
    qed
    moreover have "distinct (dkeys (dset ?sig g' ?gs))"
      using snoc by (simp add: groups_ok_def distinct_update)
    ultimately have "groups_ok rt (nrs @ [nr]) (dset ?sig g' ?gs)"
      unfolding groups_ok_def by (intro conjI allI impI) assumption+
    then show ?thesis by (simp only: gs')
  qed
qed

subsection \<open>Totals\<close>

lemma group_ok_mset:
  assumes ok: "group_ok rt nrs sig g" and names: "fst ` set nrs \<subseteq> set ns" "distinct ns"
  shows "mset (lg_splits g) =
    mset (map (\<lambda>n. (n, copies rt nrs sig n)) (filter (\<lambda>n. 0 < copies rt nrs sig n) ns))"
proof -
  let ?c = "copies rt nrs sig"
  have in_ns: "n \<in> set ns" if "0 < ?c n" for n
  proof -
    from that obtain r where "(n, r) \<in> set nrs" using copies_0_iff [of rt nrs sig n] by auto
    with names(1) show ?thesis by force
  qed
  have d: "distinct (dkeys (lg_splits g))" using ok by (simp add: group_ok_def)
  have "(n, v) \<in> set (lg_splits g) \<longleftrightarrow> 0 < ?c n \<and> v = ?c n" for n v
    using map_of_eq_Some_iff [OF d, of n v] ok by (auto simp: group_ok_def split: if_splits)
  then have "set (lg_splits g) = set (map (\<lambda>n. (n, ?c n)) (filter (\<lambda>n. 0 < ?c n) ns))"
    using in_ns by auto
  moreover have "distinct (lg_splits g)" using d by (simp add: distinct_map)
  moreover have "distinct (map (\<lambda>n. (n, ?c n)) (filter (\<lambda>n. 0 < ?c n) ns))"
    using names(2) by (auto simp: distinct_map inj_on_def)
  ultimately show ?thesis using set_eq_iff_mset_eq_distinct by blast
qed

lemma sum_list_filter_pos: "sum_list (map f (filter (\<lambda>n. 0 < f n) ns)) = sum_list (map f ns)" for f :: "'a \<Rightarrow> nat"
  by (induction ns) auto

lemma Max_insert_0_filter_pos:
  "Max (insert 0 (f ` set (filter (\<lambda>n. 0 < f n) ns))) = Max (insert 0 (f ` set ns))" for f :: "'a \<Rightarrow> nat"
proof -
  have "insert 0 (f ` set (filter (\<lambda>n. 0 < f n) ns)) = insert 0 (f ` set ns)" by auto
  then show ?thesis by (simp only:)
qed

lemma group_ok_totals:
  assumes ok: "group_ok rt nrs sig g" and names: "fst ` set nrs \<subseteq> set ns" "distinct ns"
  shows "group_total g = sum_list (map (copies rt nrs sig) ns)"
    and "length (lg_splits g) = length (filter (\<lambda>n. 0 < copies rt nrs sig n) ns)"
    and "group_max g = Max (insert 0 (copies rt nrs sig ` set ns))"
proof -
  let ?c = "copies rt nrs sig"
  note m = group_ok_mset [OF ok names]
  have "mset (map snd (lg_splits g)) = mset (map ?c (filter (\<lambda>n. 0 < ?c n) ns))"
    unfolding mset_map m by (simp add: multiset.map_comp comp_def flip: mset_map)
  then have vals: "mset (map snd (lg_splits g)) = mset (map ?c (filter (\<lambda>n. 0 < ?c n) ns))" .
  show "group_total g = sum_list (map ?c ns)"
    unfolding group_total_def using arg_cong [OF vals, of sum_mset]
    by (simp add: sum_mset_sum_list sum_list_filter_pos del: mset_map)
  show "length (lg_splits g) = length (filter (\<lambda>n. 0 < ?c n) ns)"
    using mset_eq_length [OF m] by (simp only: length_map)
  have "set (map snd (lg_splits g)) = set (map ?c (filter (\<lambda>n. 0 < ?c n) ns))"
    using vals by (rule mset_eq_setD)
  then have "group_max g = Max (insert 0 (?c ` set (filter (\<lambda>n. 0 < ?c n) ns)))"
    unfolding group_max_def by (subst Max.set_eq_fold [symmetric]) simp
  then show "group_max g = Max (insert 0 (?c ` set ns))" by (simp only: Max_insert_0_filter_pos)
qed


subsection \<open>The report\<close>

definition split_names :: "string list" where
  "split_names = [''train'', ''validation'', ''test'']"

definition leaked_signature :: "runtime \<Rightarrow> (string \<times> json) list \<Rightarrow> string \<Rightarrow> bool" where
  "leaked_signature rt nrs sig \<longleftrightarrow> sig \<noteq> [] \<and> 2 \<le> length (filter (\<lambda>n. 0 < copies rt nrs sig n) split_names)"

definition crossing_copies :: "runtime \<Rightarrow> (string \<times> json) list \<Rightarrow> string \<Rightarrow> nat" where
  "crossing_copies rt nrs sig =
     sum_list (map (copies rt nrs sig) split_names) - Max (copies rt nrs sig ` set split_names)"

lemma map_snd_dict: "distinct (dkeys d) \<Longrightarrow> map snd d = map (\<lambda>k. the (dget d k)) (dkeys d)"
proof -
  assume d: "distinct (dkeys d)"
  have "snd kv = the (dget d (fst kv))" if "kv \<in> set d" for kv
    using map_of_is_SomeI [OF d, of "fst kv" "snd kv"] that by simp
  then show ?thesis by (simp add: comp_def)
qed

lemma leaking_groups_by_key:
  fixes h :: "leak_group \<Rightarrow> nat"
  assumes ok: "groups_ok rt nrs groups" and names: "fst ` set nrs \<subseteq> set split_names"
    and h: "\<And>sig g. group_ok rt nrs sig g \<Longrightarrow> h g = f sig"
  shows "sum_list (map h (leaking_groups groups)) = (\<Sum>sig | leaked_signature rt nrs sig. f sig)"
proof -
  have d: "distinct (dkeys groups)" using ok by (simp add: groups_ok_def)
  have g: "group_ok rt nrs k (the (dget groups k))" if "k \<in> set (dkeys groups)" for k
  proof -
    from that obtain v where "dget groups k = Some v"
      by (cases "dget groups k") (auto simp: map_of_eq_None_iff)
    with ok show ?thesis by (simp add: groups_ok_def)
  qed
  have ns: "distinct split_names" by (simp add: split_names_def)
  let ?P = "\<lambda>k. 2 \<le> length (filter (\<lambda>n. 0 < copies rt nrs k n) split_names)"
  have "sum_list (map h (leaking_groups groups))
      = sum_list (map h (map (\<lambda>k. the (dget groups k))
          (filter (\<lambda>k. 2 \<le> length (lg_splits (the (dget groups k)))) (dkeys groups))))"
    unfolding leaking_groups_def map_snd_dict [OF d] filter_map comp_def ..
  also have "filter (\<lambda>k. 2 \<le> length (lg_splits (the (dget groups k)))) (dkeys groups) = filter ?P (dkeys groups)"
    by (rule filter_cong) (simp_all add: group_ok_totals(2) [OF g names ns])
  also have "sum_list (map h (map (\<lambda>k. the (dget groups k)) (filter ?P (dkeys groups))))
      = sum_list (map f (filter ?P (dkeys groups)))"
    unfolding map_map comp_def by (rule arg_cong [where f = sum_list], rule map_cong) (auto intro!: h g rev_image_eqI)
  also have "\<dots> = sum f (set (filter ?P (dkeys groups)))"
    using d by (simp add: sum_list_distinct_conv_sum_set)
  also have "set (filter ?P (dkeys groups)) = {sig. leaked_signature rt nrs sig}"
  proof -
    have "sig \<in> set (dkeys groups)" if "leaked_signature rt nrs sig" for sig
    proof -
      from that have "filter (\<lambda>n. 0 < copies rt nrs sig n) split_names \<noteq> []"
        by (auto simp: leaked_signature_def)
      then obtain n r where nr: "(n, r) \<in> set nrs" "normalized_text_signature rt r = sig"
        by (auto simp: filter_empty_conv copies_0_iff)
      have "sig \<in> normalized_text_signature rt ` snd ` set nrs"
        unfolding image_image using nr by (intro rev_image_eqI [of "(n, r)"]) simp_all
      with that ok show ?thesis by (simp add: groups_ok_def leaked_signature_def)
    qed
    then show ?thesis using ok by (auto simp: leaked_signature_def groups_ok_def)
  qed
  finally show ?thesis .
qed

lemma named_rows_names: "fst ` set (named_rows train validation test) \<subseteq> set split_names"
  by (auto simp: named_rows_def split_names_def)

lemma detect_split_leakage_counts:
  fixes train validation test rt
  defines "nrs \<equiv> named_rows train validation test"
  shows "lr_leaked_group_count (detect_split_leakage rt train validation test)
      = card {sig. leaked_signature rt nrs sig}"
    and "lr_rows_shared_across_splits (detect_split_leakage rt train validation test)
      = (\<Sum>sig | leaked_signature rt nrs sig. crossing_copies rt nrs sig)"
proof -
  note names = named_rows_names [of train validation test, folded nrs_def]
  note ok = group_rows_ok [of rt nrs]
  have ns: "distinct split_names" by (simp add: split_names_def)
  have "length (leaking_groups (group_rows rt nrs)) = sum_list (map (\<lambda>_. 1) (leaking_groups (group_rows rt nrs)))"
    by (simp add: sum_list_triv)
  also have "\<dots> = card {sig. leaked_signature rt nrs sig}"
    using leaking_groups_by_key [OF ok names, of "\<lambda>_. 1" "\<lambda>_. 1"] by simp
  finally show "lr_leaked_group_count (detect_split_leakage rt train validation test)
      = card {sig. leaked_signature rt nrs sig}"
    by (simp add: detect_split_leakage_def nrs_def Let_def)
  have "group_total g - group_max g = crossing_copies rt nrs sig" if "group_ok rt nrs sig g" for sig g
  proof -
    have "Max (insert 0 (copies rt nrs sig ` set split_names)) = Max (copies rt nrs sig ` set split_names)"
      by (simp add: split_names_def)
    then show ?thesis
      using group_ok_totals [OF that names ns] by (simp add: crossing_copies_def)
  qed
  from leaking_groups_by_key [OF ok names this]
  show "lr_rows_shared_across_splits (detect_split_leakage rt train validation test)
      = (\<Sum>sig | leaked_signature rt nrs sig. crossing_copies rt nrs sig)"
    by (simp add: detect_split_leakage_def nrs_def Let_def)
qed



section \<open>Properties of splitting and of the leakage report\<close>

text \<open>A random split is a partition. Whatever the rounding of the two cut points does, train,
  validation and test together hold exactly the shuffled rows, so no row is lost or
  duplicated; and a positive validation ratio gives a non-empty validation split whenever
  the training split and the rest both have a row.\<close>

theorem random_split_is_partition:
  assumes "random_split shuffle rows train_ratio validation_ratio seed = Inr s"
    and "mset (shuffle seed rows) = mset rows"
  shows "sr_train s @ sr_validation s @ sr_test s = shuffle seed rows
     \<and> mset (sr_train s) + mset (sr_validation s) + mset (sr_test s) = mset rows
     \<and> (0 < validation_ratio \<and> sr_train s \<noteq> [] \<and> sr_validation s @ sr_test s \<noteq> [] \<longrightarrow> sr_validation s \<noteq> [])"
proof -
  note c = random_split_concat [OF assms(1)]
  then have "mset (sr_train s @ sr_validation s @ sr_test s) = mset rows" using assms(2) by simp
  moreover have "sr_validation s \<noteq> []"
    if v: "0 < validation_ratio" and ne: "sr_train s \<noteq> []" "sr_validation s @ sr_test s \<noteq> []"
  proof -
    let ?xs = "shuffle seed rows"
    let ?te = "trunc (int_times_float (int (length ?xs)) train_ratio)"
      and ?c = "trunc (int_times_float (int (length ?xs)) validation_ratio)"
    from v have c0: "0 \<le> ?c" by (intro trunc_nonneg int_times_float_nonneg) simp
    from assms(1) have tr: "sr_train s = take (nat ?te) ?xs"
      by (auto simp: random_split_def Let_def split: if_splits)
    have te: "1 \<le> ?te" using ne(1) tr by (cases "?te \<le> 0") auto
    have lt: "?te < int (length ?xs)"
    proof (rule ccontr)
      assume "\<not> ?thesis"
      then have "sr_train s = ?xs" using tr by simp
      with c ne(2) show False by simp
    qed
    let ?vc = "if 0 < validation_ratio \<and> ?c = 0 \<and> 1 \<le> ?te \<and> 1 \<le> int (length ?xs) - ?te then 1 else ?c"
    have "1 \<le> ?vc" using c0 te lt v by auto
    moreover have "sr_validation s = drop (nat ?te) (take (nat (?te + ?vc)) ?xs)"
      using assms(1) by (auto simp: random_split_def Let_def split: if_splits)
    ultimately show ?thesis using te lt by (simp add: nat_less_iff)
  qed
  moreover have "mset (sr_train s) + mset (sr_validation s) + mset (sr_test s)
      = mset (sr_train s @ sr_validation s @ sr_test s)" by simp
  ultimately show ?thesis using c by metis
qed

theorem random_split_is_partition_witness:
  "\<exists>s. random_split (\<lambda>_. rev) [row_a, row_b, row_c, row_a] (fl (1/2)) (fl (1/10)) 7 = Inr s
     \<and> mset (sr_train s) + mset (sr_validation s) + mset (sr_test s) = mset [row_a, row_b, row_c, row_a]"
proof -
  have "fl (1/2) = 1/2" "fl (1/10) = 3602879701896397 / 36028797018963968" by code_simp+
  have run: "random_split (\<lambda>_. rev) [row_a, row_b, row_c, row_a] (fl (1/2)) (fl (1/10)) 7 =
      Inr \<lparr>sr_train = [row_a, row_c], sr_validation = [row_b], sr_test = [row_a]\<rparr>" by code_simp
  from random_split_is_partition [OF run] run show ?thesis by simp
qed

text \<open>C28: The leakage report is exact. The number of leaked groups is the number of non-empty
  normalised signatures that occur in at least two of the three splits, and the number of
  shared rows is, summed over those signatures, the rows that have it outside the split that
  holds most of them.\<close>

theorem leakage_report_is_exact:
  "let nrs = named_rows train validation test; report = detect_split_leakage rt train validation test in
     lr_leaked_group_count report = card {sig. leaked_signature rt nrs sig}
   \<and> lr_rows_shared_across_splits report = (\<Sum>sig | leaked_signature rt nrs sig. crossing_copies rt nrs sig)
   \<and> length (lr_leaks report) = min SPLIT_LEAKAGE_SAMPLE_LIMIT (lr_leaked_group_count report)"
  using detect_split_leakage_counts [of rt train validation test]
  by (auto simp: Let_def) (simp add: detect_split_leakage_def Let_def min.commute)

lemma leaked_signature_names:
  "leaked_signature rt (named_rows a b c) sig \<longleftrightarrow> sig \<noteq> [] \<and>
     (let f = normalized_text_signature rt in
      (sig \<in> f ` set a \<and> sig \<in> f ` set b) \<or> (sig \<in> f ` set a \<and> sig \<in> f ` set c)
      \<or> (sig \<in> f ` set b \<and> sig \<in> f ` set c))"
proof -
  have "0 < copies rt (named_rows a b c) sig ''train'' \<longleftrightarrow> sig \<in> normalized_text_signature rt ` set a"
    "0 < copies rt (named_rows a b c) sig ''validation'' \<longleftrightarrow> sig \<in> normalized_text_signature rt ` set b"
    "0 < copies rt (named_rows a b c) sig ''test'' \<longleftrightarrow> sig \<in> normalized_text_signature rt ` set c"
  proof -
    have pos: "0 < copies rt nrs sig name \<longleftrightarrow> sig \<in> normalized_text_signature rt ` {r. (name, r) \<in> set nrs}" for nrs name
      using copies_0_iff [of rt nrs sig name] by (auto simp: image_iff)
    have "{r. (''train'', r) \<in> set (named_rows a b c)} = set a"
      "{r. (''validation'', r) \<in> set (named_rows a b c)} = set b"
      "{r. (''test'', r) \<in> set (named_rows a b c)} = set c" by (auto simp: named_rows_def)
    then show "0 < copies rt (named_rows a b c) sig ''train'' \<longleftrightarrow> sig \<in> normalized_text_signature rt ` set a"
      "0 < copies rt (named_rows a b c) sig ''validation'' \<longleftrightarrow> sig \<in> normalized_text_signature rt ` set b"
      "0 < copies rt (named_rows a b c) sig ''test'' \<longleftrightarrow> sig \<in> normalized_text_signature rt ` set c"
      unfolding pos by simp_all
  qed
  then show ?thesis by (auto simp: leaked_signature_def split_names_def Let_def)
qed

text \<open>The leakage report is silent exactly when there is no leak: it counts no group if and
  only if no two rows of different splits have the same non-empty normalised signature.\<close>

theorem no_leak_reported_iff_disjoint:
  "lr_leaked_group_count (detect_split_leakage rt train validation test) = 0 \<longleftrightarrow>
     (let sigs = (\<lambda>rows. normalized_text_signature rt ` set rows - {[]}) in
      sigs train \<inter> sigs validation = {} \<and> sigs train \<inter> sigs test = {} \<and> sigs validation \<inter> sigs test = {})"
proof -
  let ?nrs = "named_rows train validation test"
  have "{sig. leaked_signature rt ?nrs sig} \<subseteq> normalized_text_signature rt ` (set train \<union> set validation)"
    by (auto simp: leaked_signature_names Let_def)
  then have "finite {sig. leaked_signature rt ?nrs sig}" by (rule finite_subset) simp
  then have "card {sig. leaked_signature rt ?nrs sig} = 0 \<longleftrightarrow> (\<forall>sig. \<not> leaked_signature rt ?nrs sig)" by auto
  moreover have "(\<forall>sig. \<not> (sig \<noteq> [] \<and> (sig \<in> A \<and> sig \<in> B \<or> sig \<in> A \<and> sig \<in> C \<or> sig \<in> B \<and> sig \<in> C)))
      \<longleftrightarrow> (A - {[]}) \<inter> (B - {[]}) = {} \<and> (A - {[]}) \<inter> (C - {[]}) = {} \<and> (B - {[]}) \<inter> (C - {[]}) = {}"
    for A B C :: "string set" by blast
  ultimately show ?thesis
    by (simp only: detect_split_leakage_counts leaked_signature_names Let_def)
qed

end
