(* ===== verification/Version_Store.thy ===== *)
theory Version_Store
  imports Sample_Runtime
begin

text \<open>
  The version registry of a project (\<open>versions/version_registry.py\<close>): the version
  records, the ordered row-id manifests, and the naming of their files. A project's
  \<open>dataset_versions/\<close> directory is the record \<open>project\<close>: whether the directory exists, the
  bytes of the row store, the bytes of every \<open><slug>.rows\<close> manifest and the value of every
  \<open><slug>.json\<close> record file (\<open>None\<close> for a file that does not parse).
\<close>

record version_record =
  dv_version_id :: string
  dv_created_at :: string
  dv_updated_at :: string
  dv_label :: string
  dv_trigger :: string
  dv_row_count :: nat
  dv_content_fingerprint :: "string option"
  dv_fingerprint_algo :: string
  dv_row_signature_kind :: string
  dv_source_run_ids :: "string list"
  dv_artifact_ids :: "string list"
  dv_eval_report_path :: "string option"
  dv_gate_report_path :: "string option"
  dv_notes :: string
  dv_rows_stored :: bool
  dv_stored_row_count :: nat
  dv_row_manifest_algo :: "string option"

record project =
  pj_dir :: bool
  pj_store :: "bytes option"
  pj_manifests :: "(string, bytes) dict"
  pj_records :: "(string, version_record option) dict"

definition FINGERPRINT_ALGO :: string where
  "FINGERPRINT_ALGO = ''sha256-ordered-exact-v1''"

definition ROW_SIGNATURE_EXACT :: string where
  "ROW_SIGNATURE_EXACT = ''exact''"


section \<open>File names\<close>

definition id_char :: "char \<Rightarrow> bool" where
  "id_char c \<longleftrightarrow> (let n = (of_char c :: nat) in
     (48 \<le> n \<and> n \<le> 57) \<or> (65 \<le> n \<and> n \<le> 90) \<or> (97 \<le> n \<and> n \<le> 122)
       \<or> c \<in> {CHR ''.'', CHR ''_'', CHR ''-''})"

text \<open>\<open>re.sub(r"[^A-Za-z0-9._-]+", "_", version_id) or "version"\<close>: each maximal run of other
  characters becomes one underscore.\<close>

fun sub_runs :: "bool \<Rightarrow> string \<Rightarrow> string" where
  "sub_runs in_run [] = []"
| "sub_runs in_run (c # cs) =
     (if id_char c then c # sub_runs False cs
      else if in_run then sub_runs True cs else CHR ''_'' # sub_runs True cs)"

definition slug :: "string \<Rightarrow> string" where
  "slug version_id = (let s = sub_runs False version_id in if s = [] then ''version'' else s)"

text \<open>\<open>re.compile(r"^[A-Za-z0-9._-]+$").match\<close>: the dollar also matches before a final
  newline.\<close>

definition valid_version_id :: "string \<Rightarrow> bool" where
  "valid_version_id s =
     (let body = (if s \<noteq> [] \<and> last s = nl then butlast s else s)
      in body \<noteq> [] \<and> list_all id_char body)"

definition mint_version_id :: "string \<Rightarrow> string \<Rightarrow> string" where
  "mint_version_id timestamp_compact suffix = timestamp_compact @ ''-'' @ suffix"

lemma sub_runs_id: "list_all id_char s \<Longrightarrow> sub_runs b s = s"
  by (induction s arbitrary: b) auto

lemma slug_id: "list_all id_char s \<Longrightarrow> s \<noteq> [] \<Longrightarrow> slug s = s"
  by (simp add: slug_def sub_runs_id)

lemma sub_runs_chars: "list_all id_char (sub_runs b s)"
  by (induction b s rule: sub_runs.induct) (simp_all add: id_char_def)

lemma slug_chars: "slug s \<noteq> [] \<and> list_all id_char (slug s)"
  using sub_runs_chars [of False s] by (simp add: slug_def Let_def id_char_def)

text \<open>The pattern does not make the file name injective on the accepted identifiers.\<close>

lemma slug_collapses_valid_ids:
  "valid_version_id (''a'' @ [nl]) \<and> valid_version_id ''a_'' \<and> slug (''a'' @ [nl]) = slug ''a_''"
  by code_simp


section \<open>Decoding text files\<close>

text \<open>UTF-8 decoding of code points below 256; \<open>None\<close> is a \<open>UnicodeDecodeError\<close>.\<close>

fun utf8_decode :: "bytes \<Rightarrow> string option" where
  "utf8_decode [] = Some []"
| "utf8_decode (c # cs) =
     (let n = (of_char c :: nat) in
      if n < 128 then map_option (Cons c) (utf8_decode cs)
      else case cs of [] \<Rightarrow> None
        | d # ds \<Rightarrow>
            (let m = (of_char d :: nat) in
             if (n = 194 \<or> n = 195) \<and> 128 \<le> m \<and> m < 192
             then map_option (Cons (char_of ((n - 192) * 64 + (m - 128)))) (utf8_decode ds)
             else None))"

lemma utf8_decode_utf8: "utf8_decode (utf8 s) = Some s"
proof (induction s)
  case (Cons c s)
  have lt: "(of_char c :: nat) < 256" by simp
  then have d4: "(of_char c :: nat) div 64 < 4" by (simp add: less_mult_imp_div_less)
  show ?case
  proof (cases "(of_char c :: nat) < 128")
    case True
    with Cons show ?thesis by (simp add: utf8_Cons_ascii)
  next
    case False
    let ?q = "(of_char c :: nat) div 64" and ?r = "(of_char c :: nat) mod 64"
    from False have "2 \<le> ?q" by simp
    with d4 have q: "?q = 2 \<or> ?q = 3" by linarith
    have r: "?r < 64" by simp
    have "utf8 (c # s) = char_of (192 + ?q) # char_of (128 + ?r) # utf8 s"
      using False by (simp add: utf8_def utf8_char_def Let_def)
    moreover have "(of_char (char_of (192 + ?q) :: char) :: nat) = 192 + ?q"
      using q by (elim disjE) (simp_all)
    moreover have "(of_char (char_of (128 + ?r) :: char) :: nat) = 128 + ?r"
      using r by simp
    moreover have "?q * 64 + ?r = of_char c" by simp
    ultimately show ?thesis using q r Cons by (auto simp: Let_def)
  qed
qed (simp add: utf8_def)

text \<open>The ASCII and Latin-1 line boundaries of \<open>str.splitlines\<close>. The reader below drops blank
  lines, so splitting a \<open>CR LF\<close> pair twice makes no difference to it.\<close>

definition line_boundary :: "char \<Rightarrow> bool" where
  "line_boundary c \<longleftrightarrow> (of_char c :: nat) \<in> {10, 11, 12, 13, 28, 29, 30, 133}"

definition nonblank_splitlines :: "string \<Rightarrow> string list" where
  "nonblank_splitlines s = filter (\<lambda>l. l \<noteq> []) (map strip (runs (\<lambda>c. \<not> line_boundary c) s))"


section \<open>Records and manifests\<close>

datatype registry_error = InvalidVersionId | RegistryOSError | RegistryUnicodeError

text \<open>\<open>atomic_write_lines\<close>: the bytes the file holds once the temporary file has replaced it.
  A failure before the replace leaves the file as it was.\<close>

definition lines_file :: "string list \<Rightarrow> bytes" where
  "lines_file ls = concat (map (\<lambda>l. l @ [nl]) ls)"

definition save_version_record ::
  "bool \<Rightarrow> version_record \<Rightarrow> project \<Rightarrow> (registry_error + string) \<times> project" where
  "save_version_record disk_ok r p =
     (if \<not> valid_version_id (dv_version_id r) then (Inl InvalidVersionId, p)
      else if \<not> disk_ok then (Inl RegistryOSError, p)
      else (Inr (slug (dv_version_id r)),
            p\<lparr>pj_dir := True, pj_records := dset (slug (dv_version_id r)) (Some r) (pj_records p)\<rparr>))"

definition load_version_record :: "project \<Rightarrow> string \<Rightarrow> version_record option" where
  "load_version_record p name = (case dget (pj_records p) name of Some (Some r) \<Rightarrow> Some r | _ \<Rightarrow> None)"

fun first_by_id :: "string set \<Rightarrow> version_record option list \<Rightarrow> version_record list" where
  "first_by_id seen [] = []"
| "first_by_id seen (None # rs) = first_by_id seen rs"
| "first_by_id seen (Some r # rs) =
     (if dv_version_id r \<in> seen then first_by_id seen rs
      else r # first_by_id (insert (dv_version_id r) seen) rs)"

definition list_version_records :: "project \<Rightarrow> version_record list" where
  "list_version_records p =
     (if \<not> pj_dir p then []
      else rev (sort_key dv_version_id (first_by_id {} (map snd (pj_records p)))))"

definition save_row_manifest ::
  "bool \<Rightarrow> string \<Rightarrow> string list \<Rightarrow> project \<Rightarrow> (registry_error + string) \<times> project" where
  "save_row_manifest disk_ok version_id row_ids p =
     (if \<not> disk_ok then (Inl RegistryOSError, p)
      else (Inr (slug version_id),
            p\<lparr>pj_dir := True, pj_manifests := dset (slug version_id) (utf8 (lines_file row_ids)) (pj_manifests p)\<rparr>))"

text \<open>An unreadable manifest file reads as no manifest; one that is not UTF-8 raises.\<close>

definition load_row_manifest ::
  "bool \<Rightarrow> project \<Rightarrow> string \<Rightarrow> registry_error + string list option" where
  "load_row_manifest readable p version_id =
     (case dget (pj_manifests p) (slug version_id) of
        None \<Rightarrow> Inr None
      | Some content \<Rightarrow>
          if \<not> readable then Inr None
          else case utf8_decode content of
            None \<Rightarrow> Inl RegistryUnicodeError
          | Some text \<Rightarrow> Inr (Some (nonblank_splitlines text)))"

definition integrity_from_fingerprints :: "string option \<Rightarrow> string option \<Rightarrow> string" where
  "integrity_from_fingerprints stored live =
     (if stored = None \<or> live = None then ''unreadable''
      else if stored = live then ''matches'' else ''drifted'')"


section \<open>Properties of the registry\<close>

lemma set_first_by_id:
  "dv_version_id ` set (first_by_id seen rs) = dv_version_id ` {r. Some r \<in> set rs} - seen"
  by (induction seen rs rule: first_by_id.induct) auto

lemma distinct_first_by_id: "distinct (map dv_version_id (first_by_id seen rs))"
proof (induction seen rs rule: first_by_id.induct)
  case (3 seen r rs)
  then show ?case using set_first_by_id [of "insert (dv_version_id r) seen" rs] by auto
qed simp_all

lemma subset_first_by_id: "set (first_by_id seen rs) \<subseteq> {r. Some r \<in> set rs}"
  by (induction seen rs rule: first_by_id.induct) auto

definition hex_id :: "string \<Rightarrow> bool" where
  "hex_id s \<longleftrightarrow> length s = 64 \<and>
     list_all (\<lambda>c. c \<in> set ''0123456789abcdef'') s"

lemma runs_acc_line:
  "\<forall>c \<in> set l. p c \<Longrightarrow> \<not> p x \<Longrightarrow>
     runs_acc p acc (l @ x # rest) = (if acc = [] \<and> l = [] then [] else [rev acc @ l]) @ runs_acc p [] rest"
  by (induction l arbitrary: acc) auto

lemma runs_lines:
  assumes "\<forall>l \<in> set ls. l \<noteq> [] \<and> (\<forall>c \<in> set l. p c)" and "\<not> p nl"
  shows "runs p (lines_file ls) = ls"
  using assms(1)
proof (induction ls)
  case (Cons l ls)
  then show ?case using runs_acc_line [of l p nl "[]" "lines_file ls"] assms(2)
    by (simp add: runs_def lines_file_def)
qed (simp add: runs_def lines_file_def)

lemma hex_chars: "c \<in> set ''0123456789abcdef'' \<Longrightarrow>
    \<not> is_space c \<and> \<not> line_boundary c \<and> \<not> json_space c \<and> c \<noteq> nl \<and> (of_char c :: nat) < 128"
  by (auto simp: is_space_def line_boundary_def json_space_def)

lemma hex_strip:
  assumes "hex_id l" shows "strip l = l" and "json_strip l = l" and "l \<noteq> []" and "nl \<notin> set l"
    and "\<forall>c \<in> set l. \<not> line_boundary c" and "\<not> has_prefix UTF8_BOM l"
proof -
  have c: "\<not> is_space c \<and> \<not> line_boundary c \<and> \<not> json_space c \<and> c \<noteq> nl \<and> (of_char c :: nat) < 128"
    if "c \<in> set l" for c
    by (rule hex_chars) (use assms that in \<open>simp add: hex_id_def list_all_iff\<close>)
  show ne: "l \<noteq> []" using assms by (auto simp: hex_id_def)
  then have hl: "hd l \<in> set l" "last l \<in> set l" by auto
  show "strip l = l" unfolding strip_def by (rule strip_with_id) (use ne hl c in blast)+
  show "json_strip l = l" by (rule strip_with_id) (use ne hl c in blast)+
  show "nl \<notin> set l" and "\<forall>c \<in> set l. \<not> line_boundary c" using c by blast+
  show "\<not> has_prefix UTF8_BOM l"
    using c [OF hl(1)] ne by (cases l) (auto simp: has_prefix_def UTF8_BOM_def)
qed

lemma utf8_lines_hex: "\<forall>l \<in> set ls. hex_id l \<Longrightarrow> utf8 (lines_file ls) = lines_file ls"
proof (rule utf8_ascii)
  assume h: "\<forall>l \<in> set ls. hex_id l"
  show "\<forall>c \<in> set (lines_file ls). (of_char c :: nat) < 128"
  proof
    fix c assume "c \<in> set (lines_file ls)"
    then consider "c = nl" | l where "l \<in> set ls" "c \<in> set l" by (auto simp: lines_file_def split: if_splits)
    then show "(of_char c :: nat) < 128"
    proof cases
      case 2
      with h have "c \<in> set ''0123456789abcdef''" by (simp add: hex_id_def list_all_iff)
      then show ?thesis using hex_chars by blast
    qed simp
  qed
qed

lemma manifest_reads_back:
  assumes "\<forall>l \<in> set ids. hex_id l"
  shows "nonblank_splitlines (lines_file ids) = ids"
proof -
  have "\<not> \<not> line_boundary nl" by (simp add: line_boundary_def)
  with assms have "runs (\<lambda>c. \<not> line_boundary c) (lines_file ids) = ids"
    by (intro runs_lines) (auto simp: hex_strip)
  moreover have "map strip ids = ids" "filter (\<lambda>l. l \<noteq> []) ids = ids"
    using assms by (auto intro!: map_idI simp: hex_strip filter_id_conv)
  ultimately show ?thesis by (simp add: nonblank_splitlines_def)
qed

end
