(* ===== verification/Jsonl.thy ===== *)
theory Jsonl
  imports Version_Store
begin

text \<open>
  The strict dataset reader (\<open>importers/jsonl_importer.py\<close>): a file is decoded as UTF-8
  without its byte order mark, split at universal newlines, and every non-blank line is
  parsed. The lenient reader reports a malformed line, the strict one stops there.

  Characters beyond U+00FF are outside the text model, so a file that holds one counts as
  undecodable here.
\<close>

fun translate_newlines :: "string \<Rightarrow> string" where
  "translate_newlines [] = []"
| "translate_newlines [c] = (if c = CHR 0x0D then [nl] else [c])"
| "translate_newlines (c # d # cs) =
     (if c = CHR 0x0D then nl # translate_newlines (if d = nl then cs else d # cs)
      else c # translate_newlines (d # cs))"

record jsonl_line =
  jl_line_number :: nat
  jl_raw :: string
  jl_value :: "json option"

definition iter_jsonl :: "runtime \<Rightarrow> string \<Rightarrow> jsonl_line list" where
  "iter_jsonl rt text = List.map_filter
     (\<lambda>(line_number, line).
        if strip line = [] then None
        else Some \<lparr>jl_line_number = line_number, jl_raw = line, jl_value = line_loads rt line\<rparr>)
     (enum_from 1 (iter_lines (translate_newlines text)))"

text \<open>The rows yielded before the first line that is not an object, and whether there was one.\<close>

fun yield_rows :: "jsonl_line list \<Rightarrow> json list \<times> bool" where
  "yield_rows [] = ([], False)"
| "yield_rows (l # ls) =
     (case jl_value l of
        Some (JObj kvs) \<Rightarrow> (case yield_rows ls of (rows, raised) \<Rightarrow> (JObj kvs # rows, raised))
      | _ \<Rightarrow> ([], True))"

text \<open>\<open>fault = Some k\<close>: reading the file fails after \<open>k\<close> rows.\<close>

definition read_jsonl :: "runtime \<Rightarrow> nat option \<Rightarrow> bytes \<Rightarrow> json list \<times> bool" where
  "read_jsonl rt fault content =
     (case utf8_decode (strip_bom content) of
        None \<Rightarrow> ([], True)
      | Some text \<Rightarrow>
          (case yield_rows (iter_jsonl rt text) of (rows, raised) \<Rightarrow>
             (case fault of None \<Rightarrow> (rows, raised) | Some k \<Rightarrow> (take k rows, True))))"


section \<open>What the reader accepts\<close>

lemma yield_rows_iff:
  "yield_rows ls = (rows, False) \<longleftrightarrow>
     map jl_value ls = map Some rows \<and> (\<forall>r \<in> set rows. \<exists>kvs. r = JObj kvs)"
proof (induction ls arbitrary: rows)
  case (Cons l ls)
  show ?case
  proof (cases "jl_value l")
    case None
    then show ?thesis by auto
  next
    case (Some v)
    with Cons show ?thesis
      by (cases v; cases rows; cases "yield_rows ls") auto
  qed
qed auto

lemma yield_rows_objects: "r \<in> set (fst (yield_rows ls)) \<Longrightarrow> \<exists>kvs. r = JObj kvs"
  by (induction ls) (auto split: option.splits json.splits prod.splits)

text \<open>The non-blank lines of a file, numbered as the reader numbers them.\<close>

lemma iter_jsonl_lines:
  "map (\<lambda>l. (jl_line_number l, jl_raw l)) (iter_jsonl rt text) =
     filter (\<lambda>(n, line). strip line \<noteq> []) (enum_from 1 (iter_lines (translate_newlines text)))"
proof -
  have "map (\<lambda>l. (jl_line_number l, jl_raw l)) (List.map_filter
     (\<lambda>(line_number, line). if strip line = [] then None
        else Some \<lparr>jl_line_number = line_number, jl_raw = line, jl_value = line_loads rt line\<rparr>) xs)
    = filter (\<lambda>(n, line). strip line \<noteq> []) xs" for xs
    by (induction xs) (auto simp: map_filter_simps)
  then show ?thesis by (simp add: iter_jsonl_def)
qed

lemma iter_jsonl_value: "l \<in> set (iter_jsonl rt text) \<Longrightarrow> jl_value l = line_loads rt (jl_raw l)"
  by (auto simp: iter_jsonl_def List.map_filter_def split: if_splits)

end
