(* ===== verification/Version_Gc.thy ===== *)
theory Version_Gc
  imports Version_Store
begin

text \<open>
  Row-store garbage collection (\<open>versions/gc.py\<close>): the union of the ids of every manifest
  file is the live set, a store line whose row id is not live is dropped, and a line the
  collector cannot classify is kept. Every failure refuses before the store is replaced.
\<close>

datatype lock_outcome = LockAcquired | LockBusy | LockUnavailable

datatype gc_error = GcLock lock_outcome | GcOSError | IncompleteReferenceScan | RowStoreGcRefused

record gc_result =
  gc_referenced_row_ids :: nat
  gc_scanned_rows :: nat
  gc_kept_rows :: nat
  gc_pruned_rows :: nat
  gc_dry_run :: bool

text \<open>What the operating system decides during one run.\<close>

record gc_env =
  ge_lock :: lock_outcome
  ge_manifest_readable :: "string \<Rightarrow> bool"
  ge_store_readable :: bool
  ge_replace_ok :: bool

text \<open>\<open>_read_lines\<close>: the file without its byte order mark, split on newlines only. Splitting
  the bytes or the decoded text gives the same lines.\<close>

definition read_lines :: "bytes \<Rightarrow> bytes list" where
  "read_lines content = split_on nl (strip_bom content)"

definition row_id_of :: "runtime \<Rightarrow> bytes \<Rightarrow> string option" where
  "row_id_of rt line = (case json_loads rt line of
       Some (JObj kvs) \<Rightarrow> (case dget kvs ''row_id'' of Some (JStr s) \<Rightarrow> Some s | _ \<Rightarrow> None)
     | _ \<Rightarrow> None)"

text \<open>The ids of one manifest: any other non-blank line makes the scan incomplete. A manifest
  that is not UTF-8 has such a line, since a row id is ASCII.\<close>

fun manifest_ids :: "bytes list \<Rightarrow> gc_error + string list" where
  "manifest_ids [] = Inr []"
| "manifest_ids (line # rest) =
     (let rid = json_strip line in
      if rid = [] then manifest_ids rest
      else if \<not> hex_id rid then Inl IncompleteReferenceScan
      else (case manifest_ids rest of Inl e \<Rightarrow> Inl e | Inr ids \<Rightarrow> Inr (rid # ids)))"

definition check_manifest_against_record :: "project \<Rightarrow> string \<Rightarrow> nat \<Rightarrow> gc_error + unit" where
  "check_manifest_against_record p name id_count = (case load_version_record p name of
       None \<Rightarrow> Inr ()
     | Some r \<Rightarrow> if dv_rows_stored r \<and> dv_stored_row_count r \<noteq> id_count
                then Inl IncompleteReferenceScan else Inr ())"

fun scan_manifests ::
  "gc_env \<Rightarrow> project \<Rightarrow> (string \<times> bytes) list \<Rightarrow> string set \<Rightarrow> gc_error + string set" where
  "scan_manifests env p [] live = Inr live"
| "scan_manifests env p ((name, content) # rest) live =
     (if \<not> ge_manifest_readable env name then Inl GcOSError
      else case manifest_ids (read_lines content) of
        Inl e \<Rightarrow> Inl e
      | Inr ids \<Rightarrow>
          (case check_manifest_against_record p name (length ids) of
             Inl e \<Rightarrow> Inl e
           | Inr _ \<Rightarrow> scan_manifests env p rest (live \<union> set ids)))"

definition collect_referenced_row_ids :: "gc_env \<Rightarrow> project \<Rightarrow> gc_error + string set" where
  "collect_referenced_row_ids env p =
     (if \<not> pj_dir p then Inr {} else scan_manifests env p (sort_key fst (pj_manifests p)) {})"

text \<open>The loop over the store lines: \<open>(kept, scanned, pruned)\<close>.\<close>

definition gc_line ::
  "runtime \<Rightarrow> string set \<Rightarrow> bytes \<Rightarrow> bytes list \<times> nat \<times> nat \<Rightarrow> bytes list \<times> nat \<times> nat" where
  "gc_line rt referenced line st =
     (case st of (kept, scanned, pruned) \<Rightarrow>
       (let stripped = json_strip line in
        if stripped = [] then (kept, scanned, pruned)
        else case row_id_of rt stripped of
          None \<Rightarrow> (kept @ [stripped], scanned, pruned)
        | Some rid \<Rightarrow>
            if rid \<in> referenced then (kept @ [stripped], scanned + 1, pruned)
            else (kept, scanned + 1, pruned + 1)))"

definition gc_row_store_locked ::
  "runtime \<Rightarrow> gc_env \<Rightarrow> bool \<Rightarrow> project \<Rightarrow> (gc_error + gc_result) \<times> project" where
  "gc_row_store_locked rt env dry_run p =
     (case collect_referenced_row_ids env p of
        Inl e \<Rightarrow> (Inl e, p)
      | Inr referenced \<Rightarrow>
          (case pj_store p of
             None \<Rightarrow> (Inr \<lparr>gc_referenced_row_ids = card referenced, gc_scanned_rows = 0,
                           gc_kept_rows = 0, gc_pruned_rows = 0, gc_dry_run = dry_run\<rparr>, p)
           | Some content \<Rightarrow>
               if \<not> ge_store_readable env then (Inl GcOSError, p)
               else
                 (case fold (gc_line rt referenced) (read_lines content) ([], 0, 0) of
                    (kept, scanned, pruned) \<Rightarrow>
                      (let res = \<lparr>gc_referenced_row_ids = card referenced, gc_scanned_rows = scanned,
                                  gc_kept_rows = scanned - pruned, gc_pruned_rows = pruned,
                                  gc_dry_run = dry_run\<rparr>
                       in if pruned \<noteq> 0 \<and> \<not> dry_run
                          then if ge_replace_ok env
                               then (Inr res, p\<lparr>pj_store := Some (lines_file kept)\<rparr>)
                               else (Inl RowStoreGcRefused, p)
                          else (Inr res, p)))))"

definition gc_row_store ::
  "runtime \<Rightarrow> gc_env \<Rightarrow> bool \<Rightarrow> project \<Rightarrow> (gc_error + gc_result) \<times> project" where
  "gc_row_store rt env dry_run p =
     (if \<not> pj_dir p
      then (Inr \<lparr>gc_referenced_row_ids = 0, gc_scanned_rows = 0, gc_kept_rows = 0,
                 gc_pruned_rows = 0, gc_dry_run = dry_run\<rparr>, p)
      else if ge_lock env \<noteq> LockAcquired then (Inl (GcLock (ge_lock env)), p)
      else gc_row_store_locked rt env dry_run p)"


section \<open>The live set\<close>

text \<open>The manifest lines, read without any check.\<close>

definition manifest_lines :: "bytes \<Rightarrow> string list" where
  "manifest_lines content = stripped_lines content"

definition live_ids :: "project \<Rightarrow> string set" where
  "live_ids p = (\<Union>(name, content) \<in> set (pj_manifests p). set (stripped_lines content))"

lemma read_lines_stripped: "filter (\<lambda>l. l \<noteq> []) (map json_strip (read_lines c)) = stripped_lines c"
  by (simp add: read_lines_def stripped_lines_def)

lemma manifest_ids_eq:
  "manifest_ids ls = (let ids = filter (\<lambda>l. l \<noteq> []) (map json_strip ls) in
     if list_all hex_id ids then Inr ids else Inl IncompleteReferenceScan)"
  by (induction ls) (simp_all add: Let_def)

lemma manifest_ids_lines:
  "manifest_ids (read_lines c) = (if list_all hex_id (stripped_lines c) then Inr (stripped_lines c)
     else Inl IncompleteReferenceScan)"
  by (simp add: manifest_ids_eq Let_def read_lines_stripped)

text \<open>One manifest that the scan accepts.\<close>

definition manifest_trusted :: "gc_env \<Rightarrow> project \<Rightarrow> string \<Rightarrow> bytes \<Rightarrow> bool" where
  "manifest_trusted env p name content \<longleftrightarrow>
     ge_manifest_readable env name
   \<and> list_all hex_id (stripped_lines content)
   \<and> (case load_version_record p name of None \<Rightarrow> True
      | Some r \<Rightarrow> dv_rows_stored r \<longrightarrow> dv_stored_row_count r = length (stripped_lines content))"

lemma scan_manifests_Cons:
  "scan_manifests env p ((name, content) # rest) live = Inr out \<longleftrightarrow>
     manifest_trusted env p name content
   \<and> scan_manifests env p rest (live \<union> set (stripped_lines content)) = Inr out"
  by (auto simp: manifest_ids_lines manifest_trusted_def check_manifest_against_record_def
           split: option.splits)

lemma scan_manifests_Inr:
  "scan_manifests env p ms live = Inr out \<longleftrightarrow>
     (\<forall>(name, content) \<in> set ms. manifest_trusted env p name content)
   \<and> out = live \<union> (\<Union>(name, content) \<in> set ms. set (stripped_lines content))"
proof (induction ms arbitrary: live)
  case (Cons m ms)
  then show ?case by (cases m) (simp only: scan_manifests_Cons, auto)
qed auto

lemma collect_Inr:
  "pj_dir p \<Longrightarrow> collect_referenced_row_ids env p = Inr live \<longleftrightarrow>
     (\<forall>(name, content) \<in> set (pj_manifests p). manifest_trusted env p name content) \<and> live = live_ids p"
  by (simp add: collect_referenced_row_ids_def scan_manifests_Inr live_ids_def)

lemma collect_live: "pj_dir p \<Longrightarrow> collect_referenced_row_ids env p = Inr live \<Longrightarrow> live = live_ids p"
  by (simp add: collect_Inr)


section \<open>The store lines\<close>

definition keeps_line :: "runtime \<Rightarrow> string set \<Rightarrow> bytes \<Rightarrow> bool" where
  "keeps_line rt referenced l \<longleftrightarrow>
     (case row_id_of rt l of None \<Rightarrow> True | Some rid \<Rightarrow> rid \<in> referenced)"

lemma gc_fold:
  "fold (gc_line rt live) ls (kept, scanned, pruned) =
     (let ss = filter (\<lambda>l. l \<noteq> []) (map json_strip ls) in
      (kept @ filter (keeps_line rt live) ss,
       scanned + length (filter (\<lambda>l. row_id_of rt l \<noteq> None) ss),
       pruned + length (filter (\<lambda>l. \<not> keeps_line rt live l) ss)))"
  by (induction ls arbitrary: kept scanned pruned)
     (auto simp: gc_line_def keeps_line_def Let_def split: option.splits)

lemma row_id_of_entry:
  "row_id_of rt l = (case loads_object rt l of None \<Rightarrow> None | Some e \<Rightarrow> entry_id e)"
  by (auto simp: row_id_of_def loads_object_def entry_id_def split: option.splits json.splits)

text \<open>What a run does to the store, in terms of its lines.\<close>

definition no_bom_lines :: "project \<Rightarrow> bool" where
  "no_bom_lines p = (case pj_store p of None \<Rightarrow> True
     | Some content \<Rightarrow> list_all (\<lambda>l. \<not> has_prefix UTF8_BOM l) (stripped_lines content))"

definition swept_store :: "runtime \<Rightarrow> string set \<Rightarrow> bytes \<Rightarrow> bytes" where
  "swept_store rt live content = lines_file (filter (keeps_line rt live) (stripped_lines content))"

definition sweep_result :: "runtime \<Rightarrow> string set \<Rightarrow> bool \<Rightarrow> bytes \<Rightarrow> gc_result" where
  "sweep_result rt live dry content =
     (let ls = stripped_lines content;
          scanned = length (filter (\<lambda>l. row_id_of rt l \<noteq> None) ls);
          pruned = length (filter (\<lambda>l. \<not> keeps_line rt live l) ls)
      in \<lparr>gc_referenced_row_ids = card live, gc_scanned_rows = scanned,
          gc_kept_rows = scanned - pruned, gc_pruned_rows = pruned, gc_dry_run = dry\<rparr>)"

lemma gc_locked_eq:
  assumes "pj_dir p" and "collect_referenced_row_ids env p = Inr live" and "pj_store p = Some content"
  shows "gc_row_store_locked rt env dry p =
    (if \<not> ge_store_readable env then (Inl GcOSError, p)
     else if gc_pruned_rows (sweep_result rt live dry content) = 0 \<or> dry
     then (Inr (sweep_result rt live dry content), p)
     else if ge_replace_ok env
     then (Inr (sweep_result rt live dry content), p\<lparr>pj_store := Some (swept_store rt live content)\<rparr>)
     else (Inl RowStoreGcRefused, p))"
  using assms
  by (simp add: gc_row_store_locked_def gc_fold read_lines_stripped Let_def swept_store_def
        sweep_result_def)

lemma gc_cases:
  obtains (same) "snd (gc_row_store rt env dry p) = p"
  | (swept) content where "pj_dir p" "pj_store p = Some content" "\<not> dry"
      "collect_referenced_row_ids env p = Inr (live_ids p)"
      "gc_pruned_rows (sweep_result rt (live_ids p) dry content) \<noteq> 0"
      "gc_row_store rt env dry p = (Inr (sweep_result rt (live_ids p) dry content),
         p\<lparr>pj_store := Some (swept_store rt (live_ids p) content)\<rparr>)"
proof (cases "pj_dir p \<and> ge_lock env = LockAcquired")
  case True
  then have eq: "gc_row_store rt env dry p = gc_row_store_locked rt env dry p"
    by (simp add: gc_row_store_def)
  show ?thesis
  proof (cases "collect_referenced_row_ids env p")
    case (Inl e)
    then have "snd (gc_row_store rt env dry p) = p" by (simp add: eq gc_row_store_locked_def)
    then show ?thesis by (rule same)
  next
    case (Inr live)
    with True have live: "live = live_ids p" by (simp add: collect_Inr)
    show ?thesis
    proof (cases "pj_store p")
      case None
      with Inr have "snd (gc_row_store rt env dry p) = p" by (simp add: eq gc_row_store_locked_def)
      then show ?thesis by (rule same)
    next
      case (Some content)
      from True have dir: "pj_dir p" by simp
      from gc_locked_eq [OF dir Inr Some, of rt dry] same swept [OF dir Some] Inr show ?thesis
        unfolding eq live by (auto split: if_splits)
    qed
  qed
next
  case False
  then have "snd (gc_row_store rt env dry p) = p" by (simp add: gc_row_store_def)
  then show ?thesis by (rule same)
qed

lemma stripped_lines_clean: "l \<in> set (stripped_lines c) \<Longrightarrow> l \<noteq> [] \<and> nl \<notin> set l \<and> json_strip l = l"
  unfolding stripped_lines_text by (rule text_lines_clean)

lemma swept_lines:
  assumes "\<forall>l \<in> set (stripped_lines content). \<not> has_prefix UTF8_BOM l"
  shows "stripped_lines (swept_store rt live content) = filter (keeps_line rt live) (stripped_lines content)"
  unfolding swept_store_def lines_file_def
proof (rule stripped_lines_rewrite)
  let ?ls = "filter (keeps_line rt live) (stripped_lines content)"
  show "\<forall>l \<in> set ?ls. l \<noteq> [] \<and> nl \<notin> set l \<and> json_strip l = l"
    using stripped_lines_clean by auto
  assume "?ls \<noteq> []"
  then have "hd ?ls \<in> set ?ls" by (rule hd_in_set)
  with assms show "\<not> has_prefix UTF8_BOM (hd ?ls)" by simp
qed

lemma map_filter_keeps:
  "List.map_filter (loads_object rt) (filter (keeps_line rt live) ls) =
     filter (\<lambda>e. case entry_id e of None \<Rightarrow> True | Some rid \<Rightarrow> rid \<in> live) (List.map_filter (loads_object rt) ls)"
  by (induction ls) (auto simp: map_filter_simps keeps_line_def row_id_of_entry split: option.splits)

lemma swept_entries:
  assumes "\<forall>l \<in> set (stripped_lines content). \<not> has_prefix UTF8_BOM l"
  shows "iter_store_entries rt None (swept_store rt live content) =
     filter (\<lambda>e. case entry_id e of None \<Rightarrow> True | Some rid \<Rightarrow> rid \<in> live) (iter_store_entries rt None content)"
  by (simp add: iter_store_entries_lines swept_lines [OF assms] map_filter_keeps)


section \<open>Properties of the collector\<close>

definition sample_env :: gc_env where
  "sample_env = \<lparr>ge_lock = LockAcquired, ge_manifest_readable = (\<lambda>_. True),
     ge_store_readable = True, ge_replace_ok = True\<rparr>"

definition sample_record :: "nat \<Rightarrow> version_record" where
  "sample_record n = \<lparr>dv_version_id = ''v1'', dv_created_at = ''t'', dv_updated_at = ''t'', dv_label = [],
     dv_trigger = ''manual'', dv_row_count = n, dv_content_fingerprint = None,
     dv_fingerprint_algo = FINGERPRINT_ALGO, dv_row_signature_kind = ROW_SIGNATURE_EXACT,
     dv_source_run_ids = [], dv_artifact_ids = [], dv_eval_report_path = None,
     dv_gate_report_path = None, dv_notes = [], dv_rows_stored = True, dv_stored_row_count = n,
     dv_row_manifest_algo = Some ROW_MANIFEST_ALGO\<rparr>"

definition sample_content :: bytes where
  "sample_content = lines_file [line_a, line_b, line_c] @ ''torn''"

text \<open>Three stored rows and a torn line; the only version holds the first row twice and the
  second row once.\<close>

definition sample_project :: project where
  "sample_project = \<lparr>pj_dir = True, pj_store = Some sample_content,
     pj_manifests = [(''v1'', lines_file [id_a, id_b, id_a])],
     pj_records = [(''v1'', Some (sample_record 3))]\<rparr>"

lemma sample_no_bom: "no_bom_lines sample_project"
  by code_simp

lemma sample_run:
  "gc_row_store sample_rt sample_env False sample_project =
     (Inr \<lparr>gc_referenced_row_ids = 2, gc_scanned_rows = 3, gc_kept_rows = 2,
       gc_pruned_rows = 1, gc_dry_run = False\<rparr>,
      sample_project\<lparr>pj_store := Some (lines_file [line_a, line_b, ''torn''])\<rparr>)"
  by code_simp

lemma gc_keeps_rows:
  assumes "no_bom_lines p" and "ids \<subseteq> live_ids p"
  shows "load_rows_by_id rt None (pj_store (snd (gc_row_store rt env dry p))) ids
           = load_rows_by_id rt None (pj_store p) ids
       \<and> pj_manifests (snd (gc_row_store rt env dry p)) = pj_manifests p
       \<and> pj_records (snd (gc_row_store rt env dry p)) = pj_records p"
proof (cases rule: gc_cases [of rt env dry p])
  case (swept content)
  with assms(1) have nb: "\<forall>l \<in> set (stripped_lines content). \<not> has_prefix UTF8_BOM l"
    by (simp add: no_bom_lines_def list_all_iff)
  have "find_rows ids [] (filter (\<lambda>e. case entry_id e of None \<Rightarrow> True | Some rid \<Rightarrow> rid \<in> live_ids p)
          (iter_store_entries rt None content)) = find_rows ids [] (iter_store_entries rt None content)"
    by (rule find_rows_filter) (use assms(2) in \<open>auto split: option.splits\<close>)
  with swept show ?thesis by (simp add: load_rows_by_id_def swept_entries [OF nb])
qed simp

text \<open>C5: Garbage collection never loses a referenced row. Whatever happens during the run
  (refusal, failure, dry run or a completed sweep), loading any set of row ids that version
  manifests name gives the same rows before and after, and no manifest or record changes.
  The store may hold torn or undecodable lines; only a line that begins with a byte order
  mark of its own is excluded, since rewriting the store could make it the first line.\<close>

theorem gc_keeps_live_rows:
  assumes "no_bom_lines p" and "ids \<subseteq> live_ids p"
  shows "load_rows_by_id rt None (pj_store (snd (gc_row_store rt env dry p))) ids
           = load_rows_by_id rt None (pj_store p) ids
       \<and> pj_manifests (snd (gc_row_store rt env dry p)) = pj_manifests p
       \<and> pj_records (snd (gc_row_store rt env dry p)) = pj_records p"
  using assms by (rule gc_keeps_rows)

theorem gc_keeps_live_rows_witness:
  "load_rows_by_id sample_rt None (pj_store (snd (gc_row_store sample_rt sample_env False sample_project)))
       {id_a, id_b}
     = load_rows_by_id sample_rt None (pj_store sample_project) {id_a, id_b}"
proof -
  note sample_no_bom
  moreover have "{id_a, id_b} \<subseteq> live_ids sample_project" by code_simp
  ultimately show ?thesis
    using gc_keeps_live_rows [of sample_project "{id_a, id_b}" sample_rt sample_env False]
    by blast
qed

text \<open>C27: A completed sweep removes exactly the unreferenced rows. The lines of the new store
  are the old ones, in order and with the edge whitespace stripped, without those that declare a
  row id no manifest names; a line the collector cannot classify stays. Of the lines with a row id
  the report counts all as scanned, those some manifest names as kept, and the others as removed.\<close>

theorem gc_removes_exactly_unreferenced:
  assumes "gc_row_store rt env False p = (Inr res, p')" and "pj_dir p" and "pj_store p = Some content"
    and "no_bom_lines p"
  shows "\<exists>content'. pj_store p' = Some content'
       \<and> stripped_lines content' =
           filter (\<lambda>l. case row_id_of rt l of None \<Rightarrow> True | Some rid \<Rightarrow> rid \<in> live_ids p) (stripped_lines content)
       \<and> gc_scanned_rows res = length (List.map_filter (row_id_of rt) (stripped_lines content))
       \<and> gc_kept_rows res = length (filter (\<lambda>rid. rid \<in> live_ids p) (List.map_filter (row_id_of rt) (stripped_lines content)))
       \<and> gc_pruned_rows res = length (filter (\<lambda>rid. rid \<notin> live_ids p) (List.map_filter (row_id_of rt) (stripped_lines content)))"
proof -
  have keeps: "keeps_line rt (live_ids p) = (\<lambda>l. case row_id_of rt l of None \<Rightarrow> True | Some rid \<Rightarrow> rid \<in> live_ids p)"
    by (simp add: keeps_line_def [abs_def])
  have counts: "length (filter (\<lambda>l. row_id_of rt l \<noteq> None) ls) = length (List.map_filter (row_id_of rt) ls)"
    "length (filter (\<lambda>l. \<not> keeps_line rt L l) ls) = length (filter (\<lambda>rid. rid \<notin> L) (List.map_filter (row_id_of rt) ls))" for ls L
    by (induction ls) (auto simp: keeps_line_def map_filter_simps split: option.splits)
  note counts = counts [simplified]
  have kept: "length ids - length (filter (\<lambda>rid. rid \<notin> L) ids) = length (filter (\<lambda>rid. rid \<in> L) ids)" for ids and L :: "string set"
    using sum_length_filter_compl [of "\<lambda>rid. rid \<in> L" ids] by simp
  have nb: "\<forall>l \<in> set (stripped_lines content). \<not> has_prefix UTF8_BOM l"
    using assms(3,4) by (simp add: no_bom_lines_def list_all_iff)
  from assms have run: "gc_row_store_locked rt env False p = (Inr res, p')"
    by (auto simp: gc_row_store_def split: if_splits)
  then obtain live where live: "collect_referenced_row_ids env p = Inr live"
    by (auto simp: gc_row_store_locked_def split: sum.splits)
  with assms(2) have [simp]: "live = live_ids p" by (simp add: collect_Inr)
  let ?S = "sweep_result rt (live_ids p) False content"
  from gc_locked_eq [OF assms(2) live assms(3), of rt False] run
  have res: "res = ?S" and p': "p' = (if gc_pruned_rows ?S = 0 then p
      else p\<lparr>pj_store := Some (swept_store rt (live_ids p) content)\<rparr>)"
    by (auto split: if_splits)
  have "filter (keeps_line rt (live_ids p)) (stripped_lines content) = stripped_lines content"
    if "gc_pruned_rows ?S = 0"
    using that by (simp add: sweep_result_def Let_def filter_empty_conv filter_id_conv)
  then have "\<exists>content'. pj_store p' = Some content'
      \<and> stripped_lines content' = filter (keeps_line rt (live_ids p)) (stripped_lines content)"
    using p' assms(3) swept_lines [OF nb] by (auto split: if_splits)
  then show ?thesis
    by (auto simp: keeps [symmetric] res sweep_result_def Let_def counts kept)
qed

theorem gc_removes_exactly_unreferenced_witness:
  "\<exists>content'. pj_store (snd (gc_row_store sample_rt sample_env False sample_project)) = Some content'
     \<and> set (stripped_lines content') \<subseteq> set (stripped_lines sample_content)
     \<and> length (List.map_filter (row_id_of sample_rt) (stripped_lines sample_content)) = 3
     \<and> length (filter (\<lambda>rid. rid \<notin> live_ids sample_project) (List.map_filter (row_id_of sample_rt) (stripped_lines sample_content))) = 1"
proof -
  have p: "pj_dir sample_project" "pj_store sample_project = Some sample_content"
    by (simp_all add: sample_project_def)
  from gc_removes_exactly_unreferenced [OF sample_run p sample_no_bom] obtain content' where c:
    "pj_store (sample_project\<lparr>pj_store := Some (lines_file [line_a, line_b, ''torn''])\<rparr>) = Some content'"
    "stripped_lines content' = filter (\<lambda>l. case row_id_of sample_rt l of None \<Rightarrow> True | Some rid \<Rightarrow> rid \<in> live_ids sample_project)
      (stripped_lines sample_content)"
    "length (List.map_filter (row_id_of sample_rt) (stripped_lines sample_content)) = 3"
    "length (filter (\<lambda>rid. rid \<notin> live_ids sample_project) (List.map_filter (row_id_of sample_rt) (stripped_lines sample_content))) = 1"
    unfolding gc_result.simps by metis
  have "set (stripped_lines content') \<subseteq> set (stripped_lines sample_content)" unfolding c(2) by simp
  with c(1,3,4) show ?thesis unfolding sample_run snd_conv by blast
qed

text \<open>C19: Collection is fail closed. As soon as one manifest cannot be read, holds a line that
  is not a row id, or lists another number of rows than its committed record declares, the
  run ends in an error and nothing changes.\<close>

theorem gc_fail_closed:
  assumes "pj_dir p" and "(name, content) \<in> set (pj_manifests p)"
    and "\<not> ge_manifest_readable env name
       \<or> (\<exists>l \<in> set (stripped_lines content). \<not> hex_id l)
       \<or> (\<exists>r. load_version_record p name = Some r \<and> dv_rows_stored r
              \<and> dv_stored_row_count r \<noteq> length (stripped_lines content))"
  shows "\<exists>e. gc_row_store rt env dry p = (Inl e, p)"
proof -
  from assms(3) have "\<not> manifest_trusted env p name content"
    by (auto simp: manifest_trusted_def list_all_iff)
  with assms(1,2) have "collect_referenced_row_ids env p \<noteq> Inr live" for live
    by (auto simp: collect_Inr)
  then obtain e where "collect_referenced_row_ids env p = Inl e"
    by (cases "collect_referenced_row_ids env p") auto
  with assms(1) show ?thesis by (auto simp: gc_row_store_def gc_row_store_locked_def)
qed

theorem gc_fail_closed_witness:
  "\<exists>e. gc_row_store sample_rt sample_env False
        (sample_project\<lparr>pj_manifests := [(''v1'', ''not a row id'')]\<rparr>)
      = (Inl e, sample_project\<lparr>pj_manifests := [(''v1'', ''not a row id'')]\<rparr>)"
proof (rule gc_fail_closed)
  show "(''v1'', ''not a row id'') \<in> set (pj_manifests (sample_project\<lparr>pj_manifests := [(''v1'', ''not a row id'')]\<rparr>))"
    by simp
  have "\<exists>l \<in> set (stripped_lines ''not a row id''). \<not> hex_id l" by code_simp
  then show "\<not> ge_manifest_readable sample_env ''v1''
     \<or> (\<exists>l \<in> set (stripped_lines ''not a row id''). \<not> hex_id l)
     \<or> (\<exists>r. load_version_record (sample_project\<lparr>pj_manifests := [(''v1'', ''not a row id'')]\<rparr>) ''v1'' = Some r
          \<and> dv_rows_stored r \<and> dv_stored_row_count r \<noteq> length (stripped_lines ''not a row id''))"
    by blast
qed (simp add: sample_project_def)

text \<open>A dry run and a failed run leave the project exactly as it was, and a completed sweep
  leaves nothing to sweep: running the collector again at once removes no row and changes
  nothing.\<close>

theorem gc_again_is_noop:
  assumes "gc_row_store rt env dry p = (out, p')" and "no_bom_lines p"
  shows "(if dry \<or> (\<exists>e. out = Inl e) then p' = p
          else \<exists>res. gc_row_store rt env False p' = (Inr res, p') \<and> gc_pruned_rows res = 0)"
proof (cases rule: gc_cases [of rt env dry p])
  case same
  with assms(1) have [simp]: "p' = p" by simp
  have "\<exists>res. gc_row_store rt env False p = (Inr res, p) \<and> gc_pruned_rows res = 0"
    if o: "out = Inr res0" "\<not> dry" for res0
  proof (cases "pj_dir p")
    case True
    with assms(1) o have run: "gc_row_store_locked rt env False p = (Inr res0, p)"
      and eq: "gc_row_store rt env False p = gc_row_store_locked rt env False p"
      by (auto simp: gc_row_store_def split: if_splits)
    then obtain live where live: "collect_referenced_row_ids env p = Inr live"
      by (auto simp: gc_row_store_locked_def split: sum.splits)
    have l: "live = live_ids p" using collect_live [OF True live] .
    show ?thesis
    proof (cases "pj_store p")
      case None
      with live run show ?thesis unfolding eq by (auto simp: gc_row_store_locked_def)
    next
      case (Some content)
      with assms(2) have nb: "\<forall>l \<in> set (stripped_lines content). \<not> has_prefix UTF8_BOM l"
        by (simp add: no_bom_lines_def list_all_iff)
      have "gc_pruned_rows (sweep_result rt live False content) = 0"
        if "p = p\<lparr>pj_store := Some (swept_store rt live content)\<rparr>"
      proof -
        from that Some have "content = swept_store rt live content"
          by (metis option.inject project.select_convs(2) project.surjective project.update_convs(2))
        with swept_lines [OF nb, of rt live]
        have "stripped_lines content = filter (keeps_line rt live) (stripped_lines content)" by simp
        then have "\<forall>l \<in> set (stripped_lines content). keeps_line rt live l"
          by (metis filter_id_conv)
        then show ?thesis by (simp add: sweep_result_def Let_def)
      qed
      with gc_locked_eq [OF True live Some, of rt False] run show ?thesis
        unfolding eq by (auto split: if_splits)
    qed
  qed (use assms(1) o in \<open>auto simp: gc_row_store_def\<close>)
  then show ?thesis by (cases out) auto
next
  case (swept content)
  with assms(2) have nb: "\<forall>l \<in> set (stripped_lines content). \<not> has_prefix UTF8_BOM l"
    by (simp add: no_bom_lines_def list_all_iff)
  let ?c = "swept_store rt (live_ids p) content"
  from swept assms(1) have p': "p' = p\<lparr>pj_store := Some ?c\<rparr>" and out: "\<exists>res. out = Inr res" by auto
  have "collect_referenced_row_ids env p' = Inr (live_ids p)"
    using swept(1,4) by (simp add: collect_Inr p' manifest_trusted_def load_version_record_def live_ids_def)
  moreover have "gc_pruned_rows (sweep_result rt (live_ids p) False ?c) = 0"
    by (simp add: sweep_result_def Let_def swept_lines [OF nb])
  moreover have "ge_store_readable env" "ge_lock env = LockAcquired"
    using swept by (auto simp: gc_row_store_def gc_locked_eq split: if_splits)
  ultimately have "gc_row_store rt env False p' = (Inr (sweep_result rt (live_ids p) False ?c), p')"
    using gc_locked_eq [of p' env "live_ids p" ?c rt False] swept(1) by (simp add: gc_row_store_def p')
  with \<open>gc_pruned_rows (sweep_result rt (live_ids p) False ?c) = 0\<close> swept(3) out show ?thesis by auto
qed

theorem gc_again_is_noop_witness:
  "\<exists>res. gc_row_store sample_rt sample_env False
       (sample_project\<lparr>pj_store := Some (lines_file [line_a, line_b, ''torn''])\<rparr>)
     = (Inr res, sample_project\<lparr>pj_store := Some (lines_file [line_a, line_b, ''torn''])\<rparr>)
     \<and> gc_pruned_rows res = 0"
  using gc_again_is_noop [OF sample_run sample_no_bom] by simp

end
