(* ===== verification/Version_Capture.thy ===== *)
theory Version_Capture
  imports Jsonl Version_Gc
begin

text \<open>
  Capturing a dataset version (\<open>versions/version_registry.py\<close>): one pass over the dataset
  computes the fingerprint and the row ids and appends the rows the store does not have;
  publication then writes the manifest and, last, the record. Every input/output failure the
  code handles is a component of the environment records, so the theorems hold whatever
  fails.
\<close>

section \<open>The fingerprint\<close>

definition feed :: "runtime \<Rightarrow> json \<Rightarrow> bytes \<times> nat \<Rightarrow> bytes \<times> nat" where
  "feed rt row st = (case st of (digest, n) \<Rightarrow>
     ((if n \<noteq> 0 then digest @ [nl] else digest) @ utf8 (exact_signature rt row), n + 1))"

definition fingerprint_dataset ::
  "runtime \<Rightarrow> nat option \<Rightarrow> bytes option \<Rightarrow> string option \<times> nat" where
  "fingerprint_dataset rt fault examples = (case examples of
       None \<Rightarrow> (None, 0)
     | Some content \<Rightarrow>
         (case read_jsonl rt fault content of (rows, raised) \<Rightarrow>
            if raised then (None, 0)
            else (case fold (feed rt) rows ([], 0) of (digest, n) \<Rightarrow>
                    (Some (sha256_hex rt digest), n))))"

definition current_integrity ::
  "runtime \<Rightarrow> nat option \<Rightarrow> version_record \<Rightarrow> bytes option \<Rightarrow> string" where
  "current_integrity rt fault r examples =
     integrity_from_fingerprints (dv_content_fingerprint r) (fst (fingerprint_dataset rt fault examples))"


section \<open>The capture pass\<close>

record dataset_capture =
  dc_content_fingerprint :: "string option"
  dc_row_count :: nat
  dc_row_ids :: "string list"
  dc_new_rows_stored :: nat
  dc_rows_stored :: bool

definition empty_capture :: dataset_capture where
  "empty_capture = \<lparr>dc_content_fingerprint = None, dc_row_count = 0, dc_row_ids = [],
     dc_new_rows_stored = 0, dc_rows_stored = False\<rparr>"

text \<open>The environment of one capture. \<open>ce_write_fault = Some k\<close> makes the \<open>k\<close>-th write to the
  store raise; when a write or the final flush fails, \<open>ce_landed\<close> says how many of the
  buffered bytes had reached the disk.\<close>

record capture_env =
  ce_lock :: lock_outcome
  ce_dataset_fault :: "nat option"
  ce_repair_ok :: bool
  ce_ids_fault :: "nat option"
  ce_stat_ok :: bool
  ce_open_ok :: bool
  ce_write_fault :: "nat option"
  ce_close_ok :: bool
  ce_landed :: nat
  ce_truncate_ok :: bool

definition truncate_row_store :: "bool \<Rightarrow> bytes option \<Rightarrow> nat option \<Rightarrow> bytes option" where
  "truncate_row_store truncate_ok store store_size = (case (store, store_size) of
       (Some content, Some n) \<Rightarrow>
         if n < length content \<and> truncate_ok then Some (take n content) else Some content
     | _ \<Rightarrow> store)"

record capture_state =
  cs_digest :: "bytes \<times> nat"
  cs_row_ids :: "string list"
  cs_existing :: "string set"
  cs_opened :: bool
  cs_pending :: bytes
  cs_new_stored :: nat
  cs_store_failed :: bool

definition capture_row ::
  "runtime \<Rightarrow> capture_env \<Rightarrow> bool \<Rightarrow> json \<Rightarrow> capture_state \<Rightarrow> capture_state" where
  "capture_row rt env store_rows row st =
     (let rid = row_id rt row;
          st1 = st\<lparr>cs_digest := feed rt row (cs_digest st), cs_row_ids := cs_row_ids st @ [rid]\<rparr>
      in if store_rows \<and> \<not> cs_store_failed st \<and> rid \<notin> cs_existing st
         then let st2 = st1\<lparr>cs_existing := insert rid (cs_existing st)\<rparr>
              in if \<not> cs_opened st \<and> \<not> ce_open_ok env then st2\<lparr>cs_store_failed := True\<rparr>
                 else let st3 = st2\<lparr>cs_opened := True,
                                    cs_pending := cs_pending st @ utf8 (store_line rt rid row)\<rparr>
                      in if ce_write_fault env = Some (cs_new_stored st)
                         then st3\<lparr>cs_store_failed := True\<rparr>
                         else st3\<lparr>cs_new_stored := cs_new_stored st + 1\<rparr>
         else st1)"

definition capture_pass ::
  "runtime \<Rightarrow> capture_env \<Rightarrow> bool \<Rightarrow> bytes \<Rightarrow> bytes option \<Rightarrow> dataset_capture \<times> bytes option" where
  "capture_pass rt env store_rows content store =
     (let repaired = (if store_rows then terminate_torn_tail (ce_repair_ok env) store else Inr (False, store));
          store0 = (case repaired of Inl _ \<Rightarrow> store | Inr (_, s) \<Rightarrow> s);
          failed0 = (case repaired of Inl _ \<Rightarrow> True | Inr _ \<Rightarrow> False);
          existing = (if store_rows then load_row_id_set rt (ce_ids_fault env) store0 else {});
          start_size = (case store0 of None \<Rightarrow> Some 0
                        | Some c \<Rightarrow> if ce_stat_ok env then Some (length c) else None);
          (rows, unreadable) = read_jsonl rt (ce_dataset_fault env) content;
          st = fold (capture_row rt env store_rows) rows
                 \<lparr>cs_digest = ([], 0), cs_row_ids = [], cs_existing = existing, cs_opened = False,
                  cs_pending = [], cs_new_stored = 0, cs_store_failed = failed0\<rparr>;
          store_failed = (cs_store_failed st \<or> (cs_opened st \<and> \<not> ce_close_ok env));
          on_disk = (if \<not> cs_opened st then store0
                     else append_bytes store0
                            (if store_failed then take (ce_landed env) (cs_pending st) else cs_pending st));
          final = (if store_rows \<and> (unreadable \<or> store_failed)
                   then truncate_row_store (ce_truncate_ok env) on_disk start_size else on_disk)
      in (if unreadable then empty_capture
          else \<lparr>dc_content_fingerprint = Some (sha256_hex rt (fst (cs_digest st))),
                dc_row_count = snd (cs_digest st), dc_row_ids = cs_row_ids st,
                dc_new_rows_stored = (if store_failed then 0 else cs_new_stored st),
                dc_rows_stored = (store_rows \<and> \<not> store_failed)\<rparr>,
          final))"

text \<open>With \<open>store_rows\<close> the pass runs under the version-store lock, whose file creates the
  directory.\<close>

definition capture_dataset ::
  "runtime \<Rightarrow> capture_env \<Rightarrow> bool \<Rightarrow> bytes option \<Rightarrow> project \<Rightarrow> (lock_outcome + dataset_capture) \<times> project" where
  "capture_dataset rt env store_rows examples p = (case examples of
       None \<Rightarrow> (Inr empty_capture, p)
     | Some content \<Rightarrow>
         if \<not> store_rows then (Inr (fst (capture_pass rt env False content (pj_store p))), p)
         else if ce_lock env \<noteq> LockAcquired then (Inl (ce_lock env), p)
         else (case capture_pass rt env True content (pj_store p) of
                 (cap, store) \<Rightarrow> (Inr cap, p\<lparr>pj_dir := True, pj_store := store\<rparr>)))"


section \<open>Publication\<close>

record publish_request =
  pr_label :: string
  pr_trigger :: string
  pr_store_rows :: bool
  pr_source_run_ids :: "string list"
  pr_artifact_ids :: "string list"
  pr_eval_report_path :: "string option"
  pr_gate_report_path :: "string option"

text \<open>The clock, the random token and the outcome of the two file writes.\<close>

record publish_env =
  pe_timestamp :: string
  pe_suffix :: string
  pe_now_iso :: string
  pe_manifest_ok :: bool
  pe_record_ok :: bool

datatype publish_error = PublishLock lock_outcome | PublishRegistry registry_error

definition published_record ::
  "publish_request \<Rightarrow> publish_env \<Rightarrow> dataset_capture \<Rightarrow> version_record" where
  "published_record req pe cap =
     \<lparr>dv_version_id = mint_version_id (pe_timestamp pe) (pe_suffix pe),
      dv_created_at = pe_now_iso pe, dv_updated_at = pe_now_iso pe,
      dv_label = pr_label req, dv_trigger = pr_trigger req, dv_row_count = dc_row_count cap,
      dv_content_fingerprint = dc_content_fingerprint cap,
      dv_fingerprint_algo = FINGERPRINT_ALGO, dv_row_signature_kind = ROW_SIGNATURE_EXACT,
      dv_source_run_ids = pr_source_run_ids req, dv_artifact_ids = pr_artifact_ids req,
      dv_eval_report_path = pr_eval_report_path req, dv_gate_report_path = pr_gate_report_path req,
      dv_notes = [], dv_rows_stored = dc_rows_stored cap,
      dv_stored_row_count = (if dc_rows_stored cap then dc_row_count cap else 0),
      dv_row_manifest_algo = (if dc_rows_stored cap then Some ROW_MANIFEST_ALGO else None)\<rparr>"

definition publish_dataset_version ::
  "runtime \<Rightarrow> capture_env \<Rightarrow> publish_env \<Rightarrow> publish_request \<Rightarrow> bytes option \<Rightarrow> project
     \<Rightarrow> (publish_error + version_record \<times> dataset_capture) \<times> project" where
  "publish_dataset_version rt env pe req examples p =
     (if pr_store_rows req \<and> ce_lock env \<noteq> LockAcquired then (Inl (PublishLock (ce_lock env)), p)
      else
        (case capture_dataset rt env (pr_store_rows req) examples
                (if pr_store_rows req then p\<lparr>pj_dir := True\<rparr> else p) of
           (Inl l, p1) \<Rightarrow> (Inl (PublishLock l), p1)
         | (Inr cap, p1) \<Rightarrow>
             (let r = published_record req pe cap;
                  (manifest, p2) = (if dc_rows_stored cap
                     then save_row_manifest (pe_manifest_ok pe) (dv_version_id r) (dc_row_ids cap) p1
                     else (Inr [], p1))
              in case manifest of
                   Inl e \<Rightarrow> (Inl (PublishRegistry e), p2)
                 | Inr _ \<Rightarrow>
                     (case save_version_record (pe_record_ok pe) r p2 of
                        (Inl e, p3) \<Rightarrow> (Inl (PublishRegistry e), p3)
                      | (Inr _, p3) \<Rightarrow> (Inr (r, cap), p3)))))"


section \<open>What the pass computes\<close>

definition joined_signatures :: "runtime \<Rightarrow> json list \<Rightarrow> bytes" where
  "joined_signatures rt rows = join [nl] (map (\<lambda>r. utf8 (exact_signature rt r)) rows)"

lemma join_snoc: "join sep (xs @ [x]) = (if xs = [] then x else join sep xs @ sep @ x)"
  by (induction sep xs rule: join.induct) auto

lemma fold_feed: "fold (feed rt) rows ([], 0) = (joined_signatures rt rows, length rows)"
  by (induction rows rule: rev_induct) (auto simp: feed_def joined_signatures_def join_snoc)

definition capture_start :: "string set \<Rightarrow> bool \<Rightarrow> capture_state" where
  "capture_start existing failed = \<lparr>cs_digest = ([], 0), cs_row_ids = [], cs_existing = existing,
     cs_opened = False, cs_pending = [], cs_new_stored = 0, cs_store_failed = failed\<rparr>"

lemma capture_fold_identity:
  "cs_digest (fold (capture_row rt env sr) rows st) = fold (feed rt) rows (cs_digest st)
   \<and> cs_row_ids (fold (capture_row rt env sr) rows st) = cs_row_ids st @ map (row_id rt) rows"
  by (induction rows arbitrary: st) (auto simp: capture_row_def Let_def)

text \<open>The pairs of the rows with their ids, and the bytes of the lines appended for them.\<close>

definition with_ids :: "runtime \<Rightarrow> json list \<Rightarrow> (string \<times> json) list" where
  "with_ids rt rows = map (\<lambda>r. (row_id rt r, r)) rows"

definition lines_bytes :: "runtime \<Rightarrow> (string \<times> json) list \<Rightarrow> bytes" where
  "lines_bytes rt rrs = concat (map (\<lambda>rr. utf8 (store_line rt (fst rr) (snd rr))) rrs)"

lemma fold_put_row: "fold (put_row rt) rrs c = c @ lines_bytes rt rrs"
  by (induction rrs arbitrary: c) (simp_all add: put_row_def lines_bytes_def)

text \<open>While no write has failed, what is pending is exactly the fresh rows.\<close>

definition capture_inv ::
  "runtime \<Rightarrow> string set \<Rightarrow> json list \<Rightarrow> capture_state \<Rightarrow> bool" where
  "capture_inv rt existing rows st \<longleftrightarrow>
     (\<exists>done. cs_pending st = lines_bytes rt done \<and> set done \<subseteq> set (with_ids rt rows)
        \<and> (\<not> cs_store_failed st \<longrightarrow> done = fresh existing (with_ids rt rows)
             \<and> cs_existing st = existing \<union> row_id rt ` set rows)
        \<and> (cs_opened st \<or> done = []))"

lemma capture_row_failed:
  "cs_store_failed st \<Longrightarrow> capture_row rt env sr row st =
     st\<lparr>cs_digest := feed rt row (cs_digest st), cs_row_ids := cs_row_ids st @ [row_id rt row]\<rparr>"
  by (simp add: capture_row_def Let_def)

lemma capture_inv_step:
  assumes "capture_inv rt existing rows st"
  shows "capture_inv rt existing (rows @ [row]) (capture_row rt env True row st)"
proof -
  from assms obtain ws where w: "cs_pending st = lines_bytes rt ws" "set ws \<subseteq> set (with_ids rt rows)"
      "\<not> cs_store_failed st \<Longrightarrow> ws = fresh existing (with_ids rt rows)"
      "\<not> cs_store_failed st \<Longrightarrow> cs_existing st = existing \<union> row_id rt ` set rows"
      "cs_opened st \<or> ws = []"
    by (auto simp: capture_inv_def)
  have ids: "fst ` set (with_ids rt rows) = row_id rt ` set rows"
    by (simp add: with_ids_def image_image)
  have snoc: "with_ids rt (rows @ [row]) = with_ids rt rows @ [(row_id rt row, row)]"
    by (simp add: with_ids_def)
  show ?thesis
  proof (cases "cs_store_failed st")
    case True
    with w show ?thesis
      by (auto simp: capture_row_failed capture_inv_def snoc intro!: exI [of _ ws])
  next
    case False
    note ws = w(3) [OF False] and ex = w(4) [OF False]
    show ?thesis
    proof (cases "row_id rt row \<in> cs_existing st")
      case True
      with False w(1,2,5) ws ex show ?thesis
        by (auto simp: capture_row_def Let_def capture_inv_def snoc fresh_snoc ids intro!: exI [of _ ws])
    next
      case new: False
      have pend: "lines_bytes rt (ws @ [(row_id rt row, row)])
          = cs_pending st @ utf8 (store_line rt (row_id rt row) row)"
        by (simp add: lines_bytes_def w(1))
      have fr: "fresh existing (with_ids rt (rows @ [row])) = ws @ [(row_id rt row, row)]"
        using new ex by (simp add: snoc fresh_snoc ids ws)
      show ?thesis
      proof (cases "\<not> cs_opened st \<and> \<not> ce_open_ok env")
        case True
        with False new w show ?thesis
          by (auto simp: capture_row_def Let_def capture_inv_def snoc lines_bytes_def intro!: exI [of _ "[]"])
      next
        case op: False
        have sub: "set (ws @ [(row_id rt row, row)]) \<subseteq> set (with_ids rt (rows @ [row]))"
          using w(2) by (auto simp: snoc)
        from False new op ex pend fr sub show ?thesis
          unfolding capture_inv_def
          by (intro exI [of _ "ws @ [(row_id rt row, row)]"]) (auto simp: capture_row_def Let_def)
      qed
    qed
  qed
qed

lemma capture_inv_fold:
  "capture_inv rt existing rows
     (fold (capture_row rt env True) rows (capture_start existing failed))"
proof (induction rows rule: rev_induct)
  case Nil
  show ?case by (auto simp: capture_inv_def capture_start_def lines_bytes_def with_ids_def)
next
  case (snoc r rows)
  from capture_inv_step [OF snoc, of r env] show ?case by simp
qed


section \<open>What the pass leaves in the store\<close>

definition store_bytes_of :: "bytes option \<Rightarrow> bytes" where
  "store_bytes_of store = (case store of None \<Rightarrow> [] | Some c \<Rightarrow> c)"

definition repaired_store :: "capture_env \<Rightarrow> bytes option \<Rightarrow> bytes option" where
  "repaired_store env store =
     (case terminate_torn_tail (ce_repair_ok env) store of Inl _ \<Rightarrow> store | Inr (_, s) \<Rightarrow> s)"

definition repair_failed :: "capture_env \<Rightarrow> bytes option \<Rightarrow> bool" where
  "repair_failed env store =
     (case terminate_torn_tail (ce_repair_ok env) store of Inl _ \<Rightarrow> True | Inr _ \<Rightarrow> False)"

definition known_ids :: "runtime \<Rightarrow> capture_env \<Rightarrow> bytes option \<Rightarrow> string set" where
  "known_ids rt env store = load_row_id_set rt (ce_ids_fault env) (repaired_store env store)"

definition final_state :: "runtime \<Rightarrow> capture_env \<Rightarrow> json list \<Rightarrow> bytes option \<Rightarrow> capture_state" where
  "final_state rt env rows store =
     fold (capture_row rt env True) rows (capture_start (known_ids rt env store) (repair_failed env store))"

definition pass_failed :: "capture_env \<Rightarrow> capture_state \<Rightarrow> bool" where
  "pass_failed env st \<longleftrightarrow> cs_store_failed st \<or> (cs_opened st \<and> \<not> ce_close_ok env)"

definition on_disk :: "capture_env \<Rightarrow> bytes option \<Rightarrow> capture_state \<Rightarrow> bytes option" where
  "on_disk env store0 st =
     (if \<not> cs_opened st then store0
      else append_bytes store0
             (if pass_failed env st then take (ce_landed env) (cs_pending st) else cs_pending st))"

lemma capture_pass_eq:
  assumes "read_jsonl rt (ce_dataset_fault env) content = (rows, unreadable)"
  shows "capture_pass rt env True content store =
    (let st = final_state rt env rows store;
         store0 = repaired_store env store;
         start_size = (case store0 of None \<Rightarrow> Some 0
                       | Some c \<Rightarrow> if ce_stat_ok env then Some (length c) else None)
     in (if unreadable then empty_capture
         else \<lparr>dc_content_fingerprint = Some (sha256_hex rt (joined_signatures rt rows)),
               dc_row_count = length rows, dc_row_ids = map (row_id rt) rows,
               dc_new_rows_stored = (if pass_failed env st then 0 else cs_new_stored st),
               dc_rows_stored = (\<not> pass_failed env st)\<rparr>,
         if unreadable \<or> pass_failed env st
         then truncate_row_store (ce_truncate_ok env) (on_disk env store0 st) start_size
         else on_disk env store0 st))"
  unfolding capture_pass_def Let_def assms
  by (simp add: final_state_def known_ids_def repaired_store_def repair_failed_def pass_failed_def
      on_disk_def capture_start_def capture_fold_identity fold_feed)

lemma capture_pass_False:
  assumes "read_jsonl rt (ce_dataset_fault env) content = (rows, unreadable)"
  shows "capture_pass rt env False content store =
    (if unreadable then empty_capture
     else \<lparr>dc_content_fingerprint = Some (sha256_hex rt (joined_signatures rt rows)),
           dc_row_count = length rows, dc_row_ids = map (row_id rt) rows,
           dc_new_rows_stored = 0, dc_rows_stored = False\<rparr>, store)"
proof -
  have idle: "cs_opened (fold (capture_row rt env False) rows st) = cs_opened st
      \<and> cs_new_stored (fold (capture_row rt env False) rows st) = cs_new_stored st" for st
    by (induction rows arbitrary: st) (auto simp: capture_row_def Let_def)
  show ?thesis
    unfolding capture_pass_def Let_def assms
    by (simp add: capture_fold_identity fold_feed idle)
qed

lemma repaired_complete: "\<not> repair_failed env store \<Longrightarrow> complete (store_bytes_of (repaired_store env store))"
  by (auto simp: repair_failed_def repaired_store_def terminate_torn_tail_def store_bytes_of_def
      complete_def split: option.splits)

lemma store_get_repaired: "store_get rt (repaired_store env store) = store_get rt store"
  by (auto simp: repaired_store_def terminate_torn_tail_def store_get_def fun_eq_iff split: option.splits)

lemma capture_failed_stays: "cs_store_failed st \<Longrightarrow> cs_store_failed (fold (capture_row rt env sr) rows st)
    \<and> cs_opened (fold (capture_row rt env sr) rows st) = cs_opened st"
  by (induction rows arbitrary: st) (auto simp: capture_row_failed)

lemma final_state_repair_failed:
  "repair_failed env store \<Longrightarrow> \<not> cs_opened (final_state rt env rows store)
     \<and> pass_failed env (final_state rt env rows store)"
  using capture_failed_stays [of "capture_start (known_ids rt env store) True" rt env True rows]
  by (simp add: final_state_def capture_start_def pass_failed_def)

text \<open>What was there is never touched: the final file is the repaired one followed by some
  initial part of the lines of some rows.\<close>

lemma capture_pass_extends:
  "snd (capture_pass rt env True content store) = repaired_store env store
   \<or> (\<not> repair_failed env store \<and> (\<exists>n rrs. snd (capture_pass rt env True content store)
        = Some (store_bytes_of (repaired_store env store) @ take n (lines_bytes rt rrs))))"
proof -
  obtain rows unreadable where r: "read_jsonl rt (ce_dataset_fault env) content = (rows, unreadable)" by force
  let ?st = "final_state rt env rows store" and ?s0 = "repaired_store env store"
  obtain rrs where rrs: "cs_pending ?st = lines_bytes rt rrs"
    using capture_inv_fold [of rt "known_ids rt env store" rows env "repair_failed env store"]
    by (auto simp: capture_inv_def final_state_def)
  have "\<exists>n. on_disk env ?s0 ?st = Some (store_bytes_of ?s0 @ take n (lines_bytes rt rrs))" if "cs_opened ?st"
  proof (cases "pass_failed env ?st")
    case True
    with that rrs show ?thesis by (auto simp: on_disk_def append_bytes_def store_bytes_of_def)
  next
    case False
    with that rrs show ?thesis
      by (auto simp: on_disk_def append_bytes_def store_bytes_of_def intro!: exI [of _ "length (lines_bytes rt rrs)"])
  qed
  then have od: "on_disk env ?s0 ?st = ?s0 \<or> (\<not> repair_failed env store \<and>
      (\<exists>n. on_disk env ?s0 ?st = Some (store_bytes_of ?s0 @ take n (lines_bytes rt rrs))))"
    using final_state_repair_failed [of env store rt rows] by (auto simp: on_disk_def)
  have tr: "truncate_row_store ok (Some (store_bytes_of ?s0 @ x)) (case ?s0 of None \<Rightarrow> Some 0
        | Some c \<Rightarrow> if b then Some (length c) else None) \<in> {Some (store_bytes_of ?s0), Some (store_bytes_of ?s0 @ x)}"
    for ok b x
    by (auto simp: truncate_row_store_def store_bytes_of_def split: option.splits)
  have tr0: "truncate_row_store ok ?s0 (case ?s0 of None \<Rightarrow> Some 0
        | Some c \<Rightarrow> if b then Some (length c) else None) = ?s0" for ok b
    by (auto simp: truncate_row_store_def split: option.splits)
  have "\<exists>m. truncate_row_store ok (Some (store_bytes_of ?s0 @ take n (lines_bytes rt rrs))) (case ?s0 of None \<Rightarrow> Some 0
        | Some c \<Rightarrow> if b then Some (length c) else None) = Some (store_bytes_of ?s0 @ take m (lines_bytes rt rrs))" for ok b n
    using tr [of ok "take n (lines_bytes rt rrs)" b] by (metis append_Nil2 insertE singletonD take0)
  note tr = this
  show ?thesis
  proof (cases "on_disk env ?s0 ?st = ?s0")
    case True
    then show ?thesis unfolding capture_pass_eq [OF r] Let_def True by (simp add: tr0)
  next
    case False
    with od obtain n where ok: "\<not> repair_failed env store"
      and n: "on_disk env ?s0 ?st = Some (store_bytes_of ?s0 @ take n (lines_bytes rt rrs))" by blast
    obtain m where m: "truncate_row_store (ce_truncate_ok env) (Some (store_bytes_of ?s0 @ take n (lines_bytes rt rrs)))
        (case ?s0 of None \<Rightarrow> Some 0 | Some c \<Rightarrow> if ce_stat_ok env then Some (length c) else None)
        = Some (store_bytes_of ?s0 @ take m (lines_bytes rt rrs))"
      using tr by blast
    have "snd (capture_pass rt env True content store) \<in>
        {Some (store_bytes_of ?s0 @ take m (lines_bytes rt rrs)), Some (store_bytes_of ?s0 @ take n (lines_bytes rt rrs))}"
      unfolding capture_pass_eq [OF r] Let_def n m by simp
    with ok show ?thesis by blast
  qed
qed

lemma store_get_extended:
  assumes "complete c" and "map_of (store_pairs rt c) k = Some v"
  shows "map_of (store_pairs rt (c @ x)) k = Some v"
proof (cases "c = []")
  case True
  with assms(2) show ?thesis
    by (simp add: store_pairs_def stripped_lines_text strip_bom_hd List.map_filter_def)
next
  case False
  with assms(1) obtain c' where c: "c = c' @ [nl]" by (cases c rule: rev_cases) (auto simp: complete_def)
  have split: "stripped_lines (c @ x) = stripped_lines c @ text_lines x"
    using text_lines_nl [of "strip_bom c'" x] text_lines_nl [of "strip_bom c'" "[]"]
    by (simp add: stripped_lines_text c strip_bom_append_nl)
  have "List.map_filter f (xs @ ys) = List.map_filter f xs @ List.map_filter f ys"
    for f :: "bytes \<Rightarrow> (string \<times> json) option" and xs ys
    by (simp add: List.map_filter_def)
  with assms(2) split show ?thesis
    by (simp add: store_pairs_def map_add_Some_iff)
qed


section \<open>Properties of a capture\<close>

lemma store_get_fresh:
  assumes "complete c" and "float_repr_ok (float_repr rt)"
    and "\<forall>rr \<in> set rrs. reads_back rt rr" and "\<forall>k \<in> seen. map_of (store_pairs rt c) k \<noteq> None"
  shows "map_of (store_pairs rt (c @ lines_bytes rt (fresh seen rrs))) k =
     (case map_of (store_pairs rt c) k of Some v \<Rightarrow> Some v | None \<Rightarrow> map_option canon (map_of rrs k))"
proof -
  have "\<forall>rr \<in> set (fresh seen rrs). reads_back rt rr" using assms(3) fresh_subset by blast
  from store_file.put_all_get [OF _ this, of c k] assms(1,2)
  have "map_of (store_pairs rt (c @ lines_bytes rt (fresh seen rrs))) k =
     (case map_of (store_pairs rt c) k of Some v \<Rightarrow> Some v
      | None \<Rightarrow> map_option canon (map_of (fresh seen rrs) k))"
    by (simp add: fold_put_row)
  with assms(4) show ?thesis by (auto simp: map_of_fresh split: option.splits)
qed

lemma known_ids_stored: "k \<in> known_ids rt env store \<Longrightarrow> store_get rt store k \<noteq> None"
proof -
  assume "k \<in> known_ids rt env store"
  then obtain c where c: "repaired_store env store = Some c"
    and k: "k \<in> set (List.map_filter entry_id (iter_store_entries rt (ce_ids_fault env) c))"
    by (auto simp: known_ids_def load_row_id_set_def split: option.splits)
  have mono: "set xs \<subseteq> set ys \<Longrightarrow> set (List.map_filter f xs) \<subseteq> set (List.map_filter f ys)"
    for f :: "bytes \<Rightarrow> (string, json) dict option" and xs ys by (auto simp: List.map_filter_def)
  have "set (iter_store_entries rt f c) \<subseteq> set (iter_store_entries rt None c)" for f
    unfolding iter_store_entries_def Let_def by (rule mono) (auto split: option.splits dest: in_set_takeD)
  with k have "k \<in> set (List.map_filter entry_id (iter_store_entries rt None c))"
    by (auto simp: List.map_filter_def)
  then have "k \<in> load_row_id_set rt None (Some c)" by (simp add: load_row_id_set_def)
  then have "store_get rt (Some c) k \<noteq> None" by (simp add: load_row_id_set_get)
  then show ?thesis using store_get_repaired [of rt env store] by (simp add: c)
qed

lemma store_get_bytes: "store_get rt store = map_of (store_pairs rt (store_bytes_of store))"
proof (cases store)
  case None
  have "store_pairs rt [] = []"
    by (simp add: store_pairs_def stripped_lines_text strip_bom_hd List.map_filter_def)
  with None show ?thesis by (simp add: store_get_def store_bytes_of_def fun_eq_iff)
qed (simp add: store_get_def store_bytes_of_def fun_eq_iff)

lemma map_of_with_ids: "map_option canon (map_of (with_ids rt rows) k)
    = map_of (map (\<lambda>r. (row_id rt r, canon r)) rows) k"
  by (induction rows) (simp_all add: with_ids_def)

lemma capture_keeps_rows:
  assumes "store_get rt (pj_store p) k = Some v"
  shows "store_get rt (pj_store (snd (capture_dataset rt env store_rows examples p))) k = Some v"
proof -
  have "store_get rt (snd (capture_pass rt env True content (pj_store p))) k = Some v" for content
    using capture_pass_extends [of rt env content "pj_store p"]
  proof (elim disjE conjE exE)
    assume "snd (capture_pass rt env True content (pj_store p)) = repaired_store env (pj_store p)"
    with assms show ?thesis by (simp add: store_get_repaired)
  next
    fix x assume ok: "\<not> repair_failed env (pj_store p)"
      and e: "snd (capture_pass rt env True content (pj_store p))
        = Some (store_bytes_of (repaired_store env (pj_store p)) @ x)"
    have "map_of (store_pairs rt (store_bytes_of (repaired_store env (pj_store p)))) k = Some v"
      using assms by (simp add: store_get_bytes [symmetric] store_get_repaired)
    from store_get_extended [OF repaired_complete [OF ok] this, of x] e
    show ?thesis by (simp add: store_get_def)
  qed
  then have "store_get rt store k = Some v" if "capture_pass rt env True content (pj_store p) = (cap, store)"
    for content cap store by (metis that snd_conv)
  with assms show ?thesis
    by (auto simp: capture_dataset_def split: option.splits prod.splits)
qed

text \<open>A capture never loses or changes a stored row. Whatever fails while it runs, every
  row that could be looked up by id before can be looked up after, with the same value.\<close>

theorem capture_keeps_stored_rows:
  assumes "store_get rt (pj_store p) k = Some v"
  shows "store_get rt (pj_store (snd (capture_dataset rt env store_rows examples p))) k = Some v"
  using assms by (rule capture_keeps_rows)

definition sample_capture_env :: capture_env where
  "sample_capture_env = \<lparr>ce_lock = LockAcquired, ce_dataset_fault = None, ce_repair_ok = True,
     ce_ids_fault = None, ce_stat_ok = True, ce_open_ok = True, ce_write_fault = None,
     ce_close_ok = True, ce_landed = 0, ce_truncate_ok = True\<rparr>"

definition sample_dataset :: bytes where
  \<open>sample_dataset = lines_file [''{"text": "alpha"}'', ''{"text": "gamma gamma"}'', ''{"text": "alpha"}'']\<close>

lemma sample_read: "read_jsonl sample_rt None sample_dataset = ([row_a, row_c, row_a], False)"
  by code_simp

lemma sample_stored_a: "store_get sample_rt (pj_store sample_project) id_a = Some row_a"
  by code_simp

theorem capture_keeps_stored_rows_witness:
  "store_get sample_rt (pj_store (snd (capture_dataset sample_rt
      (sample_capture_env\<lparr>ce_write_fault := Some 0, ce_landed := 5, ce_truncate_ok := False\<rparr>)
      True (Some sample_dataset) sample_project))) id_a = Some row_a"
  by (rule capture_keeps_stored_rows [OF sample_stored_a])

text \<open>A capture's identity is that of the dataset, whatever happens to the store: if a
  fingerprint is returned then it, and the row count, are those \<open>fingerprint_dataset\<close> computes
  for the same reading, and the row ids are those of the rows read, in order; if the dataset
  cannot be read completely, no fingerprint is returned, as \<open>fingerprint_dataset\<close> does.\<close>

theorem capture_matches_fingerprint:
  assumes "capture_dataset rt env store_rows examples p = (Inr cap, p')"
  shows "(dc_content_fingerprint cap, dc_row_count cap) = fingerprint_dataset rt (ce_dataset_fault env) examples
     \<and> (dc_content_fingerprint cap \<noteq> None \<longrightarrow>
          (\<exists>content rows. examples = Some content
             \<and> read_jsonl rt (ce_dataset_fault env) content = (rows, False)
             \<and> dc_row_ids cap = map (row_id rt) rows))"
proof (cases examples)
  case None
  with assms show ?thesis
    by (auto simp: capture_dataset_def empty_capture_def fingerprint_dataset_def)
next
  case (Some content)
  obtain rows unreadable where r: "read_jsonl rt (ce_dataset_fault env) content = (rows, unreadable)" by force
  from assms Some have "cap = fst (capture_pass rt env store_rows content (pj_store p))"
    by (cases store_rows) (auto simp: capture_dataset_def split: if_splits prod.splits)
  with Some r show ?thesis
    by (cases store_rows)
       (auto simp: capture_pass_eq [OF r] capture_pass_False [OF r] Let_def fingerprint_dataset_def
        fold_feed empty_capture_def)
qed

lemma sample_capture:
  "capture_dataset sample_rt sample_capture_env True (Some sample_dataset) (sample_project\<lparr>pj_store := None\<rparr>) =
     (Inr \<lparr>dc_content_fingerprint = Some (sample_hash (joined_signatures sample_rt [row_a, row_c, row_a])),
           dc_row_count = 3, dc_row_ids = [id_a, id_c, id_a], dc_new_rows_stored = 2, dc_rows_stored = True\<rparr>,
      sample_project\<lparr>pj_store := Some (lines_file [line_a, line_c])\<rparr>)"
  by code_simp

theorem capture_matches_fingerprint_witness:
  "fingerprint_dataset sample_rt None (Some sample_dataset)
     = (Some (sample_hash (joined_signatures sample_rt [row_a, row_c, row_a])), 3)"
  using capture_matches_fingerprint [OF sample_capture] by (simp add: sample_capture_env_def)


text \<open>What a successful pass writes.\<close>

lemma pass_stored:
  assumes "\<not> pass_failed env (final_state rt env rows store)"
  shows "store_bytes_of (on_disk env (repaired_store env store) (final_state rt env rows store)) =
      store_bytes_of (repaired_store env store) @ lines_bytes rt (fresh (known_ids rt env store) (with_ids rt rows))
    \<and> \<not> repair_failed env store"
proof
  let ?st = "final_state rt env rows store"
  have inv: "capture_inv rt (known_ids rt env store) rows ?st"
    unfolding final_state_def by (rule capture_inv_fold)
  from assms have "\<not> cs_store_failed ?st" by (simp add: pass_failed_def)
  with inv have pend: "cs_pending ?st = lines_bytes rt (fresh (known_ids rt env store) (with_ids rt rows))"
    and op: "cs_opened ?st \<or> fresh (known_ids rt env store) (with_ids rt rows) = []"
    by (auto simp: capture_inv_def)
  show "store_bytes_of (on_disk env (repaired_store env store) ?st) =
      store_bytes_of (repaired_store env store) @ lines_bytes rt (fresh (known_ids rt env store) (with_ids rt rows))"
    using assms pend op
    by (auto simp: on_disk_def append_bytes_def store_bytes_of_def lines_bytes_def split: option.splits)
  show "\<not> repair_failed env store" using assms final_state_repair_failed by blast
qed

lemma capture_dataset_stored:
  assumes "capture_dataset rt env store_rows examples p = (Inr cap, p')" and "dc_rows_stored cap"
  obtains content rows where "examples = Some content" "store_rows"
    "read_jsonl rt (ce_dataset_fault env) content = (rows, False)"
    "\<not> pass_failed env (final_state rt env rows (pj_store p))"
    "p' = p\<lparr>pj_dir := True,
       pj_store := on_disk env (repaired_store env (pj_store p)) (final_state rt env rows (pj_store p))\<rparr>"
    "cap = \<lparr>dc_content_fingerprint = Some (sha256_hex rt (joined_signatures rt rows)),
       dc_row_count = length rows, dc_row_ids = map (row_id rt) rows,
       dc_new_rows_stored = cs_new_stored (final_state rt env rows (pj_store p)), dc_rows_stored = True\<rparr>"
proof (cases examples)
  case None
  with assms show ?thesis by (auto simp: capture_dataset_def empty_capture_def)
next
  case (Some content)
  obtain rows unreadable where r: "read_jsonl rt (ce_dataset_fault env) content = (rows, unreadable)" by force
  have sr: store_rows using assms Some
    by (auto simp: capture_dataset_def capture_pass_False [OF r] empty_capture_def split: if_splits)
  from assms Some sr have cp: "capture_pass rt env True content (pj_store p) = (cap, pj_store p')"
      and p': "p' = p\<lparr>pj_dir := True, pj_store := pj_store p'\<rparr>"
    by (auto simp: capture_dataset_def split: if_splits prod.splits)
  from cp assms(2) have ok: "\<not> unreadable" "\<not> pass_failed env (final_state rt env rows (pj_store p))"
    unfolding capture_pass_eq [OF r] Let_def by (auto simp: empty_capture_def split: if_splits)
  with r have "read_jsonl rt (ce_dataset_fault env) content = (rows, False)" by simp
  from that [OF Some sr this ok(2)] cp p' ok show ?thesis
    unfolding capture_pass_eq [OF r] Let_def by (auto simp: empty_capture_def)
qed

lemma capture_get:
  assumes "capture_dataset rt env store_rows (Some content) p = (Inr cap, p')" and "dc_rows_stored cap"
    and "float_repr_ok (float_repr rt)"
    and "\<forall>r \<in> set (fst (read_jsonl rt (ce_dataset_fault env) content)). reads_back rt (row_id rt r, r)"
  shows "store_get rt (pj_store p') k =
      (case store_get rt (pj_store p) k of
         Some v \<Rightarrow> Some v
       | None \<Rightarrow> map_of (map (\<lambda>r. (row_id rt r, canon r)) (fst (read_jsonl rt (ce_dataset_fault env) content))) k)
    \<and> (\<forall>rid \<in> set (dc_row_ids cap). store_get rt (pj_store p') rid \<noteq> None)"
proof -
  from capture_dataset_stored [OF assms(1,2)] obtain rows where
    rows: "read_jsonl rt (ce_dataset_fault env) content = (rows, False)"
    and ok: "\<not> pass_failed env (final_state rt env rows (pj_store p))"
    and p': "pj_store p' = on_disk env (repaired_store env (pj_store p)) (final_state rt env rows (pj_store p))"
    and cap: "dc_row_ids cap = map (row_id rt) rows"
    by (metis dataset_capture.select_convs(3) option.inject project.select_convs(2) project.surjective
        project.update_convs(2))
  let ?c = "store_bytes_of (repaired_store env (pj_store p))"
  have old: "map_of (store_pairs rt ?c) = store_get rt (pj_store p)"
    using store_get_repaired [of rt env "pj_store p"] by (simp add: store_get_bytes)
  have rb: "\<forall>rr \<in> set (with_ids rt rows). reads_back rt rr"
    using assms(4) rows by (simp add: with_ids_def)
  have kn: "\<forall>k \<in> known_ids rt env (pj_store p). map_of (store_pairs rt ?c) k \<noteq> None"
    unfolding old using known_ids_stored by blast
  from pass_stored [OF ok] have "\<not> repair_failed env (pj_store p)" by simp
  note fresh = store_get_fresh [OF repaired_complete [OF this] assms(3) rb kn]
  have new: "store_get rt (pj_store p') = map_of (store_pairs rt
      (?c @ lines_bytes rt (fresh (known_ids rt env (pj_store p)) (with_ids rt rows))))"
    unfolding p' store_get_bytes [of rt "on_disk _ _ _"] using pass_stored [OF ok] by simp
  have get: "store_get rt (pj_store p') k = (case store_get rt (pj_store p) k of Some v \<Rightarrow> Some v
       | None \<Rightarrow> map_of (map (\<lambda>r. (row_id rt r, canon r)) rows) k)" for k
    unfolding new fresh old map_of_with_ids ..
  moreover have "map_of (map (\<lambda>r. (row_id rt r, canon r)) rows) rid \<noteq> None" if "rid \<in> row_id rt ` set rows" for rid
    using that by (auto simp: map_of_eq_None_iff image_image)
  ultimately show ?thesis by (auto simp: rows cap split: option.splits)
qed

text \<open>A capture that reports its rows as stored has stored every one of them. Afterwards the
  store maps each id to the row it held before, or, if it held none, to the canonical form of
  the first dataset row with that id; every row of the dataset is found under its id.\<close>

theorem capture_stores_every_row:
  assumes "capture_dataset rt env store_rows (Some content) p = (Inr cap, p')" and "dc_rows_stored cap"
    and "float_repr_ok (float_repr rt)"
    and "\<forall>r \<in> set (fst (read_jsonl rt (ce_dataset_fault env) content)). reads_back rt (row_id rt r, r)"
  shows "store_get rt (pj_store p') k =
      (case store_get rt (pj_store p) k of
         Some v \<Rightarrow> Some v
       | None \<Rightarrow> map_of (map (\<lambda>r. (row_id rt r, canon r)) (fst (read_jsonl rt (ce_dataset_fault env) content))) k)
    \<and> (\<forall>rid \<in> set (dc_row_ids cap). store_get rt (pj_store p') rid \<noteq> None)"
  using assms by (rule capture_get)

theorem capture_stores_every_row_witness:
  "store_get sample_rt (Some (lines_file [line_a, line_c])) id_c = Some row_c"
proof -
  have "dc_rows_stored \<lparr>dc_content_fingerprint = Some (sample_hash (joined_signatures sample_rt [row_a, row_c, row_a])),
           dc_row_count = 3, dc_row_ids = [id_a, id_c, id_a], dc_new_rows_stored = 2, dc_rows_stored = True\<rparr>" by simp
  moreover have "\<forall>r \<in> set (fst (read_jsonl sample_rt (ce_dataset_fault sample_capture_env) sample_dataset)).
      reads_back sample_rt (row_id sample_rt r, r)"
    using sample_read sample_reads_back by (simp add: sample_capture_env_def sample_row_ids)
  moreover have "store_get sample_rt None id_c = None" by (simp add: store_get_def)
  moreover have "id_a \<noteq> id_c" "canon row_c = row_c" by code_simp+
  ultimately show ?thesis
    using capture_stores_every_row [OF sample_capture _ sample_float_ok, of id_c] sample_read
    by (simp add: sample_capture_env_def sample_row_ids)
qed

text \<open>C26: A failed capture is rolled back. When rows were to be stored and the capture reports
  that they were not, and the size of the store could be read and the file truncated, the
  store's bytes are the bytes from before the capture, up to the newline that terminates a
  torn last line. Without those two system calls the old bytes are still a prefix.\<close>

theorem failed_capture_rolls_back:
  assumes "capture_dataset rt env True examples p = (Inr cap, p')" and "\<not> dc_rows_stored cap"
  shows "(\<exists>x. store_bytes_of (pj_store p') = store_bytes_of (pj_store p) @ x)
     \<and> (ce_stat_ok env \<and> ce_truncate_ok env \<longrightarrow>
          store_bytes_of (pj_store p') \<in> {store_bytes_of (pj_store p), store_bytes_of (pj_store p) @ [nl]})"
proof -
  have rep: "store_bytes_of (repaired_store env s) \<in> {store_bytes_of s, store_bytes_of s @ [nl]}" for s
    by (auto simp: repaired_store_def terminate_torn_tail_def store_bytes_of_def split: option.splits)
  show ?thesis
  proof (cases examples)
    case None
    with assms show ?thesis by (auto simp: capture_dataset_def)
  next
    case (Some content)
    obtain rows unreadable where r: "read_jsonl rt (ce_dataset_fault env) content = (rows, unreadable)" by force
    from assms(1) Some have cp: "capture_pass rt env True content (pj_store p) = (cap, pj_store p')"
      by (auto simp: capture_dataset_def split: if_splits prod.splits)
    let ?s0 = "repaired_store env (pj_store p)"
    have failed: "unreadable \<or> pass_failed env (final_state rt env rows (pj_store p))"
      using cp assms(2) unfolding capture_pass_eq [OF r] Let_def by (auto split: if_splits)
    then have fin: "pj_store p' = truncate_row_store (ce_truncate_ok env)
        (on_disk env ?s0 (final_state rt env rows (pj_store p)))
        (case ?s0 of None \<Rightarrow> Some 0 | Some c \<Rightarrow> if ce_stat_ok env then Some (length c) else None)"
      using cp unfolding capture_pass_eq [OF r] Let_def by auto
    have "store_bytes_of (pj_store p') = store_bytes_of ?s0" if "ce_stat_ok env" "ce_truncate_ok env"
      using that unfolding fin
      by (auto simp: on_disk_def append_bytes_def truncate_row_store_def store_bytes_of_def split: option.splits)
    moreover have "\<exists>x. store_bytes_of (pj_store p') = store_bytes_of ?s0 @ x"
      using capture_pass_extends [of rt env content "pj_store p"] cp by (auto simp: store_bytes_of_def)
    ultimately show ?thesis using rep [of "pj_store p"] by auto
  qed
qed

lemma sample_failed_capture:
  "capture_dataset sample_rt (sample_capture_env\<lparr>ce_write_fault := Some 1, ce_landed := 40\<rparr>)
     True (Some sample_dataset) (sample_project\<lparr>pj_store := Some ''torn''\<rparr>) =
     (Inr \<lparr>dc_content_fingerprint = Some (sample_hash (joined_signatures sample_rt [row_a, row_c, row_a])),
           dc_row_count = 3, dc_row_ids = [id_a, id_c, id_a], dc_new_rows_stored = 0, dc_rows_stored = False\<rparr>,
      sample_project\<lparr>pj_store := Some (''torn'' @ [nl])\<rparr>)"
  by code_simp

theorem failed_capture_rolls_back_witness:
  "store_bytes_of (Some (''torn'' @ [nl])) \<in> {''torn'', ''torn'' @ [nl]}"
  using failed_capture_rolls_back [OF sample_failed_capture]
  by (simp add: sample_capture_env_def store_bytes_of_def)

end
