(* ===== verification/Version_Restore.thy ===== *)
theory Version_Restore
  imports Version_Capture
begin

text \<open>
  Restoring and comparing versions (\<open>versions/version_restore.py\<close>,
  \<open>versions/version_diff.py\<close>): a version is rebuilt from its manifest and the store and
  accepted only if its fingerprint is the recorded one; two manifests are compared as
  multisets.
\<close>

section \<open>Reconstruction\<close>

definition restore_row ::
  "runtime \<Rightarrow> (string, json) dict \<Rightarrow> string
     \<Rightarrow> string list \<times> string list \<times> bytes \<times> nat \<Rightarrow> string list \<times> string list \<times> bytes \<times> nat" where
  "restore_row rt rows_by_id rid st = (case st of (missing, out, digest) \<Rightarrow>
     (case dget rows_by_id rid of
        None \<Rightarrow> (missing @ [rid], out, digest)
      | Some row \<Rightarrow> (missing, out @ [dumps_sorted rt row], feed rt row digest)))"

definition reconstruct_and_verify ::
  "runtime \<Rightarrow> string list \<Rightarrow> (string, json) dict \<Rightarrow> string option
     \<Rightarrow> string list \<times> string \<times> bool \<times> string list" where
  "reconstruct_and_verify rt manifest rows_by_id expected =
     (case fold (restore_row rt rows_by_id) manifest ([], [], [], 0) of
        (missing, out, digest) \<Rightarrow>
          (let computed = sha256_hex rt (fst digest) in
           if missing \<noteq> [] then ([], computed, False, missing)
           else (out, computed, expected = Some computed, missing)))"

datatype restore_error =
    VersionNotFound
  | CorruptRecord
  | ManifestNotText
  | NoStoredRows
  | MissingRows nat
  | FingerprintMismatch

definition reconstruct_version_lines ::
  "runtime \<Rightarrow> bool \<Rightarrow> nat option \<Rightarrow> project \<Rightarrow> string \<Rightarrow> restore_error + string list" where
  "reconstruct_version_lines rt manifest_readable fault p version_id =
     (case dget (pj_records p) (slug version_id) of
        None \<Rightarrow> Inl VersionNotFound
      | Some None \<Rightarrow> Inl CorruptRecord
      | Some (Some r) \<Rightarrow>
          (case load_row_manifest manifest_readable p version_id of
             Inl _ \<Rightarrow> Inl ManifestNotText
           | Inr None \<Rightarrow> Inl NoStoredRows
           | Inr (Some manifest) \<Rightarrow>
               if \<not> dv_rows_stored r then Inl NoStoredRows
               else
                 (case reconstruct_and_verify rt manifest
                         (load_rows_by_id rt fault (pj_store p) (set manifest)) (dv_content_fingerprint r) of
                    (out, computed, matches, missing) \<Rightarrow>
                      if missing \<noteq> [] then Inl (MissingRows (length missing))
                      else if \<not> matches then Inl FingerprintMismatch
                      else Inr out)))"


section \<open>Comparison\<close>

record version_diff =
  vd_base_version_id :: string
  vd_other_version_id :: string
  vd_base_row_count :: nat
  vd_other_row_count :: nat
  vd_added_count :: nat
  vd_removed_count :: nat
  vd_common_count :: nat
  vd_added_row_ids :: "string list"
  vd_removed_row_ids :: "string list"
  vd_reordered :: bool
  vd_moved_count :: nat

text \<open>\<open>collections.Counter\<close>: the counts in order of first occurrence. Subtraction keeps the
  positive differences, intersection the positive minima; \<open>elements\<close> repeats every key.\<close>

definition counter :: "'a list \<Rightarrow> ('a \<times> nat) list" where
  "counter xs = map (\<lambda>x. (x, length (filter (\<lambda>y. y = x) xs))) (uniq xs)"

definition counter_get :: "('a \<times> nat) list \<Rightarrow> 'a \<Rightarrow> nat" where
  "counter_get c x = (case dget c x of None \<Rightarrow> 0 | Some n \<Rightarrow> n)"

definition counter_sub :: "('a \<times> nat) list \<Rightarrow> ('a \<times> nat) list \<Rightarrow> ('a \<times> nat) list" where
  "counter_sub c d = filter (\<lambda>kn. snd kn > 0) (map (\<lambda>kn. (fst kn, snd kn - counter_get d (fst kn))) c)"

definition counter_and :: "('a \<times> nat) list \<Rightarrow> ('a \<times> nat) list \<Rightarrow> ('a \<times> nat) list" where
  "counter_and c d = filter (\<lambda>kn. snd kn > 0) (map (\<lambda>kn. (fst kn, min (snd kn) (counter_get d (fst kn)))) c)"

definition counter_total :: "('a \<times> nat) list \<Rightarrow> nat" where
  "counter_total c = sum_list (map snd c)"

definition counter_elements :: "('a \<times> nat) list \<Rightarrow> 'a list" where
  "counter_elements c = concat (map (\<lambda>kn. replicate (snd kn) (fst kn)) c)"

definition diff_manifests :: "string list \<Rightarrow> string list \<Rightarrow> string \<Rightarrow> string \<Rightarrow> version_diff" where
  "diff_manifests base_ids other_ids base_version_id other_version_id =
     (let base = counter base_ids;
          other = counter other_ids;
          added = counter_sub other base;
          removed = counter_sub base other;
          common = counter_and base other;
          added_count = counter_total added;
          removed_count = counter_total removed;
          reordered = (added_count = 0 \<and> removed_count = 0 \<and> base_ids \<noteq> other_ids)
      in \<lparr>vd_base_version_id = base_version_id, vd_other_version_id = other_version_id,
          vd_base_row_count = length base_ids, vd_other_row_count = length other_ids,
          vd_added_count = added_count, vd_removed_count = removed_count,
          vd_common_count = counter_total common,
          vd_added_row_ids = counter_elements added, vd_removed_row_ids = counter_elements removed,
          vd_reordered = reordered,
          vd_moved_count = (if reordered
             then length (filter (\<lambda>(b, x). b \<noteq> x) (zip base_ids other_ids)) else 0)\<rparr>)"


section \<open>Counters are multisets\<close>

definition counter_mset :: "('a \<times> nat) list \<Rightarrow> 'a multiset" where
  "counter_mset c = mset (counter_elements c)"

lemma counter_keys [simp]: "map fst (counter xs) = uniq xs"
  by (simp add: counter_def comp_def)

lemma counter_get_counter: "counter_get (counter xs) x = Multiset.count (mset xs) x"
proof -
  have "map_of (map (\<lambda>x. (x, f x)) ys) x = (if x \<in> set ys then Some (f x) else None)" for ys and f :: "'a \<Rightarrow> nat"
    by (induction ys) auto
  moreover have "length (filter (\<lambda>y. y = x) xs) = Multiset.count (mset xs) x"
    by (induction xs) auto
  ultimately show ?thesis
    by (auto simp: counter_get_def counter_def count_mset_0_iff)
qed

lemma count_elements:
  "distinct (map fst c) \<Longrightarrow> Multiset.count (counter_mset c) x = counter_get c x"
proof (induction c)
  case (Cons kn c)
  have "Multiset.count (mset (replicate n k)) x = (if x = k then n else 0)" for n :: nat and k
    by (induction n) auto
  moreover have "map_of c (fst kn) = None" using Cons.prems by (simp add: map_of_eq_None_iff)
  moreover have "distinct (map fst c)" using Cons.prems by simp
  ultimately show ?case
    using Cons.IH by (auto simp: counter_mset_def counter_elements_def counter_get_def)
qed (simp add: counter_mset_def counter_elements_def counter_get_def)

lemma counter_total_size: "counter_total c = size (counter_mset c)"
  by (induction c) (simp_all add: counter_total_def counter_mset_def counter_elements_def)

lemma counter_get_filter:
  "distinct (map fst c) \<Longrightarrow>
     counter_get (filter (\<lambda>kn. snd kn > 0) (map (\<lambda>kn. (fst kn, f (fst kn) (snd kn))) c)) x
       = (if x \<in> fst ` set c then f x (counter_get c x) else 0)"
proof (induction c)
  case (Cons kn c)
  have "map_of (filter (\<lambda>kn. snd kn > 0) (map (\<lambda>kn. (fst kn, f (fst kn) (snd kn))) c)) (fst kn) = None"
    using Cons.prems by (auto simp: map_of_eq_None_iff intro: rev_image_eqI)
  with Cons show ?case by (auto simp: counter_get_def split: option.splits)
qed (simp add: counter_get_def)

lemma distinct_filter_map: "distinct (map fst c) \<Longrightarrow>
    distinct (map fst (filter (\<lambda>kn. snd kn > 0) (map (\<lambda>kn. (fst kn, f (fst kn) (snd kn))) c)))"
  by (induction c) (auto intro: rev_image_eqI)

lemma counter_map_mset:
  assumes "\<And>x n. f x n = g n (Multiset.count (mset ys) x)" and "\<And>n. g 0 n = 0"
  shows "Multiset.count (counter_mset (filter (\<lambda>kn. snd kn > 0) (map (\<lambda>kn. (fst kn, f (fst kn) (snd kn))) (counter xs)))) x
     = g (Multiset.count (mset xs) x) (Multiset.count (mset ys) x)"
proof -
  have d: "distinct (map fst (counter xs))" by simp
  have k: "fst ` set (counter xs) = set xs" by (metis counter_keys set_map set_uniq)
  have z: "x \<notin> set xs \<Longrightarrow> Multiset.count (mset xs) x = 0" by (simp add: count_mset_0_iff)
  show ?thesis
    unfolding count_elements [OF distinct_filter_map [OF d]] counter_get_filter [OF d] k
  proof (cases "x \<in> set xs")
    case True
    then show "(if x \<in> set xs then f x (counter_get (counter xs) x) else 0)
        = g (Multiset.count (mset xs) x) (Multiset.count (mset ys) x)"
      by (simp only: if_True assms(1) counter_get_counter)
  next
    case False
    then show "(if x \<in> set xs then f x (counter_get (counter xs) x) else 0)
        = g (Multiset.count (mset xs) x) (Multiset.count (mset ys) x)"
      unfolding z [OF False] by (simp add: assms(2))
  qed
qed

lemma counter_sub_mset: "counter_mset (counter_sub (counter xs) (counter ys)) = mset xs - mset ys"
  unfolding counter_sub_def
  by (rule multiset_eqI, subst counter_map_mset [where g = "(-)" and ys = ys])
     (simp_all add: counter_get_counter)

lemma counter_and_mset: "counter_mset (counter_and (counter xs) (counter ys)) = mset xs \<inter># mset ys"
  unfolding counter_and_def
  by (rule multiset_eqI, subst counter_map_mset [where g = min and ys = ys])
     (simp_all add: counter_get_counter)

definition moved :: "'a list \<Rightarrow> 'a list \<Rightarrow> ('a \<times> 'a) list" where
  "moved xs ys = filter (\<lambda>(b, x). b \<noteq> x) (zip xs ys)"

lemma moved_none: "length xs = length ys \<Longrightarrow> moved xs ys = [] \<longleftrightarrow> xs = ys"
  by (induction xs ys rule: list_induct2) (auto simp: moved_def)

lemma moved_one: "length xs = length ys \<Longrightarrow> moved xs ys = [(a, b)] \<Longrightarrow>
    a \<noteq> b \<and> add_mset b (mset xs) = add_mset a (mset ys)"
proof (induction xs ys rule: list_induct2)
  case (Cons x xs y ys)
  show ?case
  proof (cases "x = y")
    case True
    with Cons show ?thesis by (auto simp: moved_def add_mset_commute)
  next
    case False
    with Cons.prems have "moved xs ys = []" "x = a" "y = b" by (auto simp: moved_def)
    with Cons.hyps False show ?thesis by (simp add: moved_none add_mset_commute)
  qed
qed (simp add: moved_def)

lemma moved_not_one: "mset xs = mset ys \<Longrightarrow> length (moved xs ys) \<noteq> 1"
proof
  assume m: "mset xs = mset ys" and "length (moved xs ys) = 1"
  then obtain a b where ab: "moved xs ys = [(a, b)]" by (auto simp: length_Suc_conv)
  have "length xs = length ys" using m by (rule mset_eq_length)
  from moved_one [OF this ab] m show False by auto
qed

lemma size_diff_both:
  fixes A B :: "'a multiset"
  shows "size (A - B) = 0 \<and> size (B - A) = 0 \<longleftrightarrow> A = B"
  by (auto simp: Diff_eq_empty_iff_mset)

lemma size_inter_diff:
  fixes A B :: "'a multiset"
  shows "size (A \<inter># B) + size (A - B) = size A"
proof -
  have "A \<inter># B + (A - B) = A" by (rule multiset_eqI) auto
  then show ?thesis by (metis size_union)
qed

text \<open>C29: The version diff is the multiset difference. The added ids are the multiset difference
  other minus base, the removed ids base minus other, the counts are their sizes, and the
  common count completes both sides; the diff is reported as a pure reordering exactly when
  the two manifests are different lists with the same rows, and then at least two positions
  are reported as moved.\<close>

theorem diff_is_multiset_difference:
  "let d = diff_manifests base_ids other_ids b u in
     mset (vd_added_row_ids d) = mset other_ids - mset base_ids
   \<and> mset (vd_removed_row_ids d) = mset base_ids - mset other_ids
   \<and> vd_added_count d = length (vd_added_row_ids d)
   \<and> vd_removed_count d = length (vd_removed_row_ids d)
   \<and> vd_common_count d + vd_removed_count d = length base_ids
   \<and> vd_common_count d + vd_added_count d = length other_ids
   \<and> (vd_reordered d \<longleftrightarrow> mset base_ids = mset other_ids \<and> base_ids \<noteq> other_ids)
   \<and> (vd_reordered d \<longleftrightarrow> 0 < vd_moved_count d) \<and> vd_moved_count d \<noteq> 1"
proof -
  define d where "d = diff_manifests base_ids other_ids b u"
  have a: "mset (vd_added_row_ids d) = mset other_ids - mset base_ids"
    by (simp add: d_def diff_manifests_def Let_def counter_mset_def [symmetric] counter_sub_mset)
  have r: "mset (vd_removed_row_ids d) = mset base_ids - mset other_ids"
    by (simp add: d_def diff_manifests_def Let_def counter_mset_def [symmetric] counter_sub_mset)
  have ac: "vd_added_count d = size (mset other_ids - mset base_ids)"
    and rc: "vd_removed_count d = size (mset base_ids - mset other_ids)"
    and cc: "vd_common_count d = size (mset base_ids \<inter># mset other_ids)"
    by (simp_all add: d_def diff_manifests_def Let_def counter_total_size counter_sub_mset counter_and_mset)
  have re: "vd_reordered d \<longleftrightarrow> mset base_ids = mset other_ids \<and> base_ids \<noteq> other_ids"
    using ac rc size_diff_both [of "mset base_ids" "mset other_ids"]
    by (auto simp: d_def diff_manifests_def Let_def)
  have mv: "vd_moved_count d = (if vd_reordered d then length (moved base_ids other_ids) else 0)"
    by (simp add: d_def diff_manifests_def Let_def moved_def)
  have "moved base_ids other_ids \<noteq> []" if "vd_reordered d"
    using that re mset_eq_length [of base_ids other_ids] by (auto simp: moved_none)
  moreover have "vd_moved_count d \<noteq> 1" using mv re moved_not_one [of base_ids other_ids] by auto
  moreover have "vd_added_count d = length (vd_added_row_ids d)"
    using a ac by (metis size_mset)
  moreover have "vd_removed_count d = length (vd_removed_row_ids d)"
    using r rc by (metis size_mset)
  moreover have "vd_common_count d + vd_removed_count d = length base_ids"
    using size_inter_diff [of "mset base_ids" "mset other_ids"] by (simp add: cc rc)
  moreover have "vd_common_count d + vd_added_count d = length other_ids"
    using size_inter_diff [of "mset other_ids" "mset base_ids"]
    by (simp add: cc ac multiset_inter_commute inf_commute)
  ultimately show ?thesis
    unfolding d_def [symmetric] Let_def using a r re mv by auto
qed


section \<open>What reconstruction computes\<close>

lemma restore_fold:
  "fold (restore_row rt rows) ids (missing, out, digest) =
     (missing @ filter (\<lambda>i. dget rows i = None) ids,
      out @ map (\<lambda>i. dumps_sorted rt (the (dget rows i))) (filter (\<lambda>i. dget rows i \<noteq> None) ids),
      fold (feed rt) (map (\<lambda>i. the (dget rows i)) (filter (\<lambda>i. dget rows i \<noteq> None) ids)) digest)"
  by (induction ids arbitrary: missing out digest) (auto simp: restore_row_def split: option.splits)

lemma reconstruct_eq:
  "reconstruct_and_verify rt ids rows expected =
     (let missing = filter (\<lambda>i. dget rows i = None) ids;
          found = map (\<lambda>i. the (dget rows i)) (filter (\<lambda>i. dget rows i \<noteq> None) ids);
          computed = sha256_hex rt (joined_signatures rt found)
      in if missing \<noteq> [] then ([], computed, False, missing)
         else (map (dumps_sorted rt) found, computed, expected = Some computed, []))"
  by (simp add: reconstruct_and_verify_def restore_fold fold_feed Let_def comp_def)

lemma dumps_sorted_canon: "dumps_sorted rt (canon v) = dumps_sorted rt v"
  by (simp add: dumps_sorted_def)

lemma joined_signatures_canon: "joined_signatures rt (map canon rows) = joined_signatures rt rows"
  by (simp add: joined_signatures_def comp_def)

lemma reconstruct_version_eq:
  assumes "dget (pj_records p) (slug vid) = Some (Some r)" and "dv_rows_stored r"
    and "load_row_manifest ok p vid = Inr (Some ids)"
  shows "reconstruct_version_lines rt ok None p vid =
    (let missing = filter (\<lambda>i. store_get rt (pj_store p) i = None) ids;
         rows = map (\<lambda>i. the (store_get rt (pj_store p) i)) ids
     in if missing \<noteq> [] then Inl (MissingRows (length missing))
        else if dv_content_fingerprint r \<noteq> Some (sha256_hex rt (joined_signatures rt rows))
        then Inl FingerprintMismatch
        else Inr (map (dumps_sorted rt) rows))"
proof -
  let ?rows = "load_rows_by_id rt None (pj_store p) (set ids)"
  have get: "dget ?rows i = store_get rt (pj_store p) i" if "i \<in> set ids" for i
    using load_rows_by_id_get [of "set ids" rt "pj_store p" i] that by simp
  have miss: "filter (\<lambda>i. dget ?rows i = None) ids = filter (\<lambda>i. store_get rt (pj_store p) i = None) ids"
    by (rule filter_cong) (simp_all only: get)
  have all: "filter (\<lambda>i. dget ?rows i \<noteq> None) ids = ids
      \<and> map (\<lambda>i. the (dget ?rows i)) ids = map (\<lambda>i. the (store_get rt (pj_store p) i)) ids"
    if "filter (\<lambda>i. store_get rt (pj_store p) i = None) ids = []"
    using that by (auto simp only: get filter_empty_conv filter_id_conv map_eq_conv)
  show ?thesis
    unfolding reconstruct_version_lines_def assms(1,3) reconstruct_eq Let_def
    using assms(2) all by (auto simp only: miss option.case sum.case prod.case if_True if_False
        not_True_eq_False not_False_eq_True simp_thms split: if_splits)
qed

lemma restore_verified:
  assumes "reconstruct_version_lines rt ok None p vid = Inr out"
  shows "\<exists>r ids rows. load_version_record p (slug vid) = Some r \<and> dv_rows_stored r
     \<and> load_row_manifest ok p vid = Inr (Some ids)
     \<and> map (store_get rt (pj_store p)) ids = map Some rows
     \<and> dv_content_fingerprint r = Some (sha256_hex rt (joined_signatures rt rows))
     \<and> out = map (dumps_sorted rt) rows"
proof -
  from assms obtain r where r: "dget (pj_records p) (slug vid) = Some (Some r)"
    by (auto simp: reconstruct_version_lines_def split: option.splits)
  with assms obtain ids where ids: "load_row_manifest ok p vid = Inr (Some ids)"
    by (auto simp: reconstruct_version_lines_def split: sum.splits option.splits)
  from assms r ids have st: "dv_rows_stored r"
    by (auto simp: reconstruct_version_lines_def split: if_splits)
  let ?rows = "map (\<lambda>i. the (store_get rt (pj_store p) i)) ids"
  from assms have res: "\<forall>i \<in> set ids. store_get rt (pj_store p) i \<noteq> None"
    "dv_content_fingerprint r = Some (sha256_hex rt (joined_signatures rt ?rows))"
    "out = map (dumps_sorted rt) ?rows"
    unfolding reconstruct_version_eq [OF r st ids] Let_def
    by (auto simp: filter_empty_conv split: if_splits)
  from res(1) have "map (store_get rt (pj_store p)) ids = map Some ?rows" by auto
  with r st ids res show ?thesis
    by (intro exI [of _ r] exI [of _ ids] exI [of _ ?rows]) (simp add: load_version_record_def)
qed

text \<open>C13: A restore is all or nothing and verified. If lines are returned, then every id of the
  version's manifest was found in the store, the recorded fingerprint is that of the rows
  found, and the lines are their canonical texts, one per manifest entry in manifest order.\<close>

theorem restore_is_verified:
  assumes "reconstruct_version_lines rt ok None p vid = Inr out"
  shows "\<exists>r ids rows. load_version_record p (slug vid) = Some r \<and> dv_rows_stored r
     \<and> load_row_manifest ok p vid = Inr (Some ids)
     \<and> map (store_get rt (pj_store p)) ids = map Some rows
     \<and> dv_content_fingerprint r = Some (sha256_hex rt (joined_signatures rt rows))
     \<and> out = map (dumps_sorted rt) rows"
  using assms by (rule restore_verified)


section \<open>Publish, then restore\<close>

text \<open>A store is well addressed if every row in it is filed under its own row id; a set of rows
  is free of collisions if equal row ids mean equal rows.\<close>

definition well_addressed :: "runtime \<Rightarrow> bytes option \<Rightarrow> bool" where
  "well_addressed rt store \<longleftrightarrow> (\<forall>k v. store_get rt store k = Some v \<longrightarrow> row_id rt v = k)"

definition collision_free :: "runtime \<Rightarrow> json set \<Rightarrow> bool" where
  "collision_free rt V \<longleftrightarrow> (\<forall>v \<in> V. \<forall>w \<in> V. row_id rt v = row_id rt w \<longrightarrow> exact_signature rt v = exact_signature rt w)"

definition stored_rows :: "runtime \<Rightarrow> bytes option \<Rightarrow> json set" where
  "stored_rows rt store = {v. \<exists>k. store_get rt store k = Some v}"

lemma publish_ok:
  assumes "publish_dataset_version rt env pe req examples p = (Inr (r, cap), p')"
  shows "\<exists>p1. capture_dataset rt env (pr_store_rows req) examples
           (if pr_store_rows req then p\<lparr>pj_dir := True\<rparr> else p) = (Inr cap, p1)
     \<and> r = published_record req pe cap \<and> valid_version_id (dv_version_id r)
     \<and> p' = p1\<lparr>pj_dir := True,
          pj_manifests := (if dc_rows_stored cap
             then dset (slug (dv_version_id r)) (utf8 (lines_file (dc_row_ids cap))) (pj_manifests p1)
             else pj_manifests p1),
          pj_records := dset (slug (dv_version_id r)) (Some r) (pj_records p1)\<rparr>"
proof -
  let ?p0 = "if pr_store_rows req then p\<lparr>pj_dir := True\<rparr> else p"
  obtain out p1 where cp: "capture_dataset rt env (pr_store_rows req) examples ?p0 = (out, p1)" by force
  with assms obtain cap' where out: "out = Inr cap'"
    by (cases out) (auto simp: publish_dataset_version_def split: if_splits)
  from assms cp out have [simp]: "cap' = cap" and r: "r = published_record req pe cap"
    and v: "valid_version_id (dv_version_id r)"
    and p': "p' = p1\<lparr>pj_dir := True,
      pj_manifests := (if dc_rows_stored cap
         then dset (slug (dv_version_id r)) (utf8 (lines_file (dc_row_ids cap))) (pj_manifests p1)
         else pj_manifests p1),
      pj_records := dset (slug (dv_version_id r)) (Some r) (pj_records p1)\<rparr>"
    by (auto simp: publish_dataset_version_def Let_def save_row_manifest_def save_version_record_def
        split: if_splits prod.splits sum.splits)
  from cp [unfolded out \<open>cap' = cap\<close>] r v p' show ?thesis by blast
qed


text \<open>The row found under a dataset row's id is that row up to key order.\<close>

lemma captured_row_found:
  assumes "capture_dataset rt env store_rows (Some content) p = (Inr cap, p')" and "dc_rows_stored cap"
    and "float_repr_ok (float_repr rt)"
    and "\<forall>r \<in> set rows. reads_back rt (row_id rt r, r)"
    and "read_jsonl rt (ce_dataset_fault env) content = (rows, b)"
    and "well_addressed rt (pj_store p)" and "collision_free rt (set rows \<union> stored_rows rt (pj_store p))"
    and "r \<in> set rows"
  shows "\<exists>v. store_get rt (pj_store p') (row_id rt r) = Some v \<and> canon v = canon r"
proof -
  let ?k = "row_id rt r"
  have same: "exact_signature rt v = exact_signature rt r"
    if "v \<in> set rows \<union> stored_rows rt (pj_store p)" "row_id rt v = ?k" for v
    using assms(7) [unfolded collision_free_def] assms(8) that by blast
  have get: "store_get rt (pj_store p') ?k = (case store_get rt (pj_store p) ?k of Some v \<Rightarrow> Some v
       | None \<Rightarrow> map_of (map (\<lambda>r. (row_id rt r, canon r)) rows) ?k)"
  proof -
    have rows: "fst (read_jsonl rt (ce_dataset_fault env) content) = rows" using assms(5) by simp
    show ?thesis using capture_get [OF assms(1-3), of ?k] assms(4) unfolding rows by blast
  qed
  show ?thesis
  proof (cases "store_get rt (pj_store p) ?k")
    case (Some v)
    then have "v \<in> stored_rows rt (pj_store p)" by (auto simp: stored_rows_def)
    moreover have "row_id rt v = ?k" using assms(6) Some by (simp add: well_addressed_def)
    ultimately have "canon v = canon r" using same exact_signature_eq_iff [OF assms(3)] by blast
    with get Some show ?thesis by simp
  next
    case None
    have "map_of (map (\<lambda>r. (row_id rt r, canon r)) rows) ?k \<noteq> None"
      using assms(8) by (auto simp: map_of_eq_None_iff image_image)
    then obtain w where w: "map_of (map (\<lambda>r. (row_id rt r, canon r)) rows) ?k = Some w" by auto
    then obtain v where v: "v \<in> set rows" "row_id rt v = ?k" "w = canon v"
      by (auto dest!: map_of_SomeD)
    with same [of v] have "canon v = canon r" using exact_signature_eq_iff [OF assms(3)] by blast
    with get None w v show ?thesis by simp
  qed
qed

definition canonical_lines :: "runtime \<Rightarrow> json list \<Rightarrow> string list" where
  "canonical_lines rt rows = map (dumps_sorted rt) rows"

lemma restore_published:
  assumes "publish_dataset_version rt env pe req (Some content) p = (Inr (r, cap), p')"
    and "dc_rows_stored cap" and "float_repr_ok (float_repr rt)"
    and "read_jsonl rt (ce_dataset_fault env) content = (rows, b)"
    and "\<forall>r \<in> set rows. reads_back rt (row_id rt r, r) \<and> hex_id (row_id rt r)"
    and "well_addressed rt (pj_store p)" and "collision_free rt (set rows \<union> stored_rows rt (pj_store p))"
  shows "reconstruct_version_lines rt True None p' (dv_version_id r) = Inr (canonical_lines rt rows)
     \<and> load_row_manifest True p' (dv_version_id r) = Inr (Some (map (row_id rt) rows))
     \<and> dget (pj_manifests p') (slug (dv_version_id r)) = Some (lines_file (map (row_id rt) rows))"
proof -
  define p0 where e0: "p0 = (if pr_store_rows req then p\<lparr>pj_dir := True\<rparr> else p)"
  note pub = publish_ok [OF assms(1), folded e0]
  from pub obtain p1
    where cp: "capture_dataset rt env (pr_store_rows req) (Some content) p0 = (Inr cap, p1)"
      and r: "r = published_record req pe cap"
      and e': "p' = p1\<lparr>pj_dir := True,
      pj_manifests := (if dc_rows_stored cap
         then dset (slug (dv_version_id r)) (utf8 (lines_file (dc_row_ids cap))) (pj_manifests p1)
         else pj_manifests p1),
      pj_records := dset (slug (dv_version_id r)) (Some r) (pj_records p1)\<rparr>"
    by (elim exE conjE)
  have p0: "pj_store p0 = pj_store p" by (simp add: e0)
  have st: "pj_store p' = pj_store p1"
    and ms: "pj_manifests p' = dset (slug (dv_version_id r)) (utf8 (lines_file (dc_row_ids cap))) (pj_manifests p1)"
    and rs: "pj_records p' = dset (slug (dv_version_id r)) (Some r) (pj_records p1)"
    using assms(2) by (simp_all add: e')
  have cap: "dc_row_ids cap = map (row_id rt) rows"
    "dc_content_fingerprint cap = Some (sha256_hex rt (joined_signatures rt rows))"
    by (rule capture_dataset_stored [OF cp assms(2)], use assms(4) in simp)+
  have hex: "\<forall>l \<in> set (map (row_id rt) rows). hex_id l" using assms(5) by simp
  have man: "load_row_manifest True p' (dv_version_id r) = Inr (Some (map (row_id rt) rows))"
    by (simp add: load_row_manifest_def ms dget_dset cap utf8_decode_utf8 manifest_reads_back [OF hex])
  have rb: "\<forall>r \<in> set rows. reads_back rt (row_id rt r, r)" using assms(5) by simp
  have found: "\<exists>v. store_get rt (pj_store p') (row_id rt r) = Some v \<and> canon v = canon r" if "r \<in> set rows" for r
    using captured_row_found [OF cp assms(2,3) rb assms(4) _ _ that] assms(6,7) by (simp add: p0 st)
  let ?get = "\<lambda>r. the (store_get rt (pj_store p') (row_id rt r))"
  have g: "store_get rt (pj_store p') (row_id rt r) \<noteq> None \<and> canon (?get r) = canon r" if "r \<in> set rows" for r
    using found [OF that] by auto
  have "dumps_sorted rt (?get r) = dumps_sorted rt r" if "r \<in> set rows" for r
    using g [OF that] dumps_sorted_canon by metis
  moreover have "exact_signature rt (?get r) = exact_signature rt r" if "r \<in> set rows" for r
    using g [OF that] exact_signature_canon by metis
  ultimately have "joined_signatures rt (map ?get rows) = joined_signatures rt rows"
    and "map (dumps_sorted rt) (map ?get rows) = canonical_lines rt rows"
    by (auto simp: joined_signatures_def canonical_lines_def comp_def cong: map_cong)
  moreover have "filter (\<lambda>i. store_get rt (pj_store p') i = None) (map (row_id rt) rows) = []"
    using g by (auto simp: filter_empty_conv)
  moreover have "dget (pj_records p') (slug (dv_version_id r)) = Some (Some r)" by (simp add: rs dget_dset)
  moreover have "dv_rows_stored r" "dv_content_fingerprint r = dc_content_fingerprint cap"
    using assms(2) by (simp_all add: r published_record_def)
  ultimately have "reconstruct_version_lines rt True None p' (dv_version_id r) = Inr (canonical_lines rt rows)"
    using reconstruct_version_eq [OF _ _ man, of r rt] cap(2) by (simp add: comp_def)
  moreover have "dget (pj_manifests p') (slug (dv_version_id r)) = Some (lines_file (map (row_id rt) rows))"
    using utf8_lines_hex [OF hex] by (simp add: ms dget_dset cap(1))
  ultimately show ?thesis using man by blast
qed


text \<open>C6: A published version can be restored. If publication succeeds with its rows stored, then
  restoring the version at once returns exactly the canonical lines of the dataset's rows, in
  order and with duplicates. The hypotheses are what the code takes from its libraries for
  the rows at hand: the stored lines read back, digests are 64 hex digits, and no two of the
  rows in play collide.\<close>

theorem publish_then_restore:
  assumes "publish_dataset_version rt env pe req (Some content) p = (Inr (r, cap), p')"
    and "dc_rows_stored cap" and "float_repr_ok (float_repr rt)"
    and "read_jsonl rt (ce_dataset_fault env) content = (rows, b)"
    and "\<forall>r \<in> set rows. reads_back rt (row_id rt r, r) \<and> hex_id (row_id rt r)"
    and "well_addressed rt (pj_store p)" and "collision_free rt (set rows \<union> stored_rows rt (pj_store p))"
  shows "reconstruct_version_lines rt True None p' (dv_version_id r) = Inr (map (dumps_sorted rt) rows)"
  using restore_published [OF assms] by (simp add: canonical_lines_def)

definition sample_publish_env :: publish_env where
  "sample_publish_env = \<lparr>pe_timestamp = ''20260702T183000'', pe_suffix = ''004217-9af3c1'',
     pe_now_iso = ''2026-07-02'', pe_manifest_ok = True, pe_record_ok = True\<rparr>"

definition sample_request :: publish_request where
  "sample_request = \<lparr>pr_label = [], pr_trigger = ''manual'', pr_store_rows = True, pr_source_run_ids = [],
     pr_artifact_ids = [], pr_eval_report_path = None, pr_gate_report_path = None\<rparr>"

definition empty_project :: project where
  "empty_project = \<lparr>pj_dir = False, pj_store = None, pj_manifests = [], pj_records = []\<rparr>"

definition sample_published :: "(publish_error + version_record \<times> dataset_capture) \<times> project" where
  "sample_published = publish_dataset_version sample_rt sample_capture_env sample_publish_env sample_request
     (Some sample_dataset) empty_project"

definition sample_cap :: dataset_capture where
  "sample_cap = \<lparr>dc_content_fingerprint = Some (sample_hash (joined_signatures sample_rt [row_a, row_c, row_a])),
     dc_row_count = 3, dc_row_ids = [id_a, id_c, id_a], dc_new_rows_stored = 2, dc_rows_stored = True\<rparr>"

lemma sample_publish:
  "sample_published =
     (Inr (published_record sample_request sample_publish_env sample_cap, sample_cap),
      \<lparr>pj_dir = True, pj_store = Some (lines_file [line_a, line_c]),
       pj_manifests = [(''20260702T183000-004217-9af3c1'', lines_file [id_a, id_c, id_a])],
       pj_records = [(''20260702T183000-004217-9af3c1'',
         Some (published_record sample_request sample_publish_env sample_cap))]\<rparr>)"
  by code_simp

lemma sample_rows_ok:
  "\<forall>r \<in> set [row_a, row_c, row_a]. reads_back sample_rt (row_id sample_rt r, r) \<and> hex_id (row_id sample_rt r)"
  "well_addressed sample_rt (pj_store empty_project)"
  "collision_free sample_rt (set [row_a, row_c, row_a] \<union> stored_rows sample_rt (pj_store empty_project))"
proof -
  have "hex_id id_a" "hex_id id_c" "id_a \<noteq> id_c" by code_simp+
  then show "\<forall>r \<in> set [row_a, row_c, row_a]. reads_back sample_rt (row_id sample_rt r, r) \<and> hex_id (row_id sample_rt r)"
    and "collision_free sample_rt (set [row_a, row_c, row_a] \<union> stored_rows sample_rt (pj_store empty_project))"
    using sample_reads_back
    by (auto simp: sample_row_ids collision_free_def stored_rows_def store_get_def empty_project_def)
qed (simp add: well_addressed_def store_get_def empty_project_def)

abbreviation "sample_version \<equiv> published_record sample_request sample_publish_env sample_cap"

lemma sample_published_facts:
  "publish_dataset_version sample_rt sample_capture_env sample_publish_env sample_request
     (Some sample_dataset) empty_project = (Inr (sample_version, sample_cap), snd sample_published)"
  "dc_rows_stored sample_cap"
  "read_jsonl sample_rt (ce_dataset_fault sample_capture_env) sample_dataset = ([row_a, row_c, row_a], False)"
proof -
  show "publish_dataset_version sample_rt sample_capture_env sample_publish_env sample_request
     (Some sample_dataset) empty_project = (Inr (sample_version, sample_cap), snd sample_published)"
    unfolding sample_published_def [symmetric] sample_publish by simp
  show "dc_rows_stored sample_cap" by (simp add: sample_cap_def)
  show "read_jsonl sample_rt (ce_dataset_fault sample_capture_env) sample_dataset = ([row_a, row_c, row_a], False)"
    using sample_read by (simp add: sample_capture_env_def)
qed

lemmas sample_restore_premises =
  sample_published_facts(1,2) sample_float_ok sample_published_facts(3) sample_rows_ok

theorem publish_then_restore_witness:
  "reconstruct_version_lines sample_rt True None (snd sample_published) (dv_version_id sample_version)
     = Inr (map (dumps_sorted sample_rt) [row_a, row_c, row_a])"
  by (rule publish_then_restore [OF sample_restore_premises])

theorem restore_is_verified_witness:
  "\<exists>r ids rows. load_version_record (snd sample_published) (slug (dv_version_id sample_version)) = Some r
     \<and> map (store_get sample_rt (pj_store (snd sample_published))) ids = map Some rows
     \<and> map (dumps_sorted sample_rt) [row_a, row_c, row_a] = map (dumps_sorted sample_rt) rows"
proof -
  have "reconstruct_version_lines sample_rt True None (snd sample_published) (dv_version_id sample_version)
     = Inr (canonical_lines sample_rt [row_a, row_c, row_a])"
    using restore_published [OF sample_restore_premises] by blast
  from restore_is_verified [OF this] show ?thesis unfolding canonical_lines_def by blast
qed

end
