(* ===== verification/Version_Protocol.thy ===== *)
theory Version_Protocol
  imports Version_Restore
begin

text \<open>
  The version store as a state machine. Captures, publications and garbage collections are
  critical sections of the version-store lock (\<open>versions/store_lock.py\<close>), so a run of the
  program is a sequence of such sections. A process killed inside one leaves the state of a
  section that failed at that point: killed while appending is a capture whose final flush
  failed and whose rollback did not happen, killed before the manifest or before the record
  is a publication whose manifest or record write failed. The environments of the steps
  range over all of these.
\<close>

inductive protocol_step :: "runtime \<Rightarrow> project \<Rightarrow> project \<Rightarrow> bool" for rt where
  Capture: "protocol_step rt p (snd (capture_dataset rt env store_rows examples p))"
| Publish: "slug (mint_version_id (pe_timestamp pe) (pe_suffix pe)) \<notin> set (dkeys (pj_records p)) \<union> set (dkeys (pj_manifests p))
    \<Longrightarrow> protocol_step rt p (snd (publish_dataset_version rt env pe req examples p))"
| Collect: "protocol_step rt p (snd (gc_row_store rt genv dry p))"


section \<open>No line of the store begins with a byte order mark\<close>

lemma text_lines_take_rows:
  assumes "float_repr_ok (float_repr rt)" and "l \<in> set (text_lines (take n (lines_bytes rt rrs)))"
  shows "hd l = CHR ''{''"
  using assms(2)
proof (induction rrs arbitrary: n)
  case (Cons rr rrs)
  let ?b = "store_bytes rt (fst rr) (snd rr)"
  have cl: "clean_line ?b" by (rule store_line_clean [OF assms(1)])
  obtain u where u: "?b = CHR ''{'' # u"
    by (simp add: store_bytes_def dumps_sorted_def store_object_def utf8_Cons_ascii)
  have lb: "lines_bytes rt (rr # rrs) = ?b @ nl # lines_bytes rt rrs"
    by (simp add: lines_bytes_def store_line_bytes)
  show ?case
  proof (cases "n \<le> length ?b")
    case True
    then have t: "take n (lines_bytes rt (rr # rrs)) = take n ?b" by (simp add: lb)
    have "nl \<notin> set (take n ?b)" using cl by (auto simp: clean_line_def dest: in_set_takeD)
    then have "text_lines (take n ?b) = filter (\<lambda>l. l \<noteq> []) [json_strip (take n ?b)]"
      by (simp add: text_lines_def split_on_no_sep)
    with Cons.prems t have l: "l = json_strip (take n ?b)" "l \<noteq> []" by (auto split: if_splits)
    then have "n \<noteq> 0" by (cases n) auto
    then obtain w where w: "take n ?b = CHR ''{'' # w" by (cases n) (simp_all add: u)
    with l strip_with_Cons [of json_space "CHR ''{''" w] show ?thesis by (auto simp: json_space_def)
  next
    case False
    then obtain m where "n = length ?b + Suc m" by (metis add_Suc_right less_imp_Suc_add not_le)
    then have t: "take n (lines_bytes rt (rr # rrs)) = ?b @ nl # take m (lines_bytes rt rrs)"
      by (simp add: lb)
    have "text_lines ?b = [?b]" using cl by (simp add: clean_line_def text_lines_line)
    then have "text_lines (take n (lines_bytes rt (rr # rrs))) = ?b # text_lines (take m (lines_bytes rt rrs))"
      unfolding t text_lines_nl by simp
    with Cons u show ?thesis by auto
  qed
qed (simp add: lines_bytes_def)

definition bom_free :: "bytes option \<Rightarrow> bool" where
  "bom_free store \<longleftrightarrow> (\<forall>l \<in> set (stripped_lines (store_bytes_of store)). \<not> has_prefix UTF8_BOM l)"

lemma stripped_lines_Nil [simp]: "stripped_lines [] = []"
  by (simp add: stripped_lines_text strip_bom_hd)

lemma bom_free_iff: "no_bom_lines p \<longleftrightarrow> bom_free (pj_store p)"
  by (simp add: no_bom_lines_def bom_free_def store_bytes_of_def list_all_iff split: option.splits)

lemma bom_free_repaired: "bom_free (repaired_store env store) = bom_free store"
  by (auto simp: bom_free_def repaired_store_def terminate_torn_tail_def store_bytes_of_def split: option.splits)

lemma bom_free_capture:
  assumes fr: "float_repr_ok (float_repr rt)" and "bom_free store"
  shows "bom_free (snd (capture_pass rt env True content store))"
  using capture_pass_extends [of rt env content store]
proof (elim disjE conjE exE)
  assume "snd (capture_pass rt env True content store) = repaired_store env store"
  with assms(2) show ?thesis by (simp add: bom_free_repaired)
next
  fix n rrs
  let ?c = "store_bytes_of (repaired_store env store)" and ?x = "take n (lines_bytes rt rrs)"
  assume "\<not> repair_failed env store" and eq: "snd (capture_pass rt env True content store) = Some (?c @ ?x)"
  then have "complete ?c" by (simp add: repaired_complete)
  have hd: "\<not> has_prefix UTF8_BOM l" if "l \<in> set (text_lines ?x)" for l
    using text_lines_take_rows [OF fr that] that text_lines_clean [OF that]
    by (cases l) (auto simp: has_prefix_def UTF8_BOM_def)
  have old: "\<forall>l \<in> set (stripped_lines ?c). \<not> has_prefix UTF8_BOM l"
    using assms(2) bom_free_repaired [of env store] by (simp add: bom_free_def)
  have "set (stripped_lines (?c @ ?x)) \<subseteq> set (stripped_lines ?c) \<union> set (text_lines ?x)"
  proof (cases "?c = []")
    case True
    have "?x = [] \<or> hd ?x = CHR ''{''"
      by (cases rrs; cases n) (auto simp: lines_bytes_def store_line_def dumps_sorted_def store_object_def utf8_Cons_ascii)
    then have "strip_bom ?x = ?x" by (intro strip_bom_hd) auto
    with True show ?thesis by (simp add: stripped_lines_text)
  next
    case False
    with \<open>complete ?c\<close> obtain c' where c: "?c = c' @ [nl]" by (cases ?c rule: rev_cases) (auto simp: complete_def)
    show ?thesis
      using text_lines_nl [of "strip_bom c'" ?x] text_lines_nl [of "strip_bom c'" "[]"]
      by (simp add: stripped_lines_text c strip_bom_append_nl)
  qed
  with hd old eq show ?thesis by (auto simp: bom_free_def store_bytes_of_def)
qed


section \<open>A restorable version stays restorable\<close>

text \<open>A version whose manifest is as publication writes it, whose record is committed and
  matches, and whose rows are in the store.\<close>

definition version_ok :: "runtime \<Rightarrow> string \<Rightarrow> string list \<Rightarrow> project \<Rightarrow> bool" where
  "version_ok rt vid out p \<longleftrightarrow>
     (\<exists>r ids rows. dget (pj_records p) (slug vid) = Some (Some r) \<and> dv_rows_stored r
        \<and> dget (pj_manifests p) (slug vid) = Some (lines_file ids) \<and> (\<forall>i \<in> set ids. hex_id i)
        \<and> map (store_get rt (pj_store p)) ids = map Some rows
        \<and> dv_content_fingerprint r = Some (sha256_hex rt (joined_signatures rt rows))
        \<and> out = map (dumps_sorted rt) rows)"

lemma version_ok_restores:
  assumes "version_ok rt vid out p"
  shows "reconstruct_version_lines rt True None p vid = Inr out"
proof -
  from assms obtain r ids rows where v: "dget (pj_records p) (slug vid) = Some (Some r)" "dv_rows_stored r"
     "dget (pj_manifests p) (slug vid) = Some (lines_file ids)" "\<forall>i \<in> set ids. hex_id i"
     "map (store_get rt (pj_store p)) ids = map Some rows"
     "dv_content_fingerprint r = Some (sha256_hex rt (joined_signatures rt rows))"
     "out = map (dumps_sorted rt) rows"
    by (auto simp: version_ok_def)
  have "utf8_decode (lines_file ids) = Some (lines_file ids)"
    using utf8_decode_utf8 [of "lines_file ids"] utf8_lines_hex [OF v(4)] by simp
  then have man: "load_row_manifest True p vid = Inr (Some ids)"
    by (simp add: load_row_manifest_def v(3) manifest_reads_back [OF v(4)])
  have "\<forall>i \<in> set ids. store_get rt (pj_store p) i \<noteq> None"
    using v(5) by (metis in_set_conv_nth length_map nth_map option.distinct(1))
  moreover have "map (\<lambda>i. the (store_get rt (pj_store p) i)) ids = rows"
    using arg_cong [OF v(5), of "map the"] by (simp add: comp_def)
  moreover have "filter (\<lambda>i. store_get rt (pj_store p) i = None) ids = []"
    using calculation(1) by (simp add: filter_empty_conv)
  ultimately show ?thesis
    using reconstruct_version_eq [OF v(1,2) man, of rt] v(6,7) by simp
qed

lemma version_ok_mono:
  assumes "version_ok rt vid out p"
    and "dget (pj_records p') (slug vid) = dget (pj_records p) (slug vid)"
    and "dget (pj_manifests p') (slug vid) = dget (pj_manifests p) (slug vid)"
    and "\<And>ids k v. dget (pj_manifests p) (slug vid) = Some (lines_file ids) \<Longrightarrow> \<forall>i \<in> set ids. hex_id i \<Longrightarrow>
           k \<in> set ids \<Longrightarrow> store_get rt (pj_store p) k = Some v \<Longrightarrow> store_get rt (pj_store p') k = Some v"
  shows "version_ok rt vid out p'"
proof -
  from assms(1) obtain r ids rows where v: "dget (pj_records p) (slug vid) = Some (Some r)" "dv_rows_stored r"
     "dget (pj_manifests p) (slug vid) = Some (lines_file ids)" "\<forall>i \<in> set ids. hex_id i"
     "map (store_get rt (pj_store p)) ids = map Some rows"
     "dv_content_fingerprint r = Some (sha256_hex rt (joined_signatures rt rows))"
     "out = map (dumps_sorted rt) rows"
    by (auto simp: version_ok_def)
  have "store_get rt (pj_store p') (ids ! n) = Some (rows ! n)" if "n < length ids" for n
  proof -
    have "store_get rt (pj_store p) (ids ! n) = Some (rows ! n)"
      using v(5) that by (metis length_map nth_map)
    with assms(4) [OF v(3,4)] that show ?thesis by simp
  qed
  then have "map (store_get rt (pj_store p')) ids = map Some rows"
    using arg_cong [OF v(5), of length] by (auto intro: nth_equalityI)
  with v assms(2,3) show ?thesis unfolding version_ok_def by metis
qed

lemma live_ids_manifest:
  assumes "dget (pj_manifests p) name = Some (lines_file ids)" and "\<forall>i \<in> set ids. hex_id i"
  shows "set ids \<subseteq> live_ids p"
proof -
  have "stripped_lines (lines_file ids) = ids"
    unfolding lines_file_def by (rule stripped_lines_rewrite) (use assms(2) in \<open>auto simp: hex_strip\<close>)
  moreover from assms(1) have "(name, lines_file ids) \<in> set (pj_manifests p)" by (rule map_of_SomeD)
  ultimately show ?thesis by (force simp: live_ids_def)
qed

lemma capture_dataset_frame:
  "pj_records (snd (capture_dataset rt env sr examples p)) = pj_records p
   \<and> pj_manifests (snd (capture_dataset rt env sr examples p)) = pj_manifests p"
  by (auto simp: capture_dataset_def split: option.splits prod.splits)

lemma capture_dataset_bom:
  "float_repr_ok (float_repr rt) \<Longrightarrow> no_bom_lines p \<Longrightarrow> no_bom_lines (snd (capture_dataset rt env sr examples p))"
  using bom_free_capture [of rt "pj_store p" env]
  by (auto simp: capture_dataset_def bom_free_iff split: option.splits prod.splits) (metis snd_conv)

text \<open>Publication is a capture followed by writes under its own fresh name.\<close>

lemma publish_frame:
  assumes "slug vid \<noteq> slug (mint_version_id (pe_timestamp pe) (pe_suffix pe))"
  shows "\<exists>p0 p1. (p1 = p0 \<or> (\<exists>sr. p1 = snd (capture_dataset rt env sr examples p0))) \<and> pj_store p0 = pj_store p
     \<and> pj_records p0 = pj_records p \<and> pj_manifests p0 = pj_manifests p
     \<and> pj_store (snd (publish_dataset_version rt env pe req examples p)) = pj_store p1
     \<and> dget (pj_records (snd (publish_dataset_version rt env pe req examples p))) (slug vid) = dget (pj_records p1) (slug vid)
     \<and> dget (pj_manifests (snd (publish_dataset_version rt env pe req examples p))) (slug vid) = dget (pj_manifests p1) (slug vid)"
proof (cases "pr_store_rows req \<and> ce_lock env \<noteq> LockAcquired")
  case True
  then show ?thesis
    by (intro exI [of _ p]) (simp add: publish_dataset_version_def)
next
  case False
  let ?p0 = "if pr_store_rows req then p\<lparr>pj_dir := True\<rparr> else p"
  obtain out p1 where cp: "capture_dataset rt env (pr_store_rows req) examples ?p0 = (out, p1)" by force
  have "pj_store (snd (publish_dataset_version rt env pe req examples p)) = pj_store p1
     \<and> dget (pj_records (snd (publish_dataset_version rt env pe req examples p))) (slug vid) = dget (pj_records p1) (slug vid)
     \<and> dget (pj_manifests (snd (publish_dataset_version rt env pe req examples p))) (slug vid) = dget (pj_manifests p1) (slug vid)"
    using False cp assms unfolding publish_dataset_version_def
    by (cases out) (auto simp: Let_def save_row_manifest_def save_version_record_def published_record_def
        dget_dset split: prod.splits sum.splits if_splits)
  moreover have "p1 = snd (capture_dataset rt env (pr_store_rows req) examples ?p0)" by (simp add: cp)
  ultimately show ?thesis by (intro exI [of _ ?p0] exI [of _ p1]) auto
qed


lemma publish_no_bom:
  assumes "float_repr_ok (float_repr rt)" and "no_bom_lines p"
  shows "no_bom_lines (snd (publish_dataset_version rt env pe req examples p))"
proof -
  have "\<exists>vid. slug vid \<noteq> slug (mint_version_id (pe_timestamp pe) (pe_suffix pe))"
  proof (cases "slug (mint_version_id (pe_timestamp pe) (pe_suffix pe)) = ''a''")
    case True
    have "slug ''b'' = ''b''" by (rule slug_id) (simp_all add: id_char_def)
    with True show ?thesis by (intro exI [of _ "''b''"]) simp
  next
    case False
    have "slug ''a'' = ''a''" by (rule slug_id) (simp_all add: id_char_def)
    with False show ?thesis by (intro exI [of _ "''a''"]) simp
  qed
  then obtain vid where "slug vid \<noteq> slug (mint_version_id (pe_timestamp pe) (pe_suffix pe))" by blast
  from publish_frame [OF this, where p = p and rt = rt and env = env and req = req and examples = examples] obtain p0 p1
    where f: "p1 = p0 \<or> (\<exists>sr. p1 = snd (capture_dataset rt env sr examples p0))" "pj_store p0 = pj_store p"
      "pj_store (snd (publish_dataset_version rt env pe req examples p)) = pj_store p1" by blast
  with assms have "no_bom_lines p0" by (simp add: bom_free_iff)
  with f(1) capture_dataset_bom [OF assms(1)] have "no_bom_lines p1" by blast
  with f(3) show ?thesis by (simp add: bom_free_iff)
qed

lemma gc_no_bom: "no_bom_lines p \<Longrightarrow> no_bom_lines (snd (gc_row_store rt env dry p))"
proof (cases rule: gc_cases [of rt env dry p])
  case (swept content)
  assume "no_bom_lines p"
  with swept have nb: "\<forall>l \<in> set (stripped_lines content). \<not> has_prefix UTF8_BOM l"
    by (simp add: no_bom_lines_def list_all_iff)
  with swept show ?thesis by (simp add: no_bom_lines_def list_all_iff swept_lines [OF nb])
qed simp

lemma protocol_step_keeps:
  assumes "float_repr_ok (float_repr rt)" and "protocol_step rt p p'"
    and "no_bom_lines p" and "version_ok rt vid out p"
  shows "no_bom_lines p' \<and> version_ok rt vid out p'"
  using assms(2)
proof (cases rule: protocol_step.cases)
  case (Capture env sr examples)
  have "version_ok rt vid out p'"
    by (rule version_ok_mono [OF assms(4)])
       (use capture_keeps_rows capture_dataset_frame in \<open>simp_all add: Capture\<close>)
  with capture_dataset_bom [OF assms(1,3)] Capture show ?thesis by simp
next
  case (Publish pe env req examples)
  from assms(4) obtain r where "(slug vid, Some r) \<in> set (pj_records p)"
    by (auto simp: version_ok_def dest!: map_of_SomeD)
  then have "slug vid \<in> set (dkeys (pj_records p)) \<union> set (dkeys (pj_manifests p))" by force
  with Publish(2) have "slug vid \<noteq> slug (mint_version_id (pe_timestamp pe) (pe_suffix pe))" by metis
  from publish_frame [OF this, where p = p and rt = rt and env = env and req = req and examples = examples] obtain p0 p1
    where f: "p1 = p0 \<or> (\<exists>sr. p1 = snd (capture_dataset rt env sr examples p0))"
      "pj_store p0 = pj_store p" "pj_records p0 = pj_records p" "pj_manifests p0 = pj_manifests p"
      "pj_store p' = pj_store p1" "dget (pj_records p') (slug vid) = dget (pj_records p1) (slug vid)"
      "dget (pj_manifests p') (slug vid) = dget (pj_manifests p1) (slug vid)"
    unfolding Publish(1) by blast
  have g: "pj_records p1 = pj_records p0 \<and> pj_manifests p1 = pj_manifests p0
      \<and> (\<forall>k v. store_get rt (pj_store p0) k = Some v \<longrightarrow> store_get rt (pj_store p1) k = Some v)"
    using f(1) capture_keeps_rows capture_dataset_frame by blast
  have "version_ok rt vid out p'"
    by (rule version_ok_mono [OF assms(4)]) (use f g in simp_all)
  with publish_no_bom [OF assms(1,3)] Publish(1) show ?thesis by simp
next
  case (Collect genv dry)
  have keep: "load_rows_by_id rt None (pj_store p') S = load_rows_by_id rt None (pj_store p) S
      \<and> pj_manifests p' = pj_manifests p \<and> pj_records p' = pj_records p" if "S \<subseteq> live_ids p" for S
    using gc_keeps_rows [OF assms(3) that, of rt genv dry] by (simp add: Collect)
  have "version_ok rt vid out p'"
  proof (rule version_ok_mono [OF assms(4)])
    fix ids k v
    assume "dget (pj_manifests p) (slug vid) = Some (lines_file ids)" "\<forall>i \<in> set ids. hex_id i"
      and k: "k \<in> set ids" and v: "store_get rt (pj_store p) k = Some v"
    then have "set ids \<subseteq> live_ids p" by (intro live_ids_manifest)
    with keep have "load_rows_by_id rt None (pj_store p') (set ids) = load_rows_by_id rt None (pj_store p) (set ids)"
      by blast
    with load_rows_by_id_get [of "set ids" rt "pj_store p'" k] load_rows_by_id_get [of "set ids" rt "pj_store p" k] k v
    show "store_get rt (pj_store p') k = Some v" by simp
  qed (use keep [of "{}"] in simp_all)
  with gc_no_bom [OF assms(3)] Collect show ?thesis by simp
qed

lemma protocol_keeps:
  assumes "float_repr_ok (float_repr rt)" and "rtranclp (protocol_step rt) p p'"
    and "no_bom_lines p" and "version_ok rt vid out p"
  shows "no_bom_lines p' \<and> version_ok rt vid out p'"
  using assms(2-)
  by (induction rule: rtranclp_induct) (use protocol_step_keeps [OF assms(1)] in blast)+

lemma published_ok:
  assumes "publish_dataset_version rt env pe req (Some content) p = (Inr (r, cap), p')"
    and "dc_rows_stored cap" and "float_repr_ok (float_repr rt)"
    and "read_jsonl rt (ce_dataset_fault env) content = (rows, b)"
    and "\<forall>r \<in> set rows. reads_back rt (row_id rt r, r) \<and> hex_id (row_id rt r)"
    and "well_addressed rt (pj_store p)" and "collision_free rt (set rows \<union> stored_rows rt (pj_store p))"
  shows "version_ok rt (dv_version_id r) (map (dumps_sorted rt) rows) p'"
proof -
  note res = restore_published [OF assms, unfolded canonical_lines_def]
  then obtain r' rows' where v: "load_version_record p' (slug (dv_version_id r)) = Some r'" "dv_rows_stored r'"
    "map (store_get rt (pj_store p')) (map (row_id rt) rows) = map Some rows'"
    "dv_content_fingerprint r' = Some (sha256_hex rt (joined_signatures rt rows'))"
    "map (dumps_sorted rt) rows = map (dumps_sorted rt) rows'"
    using restore_verified [OF res [THEN conjunct1]] by auto
  have "dget (pj_records p') (slug (dv_version_id r)) = Some (Some r')"
    using v(1) by (auto simp: load_version_record_def split: option.splits)
  moreover have "\<forall>i \<in> set (map (row_id rt) rows). hex_id i" using assms(5) by simp
  ultimately show ?thesis
    unfolding version_ok_def using v res by metis
qed

text \<open>C1: A published version survives everything the program does afterwards. After a
  publication that stored its rows, any sequence of captures, further publications (under
  fresh names) and garbage collections, each of them succeeding, failing or dying at any
  point, leaves the version restorable, and the restore returns the canonical lines of the
  dataset as it was when the version was published.\<close>

theorem published_version_survives:
  assumes "publish_dataset_version rt env pe req (Some content) p = (Inr (r, cap), p')"
    and "dc_rows_stored cap" and "float_repr_ok (float_repr rt)"
    and "read_jsonl rt (ce_dataset_fault env) content = (rows, b)"
    and "\<forall>r \<in> set rows. reads_back rt (row_id rt r, r) \<and> hex_id (row_id rt r)"
    and "well_addressed rt (pj_store p)" and "collision_free rt (set rows \<union> stored_rows rt (pj_store p))"
    and "no_bom_lines p" and "rtranclp (protocol_step rt) p' p''"
  shows "reconstruct_version_lines rt True None p'' (dv_version_id r) = Inr (map (dumps_sorted rt) rows)"
proof -
  have "no_bom_lines p'" using publish_no_bom [OF assms(3,8), of env pe req "Some content"] assms(1) by simp
  from protocol_keeps [OF assms(3,9) this published_ok [OF assms(1-7)]] version_ok_restores
  show ?thesis by blast
qed

text \<open>The same version after a capture that is killed while it appends and a sweep.\<close>

definition later_project :: project where
  "later_project = snd (gc_row_store sample_rt sample_env False
     (snd (capture_dataset sample_rt (sample_capture_env\<lparr>ce_close_ok := False, ce_landed := 7, ce_truncate_ok := False\<rparr>)
        True (Some sample_dataset) (snd sample_published))))"

theorem published_version_survives_witness:
  "reconstruct_version_lines sample_rt True None later_project (dv_version_id sample_version)
     = Inr (map (dumps_sorted sample_rt) [row_a, row_c, row_a])"
proof (rule published_version_survives [OF sample_restore_premises])
  show "no_bom_lines empty_project" by (simp add: no_bom_lines_def empty_project_def)
  show "rtranclp (protocol_step sample_rt) (snd sample_published) later_project"
    unfolding later_project_def
    by (rule rtranclp.rtrancl_into_rtrancl [OF r_into_rtranclp [of "protocol_step sample_rt", OF protocol_step.Capture] protocol_step.Collect])
qed

end
