(* ===== verification/Provider_Policy.thy ===== *)
theory Provider_Policy
  imports Sample_Runtime
begin

text \<open>
  The provider capability policy (\<open>providers/policy.py\<close>) and its project-local overrides
  (\<open>providers/overrides.py\<close>): which provider may generate trainable rows, which may only
  evaluate, and why a request is refused. An override file is edited by hand and its values
  are copied into the policy without validation, so the overridable fields hold JSON values
  and are used by their truth value.
\<close>

section \<open>Roles, actions and policies\<close>

datatype provider_role = Trainable_output_generator | Evaluator

definition TRAINABLE_ACTIONS :: "string list" where
  "TRAINABLE_ACTIONS = [''rewrite-output'', ''draft-example'', ''generate-trace'']"

definition EVALUATOR_ACTIONS :: "string list" where
  "EVALUATOR_ACTIONS = [''review'', ''suggest-tags'', ''judge-preference-strength'']"

text \<open>The truth value of a JSON value in Python.\<close>

fun truthy :: "json \<Rightarrow> bool" where
  "truthy JNull = False"
| "truthy (JBool b) = b"
| "truthy (JInt i) = (i \<noteq> 0)"
| "truthy (JFloat x) = (x \<noteq> 0)"
| "truthy (JStr s) = (s \<noteq> [])"
| "truthy (JList vs) = (vs \<noteq> [])"
| "truthy (JObj kvs) = (kvs \<noteq> [])"

record provider_policy =
  pp_provider_id :: string
  pp_provider_kind :: string
  pp_model_id :: "string option"
  pp_route_id :: "string option"
  pp_display_name :: json
  pp_allowed_roles :: "provider_role list"
  pp_blocked_roles :: "provider_role list"
  pp_outputs_trainable :: json
  pp_requires_human_review :: bool
  pp_local_only :: bool
  pp_requires_api_key :: json
  pp_route_parent :: "string option"
  pp_license_or_terms_note :: json
  pp_safety_notes :: json
  pp_default_policy_source :: string
  pp_user_approved_generation :: json
  pp_acknowledge_untrusted_endpoint :: json

definition can_generate_trainable :: "provider_policy \<Rightarrow> bool" where
  "can_generate_trainable p =
     (if Trainable_output_generator \<in> set (pp_blocked_roles p) then False
      else if Trainable_output_generator \<notin> set (pp_allowed_roles p) then False
      else if \<not> (truthy (pp_outputs_trainable p) \<and> truthy (pp_user_approved_generation p)) then False
      else if pp_provider_id p = ''openai_compatible'' \<and> \<not> truthy (pp_acknowledge_untrusted_endpoint p)
      then False
      else True)"

definition can_evaluate :: "provider_policy \<Rightarrow> bool" where
  "can_evaluate p \<longleftrightarrow> Evaluator \<in> set (pp_allowed_roles p) \<and> Evaluator \<notin> set (pp_blocked_roles p)"


section \<open>Built-in defaults\<close>

definition evaluator_only :: "string \<Rightarrow> string \<Rightarrow> string \<Rightarrow> string \<Rightarrow> provider_policy" where
  "evaluator_only provider_id pkind name source =
     \<lparr>pp_provider_id = provider_id, pp_provider_kind = pkind, pp_model_id = None, pp_route_id = None,
      pp_display_name = JStr name, pp_allowed_roles = [Evaluator],
      pp_blocked_roles = [Trainable_output_generator], pp_outputs_trainable = JBool False,
      pp_requires_human_review = True, pp_local_only = False, pp_requires_api_key = JBool False,
      pp_route_parent = None, pp_license_or_terms_note = JStr [], pp_safety_notes = JStr [],
      pp_default_policy_source = source, pp_user_approved_generation = JBool False,
      pp_acknowledge_untrusted_endpoint = JBool False\<rparr>"

definition local_server :: "string \<Rightarrow> string \<Rightarrow> string \<Rightarrow> provider_policy" where
  "local_server provider_id name notes =
     (evaluator_only provider_id ''local'' name ''builtin'')
       \<lparr>pp_local_only := True, pp_safety_notes := JStr notes,
        pp_allowed_roles := [Evaluator, Trainable_output_generator], pp_blocked_roles := []\<rparr>"

definition hosted_note :: string where
  "hosted_note = ''Provider terms restrict using outputs to train competing models; evaluator-only by default.''"

definition default_provider_policies :: "(string, provider_policy) dict" where
  "default_provider_policies =
    [(''openai'', (evaluator_only ''openai'' ''hosted'' ''OpenAI'' ''builtin'')
        \<lparr>pp_requires_api_key := JBool True, pp_license_or_terms_note := JStr hosted_note\<rparr>),
     (''anthropic'', (evaluator_only ''anthropic'' ''hosted'' ''Anthropic'' ''builtin'')
        \<lparr>pp_requires_api_key := JBool True, pp_license_or_terms_note := JStr hosted_note\<rparr>),
     (''google'', (evaluator_only ''google'' ''hosted'' ''Google Gemini / PaLM'' ''builtin'')
        \<lparr>pp_requires_api_key := JBool True, pp_license_or_terms_note := JStr
          (''Google-hosted Gemini/PaLM output is evaluator-only under CorpusStudio's '' @
           ''fail-closed default provenance policy; explicitly authorize provenance before '' @
           ''using it as trainable data.'')\<rparr>),
     (''openrouter'', (evaluator_only ''openrouter'' ''router'' ''OpenRouter'' ''builtin'')
        \<lparr>pp_requires_api_key := JBool True, pp_safety_notes := JStr
          ''Route-aware: routes to OpenAI/Anthropic/Google inherit their restrictions.''\<rparr>),
     (''ollama'', local_server ''ollama'' ''Ollama (local)'' []),
     (''openai_compatible'', local_server ''openai_compatible'' ''Local OpenAI-compatible server''
        ''A base_url can point at a hosted provider; approve generation deliberately.'')]"

definition fallback_policy :: "string \<Rightarrow> provider_policy" where
  "fallback_policy provider_id = evaluator_only provider_id ''unknown'' provider_id ''fallback''"


section \<open>Identity from the transport\<close>

definition cut_at :: "char list \<Rightarrow> string \<Rightarrow> string" where
  "cut_at marks s = takeWhile (\<lambda>c. c \<notin> set marks) s"

definition after_first :: "char \<Rightarrow> string \<Rightarrow> string" where
  "after_first c s = tl (dropWhile (\<lambda>d. d \<noteq> c) s)"

definition after_last :: "char \<Rightarrow> string \<Rightarrow> string" where
  "after_last c s = rev (takeWhile (\<lambda>d. d \<noteq> c) (rev s))"

definition ascii_alpha :: "char \<Rightarrow> bool" where
  "ascii_alpha c \<longleftrightarrow> (let n = (of_char c :: nat) in (65 \<le> n \<and> n \<le> 90) \<or> (97 \<le> n \<and> n \<le> 122))"

definition scheme_char :: "char \<Rightarrow> bool" where
  "scheme_char c \<longleftrightarrow> ascii_alpha c \<or> c \<in> set ''0123456789+-.''"

text \<open>\<open>urllib.parse.urlsplit(url).netloc\<close>; \<open>None\<close> is its \<open>ValueError\<close>. The check of a
  bracketed IPv6 host is a parameter.\<close>

definition url_netloc :: "runtime \<Rightarrow> (string \<Rightarrow> bool) \<Rightarrow> string \<Rightarrow> string option" where
  "url_netloc rt bracket_ok url0 =
     (let url1 = filter (\<lambda>c. c \<notin> {CHR 0x09, CHR 0x0D, CHR 0x0A})
                   (dropWhile (\<lambda>c. (of_char c :: nat) \<le> 32) url0);
          sch = cut_at '':'' url1;
          url2 = (if CHR '':'' \<in> set url1 \<and> sch \<noteq> [] \<and> ascii_alpha (hd sch) \<and> list_all scheme_char sch
                  then after_first (CHR '':'') url1 else url1);
          netloc = (if has_prefix ''//'' url2 then cut_at ''/?#'' (drop 2 url2) else []);
          plain = filter (\<lambda>c. c \<notin> set ''@:#?'') netloc;
          folded = nfkc rt plain
      in if (CHR ''['' \<in> set netloc) \<noteq> (CHR '']'' \<in> set netloc) then None
         else if CHR ''['' \<in> set netloc \<and> \<not> bracket_ok netloc then None
         else if list_ex (\<lambda>c. (127::nat) < of_char c) netloc \<and> folded \<noteq> plain
                 \<and> list_ex (\<lambda>c. c \<in> set ''/?#@:'') folded then None
         else Some netloc)"

text \<open>\<open>SplitResult.hostname or ""\<close>.\<close>

definition netloc_host :: "string \<Rightarrow> string" where
  "netloc_host netloc =
     (let info = after_last (CHR ''@'') netloc;
          host = (if CHR ''['' \<in> set info then cut_at '']'' (after_first (CHR ''['') info) else cut_at '':'' info)
      in if CHR ''%'' \<in> set host
         then lower (cut_at ''%'' host) @ ''%'' @ after_first (CHR ''%'') host else lower host)"

definition host_under :: "string \<Rightarrow> string \<Rightarrow> bool" where
  "host_under domain host \<longleftrightarrow> host = domain \<or> has_suffix (CHR ''.'' # domain) host"

definition classify_host :: "string \<Rightarrow> string" where
  "classify_host host =
     (if host_under ''openrouter.ai'' host then ''openrouter''
      else if host_under ''openai.com'' host then ''openai''
      else if host_under ''anthropic.com'' host then ''anthropic''
      else ''openai_compatible'')"

text \<open>\<open>None\<close> is the \<open>ValueError\<close> of a malformed URL.\<close>

definition infer_provider_id ::
  "runtime \<Rightarrow> (string \<Rightarrow> bool) \<Rightarrow> string option \<Rightarrow> string option \<Rightarrow> string option" where
  "infer_provider_id rt bracket_ok backend base_url =
     (let normalized = lower (map (\<lambda>c. if c = CHR ''_'' then CHR ''-'' else c)
                                (case backend of None \<Rightarrow> [] | Some b \<Rightarrow> b)) in
      if normalized = ''ollama'' then Some ''ollama''
      else (case base_url of
              None \<Rightarrow> Some (classify_host [])
            | Some url \<Rightarrow>
                if url = [] then Some (classify_host [])
                else (case url_netloc rt bracket_ok (if has_infix ''://'' url then url else ''//'' @ url) of
                        None \<Rightarrow> None
                      | Some netloc \<Rightarrow> Some (classify_host (lower (netloc_host netloc))))))"


section \<open>Frontier routes\<close>

definition FRONTIER_ROUTE_PARENTS :: "string list" where
  "FRONTIER_ROUTE_PARENTS = [''openai'', ''anthropic'', ''google'']"

definition norm_id :: "string \<Rightarrow> string" where
  "norm_id s = lower (strip s)"

text \<open>\<open>route_id.split("/", 1)[0].strip().lower()\<close>.\<close>

definition route_parent :: "string \<Rightarrow> string" where
  "route_parent route_id = norm_id (takeWhile (\<lambda>c. c \<noteq> CHR ''/'') route_id)"

text \<open>An identifier is present when it is given and not the empty string.\<close>

definition present :: "string option \<Rightarrow> bool" where
  "present s \<longleftrightarrow> (case s of None \<Rightarrow> False | Some t \<Rightarrow> t \<noteq> [])"

definition is_frontier :: "string \<Rightarrow> string option \<Rightarrow> bool" where
  "is_frontier provider_id route_id =
     (let pid = norm_id provider_id in
      if pid \<in> set FRONTIER_ROUTE_PARENTS then True
      else if pid = ''openrouter'' \<and> present route_id
      then (if CHR ''/'' \<notin> set (the route_id) then True
            else route_parent (the route_id) \<in> set FRONTIER_ROUTE_PARENTS)
      else False)"

definition apply_frontier_block :: "provider_policy \<Rightarrow> provider_policy" where
  "apply_frontier_block p = p\<lparr>pp_allowed_roles := [Evaluator],
     pp_blocked_roles := [Trainable_output_generator], pp_outputs_trainable := JBool False\<rparr>"


section \<open>Overrides and resolution\<close>

definition OVERRIDE_ALLOWED_KEYS :: "string list" where
  "OVERRIDE_ALLOWED_KEYS = [''outputs_trainable'', ''user_approved_generation'',
     ''acknowledge_untrusted_endpoint'', ''license_or_terms_note'', ''safety_notes'',
     ''display_name'', ''requires_api_key'']"

definition set_field :: "string \<times> json \<Rightarrow> provider_policy \<Rightarrow> provider_policy" where
  "set_field kv p = (let (k, v) = kv in
     if k = ''outputs_trainable'' then p\<lparr>pp_outputs_trainable := v\<rparr>
     else if k = ''user_approved_generation'' then p\<lparr>pp_user_approved_generation := v\<rparr>
     else if k = ''acknowledge_untrusted_endpoint'' then p\<lparr>pp_acknowledge_untrusted_endpoint := v\<rparr>
     else if k = ''license_or_terms_note'' then p\<lparr>pp_license_or_terms_note := v\<rparr>
     else if k = ''safety_notes'' then p\<lparr>pp_safety_notes := v\<rparr>
     else if k = ''display_name'' then p\<lparr>pp_display_name := v\<rparr>
     else if k = ''requires_api_key'' then p\<lparr>pp_requires_api_key := v\<rparr>
     else p)"

type_synonym overrides = "(string, (string, json) dict) dict"

definition apply_override :: "(string, json) dict \<Rightarrow> provider_policy \<Rightarrow> provider_policy" where
  "apply_override override p =
     (fold set_field (filter (\<lambda>kv. fst kv \<in> set OVERRIDE_ALLOWED_KEYS) override) p)
       \<lparr>pp_default_policy_source := ''user_override''\<rparr>"

definition override_keys :: "string \<Rightarrow> string option \<Rightarrow> string option \<Rightarrow> string list" where
  "override_keys provider_id model_id route_id =
     (if present route_id then [provider_id @ ''/route:'' @ the route_id] else [])
   @ (if present model_id then [provider_id @ ''/model:'' @ the model_id] else [])
   @ [provider_id]"

text \<open>The first key with a non-empty override decides.\<close>

fun first_override :: "overrides \<Rightarrow> string list \<Rightarrow> (string, json) dict option" where
  "first_override ovs [] = None"
| "first_override ovs (k # ks) =
     (case dget ovs k of
        Some ov \<Rightarrow> if ov \<noteq> [] then Some ov else first_override ovs ks
      | None \<Rightarrow> first_override ovs ks)"

datatype policy_error = Blank_provider_id

definition resolve_policy ::
  "string \<Rightarrow> string option \<Rightarrow> string option \<Rightarrow> overrides \<Rightarrow> policy_error + provider_policy" where
  "resolve_policy provider_id0 model_id route_id overrides =
     (let provider_id = norm_id provider_id0 in
      if provider_id = [] then Inl Blank_provider_id
      else
        let base = (case dget default_provider_policies provider_id of
                      Some p \<Rightarrow> p | None \<Rightarrow> fallback_policy provider_id);
            policy0 = base\<lparr>pp_model_id := model_id, pp_route_id := route_id\<rparr>;
            frontier = is_frontier provider_id route_id;
            policy1 = (if provider_id = ''openrouter'' \<and> present route_id
              then let q = policy0\<lparr>pp_route_parent := Some (route_parent (the route_id))\<rparr>
                   in if \<not> frontier
                      then q\<lparr>pp_allowed_roles := [Evaluator, Trainable_output_generator], pp_blocked_roles := []\<rparr>
                      else q
              else policy0);
            policy2 = (case first_override overrides (override_keys provider_id model_id route_id) of
                         None \<Rightarrow> policy1 | Some ov \<Rightarrow> apply_override ov policy1)
        in Inr (if frontier then apply_frontier_block policy2 else policy2))"

definition most_specific_override_key ::
  "string \<Rightarrow> string option \<Rightarrow> string option \<Rightarrow> policy_error + string" where
  "most_specific_override_key provider_id0 model_id route_id =
     (let provider_id = norm_id provider_id0 in
      if provider_id = [] then Inl Blank_provider_id
      else if present route_id then Inr (provider_id @ ''/route:'' @ the route_id)
      else if present model_id then Inr (provider_id @ ''/model:'' @ the model_id)
      else Inr provider_id)"


section \<open>Authorization\<close>

datatype refusal =
    Evaluation_not_permitted
  | Unrecognized_action
  | No_policy
  | Blocked_provider
  | Unacknowledged_endpoint
  | Not_approved
  | Evaluator_not_allowed

definition authorize_evaluation :: "provider_policy \<Rightarrow> refusal + unit" where
  "authorize_evaluation p = (if \<not> can_evaluate p then Inl Evaluation_not_permitted else Inr ())"

definition authorize_action :: "provider_policy option \<Rightarrow> string \<Rightarrow> refusal + unit" where
  "authorize_action policy action =
     (if action \<notin> set TRAINABLE_ACTIONS \<and> action \<notin> set EVALUATOR_ACTIONS then Inl Unrecognized_action
      else if action \<in> set TRAINABLE_ACTIONS then
        (case policy of
           None \<Rightarrow> Inl No_policy
         | Some p \<Rightarrow>
             if can_generate_trainable p then Inr ()
             else if Trainable_output_generator \<in> set (pp_blocked_roles p) then Inl Blocked_provider
             else if pp_provider_id p = ''openai_compatible'' \<and> truthy (pp_outputs_trainable p)
                  \<and> truthy (pp_user_approved_generation p) \<and> \<not> truthy (pp_acknowledge_untrusted_endpoint p)
             then Inl Unacknowledged_endpoint
             else Inl Not_approved)
      else (case policy of
              None \<Rightarrow> Inr ()
            | Some p \<Rightarrow> if \<not> can_evaluate p then Inl Evaluator_not_allowed else Inr ()))"


section \<open>The override file\<close>

text \<open>The file as the value it parses to; \<open>None\<close> is a missing, unreadable or malformed file.\<close>

fun object_entries :: "(string \<times> json) list \<Rightarrow> overrides" where
  "object_entries [] = []"
| "object_entries ((k, JObj kvs) # rest) = (k, kvs) # object_entries rest"
| "object_entries (_ # rest) = object_entries rest"

definition load_overrides :: "json option \<Rightarrow> overrides" where
  "load_overrides file = (case file of Some (JObj kvs) \<Rightarrow> object_entries kvs | _ \<Rightarrow> [])"

definition save_overrides :: "overrides \<Rightarrow> json option" where
  "save_overrides ovs = Some (canon (JObj (map (\<lambda>kv. (fst kv, JObj (snd kv))) ovs)))"

definition approve_generation ::
  "string \<Rightarrow> string option \<Rightarrow> string option \<Rightarrow> bool \<Rightarrow> json option \<Rightarrow> policy_error + string \<times> json option" where
  "approve_generation provider_id model_id route_id trainable file =
     (case most_specific_override_key provider_id model_id route_id of
        Inl e \<Rightarrow> Inl e
      | Inr key \<Rightarrow> Inr (key, save_overrides (dset key
          [(''outputs_trainable'', JBool trainable), (''user_approved_generation'', JBool True)]
          (load_overrides file))))"

definition revoke_generation ::
  "string \<Rightarrow> string option \<Rightarrow> string option \<Rightarrow> json option \<Rightarrow> policy_error + bool \<times> json option" where
  "revoke_generation provider_id model_id route_id file =
     (case most_specific_override_key provider_id model_id route_id of
        Inl e \<Rightarrow> Inl e
      | Inr key \<Rightarrow>
          (let overrides = load_overrides file in
           if dget overrides key \<noteq> None then Inr (True, save_overrides (ddel key overrides))
           else Inr (False, file)))"


section \<open>What overrides cannot touch\<close>

lemma set_field_frame [simp]:
  "pp_allowed_roles (set_field kv p) = pp_allowed_roles p"
  "pp_blocked_roles (set_field kv p) = pp_blocked_roles p"
  "pp_provider_id (set_field kv p) = pp_provider_id p"
  "pp_requires_human_review (set_field kv p) = pp_requires_human_review p"
  by (simp_all add: set_field_def split: prod.split)

lemma apply_override_frame [simp]:
  "pp_allowed_roles (apply_override ov p) = pp_allowed_roles p"
  "pp_blocked_roles (apply_override ov p) = pp_blocked_roles p"
  "pp_provider_id (apply_override ov p) = pp_provider_id p"
  "pp_requires_human_review (apply_override ov p) = pp_requires_human_review p"
proof -
  have "pp_allowed_roles (fold set_field kvs p) = pp_allowed_roles p
      \<and> pp_blocked_roles (fold set_field kvs p) = pp_blocked_roles p
      \<and> pp_provider_id (fold set_field kvs p) = pp_provider_id p
      \<and> pp_requires_human_review (fold set_field kvs p) = pp_requires_human_review p" for kvs
    by (induction kvs arbitrary: p) simp_all
  then show "pp_allowed_roles (apply_override ov p) = pp_allowed_roles p"
    "pp_blocked_roles (apply_override ov p) = pp_blocked_roles p"
    "pp_provider_id (apply_override ov p) = pp_provider_id p"
    "pp_requires_human_review (apply_override ov p) = pp_requires_human_review p"
    by (simp_all add: apply_override_def)
qed

text \<open>The value of an overridable field is the override's, where it has one.\<close>

lemma set_field_value:
  "pp_outputs_trainable (set_field kv p) = (if fst kv = ''outputs_trainable'' then snd kv else pp_outputs_trainable p)"
  "pp_user_approved_generation (set_field kv p) =
     (if fst kv = ''user_approved_generation'' then snd kv else pp_user_approved_generation p)"
  "pp_acknowledge_untrusted_endpoint (set_field kv p) =
     (if fst kv = ''acknowledge_untrusted_endpoint'' then snd kv else pp_acknowledge_untrusted_endpoint p)"
  by (simp_all add: set_field_def split: prod.split)

definition or_else :: "json option \<Rightarrow> json \<Rightarrow> json" where
  "or_else x d = (case x of None \<Rightarrow> d | Some v \<Rightarrow> v)"

lemma fold_set_field_value:
  "pp_outputs_trainable (fold set_field kvs p) = or_else (map_of (rev kvs) ''outputs_trainable'') (pp_outputs_trainable p)
   \<and> pp_user_approved_generation (fold set_field kvs p)
       = or_else (map_of (rev kvs) ''user_approved_generation'') (pp_user_approved_generation p)
   \<and> pp_acknowledge_untrusted_endpoint (fold set_field kvs p)
       = or_else (map_of (rev kvs) ''acknowledge_untrusted_endpoint'') (pp_acknowledge_untrusted_endpoint p)"
  by (induction kvs rule: rev_induct) (simp_all add: set_field_value or_else_def)

lemma map_of_filter_keys: "k \<in> set ks \<Longrightarrow> map_of (filter (\<lambda>kv. fst kv \<in> set ks) kvs) k = map_of kvs k"
  by (induction kvs) auto

lemma apply_override_value:
  assumes "distinct (dkeys ov)"
  shows "pp_outputs_trainable (apply_override ov p) = or_else (dget ov ''outputs_trainable'') (pp_outputs_trainable p)"
    and "pp_user_approved_generation (apply_override ov p)
       = or_else (dget ov ''user_approved_generation'') (pp_user_approved_generation p)"
    and "pp_acknowledge_untrusted_endpoint (apply_override ov p)
       = or_else (dget ov ''acknowledge_untrusted_endpoint'') (pp_acknowledge_untrusted_endpoint p)"
proof -
  let ?safe = "filter (\<lambda>kv. fst kv \<in> set OVERRIDE_ALLOWED_KEYS) ov"
  have "distinct (dkeys ?safe)" using assms by (rule distinct_map_filter)
  then have r: "map_of (rev ?safe) k = map_of ?safe k" for k
    by (simp only: map_of_rev_distinct)
  have get: "map_of (rev ?safe) k = map_of ov k" if "k \<in> set OVERRIDE_ALLOWED_KEYS" for k
    using map_of_filter_keys [OF that] r by simp
  have keys: "''outputs_trainable'' \<in> set OVERRIDE_ALLOWED_KEYS" "''user_approved_generation'' \<in> set OVERRIDE_ALLOWED_KEYS"
    "''acknowledge_untrusted_endpoint'' \<in> set OVERRIDE_ALLOWED_KEYS" by (simp_all add: OVERRIDE_ALLOWED_KEYS_def)
  note v = fold_set_field_value [of ?safe p, unfolded get [OF keys(1)] get [OF keys(2)] get [OF keys(3)]]
  show "pp_outputs_trainable (apply_override ov p) = or_else (dget ov ''outputs_trainable'') (pp_outputs_trainable p)"
    and "pp_user_approved_generation (apply_override ov p)
       = or_else (dget ov ''user_approved_generation'') (pp_user_approved_generation p)"
    and "pp_acknowledge_untrusted_endpoint (apply_override ov p)
       = or_else (dget ov ''acknowledge_untrusted_endpoint'') (pp_acknowledge_untrusted_endpoint p)"
    using v by (simp_all add: apply_override_def)
qed


section \<open>Properties of the policy\<close>

definition base_policy :: "string \<Rightarrow> provider_policy" where
  "base_policy pid = (case dget default_provider_policies pid of Some p \<Rightarrow> p | None \<Rightarrow> fallback_policy pid)"

lemma base_policy_facts:
  "pp_provider_id (base_policy pid) = pid" "pp_requires_human_review (base_policy pid)"
  "pp_outputs_trainable (base_policy pid) = JBool False"
  "pp_user_approved_generation (base_policy pid) = JBool False"
  "pp_acknowledge_untrusted_endpoint (base_policy pid) = JBool False"
  "Evaluator \<in> set (pp_allowed_roles (base_policy pid)) - set (pp_blocked_roles (base_policy pid))"
  "Trainable_output_generator \<notin> set (pp_blocked_roles (base_policy pid)) \<Longrightarrow> pid \<in> {''ollama'', ''openai_compatible''}"
  by (auto simp: base_policy_def default_provider_policies_def fallback_policy_def evaluator_only_def
      local_server_def split: option.splits if_splits)

text \<open>The policy before overrides and the frontier block.\<close>

definition routed_policy :: "string \<Rightarrow> string option \<Rightarrow> string option \<Rightarrow> provider_policy" where
  "routed_policy pid m r =
     (let q = (base_policy pid)\<lparr>pp_model_id := m, pp_route_id := r\<rparr> in
      if pid = ''openrouter'' \<and> present r
      then (let q' = q\<lparr>pp_route_parent := Some (route_parent (the r))\<rparr> in
            if \<not> is_frontier pid r
            then q'\<lparr>pp_allowed_roles := [Evaluator, Trainable_output_generator], pp_blocked_roles := []\<rparr> else q')
      else q)"

lemma resolve_eq:
  "resolve_policy pid m r ovs =
     (if norm_id pid = [] then Inl Blank_provider_id
      else let p = (case first_override ovs (override_keys (norm_id pid) m r) of
                      None \<Rightarrow> routed_policy (norm_id pid) m r
                    | Some ov \<Rightarrow> apply_override ov (routed_policy (norm_id pid) m r))
           in Inr (if is_frontier (norm_id pid) r then apply_frontier_block p else p))"
  unfolding resolve_policy_def routed_policy_def base_policy_def Let_def by (rule refl)

lemma routed_policy_facts:
  "pp_provider_id (routed_policy pid m r) = pid" "pp_requires_human_review (routed_policy pid m r)"
  "pp_outputs_trainable (routed_policy pid m r) = JBool False"
  "pp_user_approved_generation (routed_policy pid m r) = JBool False"
  "pp_acknowledge_untrusted_endpoint (routed_policy pid m r) = JBool False"
  "Evaluator \<in> set (pp_allowed_roles (routed_policy pid m r)) - set (pp_blocked_roles (routed_policy pid m r))"
  using base_policy_facts(6) [of pid]
  by (simp_all only: routed_policy_def Let_def) (auto simp: base_policy_facts(1-5))

lemma routed_policy_open:
  "Trainable_output_generator \<notin> set (pp_blocked_roles (routed_policy pid m r)) \<Longrightarrow>
     pid \<in> {''ollama'', ''openai_compatible''} \<or> pid = ''openrouter'' \<and> present r \<and> \<not> is_frontier pid r"
  using base_policy_facts(7) [of pid] by (auto simp: routed_policy_def Let_def split: if_splits)

lemma first_override_mem: "first_override ovs ks = Some ov \<Longrightarrow> \<exists>k \<in> set ks. dget ovs k = Some ov"
  by (induction ks) (auto split: option.splits if_splits)

lemma norm_id_idem [simp]: "norm_id (norm_id s) = norm_id s"
proof -
  have low: "is_space (lower_char c) = is_space c" for c
    by (simp add: lower_char_def is_space_def Let_def)
  have ll: "lower_char (lower_char c) = lower_char c" for c
  proof -
    have "(of_char c :: nat) < 256" by simp
    then show ?thesis by (auto simp: lower_char_def Let_def)
  qed
  have "lower (lower t) = lower t" for t by (simp add: lower_def ll)
  moreover have "strip (lower t) = lower (strip t)" for t
    by (simp add: strip_def strip_with_def lower_def rev_map dropWhile_map comp_def low)
  moreover have "strip (strip t) = strip t" for t by (simp add: strip_def)
  ultimately show ?thesis by (simp add: norm_id_def)
qed

lemma is_frontier_norm [simp]: "is_frontier (norm_id pid) r = is_frontier pid r"
  by (simp add: is_frontier_def)

text \<open>A spelling of a name: any case, any whitespace around it.\<close>

definition spells :: "string \<Rightarrow> string \<Rightarrow> bool" where
  "spells s name \<longleftrightarrow> (\<exists>a w b. s = a @ w @ b \<and> list_all is_space a \<and> list_all is_space b \<and> lower w = name)"

lemma lower_char_space: "is_space (lower_char c) = is_space c"
  by (simp add: lower_char_def is_space_def Let_def)

lemma spells_norm:
  assumes "spells s name" and "\<not> list_ex is_space name"
  shows "norm_id s = name"
proof -
  from assms(1) obtain a w b where s: "s = a @ w @ b" "list_all is_space a" "list_all is_space b" "lower w = name"
    by (auto simp: spells_def)
  from assms(2) s(4) have w: "\<not> list_ex is_space w" by (auto simp: lower_def list_ex_iff lower_char_space)
  have edge: "dropWhile is_space (x @ w @ y) = w @ dropWhile is_space (if w = [] then y else []) @ (if w = [] then [] else y)"
    if "list_all is_space x" for x y
    using that w by (cases w) (auto simp: dropWhile_append list_all_iff)
  have rw: "\<not> list_ex is_space (rev w)" using w by (simp add: list_ex_iff)
  have "dropWhile is_space (rev b @ rev w) = rev w"
    using s(3) rw by (cases "rev w") (auto simp: dropWhile_append list_all_iff)
  with edge [OF s(2), of b] s(3) have "strip s = w"
    by (cases "w = []") (auto simp: strip_def strip_with_def s(1) dropWhile_eq_Nil_conv list_all_iff dest: set_dropWhileD)
  with s(4) show ?thesis by (simp add: norm_id_def)
qed

text \<open>The sources that must not generate: the three vendors, and on OpenRouter a route whose part
  before the first slash names one of them, or a route without a slash.\<close>

definition frontier_source :: "string \<Rightarrow> string option \<Rightarrow> bool" where
  "frontier_source pid r \<longleftrightarrow>
     (\<exists>vendor \<in> {''openai'', ''anthropic'', ''google''}.
        spells pid vendor
        \<or> spells pid ''openrouter'' \<and> (case r of
            None \<Rightarrow> False
          | Some route \<Rightarrow> route \<noteq> [] \<and> (CHR ''/'' \<notin> set route
              \<or> (\<exists>owner rest. route = owner @ ''/'' @ rest \<and> CHR ''/'' \<notin> set owner \<and> spells owner vendor))))"

lemma frontier_source_blocked:
  assumes "frontier_source pid r"
  shows "is_frontier pid r"
proof -
  from assms obtain vendor where v: "vendor \<in> {''openai'', ''anthropic'', ''google''}"
    "spells pid vendor \<or> spells pid ''openrouter'' \<and> (case r of None \<Rightarrow> False
       | Some route \<Rightarrow> route \<noteq> [] \<and> (CHR ''/'' \<notin> set route
           \<or> (\<exists>owner rest. route = owner @ ''/'' @ rest \<and> CHR ''/'' \<notin> set owner \<and> spells owner vendor)))"
    unfolding frontier_source_def by blast
  have plain: "\<not> list_ex is_space vendor" using v(1) by (auto simp: is_space_def)
  have "\<not> list_ex is_space ''openrouter''" by (simp add: is_space_def)
  note open_id = spells_norm [OF _ this]
  from v(2) show ?thesis
  proof (elim disjE conjE)
    assume "spells pid vendor"
    with spells_norm [OF _ plain] have "norm_id pid = vendor" by simp
    moreover have "vendor \<in> set FRONTIER_ROUTE_PARENTS" using v(1) by (simp add: FRONTIER_ROUTE_PARENTS_def)
    ultimately show ?thesis by (simp add: is_frontier_def Let_def)
  next
    assume o: "spells pid ''openrouter''" and c: "case r of None \<Rightarrow> False
       | Some route \<Rightarrow> route \<noteq> [] \<and> (CHR ''/'' \<notin> set route
           \<or> (\<exists>owner rest. route = owner @ ''/'' @ rest \<and> CHR ''/'' \<notin> set owner \<and> spells owner vendor))"
    from c obtain route where r: "r = Some route" "route \<noteq> []" by (cases r) auto
    have parent: "route_parent (owner @ ''/'' @ rest) = norm_id owner" if "CHR ''/'' \<notin> set owner" for owner rest
      using that by (simp add: route_parent_def takeWhile_append)
    from c r consider "CHR ''/'' \<notin> set route"
      | owner rest where "route = owner @ ''/'' @ rest" "CHR ''/'' \<notin> set owner" "spells owner vendor" by auto
    then show ?thesis
    proof cases
      case 1
      with r open_id [OF o] show ?thesis by (simp add: is_frontier_def present_def FRONTIER_ROUTE_PARENTS_def)
    next
      case (2 owner rest)
      with parent [OF 2(2)] spells_norm [OF 2(3) plain] v(1) have "route_parent route \<in> set FRONTIER_ROUTE_PARENTS"
        by (auto simp: FRONTIER_ROUTE_PARENTS_def)
      with r open_id [OF o] 2(1) show ?thesis by (simp add: is_frontier_def present_def)
    qed
  qed
qed

text \<open>C8: A frontier provider never generates trainable rows. For OpenAI, Anthropic and Google,
  in any case and with any whitespace around the identifier, and on OpenRouter for every route
  whose part before the first slash is such a spelling, and for every route without a slash,
  no override file whatever gives a policy that may generate: a trainable action is refused
  because the provider is blocked.\<close>

theorem frontier_never_generates:
  assumes "frontier_source pid r" and "resolve_policy pid m r ovs = Inr p"
  shows "\<not> can_generate_trainable p
     \<and> (action \<in> set TRAINABLE_ACTIONS \<longrightarrow> authorize_action (Some p) action = Inl Blocked_provider)"
proof -
  from frontier_source_blocked [OF assms(1)] assms(2) have "Trainable_output_generator \<in> set (pp_blocked_roles p)"
    by (auto simp: resolve_eq Let_def apply_frontier_block_def split: if_splits)
  then show ?thesis by (simp add: can_generate_trainable_def authorize_action_def)
qed

definition forged_overrides :: overrides where
  "forged_overrides = [(''openrouter/route:OpenAI/gpt-4o'',
     [(''outputs_trainable'', JBool True), (''user_approved_generation'', JBool True),
      (''blocked_roles'', JList []), (''allowed_roles'', JList [JStr ''trainable_output_generator''])])]"

theorem frontier_never_generates_witness:
  "\<exists>p. resolve_policy '' OpenRouter'' None (Some ''OpenAI/gpt-4o'') forged_overrides = Inr p
     \<and> authorize_action (Some p) ''draft-example'' = Inl Blocked_provider"
proof -
  have "list_all is_space '' '' \<and> lower ''OpenRouter'' = ''openrouter''" "lower ''OpenAI'' = ''openai''" by code_simp+
  then have router: "spells '' OpenRouter'' ''openrouter''" and "spells ''OpenAI'' ''openai''"
    by (auto simp: spells_def intro: exI [of _ "'' ''", OF exI [of _ "''OpenRouter''"]] exI [of _ "[]", OF exI [of _ "''OpenAI''"]])
  then have "\<exists>owner rest. ''OpenAI/gpt-4o'' = owner @ ''/'' @ rest \<and> CHR ''/'' \<notin> set owner \<and> spells owner ''openai''"
    by (intro exI [of _ "''OpenAI''"] exI [of _ "''gpt-4o''"]) simp
  with router have f: "frontier_source '' OpenRouter'' (Some ''OpenAI/gpt-4o'')"
    unfolding frontier_source_def by (intro bexI [of _ "''openai''"]) simp_all
  have "norm_id '' OpenRouter'' \<noteq> []" by code_simp
  then obtain p where p: "resolve_policy '' OpenRouter'' None (Some ''OpenAI/gpt-4o'') forged_overrides = Inr p"
    by (auto simp: resolve_policy_def Let_def)
  from frontier_never_generates [OF f p, of "''draft-example''"] p show ?thesis
    by (auto simp: TRAINABLE_ACTIONS_def)
qed

text \<open>C30: Generation needs an explicit, recorded approval. If a resolved policy may generate, then
  the provider is Ollama, a local OpenAI-compatible server or a vetted OpenRouter route, and
  the most specific non-empty override for it carries a true value for both
  \<open>outputs_trainable\<close> and \<open>user_approved_generation\<close>, and for an OpenAI-compatible server also
  the acknowledgment; and human review is still required.\<close>

theorem generation_needs_approval:
  assumes "resolve_policy pid m r ovs = Inr p" and "can_generate_trainable p"
    and "list_all (\<lambda>kv. distinct (dkeys (snd kv))) ovs"
  shows "(norm_id pid \<in> {''ollama'', ''openai_compatible''} \<or> norm_id pid = ''openrouter'' \<and> present r \<and> \<not> is_frontier pid r)
     \<and> (\<exists>ov. first_override ovs (override_keys (norm_id pid) m r) = Some ov
          \<and> (\<exists>v. dget ov ''outputs_trainable'' = Some v \<and> truthy v)
          \<and> (\<exists>v. dget ov ''user_approved_generation'' = Some v \<and> truthy v)
          \<and> (norm_id pid = ''openai_compatible'' \<longrightarrow>
               (\<exists>v. dget ov ''acknowledge_untrusted_endpoint'' = Some v \<and> truthy v)))
     \<and> pp_requires_human_review p"
proof -
  let ?q = "routed_policy (norm_id pid) m r"
  have nf: "\<not> is_frontier pid r"
  proof
    assume "is_frontier pid r"
    with assms(1) have "Trainable_output_generator \<in> set (pp_blocked_roles p)"
      by (auto simp: resolve_eq Let_def apply_frontier_block_def split: if_splits)
    with assms(2) show False by (simp add: can_generate_trainable_def)
  qed
  from assms(2) have need: "Trainable_output_generator \<notin> set (pp_blocked_roles p)"
    "truthy (pp_outputs_trainable p)" "truthy (pp_user_approved_generation p)"
    "pp_provider_id p = ''openai_compatible'' \<Longrightarrow> truthy (pp_acknowledge_untrusted_endpoint p)"
    by (auto simp: can_generate_trainable_def split: if_splits)
  from assms(1) nf have p: "p = (case first_override ovs (override_keys (norm_id pid) m r) of
      None \<Rightarrow> ?q | Some ov \<Rightarrow> apply_override ov ?q)"
    by (simp add: resolve_eq Let_def split: if_splits)
  show ?thesis
  proof (cases "first_override ovs (override_keys (norm_id pid) m r)")
    case None
    with p need(2) show ?thesis by (simp add: routed_policy_facts)
  next
    case (Some ov)
    with p have pa: "p = apply_override ov ?q" by simp
    obtain k where "dget ovs k = Some ov" using first_override_mem [OF Some] by blast
    then have d: "distinct (dkeys ov)"
      using assms(3) by (auto dest!: map_of_SomeD simp: list_all_iff)
    note v = apply_override_value [OF d, of ?q, folded pa, unfolded routed_policy_facts]
    have some: "\<exists>v. x = Some v \<and> truthy v" if "truthy (or_else x (JBool False))" for x
      using that by (cases x) (simp_all add: or_else_def)
    have "pp_provider_id p = norm_id pid" "pp_requires_human_review p"
      by (simp_all add: pa routed_policy_facts)
    moreover have "norm_id pid \<in> {''ollama'', ''openai_compatible''} \<or> norm_id pid = ''openrouter'' \<and> present r \<and> \<not> is_frontier pid r"
      using need(1) routed_policy_open [of "norm_id pid" m r] by (simp add: pa)
    moreover have "\<exists>v. dget ov ''outputs_trainable'' = Some v \<and> truthy v"
      using need(2) unfolding v by (rule some)
    moreover have "\<exists>v. dget ov ''user_approved_generation'' = Some v \<and> truthy v"
      using need(3) unfolding v by (rule some)
    moreover have "\<exists>v. dget ov ''acknowledge_untrusted_endpoint'' = Some v \<and> truthy v"
      if "norm_id pid = ''openai_compatible''"
      using need(4) that \<open>pp_provider_id p = norm_id pid\<close> unfolding v by (intro some) simp
    ultimately show ?thesis using Some by simp
  qed
qed


definition approved_overrides :: overrides where
  "approved_overrides = [(''openai_compatible/model:llama'',
     [(''outputs_trainable'', JBool True), (''user_approved_generation'', JInt 1),
      (''acknowledge_untrusted_endpoint'', JBool True)])]"

theorem generation_needs_approval_witness:
  "\<exists>p ov. resolve_policy ''openai_compatible'' (Some ''llama'') None approved_overrides = Inr p
     \<and> can_generate_trainable p
     \<and> first_override approved_overrides (override_keys (norm_id ''openai_compatible'') (Some ''llama'') None) = Some ov"
proof -
  obtain p where p: "resolve_policy ''openai_compatible'' (Some ''llama'') None approved_overrides = Inr p"
    "can_generate_trainable p"
  proof -
    have "(case resolve_policy ''openai_compatible'' (Some ''llama'') None approved_overrides of
        Inr p \<Rightarrow> can_generate_trainable p | Inl _ \<Rightarrow> False)" by code_simp
    with that show ?thesis by (auto split: sum.splits)
  qed
  have "list_all (\<lambda>kv. distinct (dkeys (snd kv))) approved_overrides" by (simp add: approved_overrides_def)
  from generation_needs_approval [OF p this] p show ?thesis by blast
qed

text \<open>Authorization is a closed decision table. An action is allowed exactly when it is a
  known trainable action of a policy that may generate, or a known evaluator action with
  either no policy or a policy that may evaluate: unknown actions and trainable actions
  without a policy are always refused.\<close>

theorem authorize_action_table:
  "authorize_action policy action = Inr () \<longleftrightarrow>
     (action \<in> set TRAINABLE_ACTIONS \<and> (case policy of None \<Rightarrow> False | Some p \<Rightarrow> can_generate_trainable p))
   \<or> (action \<in> set EVALUATOR_ACTIONS \<and> (case policy of None \<Rightarrow> True | Some p \<Rightarrow> can_evaluate p))"
proof -
  have "set TRAINABLE_ACTIONS \<inter> set EVALUATOR_ACTIONS = {}"
    by (simp add: TRAINABLE_ACTIONS_def EVALUATOR_ACTIONS_def)
  then have "action \<in> set TRAINABLE_ACTIONS \<Longrightarrow> action \<notin> set EVALUATOR_ACTIONS" by blast
  then show ?thesis by (cases policy) (auto simp: authorize_action_def split: if_splits)
qed

text \<open>Every provider can evaluate. Whatever the overrides say, a policy that resolves has the
  evaluator role and is allowed every evaluator action.\<close>

lemma resolved_policy_evaluates:
  assumes "resolve_policy pid m r ovs = Inr p"
  shows "can_evaluate p \<and> authorize_evaluation p = Inr ()
     \<and> authorize_action (Some p) ''review'' = Inr ()"
proof -
  have "can_evaluate p"
    using assms routed_policy_facts(6) [of "norm_id pid" m r]
    by (auto simp: resolve_eq Let_def can_evaluate_def apply_frontier_block_def split: if_splits option.splits)
  then show ?thesis
    by (simp add: authorize_evaluation_def authorize_action_def TRAINABLE_ACTIONS_def EVALUATOR_ACTIONS_def)
qed

lemma resolved_policy_evaluates_witness:
  "\<exists>p. resolve_policy ''acme'' None None [] = Inr p \<and> can_evaluate p"
proof -
  have "norm_id ''acme'' \<noteq> []" by code_simp
  then obtain p where p: "resolve_policy ''acme'' None None [] = Inr p" by (simp add: resolve_eq Let_def)
  from resolved_policy_evaluates [OF p] p show ?thesis by blast
qed


section \<open>Approving and revoking\<close>

definition canon_entries :: "(string, json) dict \<Rightarrow> (string, json) dict" where
  "canon_entries kvs = sort_key fst (map (\<lambda>kv. (fst kv, canon (snd kv))) kvs)"

lemma distinct_sort_key: "distinct (map fst (sort_key fst xs)) = distinct (map fst xs)"
proof -
  have "mset (map fst (sort_key fst xs)) = mset (map fst xs)" by (metis mset_map mset_sort)
  then show ?thesis by (rule mset_eq_imp_distinct_iff)
qed

lemma map_of_sort_key: "distinct (map fst xs) \<Longrightarrow> map_of (sort_key fst xs) = map_of xs"
  by (subst map_of_inject_set) (simp_all only: distinct_sort_key set_sort)

lemma object_entries_objects: "object_entries (map (\<lambda>kv. (fst kv, JObj (snd kv))) xs) = xs"
  by (induction xs) auto

lemma load_save_overrides:
  assumes "distinct (dkeys ovs)"
  shows "dget (load_overrides (save_overrides ovs)) k = map_option canon_entries (dget ovs k)"
proof -
  let ?ms = "map (\<lambda>kv. (fst kv, canon_entries (snd kv))) ovs"
  have c: "canon (JObj kvs) = JObj (canon_entries kvs)" for kvs by (simp add: canon_entries_def)
  have "map (\<lambda>kv. (fst kv, canon (snd kv))) (map (\<lambda>kv. (fst kv, JObj (snd kv))) ovs)
      = map (\<lambda>kv. (fst kv, JObj (snd kv))) ?ms" by (simp only: map_map comp_def fst_conv snd_conv c)
  then have "canon (JObj (map (\<lambda>kv. (fst kv, JObj (snd kv))) ovs))
      = JObj (map (\<lambda>kv. (fst kv, JObj (snd kv))) (sort_key fst ?ms))"
    using map_sort [of "\<lambda>kv. (fst kv, JObj (snd kv))" fst ?ms]
    by (simp only: canon.simps fst_conv)
  then have "load_overrides (save_overrides ovs) = sort_key fst ?ms"
    by (simp only: load_overrides_def save_overrides_def object_entries_objects option.case json.case)
  moreover have "distinct (map fst ?ms)" using assms by (simp add: comp_def)
  ultimately show ?thesis by (simp only: map_of_sort_key map_of_map_snd)
qed


lemma most_specific_first:
  "most_specific_override_key pid m r = Inr key \<Longrightarrow> norm_id pid \<noteq> [] \<and> (\<exists>ks. override_keys (norm_id pid) m r = key # ks)"
  by (auto simp: most_specific_override_key_def override_keys_def Let_def split: if_splits)

text \<open>Approving generation takes effect exactly where the built-in policy leaves room for it,
  and revoking undoes it. After an approval the same request resolves to a policy that may
  generate for Ollama and for vetted OpenRouter routes, and for nothing else: a frontier
  provider stays blocked and an OpenAI-compatible server still lacks its acknowledgment. A
  revocation then finds the entry and removes it.\<close>

theorem approve_then_revoke:
  assumes "approve_generation pid m r True file = Inr (key, file1)" and "distinct (dkeys (load_overrides file))"
  shows "(\<exists>p. resolve_policy pid m r (load_overrides file1) = Inr p
           \<and> (can_generate_trainable p \<longleftrightarrow>
                norm_id pid = ''ollama'' \<or> norm_id pid = ''openrouter'' \<and> present r \<and> \<not> is_frontier pid r))
       \<and> (\<exists>file2. revoke_generation pid m r file1 = Inr (True, file2) \<and> dget (load_overrides file2) key = None)"
proof -
  let ?entry = "[(''outputs_trainable'', JBool True), (''user_approved_generation'', JBool True)]"
  let ?ovs = "dset key ?entry (load_overrides file)"
  from assms(1) have key: "most_specific_override_key pid m r = Inr key" and f1: "file1 = save_overrides ?ovs"
    by (auto simp: approve_generation_def split: sum.splits)
  from most_specific_first [OF key] obtain ks where ne: "norm_id pid \<noteq> []"
    and ks: "override_keys (norm_id pid) m r = key # ks" by blast
  have d: "distinct (dkeys ?ovs)" using assms(2) by (rule distinct_update)
  have e: "canon_entries ?entry = ?entry" by (simp add: canon_entries_def sort_key_def)
  have got: "dget (load_overrides file1) key = Some ?entry"
    unfolding f1 load_save_overrides [OF d] by (simp add: dget_dset e)
  let ?q = "routed_policy (norm_id pid) m r"
  let ?p = "apply_override ?entry ?q"
  have "distinct (dkeys ?entry)" by simp
  note v = apply_override_value [OF this, of ?q]
  have res: "resolve_policy pid m r (load_overrides file1)
      = Inr (if is_frontier pid r then apply_frontier_block ?p else ?p)"
    by (simp add: resolve_eq ne ks got)
  have "can_generate_trainable (if is_frontier pid r then apply_frontier_block ?p else ?p) \<longleftrightarrow>
      norm_id pid = ''ollama'' \<or> norm_id pid = ''openrouter'' \<and> present r \<and> \<not> is_frontier pid r"
  proof (cases "is_frontier pid r")
    case True
    then have "norm_id pid \<noteq> ''ollama''" by (auto simp: is_frontier_def FRONTIER_ROUTE_PARENTS_def)
    with True show ?thesis by (simp add: can_generate_trainable_def apply_frontier_block_def)
  next
    case nf: False
    have orn: "norm_id pid = ''openrouter'' \<Longrightarrow> \<not> is_frontier ''openrouter'' r"
      using is_frontier_norm [of pid r] nf by metis
    have roles: "Trainable_output_generator \<notin> set (pp_blocked_roles ?q) \<and> Trainable_output_generator \<in> set (pp_allowed_roles ?q)"
      if "norm_id pid = ''ollama'' \<or> norm_id pid = ''openrouter'' \<and> present r"
      using that orn
      by (auto simp: routed_policy_def Let_def base_policy_def default_provider_policies_def local_server_def)
    show ?thesis
      using nf roles routed_policy_open [of "norm_id pid" m r]
      by (auto simp: can_generate_trainable_def v or_else_def routed_policy_facts)
  qed
  with res have "\<exists>p. resolve_policy pid m r (load_overrides file1) = Inr p
     \<and> (can_generate_trainable p \<longleftrightarrow>
          norm_id pid = ''ollama'' \<or> norm_id pid = ''openrouter'' \<and> present r \<and> \<not> is_frontier pid r)" by blast
  moreover have "revoke_generation pid m r file1 = Inr (True, save_overrides (ddel key (load_overrides file1)))"
    by (simp add: revoke_generation_def key got)
  moreover have "distinct (dkeys (load_overrides file1))"
  proof -
    have "dkeys (object_entries kvs) = map fst (filter (\<lambda>kv. case snd kv of JObj _ \<Rightarrow> True | _ \<Rightarrow> False) kvs)" for kvs
      by (induction kvs rule: object_entries.induct) simp_all
    moreover have "distinct (map fst (sort_key fst (map (\<lambda>kv. (fst kv, canon (snd kv))) (map (\<lambda>kv. (fst kv, JObj (snd kv))) ?ovs))))"
      unfolding distinct_sort_key map_map comp_def fst_conv using d .
    ultimately show ?thesis
      unfolding f1 load_overrides_def save_overrides_def by (simp add: distinct_map_filter)
  qed
  then have "dget (load_overrides (save_overrides (ddel key (load_overrides file1)))) key = None"
    by (subst load_save_overrides) (simp_all add: distinct_delete dget_ddel)
  ultimately show ?thesis by blast
qed


theorem approve_then_revoke_witness:
  "\<exists>p key file1. approve_generation ''ollama'' (Some ''llama'') None True None = Inr (key, file1)
     \<and> resolve_policy ''ollama'' (Some ''llama'') None (load_overrides file1) = Inr p \<and> can_generate_trainable p"
proof -
  have n: "norm_id ''ollama'' = ''ollama''" by code_simp
  obtain key file1 where a: "approve_generation ''ollama'' (Some ''llama'') None True None = Inr (key, file1)"
    by (simp add: approve_generation_def most_specific_override_key_def n Let_def present_def)
  from approve_then_revoke [OF a] a show ?thesis by (auto simp: load_overrides_def n)
qed

text \<open>The classification of an endpoint looks at its host name only, and no host name is
  classified as Google: a Google endpoint is a local OpenAI-compatible server to it.\<close>

lemma endpoint_examples:
  "infer_provider_id sample_rt (\<lambda>_. True) (Some ''openai_compatible'') (Some ''https://API.OpenAI.com:443/v1'') = Some ''openai''"
  "infer_provider_id sample_rt (\<lambda>_. True) None (Some ''https://api.openai.com.evil.example/v1'') = Some ''openai_compatible''"
  "infer_provider_id sample_rt (\<lambda>_. True) None (Some ''https://api.openai.com@localhost:8080/openrouter.ai'') = Some ''openai_compatible''"
  by code_simp+

lemma google_endpoint_is_not_classified:
  "infer_provider_id rt ok backend url \<noteq> Some ''google''"
  by (auto simp: infer_provider_id_def classify_host_def Let_def split: option.splits)

lemma string_false_approves:
  "can_generate_trainable (apply_override
     [(''outputs_trainable'', JStr ''false''), (''user_approved_generation'', JStr ''false'')]
     (local_server ''ollama'' ''Ollama (local)'' []))"
  by code_simp

end
