(* ===== verification/Dataset_Schema.thy ===== *)
theory Dataset_Schema
  imports Row_Text
begin

text \<open>
  Dataset schemas (\<open>schemas/base.py\<close>): the field types, the recursive field shape and the
  schema record, with the measure every recursion over a schema decreases. A bound of a
  numeric field is a finite float.
\<close>

datatype field_type =
    T_string | T_text | T_markdown | T_integer | T_float | T_boolean
  | T_list | T_object | T_messages | T_file_path | T_image_path | T_code

datatype schema_field = SchemaField
  (sf_name: string)
  (sf_type: field_type)
  (sf_required: bool)
  (sf_description: "string option")
  (sf_item_type: "field_type option")
  (sf_enum: "json list option")
  (sf_minimum: "rat option")
  (sf_maximum: "rat option")
  (sf_fields: "schema_field list option")
  (sf_item_fields: "schema_field list option")
  (sf_path_must_exist: bool)

record dataset_schema =
  ds_id :: string
  ds_name :: string
  ds_version :: string
  ds_description :: "string option"
  ds_fields :: "schema_field list"
  ds_example :: "json option"

text \<open>\<open>SchemaField(name=..., type=...)\<close> with every other field at its default.\<close>

definition plain_field :: "string \<Rightarrow> field_type \<Rightarrow> schema_field" where
  "plain_field name ty = SchemaField name ty False None None None None None None None False"

lemma size_sf_fields [termination_simp]:
  "sf_fields f = Some fs \<Longrightarrow> size_list size fs < size f"
  by (cases f) simp

lemma size_sf_item_fields [termination_simp]:
  "sf_item_fields f = Some fs \<Longrightarrow> size_list size fs < size f"
  by (cases f) simp

lemma size_field_member:
  "f \<in> set fs \<Longrightarrow> size f < Suc (size_list size fs)"
  by (induction fs) auto

text \<open>Python's \<open>==\<close> on parsed JSON: the three numeric types compare by value, so \<open>1\<close>, \<open>1.0\<close>
  and \<open>True\<close> are equal; objects compare as maps.\<close>

fun py_number :: "json \<Rightarrow> rat option" where
  "py_number (JBool b) = Some (if b then 1 else 0)"
| "py_number (JInt i) = Some (of_int i)"
| "py_number (JFloat x) = Some x"
| "py_number _ = None"

lemma size_zip_left [termination_simp]:
  "(v, w) \<in> set (zip vs ws) \<Longrightarrow> size v < Suc (size_list size vs)" for v :: "'a::size"
  by (drule set_zip_leftD, induction vs) auto

fun py_eq :: "json \<Rightarrow> json \<Rightarrow> bool" where
  "py_eq (JList vs) w = (case w of
      JList ws \<Rightarrow> length vs = length ws \<and> list_all (\<lambda>p. py_eq (fst p) (snd p)) (zip vs ws)
    | _ \<Rightarrow> False)"
| "py_eq (JObj kvs) w = (case w of
      JObj kws \<Rightarrow> length kvs = length kws
        \<and> list_all (\<lambda>kv. case dget kws (fst kv) of None \<Rightarrow> False | Some x \<Rightarrow> py_eq (snd kv) x) kvs
    | _ \<Rightarrow> False)"
| "py_eq (JStr s) w = (w = JStr s)"
| "py_eq JNull w = (w = JNull)"
| "py_eq v w = (py_number w \<noteq> None \<and> py_number v = py_number w)"

text \<open>Equality up to the order of object keys implies it; for a string it is identity.\<close>

lemma py_eq_str [simp]: "py_eq v (JStr s) \<longleftrightarrow> v = JStr s"
  by (cases v) auto

lemma py_eq_examples:
  "py_eq (JInt 1) (JFloat 1)" "py_eq (JBool True) (JInt 1)" "\<not> py_eq (JStr ''1'') (JInt 1)"
  "py_eq (JObj [(''a'', JInt 1), (''b'', JNull)]) (JObj [(''b'', JNull), (''a'', JFloat 1)])"
  by code_simp+

end
