(* ===== verification/Validator.thy ===== *)
theory Validator
  imports Dataset_Schema Jsonl Sample_Runtime
begin

text \<open>
  Row validation (\<open>validators/basic_validator.py\<close>, \<open>validators/results.py\<close>): the check of a
  row against a schema, with the opt-in check of declared file paths under a root, and the
  validation of a whole file. An issue carries its level, its row number and its field path
  as in the code; its message text is a constructor with the values the text interpolates.
\<close>

section \<open>Issues and reports\<close>

datatype issue_message =
    Row_not_object
  | Invalid_json
  | Missing_required string
  | Required_empty string
  | Expected_messages_list
  | Message_not_object nat
  | Message_bad_role nat
  | Message_bad_content nat
  | Wrong_type field_type
  | Element_wrong_type nat field_type
  | Below_minimum rat
  | Above_maximum rat
  | Not_in_enum "json list"
  | Path_absolute
  | Path_escapes
  | Path_missing string

record validation_issue =
  vi_level :: string
  vi_message :: issue_message
  vi_row_number :: "nat option"
  vi_field :: "string option"

record validation_report =
  vr_valid :: bool
  vr_schema_id :: string
  vr_checked_rows :: nat
  vr_errors :: "validation_issue list"
  vr_warnings :: "validation_issue list"

definition issue :: "issue_message \<Rightarrow> nat option \<Rightarrow> string option \<Rightarrow> validation_issue" where
  "issue message row_number field = \<lparr>vi_level = ''error'', vi_message = message,
     vi_row_number = row_number, vi_field = field\<rparr>"

definition TEXT_FIELD_TYPES :: "field_type list" where
  "TEXT_FIELD_TYPES = [T_string, T_text, T_markdown, T_code, T_file_path, T_image_path]"

definition PATH_FIELD_TYPES :: "field_type list" where
  "PATH_FIELD_TYPES = [T_file_path, T_image_path]"

definition VALID_MESSAGE_ROLES :: "string list" where
  "VALID_MESSAGE_ROLES = [''system'', ''user'', ''assistant'', ''tool'']"


section \<open>Values\<close>

fun is_empty_required_value :: "json \<Rightarrow> bool" where
  "is_empty_required_value JNull = True"
| "is_empty_required_value (JStr s) = (strip s = [])"
| "is_empty_required_value (JList vs) = (length vs = 0)"
| "is_empty_required_value (JObj kvs) = (length kvs = 0)"
| "is_empty_required_value _ = False"

definition nonblank_string :: "json option \<Rightarrow> bool" where
  "nonblank_string v \<longleftrightarrow> (case v of Some (JStr s) \<Rightarrow> strip s \<noteq> [] | _ \<Rightarrow> False)"

definition valid_role :: "json option \<Rightarrow> bool" where
  "valid_role v \<longleftrightarrow> (case v of Some (JStr s) \<Rightarrow> s \<in> set VALID_MESSAGE_ROLES | _ \<Rightarrow> False)"

definition message_issues :: "string \<Rightarrow> nat option \<Rightarrow> nat \<times> json \<Rightarrow> validation_issue list" where
  "message_issues field_name row_number im = (case snd im of
      JObj message \<Rightarrow>
        (if valid_role (dget message ''role'') then []
         else [issue (Message_bad_role (fst im)) row_number (Some field_name)])
        @ (if nonblank_string (dget message ''content'') then []
           else [issue (Message_bad_content (fst im)) row_number (Some field_name)])
    | _ \<Rightarrow> [issue (Message_not_object (fst im)) row_number (Some field_name)])"

definition validate_messages :: "json \<Rightarrow> string \<Rightarrow> nat option \<Rightarrow> validation_issue list" where
  "validate_messages v field_name row_number = (case v of
      JList messages \<Rightarrow> concat (map (message_issues field_name row_number) (enum_from 1 messages))
    | _ \<Rightarrow> [issue Expected_messages_list row_number (Some field_name)])"

definition matches_scalar_type :: "field_type \<Rightarrow> json \<Rightarrow> bool" where
  "matches_scalar_type ty v =
     (if ty \<in> set TEXT_FIELD_TYPES then (case v of JStr _ \<Rightarrow> True | _ \<Rightarrow> False)
      else if ty = T_integer then (case v of JInt _ \<Rightarrow> True | _ \<Rightarrow> False)
      else if ty = T_float then (case v of JInt _ \<Rightarrow> True | JFloat _ \<Rightarrow> True | _ \<Rightarrow> False)
      else if ty = T_boolean then (case v of JBool _ \<Rightarrow> True | _ \<Rightarrow> False)
      else if ty = T_list then (case v of JList _ \<Rightarrow> True | _ \<Rightarrow> False)
      else if ty = T_object then (case v of JObj _ \<Rightarrow> True | _ \<Rightarrow> False)
      else True)"


section \<open>Declared paths\<close>

text \<open>The root a caller supplies, and what \<open>Path.resolve\<close> and \<open>Path.is_file\<close> read of the file
  system: the symbolic links, each with whether its target is absolute and the target's
  segments, and which resolved paths are files. Absolute paths are the lists of their segments.
  A path that holds a NUL character is outside the model.\<close>

type_synonym path_link = "bool \<times> string list"

record path_root =
  root_path :: "string list"
  root_links :: "(string list \<times> path_link) list"
  root_is_file :: "string list \<Rightarrow> bool"

text \<open>\<open>posixpath.realpath\<close> of the standard library, not strict: the segments still to read, and
  after those of a link's target the note that the link is settled. \<open>seen\<close> holds the links
  followed, with no path while they are being followed: such a link is a loop and stays in place
  (from Python 3.13 on; before, \<open>Path.resolve\<close> raises RuntimeError for a loop).\<close>

datatype pending = Segment string | Settled "string list"

function resolve_from ::
  "(string list \<times> path_link) list \<Rightarrow> (string list \<times> string list option) list \<Rightarrow> string list \<Rightarrow> pending list \<Rightarrow> string list" where
  "resolve_from links seen path [] = path"
| "resolve_from links seen path (Settled link # rest) = resolve_from links ((link, Some path) # seen) path rest"
| "resolve_from links seen path (Segment s # rest) =
     (if s = [] \<or> s = ''.'' then resolve_from links seen path rest
      else if s = ''..'' then resolve_from links seen (butlast path) rest
      else (case map_of links (path @ [s]) of
          None \<Rightarrow> resolve_from links seen (path @ [s]) rest
        | Some (absolute, target) \<Rightarrow> (case map_of seen (path @ [s]) of
              Some None \<Rightarrow> resolve_from links seen (path @ [s]) rest
            | Some (Some settled) \<Rightarrow> resolve_from links seen settled rest
            | None \<Rightarrow> resolve_from links ((path @ [s], None) # seen) (if absolute then [] else path)
                (map Segment target @ Settled (path @ [s]) # rest))))"
  by pat_completeness auto
termination
proof (relation "inv_image (less_than <*lex*> less_than)
    (\<lambda>(links, seen, path, rest). (card (fst ` set links - fst ` set seen), length rest))", goal_cases)
  case (2 links seen path link rest)
  have "card (fst ` set links - insert link (fst ` set seen)) \<le> card (fst ` set links - fst ` set seen)"
    by (rule card_mono) auto
  then show ?case by (auto simp: le_less)
next
  case (6 links seen path s rest a absolute target)
  have "path @ [s] \<in> fst ` set links - fst ` set seen"
    using 6(3,4,5) by (force simp: map_of_eq_None_iff dest: map_of_SomeD)
  then have "card (fst ` set links - insert (path @ [s]) (fst ` set seen)) < card (fst ` set links - fst ` set seen)"
    by (intro psubset_card_mono) auto
  then show ?case by simp
qed auto

definition resolve_path :: "path_root \<Rightarrow> string list \<Rightarrow> string list" where
  "resolve_path fs segments = resolve_from (root_links fs) [] [] (map Segment segments)"

definition posix_separators :: "string \<Rightarrow> string" where
  "posix_separators s = map (\<lambda>c. if c = CHR 0x5C then CHR ''/'' else c) s"

definition posix_absolute :: "string \<Rightarrow> bool" where
  "posix_absolute s \<longleftrightarrow> has_prefix ''/'' s"

text \<open>\<open>PurePosixPath(s).parts\<close> of a relative path.\<close>

definition posix_parts :: "string \<Rightarrow> string list" where
  "posix_parts s = filter (\<lambda>p. p \<noteq> [] \<and> p \<noteq> ''.'') (split_on (CHR ''/'') s)"

text \<open>\<open>PureWindowsPath(s).is_absolute()\<close>: a share or device path, or a drive with a root. The
  former start with a separator, so \<open>posix_absolute\<close> has already held for them.\<close>

definition windows_absolute :: "string \<Rightarrow> bool" where
  "windows_absolute s \<longleftrightarrow> (let t = posix_separators s in
     has_prefix ''//'' t \<or> (take 1 (drop 1 t) = '':'' \<and> take 1 (drop 2 t) = ''/''))"

definition is_relative_to :: "string list \<Rightarrow> string list \<Rightarrow> bool" where
  "is_relative_to base p \<longleftrightarrow> take (length base) p = base"

definition resolve_contained_path :: "string \<Rightarrow> path_root \<Rightarrow> issue_message + string list" where
  "resolve_contained_path v fs =
     (let candidate = posix_separators v in
      if posix_absolute candidate \<or> windows_absolute v then Inl Path_absolute
      else
        let base = resolve_path fs (root_path fs); resolved = resolve_path fs (base @ posix_parts candidate) in
        if \<not> is_relative_to base resolved then Inl Path_escapes
        else if \<not> root_is_file fs resolved then Inl (Path_missing v)
        else Inr resolved)"

definition path_existence_issues :: "string \<Rightarrow> string \<Rightarrow> nat option \<Rightarrow> path_root \<Rightarrow> validation_issue list" where
  "path_existence_issues v full_name row_number fs = (case resolve_contained_path v fs of
      Inl reason \<Rightarrow> [issue reason row_number (Some full_name)]
    | Inr _ \<Rightarrow> [])"

definition path_issues :: "path_root option \<Rightarrow> schema_field \<Rightarrow> json \<Rightarrow> nat option \<Rightarrow> string \<Rightarrow> validation_issue list" where
  "path_issues fs f v row_number full_name = (case (fs, v) of
      (Some base, JStr s) \<Rightarrow>
        if sf_type f \<in> set PATH_FIELD_TYPES \<and> sf_path_must_exist f
        then path_existence_issues s full_name row_number base else []
    | _ \<Rightarrow> [])"


section \<open>Fields and rows\<close>

definition bound_issues :: "schema_field \<Rightarrow> json \<Rightarrow> nat option \<Rightarrow> string \<Rightarrow> validation_issue list" where
  "bound_issues f v row_number full_name =
     (if sf_type f \<in> {T_integer, T_float} then
        (case py_number v of None \<Rightarrow> [] | Some x \<Rightarrow>
           (case sf_minimum f of None \<Rightarrow> [] | Some lo \<Rightarrow>
              if x < lo then [issue (Below_minimum lo) row_number (Some full_name)] else [])
         @ (case sf_maximum f of None \<Rightarrow> [] | Some hi \<Rightarrow>
              if hi < x then [issue (Above_maximum hi) row_number (Some full_name)] else []))
      else [])"

definition enum_issues :: "schema_field \<Rightarrow> json \<Rightarrow> nat option \<Rightarrow> string \<Rightarrow> validation_issue list" where
  "enum_issues f v row_number full_name = (case sf_enum f of
      None \<Rightarrow> []
    | Some options \<Rightarrow> if list_ex (py_eq v) options then []
        else [issue (Not_in_enum options) row_number (Some full_name)])"

text \<open>The elements of a list, and the members of an object; \<open>nested\<close> validates an object against a
  declared shape under a field prefix.\<close>

definition element_issues ::
  "((string, json) dict \<Rightarrow> string \<Rightarrow> validation_issue list) \<Rightarrow> field_type \<Rightarrow> nat option \<Rightarrow> string
    \<Rightarrow> nat \<times> json \<Rightarrow> validation_issue list" where
  "element_issues nested item_type n full_name ie =
     (if \<not> matches_scalar_type item_type (snd ie)
      then [issue (Element_wrong_type (fst ie) item_type) n (Some full_name)]
      else if item_type = T_object then (case snd ie of
          JObj kvs \<Rightarrow> nested kvs (full_name @ ''['' @ nat_str (fst ie) @ ''].'')
        | _ \<Rightarrow> [])
      else [])"

definition list_issues ::
  "((string, json) dict \<Rightarrow> string \<Rightarrow> validation_issue list) \<Rightarrow> schema_field \<Rightarrow> json \<Rightarrow> nat option \<Rightarrow> string
    \<Rightarrow> validation_issue list" where
  "list_issues nested f v n full_name = (case (sf_type f, v, sf_item_type f) of
      (T_list, JList elements, Some item_type) \<Rightarrow>
        concat (map (element_issues nested item_type n full_name) (enum_from 1 elements))
    | _ \<Rightarrow> [])"

definition object_issues ::
  "((string, json) dict \<Rightarrow> string \<Rightarrow> validation_issue list) \<Rightarrow> schema_field \<Rightarrow> json \<Rightarrow> string \<Rightarrow> validation_issue list" where
  "object_issues nested f v full_name = (case (sf_type f, v) of
      (T_object, JObj kvs) \<Rightarrow> nested kvs (full_name @ ''.'')
    | _ \<Rightarrow> [])"

function (sequential)
    validate_fields :: "path_root option \<Rightarrow> (string, json) dict \<Rightarrow> nat option \<Rightarrow> string \<Rightarrow> schema_field list \<Rightarrow> validation_issue list"
and validate_field :: "path_root option \<Rightarrow> (string, json) dict \<Rightarrow> nat option \<Rightarrow> string \<Rightarrow> schema_field \<Rightarrow> validation_issue list"
and validate_field_type :: "path_root option \<Rightarrow> json \<Rightarrow> nat option \<Rightarrow> string \<Rightarrow> schema_field \<Rightarrow> validation_issue list"
where
  "validate_fields fs data n prefix [] = []"
| "validate_fields fs data n prefix (f # rest) =
     validate_field fs data n prefix f @ validate_fields fs data n prefix rest"
| "validate_field fs data n prefix f = (case dget data (sf_name f) of
      None \<Rightarrow>
        if sf_required f then [issue (Missing_required (prefix @ sf_name f)) n (Some (prefix @ sf_name f))] else []
    | Some v \<Rightarrow>
        if sf_required f \<and> is_empty_required_value v
        then [issue (Required_empty (prefix @ sf_name f)) n (Some (prefix @ sf_name f))]
        else if v = JNull then []
        else validate_field_type fs v n prefix f)"
| "validate_field_type fs v n prefix f =
     (if sf_type f = T_messages then validate_messages v (prefix @ sf_name f) n
      else if \<not> matches_scalar_type (sf_type f) v
      then [issue (Wrong_type (sf_type f)) n (Some (prefix @ sf_name f))]
      else path_issues fs f v n (prefix @ sf_name f)
         @ list_issues (\<lambda>kvs p. case sf_item_fields f of None \<Rightarrow> [] | Some shape \<Rightarrow> validate_fields fs kvs n p shape)
             f v n (prefix @ sf_name f)
         @ bound_issues f v n (prefix @ sf_name f)
         @ object_issues (\<lambda>kvs p. case sf_fields f of None \<Rightarrow> [] | Some shape \<Rightarrow> validate_fields fs kvs n p shape)
             f v (prefix @ sf_name f)
         @ enum_issues f v n (prefix @ sf_name f))"
  by pat_completeness auto
termination
  by (relation "measure (\<lambda>x. case x of
        Inl (_, _, _, _, fs) \<Rightarrow> 3 * size_list size fs
      | Inr (Inl (_, _, _, _, f)) \<Rightarrow> 3 * size f + 1
      | Inr (Inr (_, _, _, _, f)) \<Rightarrow> 3 * size f)")
    (auto dest: size_sf_fields size_sf_item_fields)


definition validate_example_fields_against ::
  "path_root option \<Rightarrow> (string, json) dict \<Rightarrow> dataset_schema \<Rightarrow> nat option \<Rightarrow> validation_issue list" where
  "validate_example_fields_against fs row schema n = validate_fields fs row n [] (ds_fields schema)"

definition validate_jsonl_row_against ::
  "path_root option \<Rightarrow> json \<Rightarrow> dataset_schema \<Rightarrow> nat option \<Rightarrow> validation_issue list" where
  "validate_jsonl_row_against fs row schema n = (case row of
      JObj kvs \<Rightarrow> validate_example_fields_against fs kvs schema n
    | _ \<Rightarrow> [issue Row_not_object n None])"

text \<open>\<open>builtin\<close> is the directory of the schema files shipped with the program; an identifier with
  no schema is a \<open>ValueError\<close>. An unreadable file raises as well.\<close>

datatype validator_error = Unknown_schema | Unreadable_file

definition validate_example_fields ::
  "(string \<Rightarrow> dataset_schema option) \<Rightarrow> (string, json) dict \<Rightarrow> string \<Rightarrow> nat option
    \<Rightarrow> validator_error + validation_issue list" where
  "validate_example_fields builtin row schema_id n = (case builtin schema_id of
      None \<Rightarrow> Inl Unknown_schema
    | Some schema \<Rightarrow> Inr (validate_example_fields_against None row schema n))"

definition validate_jsonl_row ::
  "(string \<Rightarrow> dataset_schema option) \<Rightarrow> json \<Rightarrow> string \<Rightarrow> nat option
    \<Rightarrow> validator_error + validation_issue list" where
  "validate_jsonl_row builtin row schema_id n = (case row of
      JObj kvs \<Rightarrow> validate_example_fields builtin kvs schema_id n
    | _ \<Rightarrow> Inr [issue Row_not_object n None])"

fun validate_lines ::
  "(string \<Rightarrow> dataset_schema option) \<Rightarrow> string \<Rightarrow> jsonl_line list \<Rightarrow> validation_report
    \<Rightarrow> validator_error + validation_report" where
  "validate_lines builtin schema_id [] report = Inr (report\<lparr>vr_valid := (vr_errors report = [])\<rparr>)"
| "validate_lines builtin schema_id (l # ls) report =
     (let counted = report\<lparr>vr_checked_rows := vr_checked_rows report + 1\<rparr> in
      case jl_value l of
        None \<Rightarrow> validate_lines builtin schema_id ls
          (counted\<lparr>vr_errors := vr_errors counted @ [issue Invalid_json (Some (jl_line_number l)) None]\<rparr>)
      | Some row \<Rightarrow> (case validate_jsonl_row builtin row schema_id (Some (jl_line_number l)) of
            Inl e \<Rightarrow> Inl e
          | Inr issues \<Rightarrow> validate_lines builtin schema_id ls
              (counted\<lparr>vr_errors := vr_errors counted @ issues\<rparr>)))"

definition empty_report :: "string \<Rightarrow> validation_report" where
  "empty_report schema_id = \<lparr>vr_valid = True, vr_schema_id = schema_id, vr_checked_rows = 0,
     vr_errors = [], vr_warnings = []\<rparr>"

definition validate_jsonl_file ::
  "runtime \<Rightarrow> (string \<Rightarrow> dataset_schema option) \<Rightarrow> bytes \<Rightarrow> string
    \<Rightarrow> validator_error + validation_report" where
  "validate_jsonl_file rt builtin content schema_id = (case utf8_decode (strip_bom content) of
      None \<Rightarrow> Inl Unreadable_file
    | Some text \<Rightarrow> validate_lines builtin schema_id (iter_jsonl rt text) (empty_report schema_id))"


section \<open>A row that conforms\<close>

text \<open>The contract of a schema, with no issue list: what it means for a value to conform to a
  declared field, and for an object to conform to a shape.\<close>

definition messages_ok :: "json \<Rightarrow> bool" where
  "messages_ok v \<longleftrightarrow> (case v of JList ms \<Rightarrow> list_all (\<lambda>m. case m of
       JObj kvs \<Rightarrow> valid_role (dget kvs ''role'') \<and> nonblank_string (dget kvs ''content'')
     | _ \<Rightarrow> False) ms | _ \<Rightarrow> False)"

definition within_bounds :: "schema_field \<Rightarrow> json \<Rightarrow> bool" where
  "within_bounds f v \<longleftrightarrow> (case py_number v of None \<Rightarrow> True | Some x \<Rightarrow>
     (case sf_minimum f of None \<Rightarrow> True | Some lo \<Rightarrow> lo \<le> x) \<and>
     (case sf_maximum f of None \<Rightarrow> True | Some hi \<Rightarrow> x \<le> hi))"

definition path_ok :: "path_root option \<Rightarrow> schema_field \<Rightarrow> json \<Rightarrow> bool" where
  "path_ok fs f v \<longleftrightarrow> (case (fs, v) of
     (Some base, JStr s) \<Rightarrow> sf_type f \<in> set PATH_FIELD_TYPES \<and> sf_path_must_exist f
        \<longrightarrow> \<not> isl (resolve_contained_path s base)
   | _ \<Rightarrow> True)"

definition element_ok :: "((string, json) dict \<Rightarrow> bool) \<Rightarrow> field_type \<Rightarrow> json \<Rightarrow> bool" where
  "element_ok nested item_type e \<longleftrightarrow> matches_scalar_type item_type e \<and>
     (item_type = T_object \<longrightarrow> (case e of JObj kvs \<Rightarrow> nested kvs | _ \<Rightarrow> False))"

definition elements_ok :: "((string, json) dict \<Rightarrow> bool) \<Rightarrow> schema_field \<Rightarrow> json \<Rightarrow> bool" where
  "elements_ok nested f v \<longleftrightarrow> (case (sf_type f, v, sf_item_type f) of
     (T_list, JList es, Some item_type) \<Rightarrow> list_all (element_ok nested item_type) es | _ \<Rightarrow> True)"

definition member_ok :: "((string, json) dict \<Rightarrow> bool) \<Rightarrow> schema_field \<Rightarrow> json \<Rightarrow> bool" where
  "member_ok nested f v \<longleftrightarrow> (case (sf_type f, v) of (T_object, JObj kvs) \<Rightarrow> nested kvs | _ \<Rightarrow> True)"

function (sequential)
    object_ok :: "path_root option \<Rightarrow> (string, json) dict \<Rightarrow> schema_field list \<Rightarrow> bool"
and value_ok :: "path_root option \<Rightarrow> json \<Rightarrow> schema_field \<Rightarrow> bool"
where
  "object_ok fs data shape = list_all (\<lambda>f. case dget data (sf_name f) of
      None \<Rightarrow> \<not> sf_required f
    | Some v \<Rightarrow> \<not> (sf_required f \<and> is_empty_required_value v) \<and> (v = JNull \<or> value_ok fs v f)) shape"
| "value_ok fs v f =
     (if sf_type f = T_messages then messages_ok v
      else matches_scalar_type (sf_type f) v \<and> path_ok fs f v
         \<and> elements_ok (\<lambda>kvs. case sf_item_fields f of None \<Rightarrow> True | Some shape \<Rightarrow> object_ok fs kvs shape) f v
         \<and> (sf_type f \<in> {T_integer, T_float} \<longrightarrow> within_bounds f v)
         \<and> member_ok (\<lambda>kvs. case sf_fields f of None \<Rightarrow> True | Some shape \<Rightarrow> object_ok fs kvs shape) f v
         \<and> (case sf_enum f of None \<Rightarrow> True | Some options \<Rightarrow> list_ex (py_eq v) options))"
  by pat_completeness auto
termination
  by (relation "measure (\<lambda>x. case x of
        Inl (_, _, shape) \<Rightarrow> 2 * size_list size shape + 1
      | Inr (_, _, f) \<Rightarrow> 2 * size f)")
    (auto dest: size_sf_fields size_sf_item_fields size_field_member)

definition row_ok :: "path_root option \<Rightarrow> dataset_schema \<Rightarrow> json \<Rightarrow> bool" where
  "row_ok fs schema row \<longleftrightarrow> (case row of JObj kvs \<Rightarrow> object_ok fs kvs (ds_fields schema) | _ \<Rightarrow> False)"



section \<open>The validator decides the contract\<close>

declare validate_field.simps [simp del] validate_field_type.simps [simp del] value_ok.simps [simp del]
  object_ok.simps [simp del]

lemma ball_enum_from: "(\<forall>ix \<in> set (enum_from n xs). P (snd ix)) \<longleftrightarrow> list_all P xs"
  by (induction xs arbitrary: n) auto

lemma validate_messages_ok: "validate_messages v name n = [] \<longleftrightarrow> messages_ok v"
proof -
  have "message_issues name n im = [] \<longleftrightarrow> (case snd im of
       JObj kvs \<Rightarrow> valid_role (dget kvs ''role'') \<and> nonblank_string (dget kvs ''content'')
     | _ \<Rightarrow> False)" for im
    by (simp add: message_issues_def split: json.splits)
  then show ?thesis
    by (cases v) (simp_all add: validate_messages_def messages_ok_def
      ball_enum_from [where P = "\<lambda>m. case m of
       JObj kvs \<Rightarrow> valid_role (dget kvs ''role'') \<and> nonblank_string (dget kvs ''content'')
     | _ \<Rightarrow> False"])
qed

lemma path_issues_ok: "path_issues fs f v n name = [] \<longleftrightarrow> path_ok fs f v"
  by (auto simp: path_issues_def path_ok_def path_existence_issues_def split: option.splits json.splits sum.splits)

lemma bound_issues_ok:
  "bound_issues f v n name = [] \<longleftrightarrow> (sf_type f \<in> {T_integer, T_float} \<longrightarrow> within_bounds f v)"
  by (auto simp: bound_issues_def within_bounds_def split: option.splits)

lemma enum_issues_ok:
  "enum_issues f v n name = [] \<longleftrightarrow> (case sf_enum f of None \<Rightarrow> True | Some options \<Rightarrow> list_ex (py_eq v) options)"
  by (simp add: enum_issues_def split: option.splits)

lemma element_issues_ok:
  assumes "\<And>kvs p. nested kvs p = [] \<longleftrightarrow> nested_ok kvs"
  shows "element_issues nested ty n name ie = [] \<longleftrightarrow> element_ok nested_ok ty (snd ie)"
  using assms by (auto simp: element_issues_def element_ok_def matches_scalar_type_def TEXT_FIELD_TYPES_def
    split: json.splits)

lemma list_issues_ok:
  assumes "\<And>kvs p. nested kvs p = [] \<longleftrightarrow> nested_ok kvs"
  shows "list_issues nested f v n name = [] \<longleftrightarrow> elements_ok nested_ok f v"
proof -
  note e = element_issues_ok [of nested nested_ok, OF assms]
  show ?thesis
    by (cases "sf_type f"; cases v; cases "sf_item_type f")
      (simp_all add: list_issues_def elements_ok_def e
        ball_enum_from [where P = "element_ok nested_ok item" for item])
qed

lemma object_issues_ok:
  assumes "\<And>kvs p. nested kvs p = [] \<longleftrightarrow> nested_ok kvs"
  shows "object_issues nested f v name = [] \<longleftrightarrow> member_ok nested_ok f v"
  using assms by (cases "sf_type f"; cases v) (simp_all add: object_issues_def member_ok_def)

lemma option_case_nested: "(case x of None \<Rightarrow> [] | Some s \<Rightarrow> g s) = [] \<longleftrightarrow> (case x of None \<Rightarrow> True | Some s \<Rightarrow> g s = [])"
  by (cases x) auto

lemma validate_field_unfold:
  "validate_field fs data n prefix f = [] \<longleftrightarrow> (case dget data (sf_name f) of
      None \<Rightarrow> \<not> sf_required f
    | Some v \<Rightarrow> \<not> (sf_required f \<and> is_empty_required_value v)
        \<and> (v = JNull \<or> validate_field_type fs v n prefix f = []))"
  by (simp add: validate_field.simps split: option.splits)

lemma validate_ok_iff:
  "validate_fields fs data n prefix shape = [] \<longleftrightarrow> object_ok fs data shape"
  "validate_field fs data n prefix f = [] \<longleftrightarrow> object_ok fs data [f]"
  "validate_field_type fs v n prefix f = [] \<longleftrightarrow> value_ok fs v f"
proof (induction fs data n prefix shape and fs data n prefix f and fs v n prefix f
    rule: validate_fields_validate_field_validate_field_type.induct)
  case (2 fs data n prefix f rest)
  then show ?case by (simp add: object_ok.simps)
next
  case (3 fs data n prefix f)
  then show ?case unfolding validate_field_unfold by (auto simp: object_ok.simps split: option.splits)
next
  case (4 fs v n prefix f)
  let ?items = "\<lambda>kvs p. case sf_item_fields f of None \<Rightarrow> [] | Some shape \<Rightarrow> validate_fields fs kvs n p shape"
  let ?members = "\<lambda>kvs p. case sf_fields f of None \<Rightarrow> [] | Some shape \<Rightarrow> validate_fields fs kvs n p shape"
  have rec: "validate_messages v (prefix @ sf_name f) n = [] \<longleftrightarrow> messages_ok v" by (rule validate_messages_ok)
  show ?case
  proof (cases "sf_type f = T_messages \<or> \<not> matches_scalar_type (sf_type f) v")
    case True
    then show ?thesis by (auto simp: validate_field_type.simps value_ok.simps rec)
  next
    case False
    with 4 have i: "?items kvs p = [] \<longleftrightarrow>
        (case sf_item_fields f of None \<Rightarrow> True | Some shape \<Rightarrow> object_ok fs kvs shape)" for kvs p
      by (auto split: option.splits)
    from False 4 have m: "?members kvs p = [] \<longleftrightarrow>
        (case sf_fields f of None \<Rightarrow> True | Some shape \<Rightarrow> object_ok fs kvs shape)" for kvs p
      by (auto split: option.splits)
    from False show ?thesis
      by (simp add: validate_field_type.simps value_ok.simps path_issues_ok bound_issues_ok enum_issues_ok
        list_issues_ok [OF i] object_issues_ok [OF m])
  qed
qed (simp add: object_ok.simps)

lemma validate_row_ok: "validate_jsonl_row_against fs row schema n = [] \<longleftrightarrow> row_ok fs schema row"
  by (cases row) (simp_all add: validate_jsonl_row_against_def row_ok_def
    validate_example_fields_against_def validate_ok_iff)



section \<open>Where issues point\<close>

definition located :: "nat option \<Rightarrow> string \<Rightarrow> validation_issue \<Rightarrow> bool" where
  "located n path i \<longleftrightarrow> vi_level i = ''error'' \<and> vi_row_number i = n
     \<and> (case vi_field i of None \<Rightarrow> False | Some p \<Rightarrow> has_prefix path p)"

lemma located_issue: "located n path (issue m n (Some p)) \<longleftrightarrow> has_prefix path p"
  by (simp add: located_def issue_def)

lemma has_prefix_append [simp]: "has_prefix p (p @ q)"
  by (simp add: has_prefix_def)

lemma has_prefix_self [simp]: "has_prefix p p"
  by (simp add: has_prefix_def)

lemma has_prefix_trans: "has_prefix (p @ q) s \<Longrightarrow> has_prefix p s"
  by (metis append_assoc append_take_drop_id has_prefix_append has_prefix_def)

lemma located_shorter: "located n (p @ q) i \<Longrightarrow> located n p i"
  by (auto simp: located_def intro: has_prefix_trans split: option.splits)

lemma messages_located: "i \<in> set (validate_messages v name n) \<Longrightarrow> located n name i"
proof -
  have "i \<in> set (message_issues name n im) \<Longrightarrow> located n name i" for im
    by (cases "snd im") (auto simp: message_issues_def located_issue split: if_splits)
  then show "i \<in> set (validate_messages v name n) \<Longrightarrow> located n name i"
    by (cases v) (auto simp: validate_messages_def located_issue)
qed

lemma path_issues_located: "i \<in> set (path_issues fs f v n name) \<Longrightarrow> located n name i"
  by (auto simp: path_issues_def path_existence_issues_def located_issue
      split: option.splits json.splits if_splits sum.splits)

lemma set_option_list: "i \<in> set (case x of None \<Rightarrow> [] | Some y \<Rightarrow> g y) \<longleftrightarrow> (\<exists>y. x = Some y \<and> i \<in> set (g y))"
  by (cases x) auto

lemma set_if_list: "i \<in> set (if b then xs else []) \<longleftrightarrow> b \<and> i \<in> set xs"
  by simp

lemma bound_issues_located: "i \<in> set (bound_issues f v n name) \<Longrightarrow> located n name i"
  unfolding bound_issues_def set_if_list set_option_list set_append Un_iff list.set
  by (elim conjE exE disjE insertE emptyE; hypsubst; simp only: located_issue has_prefix_self)

lemma enum_issues_located: "i \<in> set (enum_issues f v n name) \<Longrightarrow> located n name i"
  by (cases "sf_enum f") (simp_all add: enum_issues_def located_issue split: if_split_asm)

lemma list_issues_located:
  assumes "\<And>kvs p i. i \<in> set (nested kvs p) \<Longrightarrow> located n p i"
  shows "i \<in> set (list_issues nested f v n name) \<Longrightarrow> located n name i"
proof -
  have e: "i \<in> set (element_issues nested ty n name ie) \<Longrightarrow> located n name i" for i ty ie
    using assms [THEN located_shorter]
    by (cases "snd ie"; cases "ty = T_object") (simp_all add: element_issues_def located_issue split: if_split_asm)
  then show "i \<in> set (list_issues nested f v n name) \<Longrightarrow> located n name i"
    by (cases "sf_type f = T_list"; cases v; cases "sf_item_type f")
      (auto simp: list_issues_def split: field_type.splits)
qed

lemma object_issues_located:
  assumes "\<And>kvs p i. i \<in> set (nested kvs p) \<Longrightarrow> located n p i"
  shows "i \<in> set (object_issues nested f v name) \<Longrightarrow> located n name i"
  using assms [THEN located_shorter] by (cases "sf_type f"; cases v) (auto simp: object_issues_def)

lemma issues_located:
  "i \<in> set (validate_fields fs data n prefix shape) \<Longrightarrow> located n prefix i"
  "i \<in> set (validate_field fs data n prefix f) \<Longrightarrow> located n (prefix @ sf_name f) i"
  "i \<in> set (validate_field_type fs v n prefix f) \<Longrightarrow> located n (prefix @ sf_name f) i"
proof (induction fs data n prefix shape and fs data n prefix f and fs v n prefix f arbitrary: i and i and i
    rule: validate_fields_validate_field_validate_field_type.induct)
  case (2 fs data n prefix f rest)
  then show ?case by (auto dest: located_shorter)
next
  case (3 fs data n prefix f)
  then show ?case by (auto simp: validate_field.simps located_issue split: option.splits if_splits)
next
  case (4 fs v n prefix f)
  let ?items = "\<lambda>kvs p. case sf_item_fields f of None \<Rightarrow> [] | Some shape \<Rightarrow> validate_fields fs kvs n p shape"
  let ?members = "\<lambda>kvs p. case sf_fields f of None \<Rightarrow> [] | Some shape \<Rightarrow> validate_fields fs kvs n p shape"
  show ?case
  proof (cases "sf_type f = T_messages \<or> \<not> matches_scalar_type (sf_type f) v")
    case True
    with 4 show ?thesis by (auto simp: validate_field_type.simps located_issue messages_located split: if_splits)
  next
    case False
    with 4(1) have i: "j \<in> set (?items kvs p) \<Longrightarrow> located n p j" for kvs p j
      by (cases "sf_item_fields f") auto
    from False 4(2) have m: "j \<in> set (?members kvs p) \<Longrightarrow> located n p j" for kvs p j
      by (cases "sf_fields f") auto
    have "j \<in> set (list_issues ?items f v n name) \<Longrightarrow> located n name j" for j name
      by (rule list_issues_located [where nested = ?items, OF i])
    moreover have "j \<in> set (object_issues ?members f v name) \<Longrightarrow> located n name j" for j name
      by (rule object_issues_located [where nested = ?members, OF m])
    ultimately show ?thesis
      using 4(3) False path_issues_located bound_issues_located enum_issues_located by (auto simp: validate_field_type.simps)
  qed
qed simp

lemma row_issues_located:
  "i \<in> set (validate_jsonl_row_against fs row schema n) \<Longrightarrow> vi_level i = ''error'' \<and> vi_row_number i = n"
  using issues_located(1) [of i fs _ n "[]" "ds_fields schema"]
  by (cases row) (auto simp: validate_jsonl_row_against_def validate_example_fields_against_def located_def issue_def)


section \<open>Validation stays under the root\<close>

definition resolved_root :: "path_root \<Rightarrow> string list" where
  "resolved_root fs = resolve_path fs (root_path fs)"

text \<open>The same root on a machine that has no file outside it (its links are kept).\<close>

definition confined :: "path_root \<Rightarrow> path_root" where
  "confined fs = fs\<lparr>root_is_file := (\<lambda>p. is_relative_to (resolved_root fs) p \<and> root_is_file fs p)\<rparr>"

text \<open>No link lies on the way to the resolved root, nor under it.\<close>

definition root_without_links :: "path_root \<Rightarrow> bool" where
  "root_without_links fs \<longleftrightarrow> list_all (\<lambda>(p, _). \<not> is_relative_to p (resolved_root fs) \<and> \<not> is_relative_to (resolved_root fs) p) (root_links fs)"

text \<open>A relative path that does not climb.\<close>

definition plain_path :: "string \<Rightarrow> bool" where
  "plain_path s \<longleftrightarrow> \<not> posix_absolute (posix_separators s) \<and> \<not> windows_absolute s
     \<and> ''..'' \<notin> set (posix_parts (posix_separators s))"

definition plain_segment :: "string \<Rightarrow> bool" where
  "plain_segment s \<longleftrightarrow> s \<noteq> [] \<and> s \<noteq> ''.'' \<and> s \<noteq> ''..''"

lemma resolve_from_plain:
  assumes "list_all plain_segment path" and "list_all (\<lambda>(_, q). pred_option (list_all plain_segment) q) seen"
  shows "list_all plain_segment (resolve_from links seen path rest)"
  using assms
proof (induction links seen path rest rule: resolve_from.induct)
  case (3 links seen path s rest)
  have up: "list_all plain_segment (butlast path)" using 3(7) by (auto simp: list_all_iff dest: in_set_butlastD)
  have settled: "list_all plain_segment settled" if "map_of seen (path @ [s]) = Some (Some settled)" for settled
    using 3(8) map_of_SomeD [OF that] by (force simp: list_all_iff)
  consider "s = [] \<or> s = ''.''" | "s = ''..''" | "plain_segment s" by (auto simp: plain_segment_def)
  then show ?case
  proof cases
    case 3
    then have here: "list_all plain_segment (path @ [s])" using \<open>list_all plain_segment path\<close> by simp
    from 3 have s: "\<not> (s = [] \<or> s = ''.'')" "s \<noteq> ''..''" by (auto simp: plain_segment_def)
    note IH = "3.IH"(3-6) [OF s]
    show ?thesis
      using IH here settled "3.prems" s by (auto split: option.splits)
  qed (use 3 up in auto)
qed auto

lemma resolve_without_links:
  assumes "list_all plain_segment segments"
    and "\<And>k. 0 < k \<Longrightarrow> k \<le> length segments \<Longrightarrow> map_of links (path @ take k segments) = None"
  shows "resolve_from links seen path (map Segment segments) = path @ segments"
  using assms
proof (induction segments arbitrary: path)
  case (Cons s segments)
  have "map_of links (path @ [s]) = None" using Cons.prems(2) [of 1] by simp
  moreover have "map_of links ((path @ [s]) @ take k segments) = None" if "0 < k" "k \<le> length segments" for k
    using Cons.prems(2) [of "Suc k"] that by simp
  ultimately show ?case using Cons.IH [of "path @ [s]"] Cons.prems(1) by (simp add: plain_segment_def)
qed simp

lemma resolve_under_root:
  assumes "root_without_links fs" and "list_all plain_segment segments"
  shows "resolve_path fs (resolved_root fs @ segments) = resolved_root fs @ segments"
proof -
  let ?base = "resolved_root fs"
  have "list_all plain_segment ?base" by (simp add: resolved_root_def resolve_path_def resolve_from_plain)
  moreover have "map_of (root_links fs) (take k (?base @ segments)) = None" for k
  proof -
    have "is_relative_to (take k (?base @ segments)) ?base \<or> is_relative_to ?base (take k (?base @ segments))"
      by (auto simp: is_relative_to_def min_def)
    with assms(1) show ?thesis by (force simp: root_without_links_def list_all_iff map_of_eq_None_iff)
  qed
  ultimately show ?thesis using assms(2) resolve_without_links [of "?base @ segments" "root_links fs" "[]"] by (simp add: resolve_path_def)
qed

lemma plain_path_verdict:
  assumes "root_without_links fs" and "plain_path s"
  shows "resolve_contained_path s fs = (let p = resolved_root fs @ posix_parts (posix_separators s) in
     if root_is_file fs p then Inr p else Inl (Path_missing s))"
proof -
  have "list_all plain_segment (posix_parts (posix_separators s))"
    using assms(2) by (auto simp: plain_path_def plain_segment_def posix_parts_def list_all_iff)
  from resolve_under_root [OF assms(1) this] assms(2) show ?thesis
    by (simp add: resolve_contained_path_def plain_path_def Let_def is_relative_to_def resolved_root_def)
qed

text \<open>A value that climbs can find out where a link outside the root points: with a link
  \<open>/srv/secret\<close> to \<open>/srv/x/y\<close>, the value \<open>../secret/../root/a.jpg\<close> of the root \<open>/srv/root\<close> escapes;
  without it the value is the file \<open>a.jpg\<close> of the root.\<close>

definition probed_root :: "(string list \<times> path_link) list \<Rightarrow> path_root" where
  "probed_root links = \<lparr>root_path = [''srv'', ''root''], root_links = links,
     root_is_file = (\<lambda>p. p = [''srv'', ''root'', ''a.jpg''])\<rparr>"

lemma outside_link_is_probed:
  "resolve_contained_path ''../secret/../root/a.jpg'' (probed_root []) = Inr [''srv'', ''root'', ''a.jpg'']"
  "resolve_contained_path ''../secret/../root/a.jpg'' (probed_root [([''srv'', ''secret''], True, [''srv'', ''x'', ''y''])])
     = Inl Path_escapes"
  by code_simp+

lemma resolve_confined [simp]: "resolve_contained_path v (confined fs) = resolve_contained_path v fs"
  by (simp add: resolve_contained_path_def confined_def resolve_path_def resolved_root_def Let_def)

lemma path_issues_confined [simp]: "path_issues (map_option confined fs) = path_issues fs"
  by (intro ext) (auto simp: path_issues_def path_existence_issues_def split: option.splits json.splits)

lemma validate_confined:
  "validate_fields (map_option confined fs) data n prefix shape = validate_fields fs data n prefix shape"
  "validate_field (map_option confined fs) data n prefix f = validate_field fs data n prefix f"
  "validate_field_type (map_option confined fs) v n prefix f = validate_field_type fs v n prefix f"
proof (induction fs data n prefix shape and fs data n prefix f and fs v n prefix f
    rule: validate_fields_validate_field_validate_field_type.induct)
  case (3 fs data n prefix f)
  then show ?case by (simp add: validate_field.simps split: option.splits)
next
  case (4 fs v n prefix f)
  have "(\<lambda>kvs p. case sf_item_fields f of None \<Rightarrow> [] | Some shape \<Rightarrow> validate_fields (map_option confined fs) kvs n p shape)
      = (\<lambda>kvs p. case sf_item_fields f of None \<Rightarrow> [] | Some shape \<Rightarrow> validate_fields fs kvs n p shape)"
    if "sf_type f \<noteq> T_messages" "matches_scalar_type (sf_type f) v"
    using 4(1) that by (intro ext) (simp split: option.splits)
  moreover have "(\<lambda>kvs p. case sf_fields f of None \<Rightarrow> [] | Some shape \<Rightarrow> validate_fields (map_option confined fs) kvs n p shape)
      = (\<lambda>kvs p. case sf_fields f of None \<Rightarrow> [] | Some shape \<Rightarrow> validate_fields fs kvs n p shape)"
    if "sf_type f \<noteq> T_messages" "matches_scalar_type (sf_type f) v"
    using 4(2) that by (intro ext) (simp split: option.splits)
  ultimately show ?case by (simp add: validate_field_type.simps)
qed simp_all


section \<open>Files\<close>

definition line_ok :: "dataset_schema \<Rightarrow> jsonl_line \<Rightarrow> bool" where
  "line_ok schema l \<longleftrightarrow> (case jl_value l of None \<Rightarrow> False | Some row \<Rightarrow> row_ok None schema row)"

definition line_issues :: "dataset_schema \<Rightarrow> jsonl_line \<Rightarrow> validation_issue list" where
  "line_issues schema l = (case jl_value l of
      None \<Rightarrow> [issue Invalid_json (Some (jl_line_number l)) None]
    | Some row \<Rightarrow> validate_jsonl_row_against None row schema (Some (jl_line_number l)))"

lemma line_issues_ok: "line_issues schema l = [] \<longleftrightarrow> line_ok schema l"
  by (simp add: line_issues_def line_ok_def validate_row_ok split: option.splits)

lemma line_issues_row: "i \<in> set (line_issues schema l) \<Longrightarrow> vi_row_number i = Some (jl_line_number l)"
  by (auto simp: line_issues_def issue_def dest: row_issues_located split: option.splits)

lemma validate_builtin_row:
  "builtin schema_id = Some schema \<Longrightarrow>
     validate_jsonl_row builtin row schema_id n = Inr (validate_jsonl_row_against None row schema n)"
  by (simp add: validate_jsonl_row_def validate_jsonl_row_against_def validate_example_fields_def split: json.splits)

lemma validate_lines_result:
  assumes "builtin schema_id = Some schema"
  shows "validate_lines builtin schema_id ls r = Inr (r
     \<lparr>vr_valid := (vr_errors r @ concat (map (line_issues schema) ls) = []),
      vr_checked_rows := vr_checked_rows r + length ls,
      vr_errors := vr_errors r @ concat (map (line_issues schema) ls)\<rparr>)"
  by (induction ls arbitrary: r)
    (simp_all add: validate_builtin_row [where builtin = builtin and schema_id = schema_id, OF assms] line_issues_def Let_def split: option.splits)

lemma validate_file_result:
  assumes "builtin schema_id = Some schema" and "utf8_decode (strip_bom content) = Some text"
  shows "validate_jsonl_file rt builtin content schema_id = Inr
    \<lparr>vr_valid = list_all (line_ok schema) (iter_jsonl rt text), vr_schema_id = schema_id,
     vr_checked_rows = length (iter_jsonl rt text),
     vr_errors = concat (map (line_issues schema) (iter_jsonl rt text)), vr_warnings = []\<rparr>"
  by (simp add: validate_jsonl_file_def assms(2) validate_lines_result [where builtin = builtin and schema_id = schema_id, OF assms(1)] empty_report_def
      line_issues_ok list_all_iff)



section \<open>Properties\<close>

text \<open>C9: The validator decides conformance. A row has no issue exactly when it conforms to the
  schema, at any depth of nesting; every issue is an error that carries the row's number; and
  a row that is not an object never conforms.\<close>

theorem validation_decides_conformance:
  "(validate_jsonl_row_against fs row schema n = [] \<longleftrightarrow> row_ok fs schema row)
   \<and> list_all (\<lambda>i. vi_level i = ''error'' \<and> vi_row_number i = n)
       (validate_jsonl_row_against fs row schema n)"
  by (auto simp: validate_row_ok list_all_iff dest: row_issues_located)

text \<open>C31: Validation stays under the root. The issues of a row are the same on a machine that has
  no file outside the declared root, and a path the check accepts is a relative path to a file
  under the resolved root. When no link lies on the way to the root or under it, the verdict on a
  relative value without \<open>..\<close> is whether the file it names under the root exists, and no link of
  the machine matters. (A link outside the root can matter to a value that climbs: lemma
  \<open>outside_link_is_probed\<close>.)\<close>

theorem validation_confined_to_root:
  "validate_jsonl_row_against (Some (confined fs)) row schema n = validate_jsonl_row_against (Some fs) row schema n
   \<and> (case resolve_contained_path s fs of
        Inl _ \<Rightarrow> True
      | Inr p \<Rightarrow> is_relative_to (resolved_root fs) p \<and> root_is_file fs p \<and> \<not> posix_absolute s)
   \<and> (root_without_links fs \<and> plain_path s \<longrightarrow>
        resolve_contained_path s fs = (let p = resolved_root fs @ posix_parts (posix_separators s) in
          if root_is_file fs p then Inr p else Inl (Path_missing s)))"
proof -
  have "\<not> posix_absolute s" if "\<not> posix_absolute (posix_separators s)"
    using that by (cases s) (auto simp: posix_absolute_def has_prefix_def posix_separators_def)
  moreover have "validate_fields (Some (confined fs)) kvs n [] (ds_fields schema)
      = validate_fields (Some fs) kvs n [] (ds_fields schema)" for kvs
    using validate_confined(1) [of "Some fs"] by simp
  ultimately show ?thesis
    using plain_path_verdict [of fs s]
    by (simp add: validate_jsonl_row_against_def validate_example_fields_against_def
        resolve_contained_path_def resolved_root_def Let_def split: json.split)
qed

lemma validation_confined_to_root_witness:
  "resolve_contained_path ''img/a.jpg'' \<lparr>root_path = [''data''], root_links = [([''data''], False, [''srv'']), ([''etc''], True, [''x''])],
     root_is_file = (\<lambda>p. p = [''srv'', ''img'', ''a.jpg''])\<rparr> = Inr [''srv'', ''img'', ''a.jpg'']"
proof -
  let ?fs = "\<lparr>root_path = [''data''], root_links = [([''data''], False, [''srv'']), ([''etc''], True, [''x''])],
     root_is_file = (\<lambda>p. p = [''srv'', ''img'', ''a.jpg''])\<rparr>"
  have root: "resolved_root ?fs = [''srv'']" by code_simp
  have "root_without_links ?fs" "plain_path ''img/a.jpg''"
    by (simp add: root_without_links_def root is_relative_to_def) code_simp
  then show ?thesis
    using validation_confined_to_root [of ?fs JNull "\<lparr>ds_id = [], ds_name = [], ds_version = [], ds_description = None, ds_fields = [], ds_example = None\<rparr>" None "''img/a.jpg''"]
    by (simp add: root posix_parts_def posix_separators_def)
qed

text \<open>C32: A validated file is judged line by line. The report is valid exactly when every
  non-blank line parses to an object that conforms, it counts every non-blank line, and its
  errors name exactly the lines that do not conform.\<close>

theorem file_validation_is_exact:
  assumes "builtin schema_id = Some schema" and "utf8_decode (strip_bom content) = Some text"
  shows "\<exists>r. validate_jsonl_file rt builtin content schema_id = Inr r
     \<and> (vr_valid r \<longleftrightarrow> list_all (line_ok schema) (iter_jsonl rt text))
     \<and> vr_checked_rows r = length (iter_jsonl rt text)
     \<and> vi_row_number ` set (vr_errors r)
         = Some ` set (map jl_line_number (filter (\<lambda>l. \<not> line_ok schema l) (iter_jsonl rt text)))"
proof -
  have "vi_row_number ` set (line_issues schema l) = (if line_ok schema l then {} else {Some (jl_line_number l)})" for l
  proof (cases "line_ok schema l")
    case True
    then have "line_issues schema l = []" by (simp only: line_issues_ok)
    with True show ?thesis by simp
  next
    case False
    then obtain i iss where "line_issues schema l = i # iss" using line_issues_ok by (cases "line_issues schema l") auto
    moreover have "vi_row_number ` set (line_issues schema l) \<subseteq> {Some (jl_line_number l)}"
      using line_issues_row [of _ schema l] by blast
    ultimately show ?thesis using False by auto
  qed
  then have "vi_row_number ` set (concat (map (line_issues schema) ls))
      = Some ` set (map jl_line_number (filter (\<lambda>l. \<not> line_ok schema l) ls))" for ls
    by (induction ls) (auto simp: image_Un)
  with validate_file_result [where builtin = builtin and schema_id = schema_id, OF assms] show ?thesis by simp
qed

definition sample_schema :: dataset_schema where
  "sample_schema = \<lparr>ds_id = ''qa'', ds_name = ''QA'', ds_version = ''1'', ds_description = None,
     ds_fields = [plain_field ''text'' T_text], ds_example = None\<rparr>"

theorem file_validation_is_exact_witness:
  "\<exists>r. validate_jsonl_file sample_rt (\<lambda>_. Some sample_schema) (''?'' @ [nl, nl] @ ''?'') ''qa'' = Inr r
     \<and> \<not> vr_valid r \<and> vr_checked_rows r = 2 \<and> vi_row_number ` set (vr_errors r) = {Some 1, Some 3}"
proof -
  have d: "utf8_decode (strip_bom (''?'' @ [nl, nl] @ ''?'')) = Some (''?'' @ [nl, nl] @ ''?'')" by code_simp
  have l: "map jl_line_number (filter (\<lambda>l. \<not> line_ok sample_schema l) (iter_jsonl sample_rt (''?'' @ [nl, nl] @ ''?''))) = [1, 3]"
    "list_all (line_ok sample_schema) (iter_jsonl sample_rt (''?'' @ [nl, nl] @ ''?'')) = False"
    "length (iter_jsonl sample_rt (''?'' @ [nl, nl] @ ''?'')) = 2" by code_simp+
  show ?thesis
    using file_validation_is_exact [where builtin = "\<lambda>_. Some sample_schema" and schema_id = "''qa''"
        and rt = sample_rt, OF refl d]
    unfolding l by auto
qed

end
