(* ===== verification/Applicability.thy ===== *)
theory Applicability
  imports Dataset_Schema Py_Float Sample_Runtime
begin

text \<open>
  Which quality signals a dataset's shape supports (\<open>quality/applicability.py\<close>): the role of
  every leaf of a schema, the tokens of the rows under each leaf, the share of them that lies
  in prose, and the signals that share admits.
\<close>

section \<open>Roles and signals\<close>

datatype field_role = Free_text | Categorical | Numeric | Path_role

datatype role_source = From_schema | Unmeasured

definition FALLBACK_ROLE :: field_role where
  "FALLBACK_ROLE = Categorical"

definition schema_type_role :: "field_type \<Rightarrow> field_role" where
  "schema_type_role ty = (case ty of
      T_text \<Rightarrow> Free_text | T_markdown \<Rightarrow> Free_text | T_code \<Rightarrow> Free_text | T_messages \<Rightarrow> Free_text
    | T_string \<Rightarrow> Categorical | T_boolean \<Rightarrow> Categorical
    | T_integer \<Rightarrow> Numeric | T_float \<Rightarrow> Numeric
    | T_file_path \<Rightarrow> Path_role | T_image_path \<Rightarrow> Path_role
    | _ \<Rightarrow> FALLBACK_ROLE)"

definition SIGNAL_REQUIRED_ROLES :: "(string, field_role list) dict" where
  "SIGNAL_REQUIRED_ROLES =
    [(''empty_rows'', []), (''exact_duplicates'', []), (''secrets'', []), (''personal_data'', []),
     (''normalized_duplicates'', [Free_text]), (''low_information'', [Free_text]),
     (''synthetic_patterns'', [Free_text]), (''token_length_outliers'', [Free_text]),
     (''category_imbalance'', [Categorical, Numeric])]"

definition MIN_ASSESSED_CONTENT_SHARE :: rat where
  "MIN_ASSESSED_CONTENT_SHARE = 1 / 2"

text \<open>The reason in words: its text interpolates the schema id, the share and the signals.\<close>

datatype applicability_reason =
    Not_assessed
  | Every_signal_applies string rat
  | Some_signals_withheld string rat "string list"

record quality_applicability =
  qa_role_source :: role_source
  qa_assessed_content_share :: "rat option"
  qa_min_assessed_content_share :: rat
  qa_field_roles :: "(string, field_role) dict"
  qa_applicable_signals :: "string list"
  qa_not_applicable_signals :: "string list"
  qa_reason :: applicability_reason

text \<open>\<open>QualityApplicability.applies\<close>.\<close>

definition applies_to :: "quality_applicability \<Rightarrow> string \<Rightarrow> bool" where
  "applies_to qa signal \<longleftrightarrow> signal \<notin> set (qa_not_applicable_signals qa)"


section \<open>Leaves of a schema\<close>

text \<open>The declared inner shape of a field: the members of an object or the elements of a list of
  objects. An empty declaration is no declaration.\<close>

datatype nesting = Members "schema_field list" | Elements "schema_field list"

definition nested_shape :: "schema_field \<Rightarrow> nesting option" where
  "nested_shape f =
     (if sf_type f = T_object \<and> sf_fields f \<noteq> None \<and> sf_fields f \<noteq> Some []
      then Some (Members (the (sf_fields f)))
      else if sf_type f = T_list \<and> sf_item_type f = Some T_object
           \<and> sf_item_fields f \<noteq> None \<and> sf_item_fields f \<noteq> Some []
      then Some (Elements (the (sf_item_fields f)))
      else None)"

definition leaf_role :: "schema_field \<Rightarrow> field_role" where
  "leaf_role f = (case (sf_type f, sf_item_type f) of
      (T_list, Some item_type) \<Rightarrow> schema_type_role item_type
    | (ty, _) \<Rightarrow> schema_type_role ty)"

lemma size_nested_shape:
  "nested_shape f = Some (Members shape) \<Longrightarrow> size_list size shape < size f"
  "nested_shape f = Some (Elements shape) \<Longrightarrow> size_list size shape < size f"
  by (auto simp: nested_shape_def split: if_splits dest: size_sf_fields size_sf_item_fields)

function leaf_roles :: "string \<Rightarrow> schema_field list \<Rightarrow> (string \<times> field_role) list" where
  "leaf_roles prefix [] = []"
| "leaf_roles prefix (f # rest) =
     (case nested_shape f of
        Some (Members shape) \<Rightarrow> leaf_roles (prefix @ sf_name f @ ''.'') shape
      | Some (Elements shape) \<Rightarrow> leaf_roles (prefix @ sf_name f @ ''[].'') shape
      | None \<Rightarrow> [(prefix @ sf_name f, leaf_role f)])
     @ leaf_roles prefix rest"
  by pat_completeness auto
termination
  by (relation "measure (\<lambda>(_, fs). size_list size fs)") (auto dest: size_nested_shape)

text \<open>\<open>dict(pairs)\<close>.\<close>

definition dict_of :: "('k \<times> 'v) list \<Rightarrow> ('k, 'v) dict" where
  "dict_of kvs = fold (\<lambda>(k, v). dset k v) kvs []"

definition schema_field_roles :: "dataset_schema \<Rightarrow> (string, field_role) dict" where
  "schema_field_roles schema = dict_of (leaf_roles [] (ds_fields schema))"

definition free_text_leaf_paths :: "dataset_schema \<Rightarrow> string list" where
  "free_text_leaf_paths schema = map fst (filter (\<lambda>kv. snd kv = Free_text) (schema_field_roles schema))"


section \<open>Counting tokens under each leaf\<close>

definition token_count :: "runtime \<Rightarrow> json \<Rightarrow> nat" where
  "token_count rt v = length (tokenize_text_values rt v)"

definition add_total :: "string \<Rightarrow> nat \<Rightarrow> (string, nat) dict \<Rightarrow> (string, nat) dict" where
  "add_total path n totals = dset path ((case dget totals path of None \<Rightarrow> 0 | Some m \<Rightarrow> m) + n) totals"

text \<open>\<open>{field.name: field for field in fields}.get(key)\<close>: the last declaration of a name counts.\<close>

definition declared :: "schema_field list \<Rightarrow> string \<Rightarrow> schema_field option" where
  "declared shape key = find (\<lambda>f. sf_name f = key) (rev shape)"

lemma declared_mem: "declared shape key = Some f \<Longrightarrow> f \<in> set shape"
  by (auto simp: declared_def find_Some_iff) (metis nth_mem length_rev set_rev)

definition rstrip_dots :: "string \<Rightarrow> string" where
  "rstrip_dots s = rev (dropWhile (\<lambda>c. c = CHR ''.'') (rev s))"

function accumulate_tokens ::
  "runtime \<Rightarrow> json \<Rightarrow> schema_field list \<Rightarrow> string \<Rightarrow> (string, nat) dict \<Rightarrow> (string, nat) dict" where
  "accumulate_tokens rt data decls prefix totals = (case data of
      JObj kvs \<Rightarrow> fold (\<lambda>kv tot.
        (let name = prefix @ fst kv in
         case declared decls (fst kv) of
           None \<Rightarrow> add_total name (token_count rt (snd kv)) tot
         | Some f \<Rightarrow>
             (case nested_shape f of
                Some (Members shape) \<Rightarrow> (case snd kv of
                    JObj members \<Rightarrow> accumulate_tokens rt (JObj members) shape (name @ ''.'') tot
                  | v \<Rightarrow> add_total name (token_count rt v) tot)
              | Some (Elements shape) \<Rightarrow> (case snd kv of
                    JList es \<Rightarrow> fold (\<lambda>e. accumulate_tokens rt e shape (name @ ''[].'')) es tot
                  | v \<Rightarrow> add_total name (token_count rt v) tot)
              | None \<Rightarrow> add_total name (token_count rt (snd kv)) tot))) kvs totals
    | _ \<Rightarrow> add_total (rstrip_dots prefix) (token_count rt data) totals)"
  by pat_completeness auto
termination
  by (relation "measure (\<lambda>(_, _, fs, _, _). size_list size fs)")
    (auto dest!: declared_mem size_field_member dest: size_nested_shape)



section \<open>The assessment\<close>

definition signal_applies :: "string \<Rightarrow> field_role list \<Rightarrow> rat \<Rightarrow> bool" where
  "signal_applies signal roles_present share =
     (let required = (case dget SIGNAL_REQUIRED_ROLES signal of None \<Rightarrow> [] | Some r \<Rightarrow> r) in
      if required = [] then True
      else if \<not> list_ex (\<lambda>r. r \<in> set roles_present) required then False
      else if Free_text \<in> set required then MIN_ASSESSED_CONTENT_SHARE \<le> share
      else True)"

definition describe :: "dataset_schema \<Rightarrow> rat \<Rightarrow> string list \<Rightarrow> applicability_reason" where
  "describe schema share not_applicable =
     (if not_applicable = [] then Every_signal_applies (ds_id schema) share
      else Some_signals_withheld (ds_id schema) share not_applicable)"

definition total_tokens :: "(string, nat) dict \<Rightarrow> nat" where
  "total_tokens totals = sum_list (map snd totals)"

definition free_text_tokens :: "(string, field_role) dict \<Rightarrow> (string, nat) dict \<Rightarrow> nat" where
  "free_text_tokens roles totals =
     sum_list (map snd (filter (\<lambda>kv. dget roles (fst kv) = Some Free_text) totals))"

definition content_share :: "(string, field_role) dict \<Rightarrow> (string, nat) dict \<Rightarrow> rat" where
  "content_share roles totals =
     (if total_tokens totals = 0 then 0
      else int_div_int (int (free_text_tokens roles totals)) (int (total_tokens totals)))"

definition row_totals :: "runtime \<Rightarrow> json list \<Rightarrow> dataset_schema \<Rightarrow> (string, nat) dict" where
  "row_totals rt rows schema = fold (\<lambda>row. accumulate_tokens rt row (ds_fields schema) []) rows []"

definition measure_applicability :: "runtime \<Rightarrow> json list \<Rightarrow> dataset_schema option \<Rightarrow> quality_applicability" where
  "measure_applicability rt rows schema =
     (let signals = sort (map fst SIGNAL_REQUIRED_ROLES) in
      case schema of
        None \<Rightarrow> \<lparr>qa_role_source = Unmeasured, qa_assessed_content_share = None,
          qa_min_assessed_content_share = MIN_ASSESSED_CONTENT_SHARE, qa_field_roles = [],
          qa_applicable_signals = signals, qa_not_applicable_signals = [], qa_reason = Not_assessed\<rparr>
      | Some sch \<Rightarrow>
          let roles = schema_field_roles sch;
              share = content_share roles (row_totals rt rows sch);
              roles_present = map snd roles;
              applicable = filter (\<lambda>s. signal_applies s roles_present share) signals;
              not_applicable = filter (\<lambda>s. \<not> signal_applies s roles_present share) signals
          in \<lparr>qa_role_source = From_schema, qa_assessed_content_share = Some (py_round share 4),
               qa_min_assessed_content_share = MIN_ASSESSED_CONTENT_SHARE,
               qa_field_roles = sort_key fst roles, qa_applicable_signals = applicable,
               qa_not_applicable_signals = not_applicable, qa_reason = describe sch share not_applicable\<rparr>)"


section \<open>Every token is counted once\<close>

text \<open>NFKC of two texts joined by a space: the space is a starter that composes with nothing, so
  normalization acts on each side alone.\<close>

definition nfkc_splits :: "runtime \<Rightarrow> bool" where
  "nfkc_splits rt \<longleftrightarrow> nfkc rt [] = [] \<and> (\<forall>a b. nfkc rt (a @ '' '' @ b) = nfkc rt a @ '' '' @ nfkc rt b)"

lemma runs_acc_sep: "\<not> p c \<Longrightarrow> runs_acc p acc (a @ c # b) = runs_acc p acc a @ runs_acc p [] b"
  by (induction p acc a rule: runs_acc.induct) auto

lemma runs_sep: "\<not> p c \<Longrightarrow> runs p (a @ c # b) = runs p a @ runs p b"
  by (simp add: runs_def runs_acc_sep)

definition word_tokens :: "runtime \<Rightarrow> string \<Rightarrow> string list" where
  "word_tokens rt s = runs is_word (lower (nfkc rt s))"

lemma space_facts: "lower_char (CHR '' '') = CHR '' ''" "\<not> is_word (CHR '' '')"
  by code_simp+

lemma word_tokens_space:
  assumes "nfkc_splits rt"
  shows "word_tokens rt (a @ '' '' @ b) = word_tokens rt a @ word_tokens rt b"
  using assms runs_sep [of is_word "CHR '' ''"]
  by (simp add: word_tokens_def nfkc_splits_def lower_def space_facts)

lemma word_tokens_Nil: "nfkc_splits rt \<Longrightarrow> word_tokens rt [] = []"
  by (simp add: word_tokens_def nfkc_splits_def lower_def runs_def)

lemma word_tokens_join:
  assumes "nfkc_splits rt"
  shows "word_tokens rt (join '' '' xs) = concat (map (word_tokens rt) xs)"
  using assms by (induction xs rule: induct_list012) (simp_all add: word_tokens_Nil word_tokens_space [simplified])

lemma token_count_obj:
  "nfkc_splits rt \<Longrightarrow> token_count rt (JObj kvs) = sum_list (map (\<lambda>kv. token_count rt (snd kv)) kvs)"
  by (induction kvs)
    (simp_all add: token_count_def tokenize_text_values_def word_tokens_def [symmetric] word_tokens_join word_tokens_Nil)

lemma token_count_list:
  "nfkc_splits rt \<Longrightarrow> token_count rt (JList vs) = sum_list (map (token_count rt) vs)"
  by (induction vs)
    (simp_all add: token_count_def tokenize_text_values_def word_tokens_def [symmetric] word_tokens_join word_tokens_Nil)

lemma total_dset:
  "total_tokens (dset k n d) + (case dget d k of None \<Rightarrow> 0 | Some m \<Rightarrow> m) = total_tokens d + n"
  by (induction d) (auto simp: total_tokens_def split: option.splits)

lemma total_add: "total_tokens (add_total path n totals) = total_tokens totals + n"
  using total_dset [of path "(case dget totals path of None \<Rightarrow> 0 | Some m \<Rightarrow> m) + n" totals]
  by (simp add: add_total_def split: option.splits)

lemma total_fold:
  assumes "\<And>x tot. x \<in> set xs \<Longrightarrow> total_tokens (f x tot) = total_tokens tot + g x"
  shows "total_tokens (fold f xs tot) = total_tokens tot + sum_list (map g xs)"
  using assms by (induction xs arbitrary: tot) simp_all

declare accumulate_tokens.simps [simp del]

lemma total_accumulate:
  assumes "nfkc_splits rt"
  shows "total_tokens (accumulate_tokens rt data decls prefix totals) = total_tokens totals + token_count rt data"
  using assms
proof (induction rt data decls prefix totals rule: accumulate_tokens.induct)
  case (1 rt data decls prefix totals)
  show ?case
  proof (cases data)
    case (JObj kvs)
    let ?step = "\<lambda>kv tot. (let name = prefix @ fst kv in
         case declared decls (fst kv) of
           None \<Rightarrow> add_total name (token_count rt (snd kv)) tot
         | Some f \<Rightarrow> (case nested_shape f of
                Some (Members shape) \<Rightarrow> (case snd kv of
                    JObj members \<Rightarrow> accumulate_tokens rt (JObj members) shape (name @ ''.'') tot
                  | v \<Rightarrow> add_total name (token_count rt v) tot)
              | Some (Elements shape) \<Rightarrow> (case snd kv of
                    JList es \<Rightarrow> fold (\<lambda>e. accumulate_tokens rt e shape (name @ ''[].'')) es tot
                  | v \<Rightarrow> add_total name (token_count rt v) tot)
              | None \<Rightarrow> add_total name (token_count rt (snd kv)) tot))"
    have "total_tokens (?step kv tot) = total_tokens tot + token_count rt (snd kv)"
      if kv: "kv \<in> set kvs" for kv tot
    proof (cases "declared decls (fst kv)")
      case None
      then show ?thesis by (simp add: total_add)
    next
      case d: (Some f)
      show ?thesis
      proof (cases "nested_shape f")
        case None
        with d show ?thesis by (simp add: total_add)
      next
        case n: (Some shape)
        have m: "total_tokens (accumulate_tokens rt (JObj ms) sh (prefix @ fst kv @ ''.'') tot)
            = total_tokens tot + token_count rt (snd kv)"
          if "shape = Members sh" "snd kv = JObj ms" for sh ms
          using 1(1) [OF JObj kv refl d n that] 1(3) that(2) by simp
        have e: "total_tokens (fold (\<lambda>e. accumulate_tokens rt e sh (prefix @ fst kv @ ''[].'')) es tot)
            = total_tokens tot + token_count rt (snd kv)"
          if "shape = Elements sh" "snd kv = JList es" for sh es
          using 1(2) [OF JObj kv refl d n that] 1(3) that(2)
          by (subst total_fold [where g = "token_count rt"]) (simp_all add: token_count_list)
        show ?thesis
          by (cases shape; cases "snd kv") (simp_all add: d n m e total_add)
      qed
    qed
    then show ?thesis
      using 1(3) by (simp add: JObj accumulate_tokens.simps token_count_obj total_fold [where g = "\<lambda>kv. token_count rt (snd kv)"])
  qed (simp_all add: accumulate_tokens.simps total_add)
qed



section \<open>The share and the signals\<close>

lemma free_text_le_total: "free_text_tokens roles totals \<le> total_tokens totals"
  by (induction totals) (auto simp: free_text_tokens_def total_tokens_def)

lemma quotient_unit:
  assumes "m \<le> n" and "n \<noteq> 0"
  shows "0 \<le> (of_int (int m) / of_int (int n) :: rat) \<and> (of_int (int m) / of_int (int n) :: rat) \<le> 1"
  using assms by (simp add: divide_le_eq_1)

lemma content_share_unit: "0 \<le> content_share roles totals \<and> content_share roles totals \<le> 1"
  using quotient_unit [OF free_text_le_total [of roles totals]]
  by (simp add: content_share_def int_div_int_def fl_unit del: of_int_of_nat_eq)

lemma content_share_majority:
  assumes "total_tokens totals \<le> 2 * free_text_tokens roles totals" and "total_tokens totals \<noteq> 0"
  shows "MIN_ASSESSED_CONTENT_SHARE \<le> content_share roles totals"
proof -
  let ?q = "of_int (int (free_text_tokens roles totals)) / of_int (int (total_tokens totals)) :: rat"
  have "1 / 2 \<le> ?q"
  proof -
    have "(of_nat (total_tokens totals) :: rat) \<le> of_nat (2 * free_text_tokens roles totals)"
      using assms(1) by (simp only: of_nat_le_iff)
    then show ?thesis using assms(2) by (simp add: pos_le_divide_eq)
  qed
  then have "1 / 2 \<le> fl ?q"
    using quotient_unit [OF free_text_le_total assms(2), of roles] by (intro fl_ge_half) blast+
  with assms(2) show ?thesis
    unfolding content_share_def int_div_int_def MIN_ASSESSED_CONTENT_SHARE_def by (simp only: if_False)
qed

lemma row_totals_total:
  assumes "nfkc_splits rt"
  shows "total_tokens (row_totals rt rows schema) = sum_list (map (token_count rt) rows)"
proof -
  have "total_tokens (fold (\<lambda>row. accumulate_tokens rt row (ds_fields schema) []) rows [])
      = total_tokens [] + sum_list (map (token_count rt) rows)"
    by (intro total_fold) (simp add: total_accumulate [OF assms])
  then show ?thesis by (simp add: row_totals_def total_tokens_def)
qed

lemma signal_applies_any_shape:
  "dget SIGNAL_REQUIRED_ROLES signal = Some [] \<Longrightarrow> signal_applies signal roles share"
  by (simp add: signal_applies_def Let_def)


section \<open>Properties\<close>

text \<open>Nothing present goes uncounted. Whatever the rows hold and however they deviate from the
  schema, the token totals per leaf add up to exactly the tokens of the rows: every token is
  counted under one path and none twice.\<close>

theorem tokens_counted_once:
  assumes "nfkc_splits rt"
  shows "total_tokens (row_totals rt rows schema) = sum_list (map (token_count rt) rows)
     \<and> free_text_tokens roles (row_totals rt rows schema) \<le> sum_list (map (token_count rt) rows)"
  using row_totals_total [OF assms] free_text_le_total [of roles "row_totals rt rows schema"] by simp

definition nested_schema :: dataset_schema where
  "nested_schema = \<lparr>ds_id = ''nested'', ds_name = [], ds_version = ''1'', ds_description = None,
     ds_fields = [plain_field ''text'' T_text,
       SchemaField ''meta'' T_object False None None None None None (Some [plain_field ''tag'' T_string]) None False],
     ds_example = None\<rparr>"

definition nested_row :: json where
  "nested_row = JObj [(''text'', JStr ''one two''), (''meta'', JObj [(''tag'', JStr ''x''), (''extra'', JInt 7)]),
     (''other'', JList [JStr ''three''])]"

theorem tokens_counted_once_witness:
  "total_tokens (row_totals sample_rt [nested_row] nested_schema) = 5
   \<and> free_text_tokens (schema_field_roles nested_schema) (row_totals sample_rt [nested_row] nested_schema) = 2"
proof -
  have "nfkc_splits sample_rt" by (simp add: nfkc_splits_def sample_rt_def)
  moreover have "sum_list (map (token_count sample_rt) [nested_row]) = 5" by code_simp
  moreover have "free_text_tokens (schema_field_roles nested_schema) (row_totals sample_rt [nested_row] nested_schema) = 2"
    by code_simp
  ultimately show ?thesis using tokens_counted_once [of sample_rt "[nested_row]" nested_schema] by simp
qed

text \<open>The assessment stays in range and forgets no signal. The reported share lies between 0
  and 1 and is absent exactly without a schema; every signal is listed exactly once, as
  applicable or as not; the signals that hold for any shape are always applicable; and a prose
  signal is never withheld from a dataset with a declared prose leaf at least half of whose
  tokens are prose.\<close>

theorem assessment_in_range:
  "(case qa_assessed_content_share (measure_applicability rt rows schema) of
      None \<Rightarrow> schema = None | Some share \<Rightarrow> schema \<noteq> None \<and> 0 \<le> share \<and> share \<le> 1)
   \<and> mset (qa_applicable_signals (measure_applicability rt rows schema)
         @ qa_not_applicable_signals (measure_applicability rt rows schema)) = mset (map fst SIGNAL_REQUIRED_ROLES)
   \<and> list_all (applies_to (measure_applicability rt rows schema))
       [''empty_rows'', ''exact_duplicates'', ''secrets'', ''personal_data'']
   \<and> (if schema = None \<or> Free_text \<in> set (map snd (schema_field_roles (the schema)))
         \<and> (let totals = row_totals rt rows (the schema) in 0 < total_tokens totals
            \<and> total_tokens totals \<le> 2 * free_text_tokens (schema_field_roles (the schema)) totals)
      then list_all (applies_to (measure_applicability rt rows schema))
        [''normalized_duplicates'', ''low_information'', ''synthetic_patterns'', ''token_length_outliers'']
      else True)"
proof (cases schema)
  case None
  then show ?thesis by (simp add: measure_applicability_def applies_to_def)
next
  case (Some sch)
  have lookup: "dget SIGNAL_REQUIRED_ROLES s = Some []"
    if "s \<in> set [''empty_rows'', ''exact_duplicates'', ''secrets'', ''personal_data'']" for s
    using that by (auto simp: SIGNAL_REQUIRED_ROLES_def)
  have prose: "dget SIGNAL_REQUIRED_ROLES s = Some [Free_text]"
    if "s \<in> set [''normalized_duplicates'', ''low_information'', ''synthetic_patterns'', ''token_length_outliers'']" for s
    using that by (auto simp: SIGNAL_REQUIRED_ROLES_def)
  have m: "mset (filter P xs @ filter (\<lambda>x. \<not> P x) xs) = mset xs" for P and xs :: "string list"
    by (simp add: multiset_partition [symmetric])
  have not_app: "applies_to (measure_applicability rt rows schema) s \<longleftrightarrow>
      (s \<in> fst ` set SIGNAL_REQUIRED_ROLES \<longrightarrow>
        signal_applies s (map snd (schema_field_roles sch)) (content_share (schema_field_roles sch) (row_totals rt rows sch)))" for s
    by (simp add: applies_to_def measure_applicability_def Some Let_def)
  have "applies_to (measure_applicability rt rows schema) s"
    if "Free_text \<in> set (map snd (schema_field_roles sch))"
      "0 < total_tokens (row_totals rt rows sch)"
      "total_tokens (row_totals rt rows sch) \<le> 2 * free_text_tokens (schema_field_roles sch) (row_totals rt rows sch)"
      "s \<in> set [''normalized_duplicates'', ''low_information'', ''synthetic_patterns'', ''token_length_outliers'']" for s
    using content_share_majority [OF that(3)] that(1,2) prose [OF that(4)]
    by (simp add: not_app signal_applies_def)
  moreover have "applies_to (measure_applicability rt rows schema) s"
    if "s \<in> set [''empty_rows'', ''exact_duplicates'', ''secrets'', ''personal_data'']" for s
    using lookup [OF that] by (simp add: not_app signal_applies_any_shape)
  moreover have "(case qa_assessed_content_share (measure_applicability rt rows schema) of
      None \<Rightarrow> schema = None | Some share \<Rightarrow> schema \<noteq> None \<and> 0 \<le> share \<and> share \<le> 1)"
    using py_round_unit content_share_unit by (simp add: measure_applicability_def Some Let_def)
  moreover have "mset (qa_applicable_signals (measure_applicability rt rows schema)
         @ qa_not_applicable_signals (measure_applicability rt rows schema)) = mset (map fst SIGNAL_REQUIRED_ROLES)"
    using m [of _ "sort (map fst SIGNAL_REQUIRED_ROLES)"] by (simp add: measure_applicability_def Some Let_def)
  ultimately show ?thesis by (simp add: Some Let_def)
qed

end
