(* ===== verification/Cleaning.thy ===== *)
theory Cleaning
  imports Sample_Runtime "HOL-Library.Sublist"
begin

text \<open>
  The optional cleaning pass of the exporter (\<open>exporters/cleaning.py\<close>): one pass over
  the numbered rows that drops exact duplicates, normalised duplicates and low-information
  rows, and records what it dropped and why.
\<close>

datatype removal_reason = Exact_duplicate | Normalized_duplicate | Low_information

record removed_row =
  rr_row_number :: nat
  rr_reason :: removal_reason
  rr_sample :: string

record clean_result =
  cr_input_rows :: nat
  cr_kept_rows :: nat
  cr_removed_rows :: nat
  cr_removed_exact_duplicates :: nat
  cr_removed_normalized_duplicates :: nat
  cr_removed_low_information :: nat
  cr_removed :: "removed_row list"

record clean_config =
  cc_dedupe :: bool
  cc_drop_low_information :: bool
  cc_threshold :: nat

definition LOW_INFORMATION_TOKEN_THRESHOLD :: nat where
  "LOW_INFORMATION_TOKEN_THRESHOLD = 5"

definition CLEAN_MANIFEST_SAMPLE_LIMIT :: nat where
  "CLEAN_MANIFEST_SAMPLE_LIMIT = 100"

text \<open>The local variables of the loop of \<open>clean_rows\<close>.\<close>

record clean_state =
  kept :: "json list"
  removed :: "removed_row list"
  exact_seen :: "string set"
  normalized_seen :: "string set"
  exact_count :: nat
  normalized_count :: nat
  low_information_count :: nat

definition clean_init :: clean_state where
  "clean_init = \<lparr>kept = [], removed = [], exact_seen = {}, normalized_seen = {},
     exact_count = 0, normalized_count = 0, low_information_count = 0\<rparr>"

text \<open>The \<open>if dedupe:\<close> block: the reason found, and the state with the counters and the
  two sets updated.\<close>

definition dedupe_step :: "runtime \<Rightarrow> json \<Rightarrow> clean_state \<Rightarrow> removal_reason option \<times> clean_state" where
  "dedupe_step rt row st =
     (let es = exact_signature rt row in
      if es \<in> exact_seen st
      then (Some Exact_duplicate, st\<lparr>exact_count := exact_count st + 1\<rparr>)
      else
        let st' = st\<lparr>exact_seen := insert es (exact_seen st)\<rparr>;
            ns = normalized_text_signature rt row in
        if ns \<noteq> [] \<and> ns \<in> normalized_seen st'
        then (Some Normalized_duplicate, st'\<lparr>normalized_count := normalized_count st' + 1\<rparr>)
        else if ns \<noteq> []
        then (None, st'\<lparr>normalized_seen := insert ns (normalized_seen st')\<rparr>)
        else (None, st'))"

definition low_information :: "runtime \<Rightarrow> nat \<Rightarrow> json \<Rightarrow> bool" where
  "low_information rt threshold row \<longleftrightarrow>
     (let n = length (split_ws (normalized_text_signature rt row)) in 0 < n \<and> n < threshold)"

text \<open>The reason for dropping the row, if any, with the counters and sets updated.\<close>

definition classify :: "runtime \<Rightarrow> clean_config \<Rightarrow> json \<Rightarrow> clean_state \<Rightarrow> removal_reason option \<times> clean_state" where
  "classify rt cfg row st =
     (let (reason, st1) = (if cc_dedupe cfg then dedupe_step rt row st else (None, st))
      in if reason = None \<and> cc_drop_low_information cfg \<and> low_information rt (cc_threshold cfg) row
         then (Some Low_information, st1\<lparr>low_information_count := low_information_count st1 + 1\<rparr>)
         else (reason, st1))"

definition clean_step :: "runtime \<Rightarrow> clean_config \<Rightarrow> nat \<times> json \<Rightarrow> clean_state \<Rightarrow> clean_state" where
  "clean_step rt cfg nr st =
     (case classify rt cfg (snd nr) st of
        (None, st1) \<Rightarrow> st1\<lparr>kept := kept st1 @ [snd nr]\<rparr>
      | (Some r, st1) \<Rightarrow> st1\<lparr>removed := removed st1 @
          [\<lparr>rr_row_number = fst nr, rr_reason = r,
            rr_sample = take 120 (normalized_text_signature rt (snd nr))\<rparr>]\<rparr>)"

definition clean_loop :: "runtime \<Rightarrow> clean_config \<Rightarrow> json list \<Rightarrow> clean_state" where
  "clean_loop rt cfg rows = for_rows (clean_step rt cfg) rows clean_init"

definition clean_rows :: "runtime \<Rightarrow> clean_config \<Rightarrow> json list \<Rightarrow> json list \<times> clean_result" where
  "clean_rows rt cfg rows =
     (let st = clean_loop rt cfg rows in
      (kept st,
       \<lparr>cr_input_rows = length rows,
        cr_kept_rows = length (kept st),
        cr_removed_rows = length (removed st),
        cr_removed_exact_duplicates = exact_count st,
        cr_removed_normalized_duplicates = normalized_count st,
        cr_removed_low_information = low_information_count st,
        cr_removed = take CLEAN_MANIFEST_SAMPLE_LIMIT (removed st)\<rparr>))"


section \<open>One step\<close>

text \<open>What classifying a row leaves alone, and what it counts.\<close>

lemma classify_frame:
  "classify rt cfg row st = (reason, st1) \<Longrightarrow> kept st1 = kept st \<and> removed st1 = removed st"
  by (auto simp: classify_def dedupe_step_def Let_def split: if_splits)

lemma classify_counts:
  "classify rt cfg row st = (reason, st1) \<Longrightarrow>
     exact_count st1 + normalized_count st1 + low_information_count st1
     = exact_count st + normalized_count st + low_information_count st + (if reason = None then 0 else 1)"
  by (auto simp: classify_def dedupe_step_def Let_def split: if_splits)

text \<open>Either the row is kept, or it is recorded as removed under its own number.\<close>

lemma clean_step_cases:
  obtains (kept) st1 where "classify rt cfg row st = (None, st1)"
      "clean_step rt cfg (n, row) st = st1\<lparr>kept := kept st @ [row]\<rparr>"
  | (removed) st1 reason where "classify rt cfg row st = (Some reason, st1)"
      "clean_step rt cfg (n, row) st = st1\<lparr>removed := removed st @
         [\<lparr>rr_row_number = n, rr_reason = reason,
           rr_sample = take 120 (normalized_text_signature rt row)\<rparr>]\<rparr>"
proof (cases "classify rt cfg row st")
  case (Pair reason st1)
  with classify_frame [OF Pair] that show ?thesis
    by (cases reason) (auto simp: clean_step_def)
qed

section \<open>The pass\<close>

lemma clean_loop_accounts:
  "let st = clean_loop rt cfg rows in
     length (kept st) + length (removed st) = length rows
     \<and> exact_count st + normalized_count st + low_information_count st = length (removed st)
     \<and> subseq (kept st) rows
     \<and> sorted_wrt (<) (map rr_row_number (removed st))
     \<and> (\<forall>r \<in> set (removed st). 1 \<le> rr_row_number r \<and> rr_row_number r \<le> length rows)"
  unfolding clean_loop_def Let_def
proof (induction rule: for_rows_inv)
  case init
  then show ?case by (simp add: clean_init_def)
next
  case (step ys y st)
  show ?case
  proof (cases rule: clean_step_cases [of rt cfg y st "Suc (length ys)"])
    case (kept st1)
    with step classify_frame [OF kept(1)] classify_counts [OF kept(1)] show ?thesis
      by (auto intro: list_emb_append_mono)
  next
    case (removed st1 reason)
    with step classify_frame [OF removed(1)] classify_counts [OF removed(1)] show ?thesis
      by (auto simp: sorted_wrt_append less_Suc_eq_le)
  qed
qed


text \<open>What the pass promises of its output: with \<open>dedupe\<close> no two rows have the same exact
  signature or the same non-empty normalised signature, and with \<open>drop_low_information\<close>
  no row is low-information.\<close>

definition clean_ok :: "runtime \<Rightarrow> clean_config \<Rightarrow> json list \<Rightarrow> bool" where
  "clean_ok rt cfg rows \<longleftrightarrow>
     (cc_dedupe cfg \<longrightarrow> distinct (map (exact_signature rt) rows)
        \<and> distinct (filter (\<lambda>s. s \<noteq> []) (map (normalized_text_signature rt) rows)))
     \<and> (cc_drop_low_information cfg \<longrightarrow> (\<forall>r \<in> set rows. \<not> low_information rt (cc_threshold cfg) r))"

text \<open>What the two sets hold after the rows \<open>ys\<close>.\<close>

definition seen_inv :: "runtime \<Rightarrow> clean_config \<Rightarrow> json list \<Rightarrow> clean_state \<Rightarrow> bool" where
  "seen_inv rt cfg ys st \<longleftrightarrow>
     (cc_dedupe cfg \<longrightarrow>
        exact_seen st = exact_signature rt ` set ys
        \<and> normalized_text_signature rt ` set (kept st) - {[]} \<subseteq> normalized_seen st
        \<and> normalized_seen st \<subseteq> normalized_text_signature rt ` set ys - {[]}
        \<and> (\<not> cc_drop_low_information cfg \<longrightarrow>
             normalized_seen st = normalized_text_signature rt ` set (kept st) - {[]}))
     \<and> set (kept st) \<subseteq> set ys"

lemma classify_dedupe_kept:
  assumes "classify rt cfg row st = (None, st1)" and "cc_dedupe cfg"
  shows "exact_signature rt row \<notin> exact_seen st
    \<and> exact_seen st1 = insert (exact_signature rt row) (exact_seen st)
    \<and> (normalized_text_signature rt row = [] \<longrightarrow> normalized_seen st1 = normalized_seen st)
    \<and> (normalized_text_signature rt row \<noteq> [] \<longrightarrow>
         normalized_text_signature rt row \<notin> normalized_seen st
         \<and> normalized_seen st1 = insert (normalized_text_signature rt row) (normalized_seen st))"
  using assms by (auto simp: classify_def dedupe_step_def Let_def split: if_splits)

lemma classify_dedupe_removed:
  assumes "classify rt cfg row st = (Some reason, st1)" and "cc_dedupe cfg"
  shows "exact_seen st1 = insert (exact_signature rt row) (exact_seen st)
    \<and> normalized_seen st \<subseteq> normalized_seen st1
    \<and> normalized_seen st1 \<subseteq> insert (normalized_text_signature rt row) (normalized_seen st)
    \<and> [] \<notin> normalized_seen st1 - normalized_seen st
    \<and> (\<not> cc_drop_low_information cfg \<longrightarrow> normalized_seen st1 = normalized_seen st
        \<and> (exact_signature rt row \<in> exact_seen st
            \<or> normalized_text_signature rt row \<noteq> [] \<and> normalized_text_signature rt row \<in> normalized_seen st))"
  using assms by (auto simp: classify_def dedupe_step_def Let_def split: if_splits)

lemma classify_kept_information:
  "classify rt cfg row st = (None, st1) \<Longrightarrow> cc_drop_low_information cfg \<Longrightarrow>
     \<not> low_information rt (cc_threshold cfg) row"
  by (auto simp: classify_def Let_def split: if_splits prod.splits)

lemma seen_step:
  assumes inv: "seen_inv rt cfg ys st"
  shows "seen_inv rt cfg (ys @ [y]) (clean_step rt cfg (n, y) st)"
proof (cases "cc_dedupe cfg")
  case dd: True
  let ?f = "normalized_text_signature rt"
  from inv dd have seen: "exact_seen st = exact_signature rt ` set ys"
      "?f ` set (kept st) - {[]} \<subseteq> normalized_seen st" "normalized_seen st \<subseteq> ?f ` set ys - {[]}"
      "\<not> cc_drop_low_information cfg \<Longrightarrow> normalized_seen st = ?f ` set (kept st) - {[]}"
      "set (kept st) \<subseteq> set ys"
    by (auto simp: seen_inv_def)
  show ?thesis
  proof (cases rule: clean_step_cases [of rt cfg y st n])
    case (kept st1)
    note d = classify_dedupe_kept [OF kept(1) dd]
    have eqS: "normalized_seen st1 = normalized_seen st \<union> ({?f y} - {[]})"
      using d by (cases "?f y = []") auto
    have eqK: "?f ` set (kept st @ [y]) - {[]} = (?f ` set (kept st) - {[]}) \<union> ({?f y} - {[]})"
      and eqY: "?f ` set (ys @ [y]) - {[]} = (?f ` set ys - {[]}) \<union> ({?f y} - {[]})" by auto
    have "?f ` set (kept st @ [y]) - {[]} \<subseteq> normalized_seen st1"
      unfolding eqS eqK using seen(2) by (rule Un_mono) (rule subset_refl)
    moreover have "normalized_seen st1 \<subseteq> ?f ` set (ys @ [y]) - {[]}"
      unfolding eqS eqY using seen(3) by (rule Un_mono) (rule subset_refl)
    moreover have "\<not> cc_drop_low_information cfg \<Longrightarrow> normalized_seen st1 = ?f ` set (kept st @ [y]) - {[]}"
      unfolding eqS eqK using seen(4) by (simp only: not_False_eq_True)
    moreover have "exact_seen st1 = exact_signature rt ` set (ys @ [y])" using d seen(1) by simp
    ultimately show ?thesis using kept(2) seen(5) by (simp add: seen_inv_def subset_insertI2)
  next
    case (removed st1 reason)
    note d = classify_dedupe_removed [OF removed(1) dd]
    have "normalized_seen st1 \<subseteq> ?f ` set (ys @ [y]) - {[]}" using d seen(3) by auto
    moreover have "exact_seen st1 = exact_signature rt ` set (ys @ [y])" using d seen(1) by simp
    moreover have "?f ` set (kept st) - {[]} \<subseteq> normalized_seen st1" using d seen(2) by blast
    moreover have "\<not> cc_drop_low_information cfg \<Longrightarrow> normalized_seen st1 = ?f ` set (kept st) - {[]}"
      using d seen(4) by blast
    ultimately show ?thesis using removed(2) seen(5) classify_frame [OF removed(1)]
      by (simp add: seen_inv_def subset_insertI2)
  qed
next
  case False
  show ?thesis
  proof (cases rule: clean_step_cases [of rt cfg y st n])
    case (kept st1)
    with inv False classify_frame [OF kept(1)] show ?thesis by (auto simp: seen_inv_def)
  next
    case (removed st1 reason)
    with inv False classify_frame [OF removed(1)] show ?thesis by (auto simp: seen_inv_def)
  qed
qed

lemma clean_loop_seen: "seen_inv rt cfg rows (clean_loop rt cfg rows)"
  unfolding clean_loop_def
  by (induction rule: for_rows_inv) (simp_all add: clean_init_def seen_inv_def [of _ _ "[]"] seen_step)

lemma clean_loop_ok: "clean_ok rt cfg (kept (clean_loop rt cfg rows))"
proof (induction rows rule: rev_induct)
  case Nil
  show ?case by (simp add: clean_loop_def clean_init_def clean_ok_def)
next
  case (snoc y ys)
  let ?st = "clean_loop rt cfg ys"
  have step: "clean_loop rt cfg (ys @ [y]) = clean_step rt cfg (Suc (length ys), y) ?st"
    by (simp add: clean_loop_def)
  show ?case
  proof (cases rule: clean_step_cases [of rt cfg y ?st "Suc (length ys)"])
    case (kept st1)
    have "clean_ok rt cfg (kept ?st @ [y])"
      using snoc clean_loop_seen [of rt cfg ys] classify_dedupe_kept [OF kept(1)]
        classify_kept_information [OF kept(1)]
      unfolding seen_inv_def clean_ok_def by auto
    with kept step show ?thesis by simp
  next
    case (removed st1 reason)
    with snoc step classify_frame [OF removed(1)] show ?thesis by simp
  qed
qed

text \<open>A clean list passes through unchanged.\<close>

lemma clean_loop_fixpoint:
  "clean_ok rt cfg rows \<Longrightarrow> kept (clean_loop rt cfg rows) = rows \<and> removed (clean_loop rt cfg rows) = []"
proof (induction rows rule: rev_induct)
  case Nil
  show ?case by (simp add: clean_loop_def clean_init_def)
next
  case (snoc y ys)
  let ?st = "clean_loop rt cfg ys"
  have step: "clean_loop rt cfg (ys @ [y]) = clean_step rt cfg (Suc (length ys), y) ?st"
    by (simp add: clean_loop_def)
  from snoc have st: "kept ?st = ys" "removed ?st = []" by (auto simp: clean_ok_def)
  have "fst (classify rt cfg y ?st) = None"
    using snoc.prems clean_loop_seen [of rt cfg ys] st
    by (auto simp: clean_ok_def seen_inv_def classify_def dedupe_step_def Let_def split: if_splits)
  then show ?case
  proof (cases rule: clean_step_cases [of rt cfg y ?st "Suc (length ys)"])
    case (kept st1)
    with st step classify_frame [OF kept(1)] show ?thesis by simp
  qed simp
qed

text \<open>Every input row is represented in the output when only duplicates are dropped.\<close>

lemma clean_loop_covers:
  assumes "cc_dedupe cfg" and "\<not> cc_drop_low_information cfg"
  shows "\<forall>r \<in> set rows. \<exists>r' \<in> set rows. exact_signature rt r' = exact_signature rt r
     \<and> (\<exists>k \<in> set (kept (clean_loop rt cfg rows)).
           k = r' \<or> normalized_text_signature rt k = normalized_text_signature rt r')"
proof (induction rows rule: rev_induct)
  case Nil
  show ?case by simp
next
  case (snoc y ys)
  let ?st = "clean_loop rt cfg ys"
  have step: "clean_loop rt cfg (ys @ [y]) = clean_step rt cfg (Suc (length ys), y) ?st"
    by (simp add: clean_loop_def)
  note seen = clean_loop_seen [of rt cfg ys, unfolded seen_inv_def]
  show ?case
  proof (cases rule: clean_step_cases [of rt cfg y ?st "Suc (length ys)"])
    case (kept st1)
    with step snoc.IH show ?thesis by (simp, blast)
  next
    case (removed st1 reason)
    then have k: "kept (clean_loop rt cfg (ys @ [y])) = kept ?st"
      using step classify_frame [OF removed(1)] by simp
    from classify_dedupe_removed [OF removed(1) assms(1)] assms seen
    consider "exact_signature rt y \<in> exact_signature rt ` set ys"
      | "normalized_text_signature rt y \<in> normalized_text_signature rt ` set (kept ?st)" by auto
    then show ?thesis
    proof cases
      case 1
      then obtain r where "r \<in> set ys" "exact_signature rt r = exact_signature rt y" by force
      with snoc.IH k show ?thesis by (simp, metis)
    next
      case 2
      then obtain q where "q \<in> set (kept ?st)" "normalized_text_signature rt q = normalized_text_signature rt y"
        by force
      with snoc.IH k show ?thesis by (simp, blast)
    qed
  qed
qed


section \<open>Properties of the cleaning pass\<close>

text \<open>The exact row signature is the row's identity. Two JSON values have the same signature
  exactly when they are equal up to the order of object keys (at every depth): numbers,
  strings, nesting and array order all count, and no two different values share a text.\<close>

theorem exact_signature_is_identity:
  assumes "float_repr_ok (float_repr rt)"
  shows "exact_signature rt v = exact_signature rt w \<longleftrightarrow> canon v = canon w"
  using assms by (rule exact_signature_eq_iff)

theorem exact_signature_is_identity_witness:
  "exact_signature sample_rt (JList [JInt 1, JStr ''1'']) \<noteq> exact_signature sample_rt (JList [JStr ''1'', JInt 1])"
  using exact_signature_is_identity [OF sample_float_ok] by simp

text \<open>The cleaning pass accounts for every row. The kept rows are a subsequence of the input,
  kept and removed rows add up to the input, each removed row is counted under exactly one
  of the three reasons, and the manifest's row numbers are strictly increasing input
  positions.\<close>

theorem clean_rows_accounts_for_every_row:
  "let (out, res) = clean_rows rt cfg rows in
     subseq out rows
   \<and> cr_input_rows res = length rows \<and> cr_kept_rows res = length out
   \<and> cr_kept_rows res + cr_removed_rows res = cr_input_rows res
   \<and> cr_removed_exact_duplicates res + cr_removed_normalized_duplicates res + cr_removed_low_information res
       = cr_removed_rows res
   \<and> length (cr_removed res) = min CLEAN_MANIFEST_SAMPLE_LIMIT (cr_removed_rows res)
   \<and> sorted_wrt (<) (map rr_row_number (cr_removed res))
   \<and> rr_row_number ` set (cr_removed res) \<subseteq> {1 .. length rows}"
proof -
  note a = clean_loop_accounts [of rt cfg rows, unfolded Let_def]
  then have "sorted_wrt (<) (map rr_row_number (take n (removed (clean_loop rt cfg rows))))" for n
    by (metis sorted_wrt_take take_map)
  with a show ?thesis by (auto simp: clean_rows_def Let_def min.commute dest: in_set_takeD)
qed

text \<open>What the cleaning pass keeps is clean. With deduplication on, no two kept rows have the
  same exact signature, nor the same non-empty normalised signature; with the filter on, no
  kept row is below the token threshold.\<close>

theorem clean_rows_output_is_clean:
  "clean_ok rt cfg (fst (clean_rows rt cfg rows))"
  by (simp add: clean_rows_def Let_def clean_loop_ok)

text \<open>Cleaning is idempotent: a second pass with the same settings keeps every row and
  removes nothing.\<close>

theorem clean_rows_idempotent:
  "clean_rows rt cfg (fst (clean_rows rt cfg rows)) =
     (fst (clean_rows rt cfg rows),
      \<lparr>cr_input_rows = length (fst (clean_rows rt cfg rows)), cr_kept_rows = length (fst (clean_rows rt cfg rows)),
       cr_removed_rows = 0, cr_removed_exact_duplicates = 0, cr_removed_normalized_duplicates = 0,
       cr_removed_low_information = 0, cr_removed = []\<rparr>)"
proof -
  let ?out = "kept (clean_loop rt cfg rows)"
  have k: "kept (clean_loop rt cfg ?out) = ?out" "removed (clean_loop rt cfg ?out) = []"
    using clean_loop_fixpoint [OF clean_loop_ok, of rt cfg rows] by auto
  then have "exact_count (clean_loop rt cfg ?out) + normalized_count (clean_loop rt cfg ?out)
      + low_information_count (clean_loop rt cfg ?out) = 0"
    using clean_loop_accounts [of rt cfg ?out] by (simp add: Let_def)
  with k show ?thesis by (simp add: clean_rows_def Let_def)
qed

text \<open>Deduplication loses no content. When only duplicates are dropped, every input row has
  an exact duplicate in the input that was kept, or was dropped for a kept row with the same
  normalised signature.\<close>

theorem deduplication_covers_every_row:
  assumes "cc_dedupe cfg" and "\<not> cc_drop_low_information cfg" and "r \<in> set rows"
  shows "\<exists>r' \<in> set rows. exact_signature rt r' = exact_signature rt r
     \<and> (\<exists>k \<in> set (fst (clean_rows rt cfg rows)).
           k = r' \<or> normalized_text_signature rt k = normalized_text_signature rt r')"
  using clean_loop_covers [OF assms(1,2), of rows rt] assms(3) by (simp add: clean_rows_def Let_def)

theorem deduplication_covers_every_row_witness:
  "\<exists>r' \<in> set [row_a, row_c, row_a]. exact_signature sample_rt r' = exact_signature sample_rt row_c
     \<and> (\<exists>k \<in> set (fst (clean_rows sample_rt \<lparr>cc_dedupe = True, cc_drop_low_information = False, cc_threshold = 5\<rparr>
            [row_a, row_c, row_a])).
           k = r' \<or> normalized_text_signature sample_rt k = normalized_text_signature sample_rt r')"
  by (rule deduplication_covers_every_row) simp_all

end
