(* ===== verification/Regex_Match.thy ===== *)
theory Regex_Match
  imports Row_Text
begin

text \<open>
  The regular expressions the program searches with: backtracking matching in the order of
  Python's \<open>re\<close> (leftmost, alternatives left to right, greedy repetition longest first, lazy
  repetition shortest first) on text below U+0100, and \<open>findall\<close> for patterns that match no
  empty text. A position is the character before it and the text after it.
\<close>

datatype re =
    Eps
  | Sat "char \<Rightarrow> bool"
  | Seq re re
  | Alt re re
  | Rep bool re nat "nat option"
  | Word_boundary

type_synonym pos = "char option \<times> string"

text \<open>\<open>fuel\<close> bounds the iterations; every iteration consumes a character, so the length of the
  remaining text is enough.\<close>

fun repeat :: "nat \<Rightarrow> (pos \<Rightarrow> pos list) \<Rightarrow> bool \<Rightarrow> nat \<Rightarrow> nat option \<Rightarrow> pos \<Rightarrow> pos list" where
  "repeat 0 m greedy lo hi p = (if lo = 0 then [p] else [])"
| "repeat (Suc fuel) m greedy lo hi p =
     (let more = (if hi = Some 0 then []
           else concat (map (repeat fuel m greedy (lo - 1) (map_option (\<lambda>h. h - 1) hi))
                  (filter (\<lambda>q. length (snd q) < length (snd p)) (m p))));
          stop = (if lo = 0 then [p] else [])
      in if greedy then more @ stop else stop @ more)"

definition at_word_boundary :: "pos \<Rightarrow> bool" where
  "at_word_boundary p \<longleftrightarrow>
     (case fst p of None \<Rightarrow> False | Some c \<Rightarrow> is_word c)
       \<noteq> (case snd p of [] \<Rightarrow> False | c # _ \<Rightarrow> is_word c)"

primrec matches :: "re \<Rightarrow> pos \<Rightarrow> pos list" where
  "matches Eps = (\<lambda>p. [p])"
| "matches (Sat t) = (\<lambda>p. case snd p of [] \<Rightarrow> [] | c # cs \<Rightarrow> if t c then [(Some c, cs)] else [])"
| "matches (Seq a b) = (\<lambda>p. concat (map (matches b) (matches a p)))"
| "matches (Alt a b) = (\<lambda>p. matches a p @ matches b p)"
| "matches (Rep greedy a lo hi) = (\<lambda>p. repeat (length (snd p)) (matches a) greedy lo hi p)"
| "matches Word_boundary = (\<lambda>p. if at_word_boundary p then [p] else [])"

text \<open>The first match at a position, when it is not empty.\<close>

definition match_here :: "re \<Rightarrow> pos \<Rightarrow> pos option" where
  "match_here r p = (case matches r p of
      q # _ \<Rightarrow> if length (snd q) < length (snd p) then Some q else None
    | [] \<Rightarrow> None)"

function scan :: "re \<Rightarrow> pos \<Rightarrow> string list" where
  "scan r (prev, []) = []"
| "scan r (prev, c # cs) = (case match_here r (prev, c # cs) of
      Some q \<Rightarrow> take (Suc (length cs) - length (snd q)) (c # cs) # scan r q
    | None \<Rightarrow> scan r (Some c, cs))"
  by pat_completeness auto
termination
  by (relation "measure (\<lambda>(_, p). length (snd p))") (auto simp: match_here_def split: list.splits if_splits)

definition findall :: "re \<Rightarrow> string \<Rightarrow> string list" where
  "findall r s = scan r (None, s)"


section \<open>Building patterns\<close>

fun seq :: "re list \<Rightarrow> re" where
  "seq [] = Eps"
| "seq [r] = r"
| "seq (r # rs) = Seq r (seq rs)"

fun alts :: "re list \<Rightarrow> re" where
  "alts [] = Sat (\<lambda>_. False)"
| "alts [r] = r"
| "alts (r # rs) = Alt r (alts rs)"

definition lit :: "string \<Rightarrow> re" where
  "lit s = seq (map (\<lambda>c. Sat (\<lambda>d. d = c)) s)"

definition opt :: "re \<Rightarrow> re" where
  "opt r = Rep True r 0 (Some 1)"

definition between :: "char \<Rightarrow> char \<Rightarrow> char \<Rightarrow> bool" where
  "between a b c \<longleftrightarrow> (of_char a :: nat) \<le> of_char c \<and> (of_char c :: nat) \<le> of_char b"

definition is_digit :: "char \<Rightarrow> bool" where
  "is_digit c \<longleftrightarrow> between (CHR ''0'') (CHR ''9'') c"

definition is_upper :: "char \<Rightarrow> bool" where
  "is_upper c \<longleftrightarrow> between (CHR ''A'') (CHR ''Z'') c"

definition is_letter :: "char \<Rightarrow> bool" where
  "is_letter c \<longleftrightarrow> is_upper c \<or> between (CHR ''a'') (CHR ''z'') c"

definition alnum_or :: "string \<Rightarrow> char \<Rightarrow> bool" where
  "alnum_or extra c \<longleftrightarrow> is_letter c \<or> is_digit c \<or> c \<in> set extra"


section \<open>What a search returns\<close>

text \<open>Every position a pattern reaches is a suffix of the text it started from.\<close>

definition is_rest :: "string \<Rightarrow> string \<Rightarrow> bool" where
  "is_rest s t \<longleftrightarrow> (\<exists>u. s = u @ t)"

lemma is_rest_refl [simp]: "is_rest s s"
  by (simp add: is_rest_def)

lemma is_rest_trans: "is_rest s t \<Longrightarrow> is_rest t u \<Longrightarrow> is_rest s u"
  by (auto simp: is_rest_def)

lemma repeat_rest:
  assumes "\<And>p q. q \<in> set (m p) \<Longrightarrow> is_rest (snd p) (snd q)"
  shows "q \<in> set (repeat fuel m greedy lo hi p) \<Longrightarrow> is_rest (snd p) (snd q)"
  using assms
proof (induction fuel m greedy lo hi p rule: repeat.induct)
  case (2 fuel m greedy lo hi p)
  have "is_rest (snd p) (snd q)"
    if "q' \<in> set (m p)" "q \<in> set (repeat fuel m greedy (lo - 1) (map_option (\<lambda>h. h - 1) hi) q')"
      "hi \<noteq> Some 0" "length (snd q') < length (snd p)" for q'
  proof -
    have "is_rest (snd q') (snd q)" using 2(1) [OF that(3), of q'] 2(3) that by simp
    with 2(3) [OF that(1)] show ?thesis by (rule is_rest_trans)
  qed
  with 2(2) show ?case by (auto simp: Let_def split: if_splits)
qed (simp split: if_splits)

lemma matches_rest: "q \<in> set (matches r p) \<Longrightarrow> is_rest (snd p) (snd q)"
proof (induction r arbitrary: p q)
  case (Sat t)
  then show ?case by (cases "snd p") (auto simp: is_rest_def split: if_splits)
next
  case (Seq a b)
  from Seq(3) obtain q' where "q' \<in> set (matches a p)" "q \<in> set (matches b q')" by auto
  with Seq(1) [of q' p] Seq(2) [of q q'] show ?case using is_rest_trans by blast
next
  case (Rep greedy a lo hi)
  then show ?case using repeat_rest [of "matches a"] by auto
qed (auto split: if_splits)

lemma scan_substring: "m \<in> set (scan r p) \<Longrightarrow> m \<noteq> [] \<and> (\<exists>a b. snd p = a @ m @ b)"
proof (induction r p rule: scan.induct)
  case (2 r prev c cs)
  show ?case
  proof (cases "match_here r (prev, c # cs)")
    case None
    with 2 show ?thesis by (auto intro: exI [of _ "c # _"]) (metis append_Cons)
  next
    case (Some q)
    then have q: "q \<in> set (matches r (prev, c # cs))" "length (snd q) < Suc (length cs)"
      by (auto simp: match_here_def split: list.splits if_splits)
    from matches_rest [OF q(1)] obtain u where u: "c # cs = u @ snd q" by (auto simp: is_rest_def)
    then have n: "Suc (length cs) = length u + length (snd q)" by (metis length_Cons length_append)
    with u have t: "take (Suc (length cs) - length (snd q)) (c # cs) = u" by simp
    from n q(2) have "u \<noteq> []" by auto
    have "scan r (prev, c # cs) = u # scan r q"
      by (subst scan.simps) (simp add: Some t)
    with 2(3) consider "m = u" | "m \<in> set (scan r q)" by auto
    then show ?thesis
    proof cases
      case 1
      with u \<open>u \<noteq> []\<close> show ?thesis by (metis append_Nil snd_conv)
    next
      case b: 2
      with 2(2) [OF Some] obtain a b where "m \<noteq> []" "snd q = a @ m @ b" by blast
      with u show ?thesis by (metis append_assoc snd_conv)
    qed
  qed
qed simp

lemma findall_substring: "m \<in> set (findall r s) \<Longrightarrow> m \<noteq> [] \<and> (\<exists>a b. s = a @ m @ b)"
  using scan_substring [of m r "(None, s)"] by (simp add: findall_def)

end
