(* ===== verification/Pii.thy ===== *)
theory Pii
  imports Regex_Match "HOL-Library.Product_Lexorder"
begin

text \<open>
  Detection of secrets and personal data (\<open>quality/basic_quality.py\<close>, from \<open>_PII_EMAIL_RE\<close> to
  \<open>_detect_pii\<close>): the patterns, the payment-card check, the masking of samples, and the
  findings per kind over the rows.
\<close>

section \<open>Patterns\<close>

definition PII_EMAIL_RE :: re where
  "PII_EMAIL_RE = seq [Word_boundary, Rep True (Sat (alnum_or ''._%+-'')) 1 None, lit ''@'',
     Rep True (Sat (alnum_or ''.-'')) 1 None, lit ''.'', Rep True (Sat is_letter) 2 None, Word_boundary]"

definition PII_AWS_KEY_RE :: re where
  "PII_AWS_KEY_RE = seq [Word_boundary, lit ''AKIA'',
     Rep True (Sat (\<lambda>c. is_digit c \<or> is_upper c)) 16 (Some 16), Word_boundary]"

definition PEM_PRIVATE_KEY_LABEL :: re where
  "PEM_PRIVATE_KEY_LABEL = seq
     [opt (Seq (alts [lit ''RSA'', lit ''EC'', lit ''DSA'', lit ''OPENSSH'', lit ''ENCRYPTED'', lit ''PGP'']) (lit '' '')),
      lit ''PRIVATE KEY'', opt (lit '' BLOCK'')]"

definition PII_PRIVATE_KEY_RE :: re where
  "PII_PRIVATE_KEY_RE =
     (let end_marker = seq [lit ''-----END '', PEM_PRIVATE_KEY_LABEL, lit ''-----''];
          anything = Sat (\<lambda>_. True)
      in Alt
        (seq [lit ''-----BEGIN '', PEM_PRIVATE_KEY_LABEL, lit ''-----'',
          Alt (Seq (Rep False anything 0 None) end_marker) (Rep True anything 0 None)])
        end_marker)"

definition PII_API_KEY_RE :: re where
  "PII_API_KEY_RE = alts
     [seq [Word_boundary, alts [lit ''sk'', lit ''pk'', lit ''rk''], lit ''-'',
        Rep True (Sat (alnum_or [])) 16 None, Word_boundary],
      seq [Word_boundary, lit ''xox'', Sat (\<lambda>c. c \<in> set ''baprs''), lit ''-'',
        Rep True (Sat (alnum_or ''-'')) 10 None, Word_boundary],
      seq [Word_boundary, lit ''ghp_'', Rep True (Sat (alnum_or [])) 20 None, Word_boundary]]"

definition PII_JWT_RE :: re where
  "PII_JWT_RE =
     (let part = (\<lambda>lo. Rep True (Sat (alnum_or ''_-'')) lo None)
      in seq [Word_boundary, lit ''eyJ'', part 8, lit ''.'', part 8, lit ''.'', part 6, Word_boundary])"

definition PII_SSN_RE :: re where
  "PII_SSN_RE =
     (let some = (\<lambda>n. Rep True (Sat is_digit) n (Some n))
      in seq [Word_boundary, some 3, lit ''-'', some 2, lit ''-'', some 4, Word_boundary])"

definition PII_CC_CANDIDATE_RE :: re where
  "PII_CC_CANDIDATE_RE = seq [Word_boundary, Sat is_digit,
     Rep True (Seq (opt (Sat (\<lambda>c. c = CHR '' '' \<or> c = CHR ''-''))) (Sat is_digit)) 12 (Some 18), Word_boundary]"

record pii_pattern =
  pt_kind :: string
  pt_severity :: string
  pt_suggestion :: string

definition PII_PATTERNS :: "(pii_pattern \<times> re) list" where
  "PII_PATTERNS =
    [(\<lparr>pt_kind = ''private_key'', pt_severity = ''high'',
       pt_suggestion = ''Remove private key material before using this data.''\<rparr>, PII_PRIVATE_KEY_RE),
     (\<lparr>pt_kind = ''aws_access_key'', pt_severity = ''high'',
       pt_suggestion = ''Remove AWS access keys before using this data.''\<rparr>, PII_AWS_KEY_RE),
     (\<lparr>pt_kind = ''api_key'', pt_severity = ''high'',
       pt_suggestion = ''Remove API keys / access tokens before using this data.''\<rparr>, PII_API_KEY_RE),
     (\<lparr>pt_kind = ''jwt'', pt_severity = ''high'',
       pt_suggestion = ''Remove JSON Web Tokens before using this data.''\<rparr>, PII_JWT_RE),
     (\<lparr>pt_kind = ''email'', pt_severity = ''medium'',
       pt_suggestion = ''Redact or anonymize email addresses if they are not intended to be public.''\<rparr>, PII_EMAIL_RE),
     (\<lparr>pt_kind = ''ssn'', pt_severity = ''medium'',
       pt_suggestion = ''Redact Social Security numbers before using this data.''\<rparr>, PII_SSN_RE)]"

definition credit_card_pattern :: pii_pattern where
  "credit_card_pattern = \<lparr>pt_kind = ''credit_card'', pt_severity = ''high'',
     pt_suggestion = ''Remove or tokenize payment card numbers before using this data.''\<rparr>"


section \<open>Payment cards\<close>

definition digit_value :: "char \<Rightarrow> nat" where
  "digit_value c = of_char c - 48"

text \<open>One digit's share of the Luhn sum: every second digit from the right is doubled.\<close>

definition luhn_digit :: "nat \<Rightarrow> nat \<Rightarrow> char \<Rightarrow> nat" where
  "luhn_digit parity index c =
     (let v = digit_value c in
      if index mod 2 \<noteq> parity then (if 9 < v * 2 then v * 2 - 9 else v * 2) else v)"

definition luhn_valid :: "string \<Rightarrow> bool" where
  "luhn_valid ds =
     (let parity = (length ds - 1) mod 2
      in sum_list (map (\<lambda>(index, c). luhn_digit parity index c) (enum_from 0 ds)) mod 10 = 0)"

definition digits_value :: "string \<Rightarrow> nat" where
  "digits_value s = foldl (\<lambda>n c. n * 10 + digit_value c) 0 s"

definition looks_like_payment_card :: "string \<Rightarrow> bool" where
  "looks_like_payment_card ds =
     (let n = length ds;
          head4 = (if 4 \<le> n then digits_value (take 4 ds) else 0);
          two = take 2 ds; three = take 3 ds
      in take 1 ds = ''4'' \<and> n \<in> {13, 16, 19}
       \<or> n = 16 \<and> (two \<in> set [''51'', ''52'', ''53'', ''54'', ''55''] \<or> 2221 \<le> head4 \<and> head4 \<le> 2720)
       \<or> n = 15 \<and> two \<in> set [''34'', ''37'']
       \<or> n \<in> {16, 19} \<and> (take 4 ds = ''6011'' \<or> two = ''65''
            \<or> 3 \<le> n \<and> 644 \<le> digits_value three \<and> digits_value three \<le> 649)
       \<or> n = 14 \<and> (three \<in> set [''300'', ''301'', ''302'', ''303'', ''304'', ''305'']
            \<or> two \<in> set [''36'', ''38'', ''39''])
       \<or> 16 \<le> n \<and> n \<le> 19 \<and> 3528 \<le> head4 \<and> head4 \<le> 3589
       \<or> 16 \<le> n \<and> n \<le> 19 \<and> two = ''62''
       \<or> 16 \<le> n \<and> n \<le> 19 \<and> two \<in> set [''50'', ''56'', ''57'', ''58'', ''59''])"

definition card_digits :: "string \<Rightarrow> string" where
  "card_digits candidate = filter (\<lambda>c. c \<noteq> CHR '' '' \<and> c \<noteq> CHR ''-'') candidate"

definition credit_cards :: "string \<Rightarrow> string list" where
  "credit_cards text = filter
     (\<lambda>ds. 13 \<le> length ds \<and> length ds \<le> 19 \<and> luhn_valid ds \<and> looks_like_payment_card ds)
     (map card_digits (findall PII_CC_CANDIDATE_RE text))"


section \<open>Findings\<close>

definition mask_secret :: "string \<Rightarrow> string" where
  "mask_secret text0 =
     (let text = strip text0 in
      if length text \<le> 4 then replicate (length text) (CHR ''*'')
      else take 2 text @ replicate (length text - 4) (CHR ''*'') @ drop (length text - 2) text)"

text \<open>\<open>s[: s.index(p, n) + len(p)]\<close>: up to the end of the first \<open>p\<close> at or after position \<open>n\<close>. A
  private-key match always has its second row of dashes.\<close>

fun find_sub :: "string \<Rightarrow> string \<Rightarrow> nat option" where
  "find_sub p [] = (if p = [] then Some 0 else None)"
| "find_sub p (c # cs) = (if has_prefix p (c # cs) then Some 0 else map_option Suc (find_sub p cs))"

definition key_marker :: "string \<Rightarrow> string" where
  "key_marker s = (case find_sub ''-----'' (drop 5 s) of Some i \<Rightarrow> take (i + 10) s | None \<Rightarrow> s)"

record pii_entry =
  pe_severity :: string
  pe_rows :: "nat list"
  pe_count :: nat
  pe_sample :: string
  pe_suggestion :: string

record pii_finding =
  pf_kind :: string
  pf_severity :: string
  pf_match_count :: nat
  pf_row_numbers :: "nat list"
  pf_sample :: string
  pf_suggestion :: string

definition record_hit ::
  "pii_pattern \<Rightarrow> nat \<Rightarrow> nat \<Rightarrow> string \<Rightarrow> (string, pii_entry) dict \<Rightarrow> (string, pii_entry) dict" where
  "record_hit pt row_number n sample per_kind =
     (let entry = (case dget per_kind (pt_kind pt) of
            Some e \<Rightarrow> e
          | None \<Rightarrow> \<lparr>pe_severity = pt_severity pt, pe_rows = [], pe_count = 0, pe_sample = [],
              pe_suggestion = pt_suggestion pt\<rparr>)
      in dset (pt_kind pt) (entry
           \<lparr>pe_rows := (if row_number \<in> set (pe_rows entry) then pe_rows entry else pe_rows entry @ [row_number]),
            pe_count := pe_count entry + n,
            pe_sample := (if pe_sample entry = [] then mask_secret sample else pe_sample entry)\<rparr>) per_kind)"

definition row_text :: "runtime \<Rightarrow> json \<Rightarrow> string" where
  "row_text rt row = join '' '' (collect_text_values rt row)"

definition hit_sample :: "pii_pattern \<Rightarrow> string list \<Rightarrow> string" where
  "hit_sample pt ms = (if pt_kind pt = ''private_key'' then key_marker (hd ms) else hd ms)"

text \<open>What a row matches: each pattern with its matches, in the order they are tried.\<close>

definition row_matches :: "runtime \<Rightarrow> json \<Rightarrow> (pii_pattern \<times> string list) list" where
  "row_matches rt row =
     (let text = row_text rt row in
      if text = [] then []
      else map (\<lambda>(pt, r). (pt, findall r text)) PII_PATTERNS @ [(credit_card_pattern, credit_cards text)])"

definition record_row ::
  "runtime \<Rightarrow> nat \<times> json \<Rightarrow> (string, pii_entry) dict \<Rightarrow> (string, pii_entry) dict" where
  "record_row rt nr per_kind = fold
     (\<lambda>(pt, ms) d. if ms = [] then d else record_hit pt (fst nr) (length ms) (hit_sample pt ms) d)
     (row_matches rt (snd nr)) per_kind"

definition severity_order :: "string \<Rightarrow> nat" where
  "severity_order severity =
     (if severity = ''high'' then 2 else if severity = ''medium'' then 1 else 0)"

definition finding_of :: "string \<times> pii_entry \<Rightarrow> pii_finding" where
  "finding_of ke = (case ke of (k, e) \<Rightarrow> \<lparr>pf_kind = k, pf_severity = pe_severity e, pf_match_count = pe_count e,
     pf_row_numbers = sort (pe_rows e), pf_sample = pe_sample e, pf_suggestion = pe_suggestion e\<rparr>)"

definition finding_key :: "pii_finding \<Rightarrow> int \<times> int \<times> string" where
  "finding_key f = (- int (severity_order (pf_severity f)), - int (pf_match_count f), pf_kind f)"

definition detect_pii :: "runtime \<Rightarrow> json list \<Rightarrow> pii_finding list" where
  "detect_pii rt rows = sort_key finding_key (map finding_of (for_rows (record_row rt) rows []))"



section \<open>Masking\<close>

text \<open>What a masked sample may show: its first and last two characters.\<close>

definition hides_middle :: "string \<Rightarrow> bool" where
  "hides_middle s \<longleftrightarrow> list_all (\<lambda>c. c = CHR ''*'')
     (if length s \<le> 4 then s else take (length s - 4) (drop 2 s))"

lemma mask_hides: "hides_middle (mask_secret t)"
proof -
  have "take n (drop 2 (take 2 u @ replicate n x @ v)) = replicate n x"
    if "2 \<le> length u" for n and x :: char and u v
    using that by simp
  moreover have "length (take 2 u @ replicate (length u - 4) x @ drop (length u - 2) u) = length u"
    if "4 < length u" for u and x :: char
    using that by simp
  ultimately show ?thesis
    by (simp add: hides_middle_def mask_secret_def Let_def list_all_iff)
qed


section \<open>What the findings say\<close>

definition pii_kinds :: "string list" where
  "pii_kinds = map (\<lambda>pr. pt_kind (fst pr)) PII_PATTERNS @ [pt_kind credit_card_pattern]"

lemma pii_kinds: "pii_kinds = [''private_key'', ''aws_access_key'', ''api_key'', ''jwt'', ''email'', ''ssn'', ''credit_card'']"
  by (simp add: pii_kinds_def PII_PATTERNS_def credit_card_pattern_def)

text \<open>The matches of one kind in a row.\<close>

definition kind_matches :: "runtime \<Rightarrow> string \<Rightarrow> json \<Rightarrow> string list" where
  "kind_matches rt k row = (case map_of (map (\<lambda>pm. (pt_kind (fst pm), snd pm)) (row_matches rt row)) k of
      None \<Rightarrow> [] | Some ms \<Rightarrow> ms)"

lemma row_matches_kinds: "map (\<lambda>pm. pt_kind (fst pm)) (row_matches rt row) = (if row_text rt row = [] then [] else pii_kinds)"
  by (simp add: row_matches_def pii_kinds_def Let_def comp_def case_prod_beta)

definition fresh_entry :: "pii_pattern \<Rightarrow> pii_entry" where
  "fresh_entry pt = \<lparr>pe_severity = pt_severity pt, pe_rows = [], pe_count = 0, pe_sample = [], pe_suggestion = pt_suggestion pt\<rparr>"

definition hit_entry :: "nat \<Rightarrow> nat \<Rightarrow> string \<Rightarrow> pii_entry \<Rightarrow> pii_entry" where
  "hit_entry n m sample e = e
     \<lparr>pe_rows := (if n \<in> set (pe_rows e) then pe_rows e else pe_rows e @ [n]),
      pe_count := pe_count e + m,
      pe_sample := (if pe_sample e = [] then mask_secret sample else pe_sample e)\<rparr>"

lemma record_hit_get:
  "dget (record_hit pt n m sample d) k =
     (if k = pt_kind pt
      then Some (hit_entry n m sample (case dget d k of None \<Rightarrow> fresh_entry pt | Some e \<Rightarrow> e))
      else dget d k)"
  by (simp add: record_hit_def Let_def dget_dset fresh_entry_def hit_entry_def cong: option.case_cong)

lemma record_hit_keys: "distinct (dkeys d) \<Longrightarrow> distinct (dkeys (record_hit pt n m sample d))"
  by (simp add: record_hit_def Let_def distinct_update)

abbreviation record_one :: "nat \<Rightarrow> pii_pattern \<times> string list \<Rightarrow> (string, pii_entry) dict \<Rightarrow> (string, pii_entry) dict" where
  "record_one n \<equiv> \<lambda>(pt, ms) d. if ms = [] then d else record_hit pt n (length ms) (hit_sample pt ms) d"

lemma fold_record_keys: "distinct (dkeys d) \<Longrightarrow> distinct (dkeys (fold (record_one n) pms d))"
  by (induction pms arbitrary: d) (auto simp: record_hit_keys)

lemma fold_record_get:
  assumes "distinct (map (\<lambda>pm. pt_kind (fst pm)) pms)"
  shows "dget (fold (record_one n) pms d) k =
    (case map_of (map (\<lambda>pm. (pt_kind (fst pm), pm)) pms) k of
       None \<Rightarrow> dget d k
     | Some (pt, ms) \<Rightarrow> if ms = [] then dget d k
         else Some (hit_entry n (length ms) (hit_sample pt ms) (case dget d k of None \<Rightarrow> fresh_entry pt | Some e \<Rightarrow> e)))"
  using assms
proof (induction pms arbitrary: d)
  case (Cons pm pms)
  obtain pt ms where pm: "pm = (pt, ms)" by force
  define d' where "d' = record_one n (pt, ms) d"
  have step: "fold (record_one n) (pm # pms) d = fold (record_one n) pms d'" by (simp add: pm d'_def)
  have off: "map_of (map (\<lambda>pm. (pt_kind (fst pm), pm)) pms) (pt_kind pt) = None"
    using Cons(2) by (force simp: pm map_of_eq_None_iff)
  have IH: "dget (fold (record_one n) pms d') k = (case map_of (map (\<lambda>pm. (pt_kind (fst pm), pm)) pms) k of
       None \<Rightarrow> dget d' k
     | Some (pt, ms) \<Rightarrow> if ms = [] then dget d' k
         else Some (hit_entry n (length ms) (hit_sample pt ms) (case dget d' k of None \<Rightarrow> fresh_entry pt | Some e \<Rightarrow> e)))"
    using Cons(2) by (intro Cons.IH) simp
  show ?case
  proof (cases "k = pt_kind pt")
    case True
    with off have "dget (fold (record_one n) pms d') k = dget d' k" unfolding IH by simp
    with True show ?thesis unfolding step by (simp add: d'_def pm record_hit_get)
  next
    case False
    then have e: "dget d' k = dget d k" by (simp add: d'_def record_hit_get)
    show ?thesis unfolding step IH e using False by (simp add: pm)
  qed
qed simp

lemma record_row_get:
  "(kind_matches rt k row = [] \<and> dget (record_row rt (n, row) d) k = dget d k)
   \<or> (\<exists>pt. pt_kind pt = k \<and> k \<in> set pii_kinds \<and> kind_matches rt k row \<noteq> []
      \<and> dget (record_row rt (n, row) d) k =
        Some (hit_entry n (length (kind_matches rt k row)) (hit_sample pt (kind_matches rt k row))
          (case dget d k of None \<Rightarrow> fresh_entry pt | Some e \<Rightarrow> e)))"
proof -
  have dist: "distinct (map (\<lambda>pm. pt_kind (fst pm)) (row_matches rt row))"
    by (simp add: row_matches_kinds pii_kinds)
  have m: "map_of (map (\<lambda>pm. (pt_kind (fst pm), snd pm)) pms) k
      = map_option snd (map_of (map (\<lambda>pm. (pt_kind (fst pm), pm)) pms) k)" for pms :: "(pii_pattern \<times> string list) list"
    by (induction pms) auto
  show ?thesis
  proof (cases "map_of (map (\<lambda>pm. (pt_kind (fst pm), pm)) (row_matches rt row)) k")
    case None
    then show ?thesis by (simp add: kind_matches_def m record_row_def fold_record_get [OF dist])
  next
    case (Some pm)
    then have pm: "pm \<in> set (row_matches rt row)" "pt_kind (fst pm) = k" by (auto dest: map_of_SomeD)
    then have "k \<in> set (map (\<lambda>pm. pt_kind (fst pm)) (row_matches rt row))" by auto
    then have "k \<in> set pii_kinds" by (simp only: row_matches_kinds split: if_splits) simp_all
    with Some pm(2) show ?thesis
      by (cases pm) (auto simp: kind_matches_def m record_row_def fold_record_get [OF dist])
  qed
qed

definition hit_rows :: "runtime \<Rightarrow> string \<Rightarrow> json list \<Rightarrow> nat list" where
  "hit_rows rt k rows = map fst (filter (\<lambda>nr. kind_matches rt k (snd nr) \<noteq> []) (enum_from 1 rows))"

lemma hit_rows_snoc:
  "hit_rows rt k (rows @ [r]) = hit_rows rt k rows @ (if kind_matches rt k r \<noteq> [] then [Suc (length rows)] else [])"
  by (simp add: hit_rows_def)

lemma hit_rows_le: "n \<in> set (hit_rows rt k rows) \<Longrightarrow> n \<le> length rows"
  by (auto simp: hit_rows_def enum_from_def simp del: upt_Suc dest!: set_zip_leftD)

definition entry_ok :: "runtime \<Rightarrow> json list \<Rightarrow> string \<Rightarrow> pii_entry option \<Rightarrow> bool" where
  "entry_ok rt rows k x \<longleftrightarrow> (case x of
      None \<Rightarrow> hit_rows rt k rows = []
    | Some e \<Rightarrow> k \<in> set pii_kinds \<and> pe_rows e = hit_rows rt k rows \<and> hit_rows rt k rows \<noteq> []
        \<and> pe_count e = sum_list (map (\<lambda>r. length (kind_matches rt k r)) rows) \<and> hides_middle (pe_sample e))"

lemma no_hits_sum: "hit_rows rt k rows = [] \<Longrightarrow> sum_list (map (\<lambda>r. length (kind_matches rt k r)) rows) = 0"
  by (induction rows rule: rev_induct) (auto simp: hit_rows_snoc split: if_splits)

lemma entry_ok_step:
  assumes "entry_ok rt rows k (dget d k)"
  shows "entry_ok rt (rows @ [r]) k (dget (record_row rt (Suc (length rows), r) d) k)"
  using record_row_get [of rt k r "Suc (length rows)" d]
proof (elim disjE conjE exE)
  assume "kind_matches rt k r = []" "dget (record_row rt (Suc (length rows), r) d) k = dget d k"
  with assms show ?thesis by (simp add: entry_ok_def hit_rows_snoc cong: option.case_cong)
next
  fix pt
  assume k: "k \<in> set pii_kinds" "kind_matches rt k r \<noteq> []"
    and g: "dget (record_row rt (Suc (length rows), r) d) k =
        Some (hit_entry (Suc (length rows)) (length (kind_matches rt k r)) (hit_sample pt (kind_matches rt k r))
          (case dget d k of None \<Rightarrow> fresh_entry pt | Some e \<Rightarrow> e))"
  have new: "Suc (length rows) \<notin> set (hit_rows rt k rows)" using hit_rows_le by fastforce
  show ?thesis
    using assms k new no_hits_sum [of rt k rows]
    by (cases "dget d k") (auto simp: entry_ok_def g hit_entry_def fresh_entry_def hit_rows_snoc mask_hides)
qed

lemma detect_entries:
  "distinct (dkeys (for_rows (record_row rt) rows [])) \<and> (\<forall>k. entry_ok rt rows k (dget (for_rows (record_row rt) rows []) k))"
proof (rule for_rows_inv [where I = "\<lambda>rows d. distinct (dkeys d) \<and> (\<forall>k. entry_ok rt rows k (dget d k))"])
  fix ys y st
  assume "distinct (dkeys st) \<and> (\<forall>k. entry_ok rt ys k (dget st k))"
  then show "distinct (dkeys (record_row rt (Suc (length ys), y) st))
      \<and> (\<forall>k. entry_ok rt (ys @ [y]) k (dget (record_row rt (Suc (length ys), y) st) k))"
    using entry_ok_step [of rt ys _ st y] fold_record_keys [of st]
    by (simp add: record_row_def [of rt "(Suc (length ys), y)" for rt ys y])
qed (simp add: entry_ok_def hit_rows_def)



section \<open>The Luhn check\<close>

definition luhn_sum :: "nat \<Rightarrow> nat \<Rightarrow> string \<Rightarrow> nat" where
  "luhn_sum parity k ds = sum_list (map (\<lambda>(index, c). luhn_digit parity index c) (enum_from k ds))"

lemma luhn_valid_sum: "luhn_valid ds \<longleftrightarrow> luhn_sum ((length ds - 1) mod 2) 0 ds mod 10 = 0"
  by (simp add: luhn_valid_def luhn_sum_def Let_def)

lemma luhn_sum_append: "luhn_sum parity k (xs @ ys) = luhn_sum parity k xs + luhn_sum parity (k + length xs) ys"
  by (induction xs arbitrary: k) (simp_all add: luhn_sum_def)

lemma digit_value_less: "is_digit c \<Longrightarrow> digit_value c < 10"
  by (auto simp: is_digit_def between_def digit_value_def)

lemma digit_value_inj: "is_digit c \<Longrightarrow> is_digit d \<Longrightarrow> digit_value c = digit_value d \<Longrightarrow> c = d"
  by (simp add: is_digit_def between_def digit_value_def)
    (metis eq_diff_iff of_char_eq_iff)

lemma luhn_digit_less: "is_digit c \<Longrightarrow> luhn_digit parity i c < 10"
  using digit_value_less [of c] by (auto simp: luhn_digit_def Let_def)

lemma luhn_digit_inj:
  assumes "is_digit c" and "is_digit d" and "luhn_digit parity i c = luhn_digit parity i d"
  shows "c = d"
proof -
  have double: "v = w" if "v < 10" "w < 10"
    "(if 9 < v * 2 then v * 2 - 9 else v * 2 :: nat) = (if 9 < w * 2 then w * 2 - 9 else w * 2)" for v w
    using that by (cases "v \<le> 4"; cases "w \<le> 4"; simp; presburger)
  note less = digit_value_less [OF assms(1)] digit_value_less [OF assms(2)]
  have "digit_value c = digit_value d"
  proof (cases "i mod 2 = parity")
    case True
    with assms(3) show ?thesis by (simp add: luhn_digit_def Let_def)
  next
    case False
    with assms(3) show ?thesis
      unfolding luhn_digit_def Let_def by (intro double [OF less]) (simp only: if_True not_False_eq_True)
  qed
  with assms(1,2) show ?thesis by (rule digit_value_inj)
qed

lemma last_digit_unique:
  fixes a x y :: nat
  assumes "(a + x) mod 10 = 0" and "(a + y) mod 10 = 0" and "x < 10" and "y < 10"
  shows "x = y"
proof -
  from assms(1,2) obtain k l where k: "a + x = 10 * k" "a + y = 10 * l"
    by (auto simp: mod_eq_0_iff_dvd elim!: dvdE)
  with assms(3,4) have "k = l" by linarith
  with k show ?thesis by simp
qed


section \<open>Properties\<close>

text \<open>C17: The findings are exact and show no secret. There is one finding for each kind some row
  matches and no other; it names exactly the rows that match, in order, and counts all their
  matches; and its sample shows at most the first and last two characters of what it masks.\<close>

theorem pii_findings_exact:
  "distinct (map pf_kind (detect_pii rt rows))
   \<and> set (map pf_kind (detect_pii rt rows)) = {k \<in> set pii_kinds. hit_rows rt k rows \<noteq> []}
   \<and> list_all (\<lambda>f. pf_row_numbers f = hit_rows rt (pf_kind f) rows
        \<and> pf_match_count f = sum_list (map (\<lambda>r. length (kind_matches rt (pf_kind f) r)) rows)
        \<and> hides_middle (pf_sample f)) (detect_pii rt rows)"
proof -
  let ?d = "for_rows (record_row rt) rows []"
  have d: "distinct (dkeys ?d)" and ok: "\<And>k. entry_ok rt rows k (dget ?d k)"
    using detect_entries by blast+
  have sorted: "sort (hit_rows rt k rows) = hit_rows rt k rows" for k
  proof (rule sorted_sort_id)
    have "sorted (map fst (enum_from 1 rows))" by (simp add: enum_from_def del: upt_Suc)
    then show "sorted (hit_rows rt k rows)" unfolding hit_rows_def by (rule sorted_filter)
  qed
  have keys: "map pf_kind (map finding_of ?d) = dkeys ?d" by (auto simp: finding_of_def)
  have entry: "entry_ok rt rows k (Some e)" if "(k, e) \<in> set ?d" for k e
    using ok [of k] that d by simp
  have "set (dkeys ?d) = {k \<in> set pii_kinds. hit_rows rt k rows \<noteq> []}"
  proof (intro set_eqI iffI)
    fix k assume "k \<in> set (dkeys ?d)"
    then obtain e where "(k, e) \<in> set ?d" by auto
    from entry [OF this] show "k \<in> {k \<in> set pii_kinds. hit_rows rt k rows \<noteq> []}" by (simp add: entry_ok_def)
  next
    fix k assume "k \<in> {k \<in> set pii_kinds. hit_rows rt k rows \<noteq> []}"
    with ok [of k] have "dget ?d k \<noteq> None" by (auto simp: entry_ok_def split: option.splits)
    then show "k \<in> set (dkeys ?d)" by (simp add: map_of_eq_None_iff)
  qed
  moreover have "distinct (map pf_kind (detect_pii rt rows)) \<longleftrightarrow> distinct (map pf_kind (map finding_of ?d))"
    unfolding detect_pii_def by (intro mset_eq_imp_distinct_iff) (simp add: multiset.map_comp)
  moreover have "list_all (\<lambda>f. pf_row_numbers f = hit_rows rt (pf_kind f) rows
        \<and> pf_match_count f = sum_list (map (\<lambda>r. length (kind_matches rt (pf_kind f) r)) rows)
        \<and> hides_middle (pf_sample f)) (detect_pii rt rows)"
    using entry by (auto simp: detect_pii_def list_all_iff finding_of_def entry_ok_def sorted)
  moreover have "set (map pf_kind (detect_pii rt rows)) = set (map pf_kind (map finding_of ?d))"
    by (simp add: detect_pii_def image_image)
  ultimately show ?thesis using d unfolding keys by blast
qed

text \<open>The Luhn check catches every single-digit error: changing one digit of a valid number
  never gives a valid number.\<close>

theorem luhn_detects_single_error:
  assumes "list_all is_digit ds" and "i < length ds" and "is_digit c" and "c \<noteq> ds ! i" and "luhn_valid ds"
  shows "\<not> luhn_valid (ds[i := c])"
proof
  assume v: "luhn_valid (ds[i := c])"
  let ?p = "(length ds - 1) mod 2"
  have d: "is_digit (ds ! i)" using assms(1,2) by (simp add: list_all_length)
  let ?rest = "luhn_sum ?p 0 (take i ds) + luhn_sum ?p (Suc i) (drop (Suc i) ds)"
  have one: "luhn_sum ?p 0 (take i ds @ x # drop (Suc i) ds) = ?rest + luhn_digit ?p i x" for x
    using assms(2) luhn_sum_append [of ?p 0 "take i ds" "x # drop (Suc i) ds"] by (simp add: luhn_sum_def)
  have "(?rest + luhn_digit ?p i (ds ! i)) mod 10 = 0"
    using assms(2,5) one [of "ds ! i"] by (simp add: luhn_valid_sum id_take_nth_drop [symmetric])
  moreover have "(?rest + luhn_digit ?p i c) mod 10 = 0"
    using v assms(2) one [of c] by (simp add: luhn_valid_sum upd_conv_take_nth_drop)
  ultimately have "luhn_digit ?p i (ds ! i) = luhn_digit ?p i c"
    using luhn_digit_less [OF d] luhn_digit_less [OF assms(3)] by (rule last_digit_unique)
  from luhn_digit_inj [OF d assms(3) this] assms(4) show False by simp
qed

theorem luhn_detects_single_error_witness:
  "luhn_valid ''4111111111111111'' \<and> \<not> luhn_valid ''4111121111111111''"
proof -
  have c: "list_all is_digit ''4111111111111111''" "is_digit (CHR ''2'')" "5 < length ''4111111111111111''"
    "CHR ''2'' \<noteq> ''4111111111111111'' ! 5"
    by (simp_all add: is_digit_def between_def)
  have v: "luhn_valid ''4111111111111111''"
    by (simp add: luhn_valid_sum luhn_sum_def luhn_digit_def digit_value_def Let_def)
  have u: "''4111111111111111''[5 := CHR ''2''] = ''4111121111111111''" by simp
  from luhn_detects_single_error [OF c(1,3,2,4) v] v show ?thesis unfolding u by (rule conjI [rotated])
qed

text \<open>No fifteen-digit number other than the American Express ranges looks like a card, so a
  device identifier does not; and no length outside 13 to 19 does.\<close>

lemma card_lengths:
  "looks_like_payment_card ds \<Longrightarrow> 13 \<le> length ds \<and> length ds \<le> 19"
  "looks_like_payment_card ds \<Longrightarrow> length ds = 15 \<Longrightarrow> take 2 ds = ''34'' \<or> take 2 ds = ''37''"
  by (auto simp: looks_like_payment_card_def Let_def)

end
