(* ===== verification/Severity_Scale.thy ===== *)
theory Severity_Scale
  imports Prelude
begin

text \<open>
  Scales of severity: the program ranks statuses and severities by a small integer and takes
  the worst of a list, in two places (the gates and the quality clusters). The locale states
  what such a pair of a rank and a selection promises, and the lemmas that follow from it.
\<close>

locale severity_scale =
  fixes rank :: "'s \<Rightarrow> nat"
    and base :: 's
    and worst :: "'s list \<Rightarrow> 's"
  assumes worst_Nil: "worst [] = base"
    and rank_base: "rank base = 0"
    and rank_worst_snoc: "rank (worst (ss @ [s])) = max (rank (worst ss)) (rank s)"
    and worst_mem: "worst ss = base \<or> worst ss \<in> set ss"
begin

lemma rank_worst: "rank (worst ss) = Max (insert 0 (rank ` set ss))"
proof (induction ss rule: rev_induct)
  case (snoc s ss)
  then have "rank (worst (ss @ [s])) = max (Max (insert 0 (rank ` set ss))) (rank s)"
    by (simp add: rank_worst_snoc)
  also have "\<dots> = Max (insert (rank s) (insert 0 (rank ` set ss)))" by (simp add: max.commute)
  finally show ?case by (simp add: insert_commute)
qed (simp add: worst_Nil rank_base)

lemma rank_le_worst: "s \<in> set ss \<Longrightarrow> rank s \<le> rank (worst ss)"
  by (simp add: rank_worst)

lemma rank_worst_le: "(\<And>s. s \<in> set ss \<Longrightarrow> rank s \<le> n) \<Longrightarrow> rank (worst ss) \<le> n"
  by (auto simp: rank_worst)

lemma rank_worst_cong: "set ss = set ts \<Longrightarrow> rank (worst ss) = rank (worst ts)"
  by (simp add: rank_worst)

lemma rank_worst_append: "rank (worst (ss @ ts)) = max (rank (worst ss)) (rank (worst ts))"
proof (induction ts rule: rev_induct)
  case (snoc t ts)
  then show ?case
    using rank_worst_snoc [of "ss @ ts" t] rank_worst_snoc [of ts t] by (simp add: max.assoc)
qed (simp add: worst_Nil rank_base)

lemma worst_attained: "rank (worst ss) \<noteq> 0 \<Longrightarrow> worst ss \<in> set ss"
  using worst_mem [of ss] rank_base by auto

end

text \<open>A scale whose rank tells its grades apart: the worst of a list depends on its set alone.\<close>

locale strict_severity_scale = severity_scale +
  assumes rank_inj: "rank s = rank t \<Longrightarrow> s = t"
begin

lemma worst_cong: "set ss = set ts \<Longrightarrow> worst ss = worst ts"
  using rank_worst_cong rank_inj by blast

lemma worst_append: "worst (ss @ ts) = worst [worst ss, worst ts]"
proof (rule rank_inj)
  have "rank (worst [a, b]) = max (rank a) (rank b)" for a b
    using rank_worst_snoc [of "[a]" b] rank_worst_snoc [of "[]" a] by (simp add: worst_Nil rank_base)
  then show "rank (worst (ss @ ts)) = rank (worst [worst ss, worst ts])"
    by (simp add: rank_worst_append)
qed

lemma worst_base_iff: "worst ss = base \<longleftrightarrow> set ss \<subseteq> {base}"
proof
  assume w: "worst ss = base"
  show "set ss \<subseteq> {base}"
  proof
    fix s assume "s \<in> set ss"
    with rank_le_worst w rank_base have "rank s = rank base" by fastforce
    then show "s \<in> {base}" using rank_inj by simp
  qed
next
  assume "set ss \<subseteq> {base}"
  with worst_mem [of ss] show "worst ss = base" by blast
qed

end

end
