(* ===== verification/Synthetic.thy ===== *)
theory Synthetic
  imports Applicability Cleaning Pii Severity_Scale
begin

text \<open>
  Templated-text detection (\<open>quality/basic_quality.py\<close>): the leaves a scan may read, the flat
  text of a row, the repeated openings, closings and stock phrases, and their clusters.
\<close>

section \<open>Leaves\<close>

definition member_path :: "string \<Rightarrow> string \<Rightarrow> string" where
  "member_path pre key = (if pre = [] then key else pre @ ''.'' @ key)"

fun leaf_values :: "string \<Rightarrow> json \<Rightarrow> (string \<times> json) list" where
  "leaf_values pre (JObj kvs) = concat (map (\<lambda>kv. leaf_values (member_path pre (fst kv)) (snd kv)) kvs)"
| "leaf_values pre (JList vs) = concat (map (leaf_values (pre @ ''[]'')) vs)"
| "leaf_values pre v = [(pre, v)]"

text \<open>\<open>\A\S*[/\\]\S*\Z\<close>.\<close>

definition path_shaped :: "json \<Rightarrow> bool" where
  "path_shaped v \<longleftrightarrow> (case v of
      JStr s \<Rightarrow> list_all (\<lambda>c. \<not> is_space c) s \<and> list_ex (\<lambda>c. c = CHR ''/'' \<or> c = CHR 0x5C) s
    | _ \<Rightarrow> False)"

text \<open>A scalar stands for its \<open>repr\<close>, which tells scalars apart.\<close>

definition leaf_seen ::
  "string \<times> json \<Rightarrow> (string, json list) dict \<times> (string, bool) dict \<Rightarrow> (string, json list) dict \<times> (string, bool) dict" where
  "leaf_seen pv dp = (case (pv, dp) of ((path, v), (values, shaped)) \<Rightarrow>
     let vs = (case dget values path of None \<Rightarrow> [] | Some vs \<Rightarrow> vs);
         ok = (case dget shaped path of None \<Rightarrow> True | Some b \<Rightarrow> b)
     in (dset path (if v \<in> set vs then vs else vs @ [v]) values, dset path (ok \<and> path_shaped v) shaped))"

definition structurally_repeating_leaves :: "json list \<Rightarrow> string list" where
  "structurally_repeating_leaves rows =
     (if length rows < 2 then []
      else case fold leaf_seen (concat (map (leaf_values []) rows)) ([], []) of (values, shaped) \<Rightarrow>
        map fst (filter (\<lambda>pv. length (snd pv) = 1) values) @ map fst (filter snd shaped))"

lemma map_filter_cong [fundef_cong]:
  "xs = ys \<Longrightarrow> (\<And>x. x \<in> set ys \<Longrightarrow> f x = g x) \<Longrightarrow> List.map_filter f xs = List.map_filter g ys"
  by (induction ys arbitrary: xs) (auto simp: map_filter_simps split: option.splits)

text \<open>\<open>None\<close> is a dropped scalar; a container is pruned, never dropped.\<close>

fun pruned :: "(string \<Rightarrow> bool) \<Rightarrow> string \<Rightarrow> json \<Rightarrow> json option" where
  "pruned drop_leaf pre (JObj kvs) = Some (JObj (List.map_filter
     (\<lambda>kv. map_option (Pair (fst kv)) (pruned drop_leaf (member_path pre (fst kv)) (snd kv))) kvs))"
| "pruned drop_leaf pre (JList vs) = Some (JList (List.map_filter (pruned drop_leaf (pre @ ''[]'')) vs))"
| "pruned drop_leaf pre v = (if drop_leaf pre then None else Some v)"

definition without_leaves :: "string list \<Rightarrow> json \<Rightarrow> json option" where
  "without_leaves excluded v = pruned (\<lambda>p. p \<in> set excluded) [] v"

definition is_within :: "string list \<Rightarrow> string \<Rightarrow> bool" where
  "is_within roots path \<longleftrightarrow>
     list_ex (\<lambda>p. path = p \<or> has_prefix (p @ ''.'') path \<or> has_prefix (p @ ''['') path) roots"

definition only_free_text :: "string list \<Rightarrow> json \<Rightarrow> json option" where
  "only_free_text prose v = pruned (\<lambda>p. \<not> is_within prose p) [] v"


section \<open>The text that is read\<close>

definition is_system_message :: "json \<Rightarrow> bool" where
  "is_system_message m \<longleftrightarrow> (case m of JObj kvs \<Rightarrow> dget kvs ''role'' = Some (JStr ''system'') | _ \<Rightarrow> False)"

text \<open>A row is an object; pruning keeps it one.\<close>

definition drop_system_messages :: "json \<Rightarrow> json" where
  "drop_system_messages row = (case row of
      JObj kvs \<Rightarrow> (case dget kvs ''messages'' of
          Some (JList ms) \<Rightarrow>
            if list_ex is_system_message ms
            then JObj (filter (\<lambda>kv. fst kv \<noteq> ''messages'') kvs
                   @ [(''messages'', JList (filter (\<lambda>m. \<not> is_system_message m) ms))])
            else row
        | _ \<Rightarrow> row)
    | _ \<Rightarrow> row)"

definition synthetic_pattern_text :: "runtime \<Rightarrow> string list \<Rightarrow> json \<Rightarrow> string" where
  "synthetic_pattern_text rt excluded row =
     join '' '' (tokenize_text_values rt (case row of
        JObj kvs \<Rightarrow> (case without_leaves excluded row of Some v \<Rightarrow> drop_system_messages v | None \<Rightarrow> row)
      | _ \<Rightarrow> row))"

definition prepare_rows :: "json list \<Rightarrow> dataset_schema option \<Rightarrow> json list \<times> string list" where
  "prepare_rows rows schema = (case schema of
      Some sch \<Rightarrow> (map (\<lambda>row. case only_free_text (free_text_leaf_paths sch) row of Some v \<Rightarrow> v | None \<Rightarrow> row) rows, [])
    | None \<Rightarrow> (rows, structurally_repeating_leaves rows))"


section \<open>Issues\<close>

record synthetic_issue =
  si_kind :: string
  si_severity :: string
  si_message :: string
  si_row_numbers :: "nat list"
  si_suggestion :: string
  si_pattern :: string

definition GENERIC_SYNTHETIC_PHRASES :: "string list" where
  "GENERIC_SYNTHETIC_PHRASES = [''as an ai language model'', ''certainly here is'', ''in conclusion'',
     ''it is important to note'', ''sure here is'']"

definition SYNTHETIC_REPETITION_THRESHOLD :: nat where
  "SYNTHETIC_REPETITION_THRESHOLD = 3"

definition SYNTHETIC_WARNING_LIMIT :: nat where
  "SYNTHETIC_WARNING_LIMIT = 20"

definition format_row_numbers :: "nat list \<Rightarrow> string" where
  "format_row_numbers ns =
     (let preview = join '', '' (map nat_str (take 8 ns)) in
      if 8 < length ns then preview @ '', +'' @ nat_str (length ns - 8) @ '' more'' else preview)"

definition severity_for_repetition :: "nat \<Rightarrow> nat \<Rightarrow> string" where
  "severity_for_repetition n row_count =
     (if row_count = 0 then ''low''
      else
        let ratio = int_div_int (int n) (int row_count) in
        if 8 \<le> n \<or> 1 / 2 \<le> ratio then ''high''
        else if 5 \<le> n \<or> 1 / 4 \<le> ratio then ''medium''
        else ''low'')"

definition quoted_message :: "string \<Rightarrow> string \<Rightarrow> nat list \<Rightarrow> string" where
  "quoted_message what pattern ns =
     what @ '' '' @ [CHR 0x27] @ pattern @ [CHR 0x27] @ '' appears in row(s): '' @ format_row_numbers ns @ ''.''"

definition phrase_issue :: "string \<times> nat list \<Rightarrow> synthetic_issue" where
  "phrase_issue pn = \<lparr>si_kind = ''generic_phrase'', si_severity = ''medium'',
     si_message = quoted_message ''generic synthetic phrase'' (fst pn) (snd pn), si_row_numbers = snd pn,
     si_suggestion = ''Rewrite these rows with domain-specific phrasing, concrete details, '' @
       ''and no boilerplate assistant wording.'',
     si_pattern = fst pn\<rparr>"

definition opening_issue :: "nat \<Rightarrow> string \<times> nat list \<Rightarrow> synthetic_issue" where
  "opening_issue row_count pn = \<lparr>si_kind = ''repeated_opening'',
     si_severity = severity_for_repetition (length (snd pn)) row_count,
     si_message = quoted_message ''repeated opening'' (fst pn) (snd pn), si_row_numbers = snd pn,
     si_suggestion = ''Vary the prompt setup and first sentence; add different contexts, '' @
       ''constraints, or user intents before accepting these rows.'',
     si_pattern = fst pn\<rparr>"

definition closing_issue :: "nat \<Rightarrow> string \<times> nat list \<Rightarrow> synthetic_issue" where
  "closing_issue row_count pn = \<lparr>si_kind = ''repeated_closing'',
     si_severity = severity_for_repetition (length (snd pn)) row_count,
     si_message = quoted_message ''repeated closing'' (fst pn) (snd pn), si_row_numbers = snd pn,
     si_suggestion = ''Rewrite endings so outputs resolve the task in distinct ways; remove '' @
       ''template-like final sentences.'',
     si_pattern = fst pn\<rparr>"

text \<open>\<open>groups.setdefault(key, []).append(n)\<close>.\<close>

definition push :: "'k \<Rightarrow> 'v \<Rightarrow> ('k, 'v list) dict \<Rightarrow> ('k, 'v list) dict" where
  "push k n d = dset k ((case dget d k of None \<Rightarrow> [] | Some ns \<Rightarrow> ns) @ [n]) d"

definition long_rows :: "(nat \<times> string) list \<Rightarrow> (nat \<times> string list) list" where
  "long_rows row_texts = filter (\<lambda>nt. 8 \<le> length (snd nt)) (map (\<lambda>(n, text). (n, split_ws text)) row_texts)"

definition opening_rows :: "(nat \<times> string) list \<Rightarrow> (string, nat list) dict" where
  "opening_rows row_texts =
     fold (\<lambda>(n, tokens). push (join '' '' (take 5 tokens)) n) (long_rows row_texts) []"

definition closing_rows :: "(nat \<times> string) list \<Rightarrow> (string, nat list) dict" where
  "closing_rows row_texts =
     fold (\<lambda>(n, tokens). push (join '' '' (drop (length tokens - 5) tokens)) n) (long_rows row_texts) []"

definition phrase_hits :: "(nat \<times> string) list \<Rightarrow> (string \<times> nat list) list" where
  "phrase_hits row_texts =
     map (\<lambda>phrase. (phrase, map fst (filter (\<lambda>nt. has_infix phrase (snd nt)) row_texts))) GENERIC_SYNTHETIC_PHRASES"

definition most_repeated :: "(string, nat list) dict \<Rightarrow> (string \<times> nat list) list" where
  "most_repeated groups =
     filter (\<lambda>pn. SYNTHETIC_REPETITION_THRESHOLD \<le> length (snd pn))
       (sort_key (\<lambda>pn. (- int (length (snd pn)), fst pn)) groups)"

definition row_texts :: "runtime \<Rightarrow> json list \<Rightarrow> dataset_schema option \<Rightarrow> (nat \<times> string) list" where
  "row_texts rt rows schema = (case prepare_rows rows schema of (prepared, excluded) \<Rightarrow>
     filter (\<lambda>nt. snd nt \<noteq> [])
       (map (\<lambda>(n, row). (n, synthetic_pattern_text rt excluded row)) (enum_from 1 prepared)))"

definition synthetic_pattern_issues ::
  "runtime \<Rightarrow> json list \<Rightarrow> dataset_schema option \<Rightarrow> synthetic_issue list" where
  "synthetic_pattern_issues rt rows schema =
     (let texts = row_texts rt rows schema in
      map phrase_issue (filter (\<lambda>pn. snd pn \<noteq> []) (phrase_hits texts))
      @ map (opening_issue (length rows)) (most_repeated (opening_rows texts))
      @ map (closing_issue (length rows)) (most_repeated (closing_rows texts)))"


section \<open>Clusters\<close>

record synthetic_cluster =
  sc_kind :: string
  sc_label :: string
  sc_severity :: string
  sc_member_count :: nat
  sc_row_numbers :: "nat list"
  sc_suggestion :: string

definition SYNTHETIC_CLUSTER_SIMILARITY :: rat where
  "SYNTHETIC_CLUSTER_SIMILARITY = 1 / 2"

definition pattern_tokens :: "string \<Rightarrow> string list" where
  "pattern_tokens pattern = uniq (split_ws pattern)"

definition token_jaccard :: "string list \<Rightarrow> string list \<Rightarrow> rat" where
  "token_jaccard left right =
     (if left = [] \<and> right = [] then 1
      else if left = [] \<or> right = [] then 0
      else int_div_int (int (length (filter (\<lambda>t. t \<in> set right) left)))
             (int (length (uniq (left @ right)))))"

definition max_severity :: "string list \<Rightarrow> string" where
  "max_severity severities =
     fold (\<lambda>severity best. if severity_order best < severity_order severity then severity else best) severities ''low''"

text \<open>A severity the program does not know ranks lowest.\<close>

interpretation issue_scale: severity_scale severity_order "''low''" max_severity
proof
  show "max_severity ss = ''low'' \<or> max_severity ss \<in> set ss" for ss
    by (induction ss rule: rev_induct) (auto simp: max_severity_def)
qed (auto simp: max_severity_def severity_order_def)

lemma max_severity_bounds: "s \<in> set ss \<Longrightarrow> severity_order s \<le> severity_order (max_severity ss)"
  by (rule issue_scale.rank_le_worst)

definition similar :: "rat \<Rightarrow> synthetic_issue \<Rightarrow> synthetic_issue \<Rightarrow> bool" where
  "similar threshold i j \<longleftrightarrow>
     threshold \<le> token_jaccard (pattern_tokens (si_pattern i)) (pattern_tokens (si_pattern j))"

text \<open>The greedy pass over one kind: the first issue not yet merged takes every later unmerged
  issue that is similar to it.\<close>

function greedy_groups :: "rat \<Rightarrow> synthetic_issue list \<Rightarrow> synthetic_issue list list" where
  "greedy_groups threshold [] = []"
| "greedy_groups threshold (i # rest) =
     (i # filter (similar threshold i) rest) # greedy_groups threshold (filter (\<lambda>j. \<not> similar threshold i j) rest)"
  by pat_completeness auto
termination
  by (relation "measure (\<lambda>(_, xs). length xs)") (auto simp: less_Suc_eq_le)

definition cluster_of :: "string \<Rightarrow> synthetic_issue list \<Rightarrow> synthetic_cluster" where
  "cluster_of k members = (let i = hd members in
     \<lparr>sc_kind = k, sc_label = (if si_pattern i \<noteq> [] then si_pattern i else si_message i),
      sc_severity = max_severity (map si_severity members), sc_member_count = length members,
      sc_row_numbers = sort (uniq (concat (map si_row_numbers members))),
      sc_suggestion = si_suggestion i\<rparr>)"

definition cluster_synthetic_pattern_issues :: "rat \<Rightarrow> synthetic_issue list \<Rightarrow> synthetic_cluster list" where
  "cluster_synthetic_pattern_issues threshold issues =
     sort_key (\<lambda>c. (- int (length (sc_row_numbers c)), sc_kind c, sc_label c))
       (concat (map (\<lambda>k. map (cluster_of k) (greedy_groups threshold (filter (\<lambda>i. si_kind i = k) issues)))
         (uniq (map si_kind issues))))"



section \<open>The groups\<close>

definition rows_with :: "(string list \<Rightarrow> string) \<Rightarrow> (nat \<times> string) list \<Rightarrow> string \<Rightarrow> nat list" where
  "rows_with f texts p = map fst (filter (\<lambda>nt. f (snd nt) = p) (long_rows texts))"

lemma push_get: "dget (push k n d) k' = (if k' = k then Some ((case dget d k of None \<Rightarrow> [] | Some ns \<Rightarrow> ns) @ [n]) else dget d k')"
  by (simp add: push_def dget_dset)

lemma fold_push_get:
  "dget (fold (\<lambda>(n, t). push (f t) n) xs []) p =
     (let ns = map fst (filter (\<lambda>nt. f (snd nt) = p) xs) in if ns = [] then None else Some ns)"
  by (induction xs rule: rev_induct) (auto simp: push_get Let_def)

lemma fold_push_keys: "distinct (dkeys d) \<Longrightarrow> distinct (dkeys (fold (\<lambda>(n, t). push (f t) n) xs d))"
  by (induction xs arbitrary: d) (auto simp: push_def distinct_update)

lemma most_repeated_groups:
  "set (most_repeated (fold (\<lambda>(n, t). push (f t) n) (long_rows texts) []))
     = {(p, rows_with f texts p) | p. 3 \<le> length (rows_with f texts p)}"
proof -
  let ?d = "fold (\<lambda>(n, t). push (f t) n) (long_rows texts) []"
  have d: "distinct (dkeys ?d)" by (rule fold_push_keys) simp
  have "(p, ns) \<in> set ?d \<longleftrightarrow> ns = rows_with f texts p \<and> ns \<noteq> []" for p ns
    using map_of_eq_Some_iff [OF d, of p ns] by (auto simp: fold_push_get rows_with_def Let_def split: if_splits)
  then show ?thesis
    by (auto simp: most_repeated_def SYNTHETIC_REPETITION_THRESHOLD_def)
qed

definition opening_text :: "string list \<Rightarrow> string" where
  "opening_text tokens = join '' '' (take 5 tokens)"

definition closing_text :: "string list \<Rightarrow> string" where
  "closing_text tokens = join '' '' (drop (length tokens - 5) tokens)"

lemma issue_kinds:
  "si_kind (phrase_issue pn) = ''generic_phrase''"
  "si_kind (opening_issue m pn) = ''repeated_opening''" "si_kind (closing_issue m pn) = ''repeated_closing''"
  "si_pattern (opening_issue m pn) = fst pn" "si_pattern (closing_issue m pn) = fst pn"
  "si_row_numbers (opening_issue m pn) = snd pn" "si_row_numbers (closing_issue m pn) = snd pn"
  by (simp_all add: phrase_issue_def opening_issue_def closing_issue_def)

definition issues_of_kind :: "string \<Rightarrow> synthetic_issue list \<Rightarrow> (string \<times> nat list) list" where
  "issues_of_kind k issues = map (\<lambda>i. (si_pattern i, si_row_numbers i)) (filter (\<lambda>i. si_kind i = k) issues)"

lemma issues_of_kind_append: "issues_of_kind k (xs @ ys) = issues_of_kind k xs @ issues_of_kind k ys"
  by (simp add: issues_of_kind_def)

lemma issues_of_kind_map:
  "(\<And>x. si_kind (f x) = k') \<Longrightarrow> issues_of_kind k (map f xs)
     = (if k = k' then map (\<lambda>x. (si_pattern (f x), si_row_numbers (f x))) xs else [])"
  by (induction xs) (simp_all add: issues_of_kind_def)


section \<open>The clusters\<close>

lemma greedy_groups_mset: "mset (concat (greedy_groups threshold xs)) = mset xs"
proof (induction threshold xs rule: greedy_groups.induct)
  case (2 threshold i rest)
  have "mset (filter (similar threshold i) rest) + mset (filter (\<lambda>j. \<not> similar threshold i j) rest) = mset rest"
    by simp
  with 2 show ?case by simp
qed simp

lemma greedy_groups_nonempty: "g \<in> set (greedy_groups threshold xs) \<Longrightarrow> g \<noteq> [] \<and> set g \<subseteq> set xs"
  by (induction threshold xs rule: greedy_groups.induct) auto

definition kind_groups :: "rat \<Rightarrow> synthetic_issue list \<Rightarrow> (string \<times> synthetic_issue list) list" where
  "kind_groups threshold issues = concat (map (\<lambda>k. map (Pair k) (greedy_groups threshold (filter (\<lambda>i. si_kind i = k) issues)))
     (uniq (map si_kind issues)))"

lemma clusters_groups:
  "mset (cluster_synthetic_pattern_issues threshold issues)
     = mset (map (\<lambda>(k, g). cluster_of k g) (kind_groups threshold issues))"
proof -
  have "concat (map (\<lambda>k. map (cluster_of k) (g k)) ks) = map (\<lambda>(k, x). cluster_of k x) (concat (map (\<lambda>k. map (Pair k) (g k)) ks))" for g ks
    by (induction ks) (simp_all add: comp_def)
  then show ?thesis by (simp add: cluster_synthetic_pattern_issues_def kind_groups_def)
qed

lemma filter_kinds_mset:
  "distinct ks \<Longrightarrow> set (map f xs) \<subseteq> set ks \<Longrightarrow> mset (concat (map (\<lambda>k. filter (\<lambda>i. f i = k) xs) ks)) = mset xs"
proof (induction ks arbitrary: xs)
  case (Cons k ks)
  let ?ys = "filter (\<lambda>i. f i \<noteq> k) xs"
  have a: "map (\<lambda>k'. filter (\<lambda>i. f i = k') xs) ks = map (\<lambda>k'. filter (\<lambda>i. f i = k') ?ys) ks"
    using Cons(2) by (intro map_cong) (auto intro!: filter_cong)
  have b: "mset (concat (map (\<lambda>k'. filter (\<lambda>i. f i = k') ?ys) ks)) = mset ?ys"
    using Cons(2,3) by (intro Cons.IH) auto
  have "mset (concat (map (\<lambda>k'. filter (\<lambda>i. f i = k') xs) (k # ks)))
      = mset (filter (\<lambda>i. f i = k) xs) + mset (concat (map (\<lambda>k'. filter (\<lambda>i. f i = k') xs) ks))" by simp
  also have "\<dots> = mset (filter (\<lambda>i. f i = k) xs) + mset ?ys" unfolding a b ..
  also have "\<dots> = mset xs" by simp
  finally show ?case .
qed simp

lemma kind_groups_mset: "mset (concat (map snd (kind_groups threshold issues))) = mset issues"
proof -
  have "mset (concat (map snd (concat (map (\<lambda>k. map (Pair k) (greedy_groups threshold (h k))) ks)))) = mset (concat (map h ks))" for h ks
    by (induction ks) (simp_all add: comp_def greedy_groups_mset)
  from this [of "\<lambda>k. filter (\<lambda>i. si_kind i = k) issues" "uniq (map si_kind issues)"] show ?thesis
    unfolding kind_groups_def by (rule trans) (rule filter_kinds_mset, simp_all)
qed

lemma kind_groups_member:
  assumes "(k, g) \<in> set (kind_groups threshold issues)"
  shows "g \<noteq> [] \<and> list_all (\<lambda>i. si_kind i = k) g"
proof -
  from assms have "g \<in> set (greedy_groups threshold (filter (\<lambda>i. si_kind i = k) issues))"
    by (auto simp: kind_groups_def)
  from greedy_groups_nonempty [OF this] show ?thesis by (auto simp: list_all_iff)
qed


section \<open>Properties\<close>

text \<open>Repetition is reported exactly. An opening is reported with the rows \<open>ns\<close> precisely when
  \<open>ns\<close> are all the rows of at least eight tokens that begin with it and there are three or
  more of them, and the same holds for closings.\<close>

theorem repetition_reported_exactly:
  "set (issues_of_kind ''repeated_opening'' (synthetic_pattern_issues rt rows schema))
     = {(p, rows_with opening_text (row_texts rt rows schema) p) | p.
          3 \<le> length (rows_with opening_text (row_texts rt rows schema) p)}
   \<and> set (issues_of_kind ''repeated_closing'' (synthetic_pattern_issues rt rows schema))
     = {(p, rows_with closing_text (row_texts rt rows schema) p) | p.
          3 \<le> length (rows_with closing_text (row_texts rt rows schema) p)}"
  using most_repeated_groups [of opening_text "row_texts rt rows schema"]
    most_repeated_groups [of closing_text "row_texts rt rows schema"]
  by (simp add: synthetic_pattern_issues_def Let_def issues_of_kind_append
      issues_of_kind_map [where f = phrase_issue, OF issue_kinds(1)]
      issues_of_kind_map [where f = "opening_issue m" for m, OF issue_kinds(2)]
      issues_of_kind_map [where f = "closing_issue m" for m, OF issue_kinds(3)] issue_kinds
      opening_rows_def closing_rows_def opening_text_def closing_text_def)

text \<open>Clustering partitions the issues. Every issue is counted in exactly one cluster, no
  cluster is empty, a cluster's kind is the kind of all its members, and the clusters together
  name exactly the rows the issues name.\<close>

theorem clusters_partition_issues:
  "\<exists>groups. mset (cluster_synthetic_pattern_issues threshold issues) = mset (map (\<lambda>(k, g). cluster_of k g) groups)
     \<and> mset (concat (map snd groups)) = mset issues
     \<and> list_all (\<lambda>(k, g). g \<noteq> [] \<and> list_all (\<lambda>i. si_kind i = k) g) groups
     \<and> sum_list (map sc_member_count (cluster_synthetic_pattern_issues threshold issues)) = length issues
     \<and> (\<Union>c \<in> set (cluster_synthetic_pattern_issues threshold issues). set (sc_row_numbers c))
         = (\<Union>i \<in> set issues. set (si_row_numbers i))"
proof -
  let ?cs = "cluster_synthetic_pattern_issues threshold issues" and ?gs = "kind_groups threshold issues"
  have members: "sc_member_count (cluster_of k g) = length g" for k g by (simp add: cluster_of_def Let_def)
  have rows: "set (sc_row_numbers (cluster_of k g)) = (\<Union>i \<in> set g. set (si_row_numbers i))" for k g
    by (simp add: cluster_of_def Let_def)
  have "sum_list (map sc_member_count ?cs) = sum_mset (image_mset sc_member_count (mset ?cs))"
    by (metis mset_map sum_mset_sum_list)
  also have "\<dots> = sum_list (map (\<lambda>kg. length (snd kg)) ?gs)"
    by (simp add: clusters_groups sum_mset_sum_list [symmetric] members case_prod_beta comp_def multiset.map_comp)
  also have "\<dots> = length (concat (map snd ?gs))" by (simp add: length_concat comp_def)
  also have "\<dots> = length issues" by (metis kind_groups_mset mset_eq_length)
  finally have sum: "sum_list (map sc_member_count ?cs) = length issues" .
  have "set ?cs = (\<lambda>(k, g). cluster_of k g) ` set ?gs"
    using arg_cong [OF clusters_groups [of threshold issues], of set_mset] by simp
  moreover have "(\<Union>kg \<in> set ?gs. set (snd kg)) = set issues"
    using arg_cong [OF kind_groups_mset [of threshold issues], of set_mset] by (simp add: image_image)
  ultimately have "(\<Union>c \<in> set ?cs. set (sc_row_numbers c)) = (\<Union>i \<in> set issues. set (si_row_numbers i))"
    by (force simp: rows)
  with sum clusters_groups kind_groups_mset show ?thesis
    by (intro exI [of _ ?gs]) (auto simp: list_all_iff dest: kind_groups_member)
qed

end
