(* ===== verification/Quality.thy ===== *)
theory Quality
  imports Synthetic
begin

text \<open>
  The basic quality report (\<open>quality/basic_quality.py\<close>): token-length outliers, category
  imbalance, and the report assembled from every signal the dataset's shape supports.
\<close>

section \<open>Token-length outliers\<close>

definition TOKEN_LENGTH_MIN_ROWS :: nat where
  "TOKEN_LENGTH_MIN_ROWS = 8"

definition TOKEN_LENGTH_OUTLIER_LIMIT :: nat where
  "TOKEN_LENGTH_OUTLIER_LIMIT = 50"

definition percentile :: "int list \<Rightarrow> rat \<Rightarrow> rat" where
  "percentile sorted_values quantile =
     (if sorted_values = [] then 0
      else if length sorted_values = 1 then fl (of_int (hd sorted_values))
      else
        let position = fmul quantile (fl (of_int (int (length sorted_values - 1))));
            lower = nat (trunc position);
            upper = min (lower + 1) (length sorted_values - 1);
            fraction = fsub position (fl (of_int (int lower)))
        in fadd (int_times_float (sorted_values ! lower) (fsub 1 fraction))
                (int_times_float (sorted_values ! upper) fraction))"

record token_outlier =
  to_row_number :: nat
  to_token_count :: int

text \<open>\<open>estimate\<close> is the token estimator: the installed tokenizer, or the heuristic.\<close>

definition token_length_outliers :: "runtime \<Rightarrow> (string \<Rightarrow> int) \<Rightarrow> json list \<Rightarrow> int \<times> token_outlier list" where
  "token_length_outliers rt estimate rows =
     (let counts = map (\<lambda>(n, text). (n, estimate text))
            (filter (\<lambda>nt. strip (snd nt) \<noteq> []) (map (\<lambda>(n, row). (n, row_text rt row)) (enum_from 1 rows))) in
      if length counts < TOKEN_LENGTH_MIN_ROWS then (0, [])
      else
        let vals = sort (map snd counts);
            q1 = percentile vals (1 / 4); q3 = percentile vals (3 / 4);
            threshold = fadd q3 (fmul (3 / 2) (fsub q3 q1));
            outliers = map (\<lambda>(n, c). \<lparr>to_row_number = n, to_token_count = c\<rparr>)
              (filter (\<lambda>nc. threshold < of_int (snd nc) \<and> q3 < of_int (snd nc)) counts)
        in (round_half_even threshold,
            take TOKEN_LENGTH_OUTLIER_LIMIT (sort_key (\<lambda>x. - to_token_count x) outliers)))"


section \<open>Category imbalance\<close>

definition CATEGORY_IMBALANCE_MIN_ROWS :: nat where
  "CATEGORY_IMBALANCE_MIN_ROWS = 10"

definition CATEGORY_IMBALANCE_SHARE :: rat where
  "CATEGORY_IMBALANCE_SHARE = fl (8 / 10)"

definition CATEGORY_IMBALANCE_MAX_DISTINCT :: nat where
  "CATEGORY_IMBALANCE_MAX_DISTINCT = 20"

definition CATEGORY_IMBALANCE_LIMIT :: nat where
  "CATEGORY_IMBALANCE_LIMIT = 20"

record category_imbalance =
  ci_field :: string
  ci_dominant_value :: string
  ci_dominant_count :: nat
  ci_total :: nat
  ci_share :: rat
  ci_distinct_values :: nat

fun scalar_text :: "runtime \<Rightarrow> json \<Rightarrow> string option" where
  "scalar_text rt (JObj _) = None"
| "scalar_text rt (JList _) = None"
| "scalar_text rt JNull = None"
| "scalar_text rt v = Some (scalar_str rt v)"

definition scalar_values :: "runtime \<Rightarrow> json list \<Rightarrow> (string, string list) dict" where
  "scalar_values rt rows = fold (\<lambda>row d. case row of
      JObj kvs \<Rightarrow> fold (\<lambda>kv d. case scalar_text rt (snd kv) of
          Some s \<Rightarrow> push (fst kv) s d | None \<Rightarrow> d) kvs d
    | _ \<Rightarrow> d) rows []"

text \<open>\<open>Counter(values).most_common(1)[0]\<close>: the first value with the largest count.\<close>

definition occurrences :: "string list \<Rightarrow> string \<Rightarrow> nat" where
  "occurrences vals v = length (filter (\<lambda>w. w = v) vals)"

definition most_common :: "string list \<Rightarrow> string \<times> nat" where
  "most_common vals =
     (case sort_key (\<lambda>v. - int (occurrences vals v)) (uniq vals) of
        v # _ \<Rightarrow> (v, occurrences vals v) | [] \<Rightarrow> ([], 0))"

definition imbalance_of :: "nat \<Rightarrow> string \<times> string list \<Rightarrow> category_imbalance option" where
  "imbalance_of total_rows fv = (case fv of (field, vals) \<Rightarrow>
     let distinct_count = length (uniq vals);
         max_distinct = min CATEGORY_IMBALANCE_MAX_DISTINCT (total_rows div 2);
         (dominant_value, dominant_count) = most_common vals;
         share = int_div_int (int dominant_count) (int total_rows)
     in if of_int (int (length vals)) < int_times_float (int total_rows) (fl (8 / 10)) then None
        else if distinct_count < 2 \<or> max_distinct < distinct_count then None
        else if CATEGORY_IMBALANCE_SHARE \<le> share
        then Some \<lparr>ci_field = field, ci_dominant_value = take 80 dominant_value, ci_dominant_count = dominant_count,
               ci_total = total_rows, ci_share = py_round share 3, ci_distinct_values = distinct_count\<rparr>
        else None)"

definition category_imbalances :: "runtime \<Rightarrow> json list \<Rightarrow> category_imbalance list" where
  "category_imbalances rt rows =
     (if length rows < CATEGORY_IMBALANCE_MIN_ROWS then []
      else take CATEGORY_IMBALANCE_LIMIT (sort_key (\<lambda>f. - ci_share f)
        (List.map_filter (imbalance_of (length rows)) (scalar_values rt rows))))"


section \<open>The report\<close>

record quality_counts =
  qc_exact_seen :: "string list"
  qc_normalized_seen :: "string list"
  qc_exact_duplicates :: nat
  qc_normalized_duplicates :: nat
  qc_empty :: nat
  qc_low_information :: nat

text \<open>\<open>not any(str(value).strip() for value in row.values())\<close>: only a blank string has a blank
  \<open>str\<close>.\<close>

definition empty_row :: "json \<Rightarrow> bool" where
  "empty_row row \<longleftrightarrow> (case row of
      JObj kvs \<Rightarrow> list_all (\<lambda>kv. case snd kv of JStr s \<Rightarrow> strip s = [] | _ \<Rightarrow> False) kvs
    | _ \<Rightarrow> False)"

definition count_row :: "runtime \<Rightarrow> bool \<Rightarrow> bool \<Rightarrow> json \<Rightarrow> quality_counts \<Rightarrow> quality_counts" where
  "count_row rt check_normalized check_low_information row qc =
     (let es = exact_signature rt row; ns = normalized_text_signature rt row;
          tokens = length (tokenize_text_values rt row)
      in qc
       \<lparr>qc_exact_duplicates := qc_exact_duplicates qc + (if es \<in> set (qc_exact_seen qc) then 1 else 0),
        qc_exact_seen := es # qc_exact_seen qc,
        qc_normalized_duplicates := qc_normalized_duplicates qc
          + (if check_normalized \<and> ns \<noteq> [] \<and> ns \<in> set (qc_normalized_seen qc) then 1 else 0),
        qc_normalized_seen := (if check_normalized then ns # qc_normalized_seen qc else qc_normalized_seen qc),
        qc_empty := qc_empty qc + (if empty_row row then 1 else 0),
        qc_low_information := qc_low_information qc
          + (if check_low_information \<and> 0 < tokens \<and> tokens < LOW_INFORMATION_TOKEN_THRESHOLD then 1 else 0)\<rparr>)"

definition count_rows :: "runtime \<Rightarrow> bool \<Rightarrow> bool \<Rightarrow> json list \<Rightarrow> quality_counts" where
  "count_rows rt check_normalized check_low_information rows =
     fold (count_row rt check_normalized check_low_information) rows
       \<lparr>qc_exact_seen = [], qc_normalized_seen = [], qc_exact_duplicates = 0, qc_normalized_duplicates = 0,
        qc_empty = 0, qc_low_information = 0\<rparr>"

record quality_report =
  qr_example_count :: nat
  qr_empty_row_count :: nat
  qr_duplicate_exact_count :: nat
  qr_duplicate_normalized_count :: nat
  qr_low_information_count :: nat
  qr_low_information_token_threshold :: nat
  qr_synthetic_pattern_count :: nat
  qr_synthetic_pattern_warnings :: "string list"
  qr_synthetic_pattern_issues :: "synthetic_issue list"
  qr_synthetic_pattern_clusters :: "synthetic_cluster list"
  qr_pii_finding_count :: nat
  qr_pii_findings :: "pii_finding list"
  qr_token_length_threshold :: int
  qr_token_length_outlier_count :: nat
  qr_token_length_outliers :: "token_outlier list"
  qr_category_imbalances :: "category_imbalance list"
  qr_applicability :: quality_applicability

definition build_basic_quality_report ::
  "runtime \<Rightarrow> (string \<Rightarrow> int) \<Rightarrow> json list \<Rightarrow> dataset_schema option \<Rightarrow> quality_report" where
  "build_basic_quality_report rt estimate rows schema =
     (let applicability = measure_applicability rt rows schema;
          all_issues = (if applies_to applicability ''synthetic_patterns''
            then synthetic_pattern_issues rt rows schema else []);
          issues = take SYNTHETIC_WARNING_LIMIT all_issues;
          findings = detect_pii rt rows;
          (threshold, outliers) = (if applies_to applicability ''token_length_outliers''
            then token_length_outliers rt estimate rows else (0, []));
          qc = count_rows rt (applies_to applicability ''normalized_duplicates'')
            (applies_to applicability ''low_information'') rows
      in \<lparr>qr_example_count = length rows,
          qr_empty_row_count = qc_empty qc,
          qr_duplicate_exact_count = qc_exact_duplicates qc,
          qr_duplicate_normalized_count = qc_normalized_duplicates qc,
          qr_low_information_count = qc_low_information qc,
          qr_low_information_token_threshold = LOW_INFORMATION_TOKEN_THRESHOLD,
          qr_synthetic_pattern_count = length all_issues,
          qr_synthetic_pattern_warnings = map si_message issues,
          qr_synthetic_pattern_issues = issues,
          qr_synthetic_pattern_clusters = cluster_synthetic_pattern_issues SYNTHETIC_CLUSTER_SIMILARITY issues,
          qr_pii_finding_count = length findings,
          qr_pii_findings = findings,
          qr_token_length_threshold = threshold,
          qr_token_length_outlier_count = length outliers,
          qr_token_length_outliers = outliers,
          qr_category_imbalances = (if applies_to applicability ''category_imbalance''
            then category_imbalances rt rows else []),
          qr_applicability = applicability\<rparr>)"


section \<open>The counts\<close>

definition distinct_signatures :: "string list \<Rightarrow> nat" where
  "distinct_signatures sigs = card (set sigs)"

lemma count_rows_snoc:
  "count_rows rt cn cl (rows @ [row]) = count_row rt cn cl row (count_rows rt cn cl rows)"
  by (simp add: count_rows_def)

lemma count_rows_seen:
  "set (qc_exact_seen (count_rows rt cn cl rows)) = exact_signature rt ` set rows
   \<and> set (qc_normalized_seen (count_rows rt cn cl rows)) = (if cn then normalized_text_signature rt ` set rows else {})"
  by (induction rows rule: rev_induct) (auto simp: count_rows_snoc count_row_def Let_def, simp_all add: count_rows_def)

lemma card_insert_if': "finite A \<Longrightarrow> card (insert x A) = card A + (if x \<in> A then 0 else 1)"
  by (simp add: card_insert_if)

lemma count_rows_exact:
  "qc_exact_duplicates (count_rows rt cn cl rows) + card (exact_signature rt ` set rows) = length rows"
proof (induction rows rule: rev_induct)
  case (snoc row rows)
  then show ?case
    by (simp add: count_rows_snoc count_row_def Let_def count_rows_seen card_insert_if')
qed (simp add: count_rows_def)

definition texts_of :: "runtime \<Rightarrow> json list \<Rightarrow> string list" where
  "texts_of rt rows = filter (\<lambda>s. s \<noteq> []) (map (normalized_text_signature rt) rows)"

lemma count_rows_normalized:
  "qc_normalized_duplicates (count_rows rt cn cl rows) + (if cn then card (set (texts_of rt rows)) else 0)
     = (if cn then length (texts_of rt rows) else 0)"
proof (induction rows rule: rev_induct)
  case (snoc row rows)
  have "normalized_text_signature rt row \<in> set (texts_of rt rows) \<longleftrightarrow>
      normalized_text_signature rt row \<noteq> [] \<and> normalized_text_signature rt row \<in> normalized_text_signature rt ` set rows"
    by (auto simp: texts_of_def)
  moreover have "texts_of rt (rows @ [row]) = texts_of rt rows
      @ (if normalized_text_signature rt row \<noteq> [] then [normalized_text_signature rt row] else [])"
    by (simp add: texts_of_def)
  ultimately show ?case
    using snoc by (cases cn) (simp_all add: count_rows_snoc count_row_def Let_def count_rows_seen card_insert_if')
qed (simp_all add: count_rows_def texts_of_def)

lemma count_rows_empty: "qc_empty (count_rows rt cn cl rows) = length (filter empty_row rows)"
  by (induction rows rule: rev_induct) (simp_all add: count_rows_snoc count_row_def Let_def, simp add: count_rows_def)

definition few_tokens :: "runtime \<Rightarrow> json \<Rightarrow> bool" where
  "few_tokens rt row \<longleftrightarrow> 0 < token_count rt row \<and> token_count rt row < LOW_INFORMATION_TOKEN_THRESHOLD"

lemma count_row_low:
  "qc_low_information (count_row rt cn cl row qc) = qc_low_information qc + (if cl \<and> few_tokens rt row then 1 else 0)"
  by (simp add: count_row_def Let_def few_tokens_def token_count_def)

lemma count_rows_low:
  "qc_low_information (count_rows rt cn cl rows) = (if cl then length (filter (few_tokens rt) rows) else 0)"
  by (induction rows rule: rev_induct)
    (simp_all add: count_rows_snoc count_row_low, simp_all add: count_rows_def)

lemma report_counts:
  "qr_duplicate_exact_count (build_basic_quality_report rt estimate rows schema)
     = qc_exact_duplicates (count_rows rt (applies_to (measure_applicability rt rows schema) ''normalized_duplicates'')
         (applies_to (measure_applicability rt rows schema) ''low_information'') rows)"
  "qr_duplicate_normalized_count (build_basic_quality_report rt estimate rows schema)
     = qc_normalized_duplicates (count_rows rt (applies_to (measure_applicability rt rows schema) ''normalized_duplicates'')
         (applies_to (measure_applicability rt rows schema) ''low_information'') rows)"
  "qr_low_information_count (build_basic_quality_report rt estimate rows schema)
     = qc_low_information (count_rows rt (applies_to (measure_applicability rt rows schema) ''normalized_duplicates'')
         (applies_to (measure_applicability rt rows schema) ''low_information'') rows)"
  "qr_empty_row_count (build_basic_quality_report rt estimate rows schema)
     = qc_empty (count_rows rt (applies_to (measure_applicability rt rows schema) ''normalized_duplicates'')
         (applies_to (measure_applicability rt rows schema) ''low_information'') rows)"
  "qr_pii_findings (build_basic_quality_report rt estimate rows schema) = detect_pii rt rows"
  by (simp_all add: build_basic_quality_report_def Let_def case_prod_beta)



section \<open>Properties\<close>

text \<open>The counts of the report are exact. Exact duplicates are the rows beyond the distinct
  exact signatures; near-duplicates are the rows beyond the distinct non-empty normalised
  signatures, and low-information rows those with one to four tokens, each counted when the
  shape supports the signal and zero otherwise; empty rows are counted always; and the number
  of synthetic patterns is the true total although at most twenty are shown.\<close>

theorem quality_counts_are_exact:
  "let r = build_basic_quality_report rt estimate rows schema; a = measure_applicability rt rows schema in
     qr_duplicate_exact_count r + card (exact_signature rt ` set rows) = length rows
   \<and> qr_duplicate_normalized_count r = (if applies_to a ''normalized_duplicates''
        then length (texts_of rt rows) - card (set (texts_of rt rows)) else 0)
   \<and> qr_low_information_count r = (if applies_to a ''low_information''
        then length (filter (few_tokens rt) rows) else 0)
   \<and> qr_empty_row_count r = length (filter empty_row rows)
   \<and> qr_synthetic_pattern_count r = (if applies_to a ''synthetic_patterns''
        then length (synthetic_pattern_issues rt rows schema) else 0)
   \<and> length (qr_synthetic_pattern_issues r) = min 20 (qr_synthetic_pattern_count r)"
proof -
  let ?a = "measure_applicability rt rows schema"
  let ?cn = "applies_to ?a ''normalized_duplicates''" and ?cl = "applies_to ?a ''low_information''"
  have "qc_normalized_duplicates (count_rows rt ?cn ?cl rows)
      = (if ?cn then length (texts_of rt rows) - card (set (texts_of rt rows)) else 0)"
    using count_rows_normalized [of rt ?cn ?cl rows] by (simp split: if_splits)
  moreover have "qr_synthetic_pattern_count (build_basic_quality_report rt estimate rows schema)
        = (if applies_to ?a ''synthetic_patterns'' then length (synthetic_pattern_issues rt rows schema) else 0)"
    and "length (qr_synthetic_pattern_issues (build_basic_quality_report rt estimate rows schema))
        = min 20 (qr_synthetic_pattern_count (build_basic_quality_report rt estimate rows schema))"
    by (simp_all add: build_basic_quality_report_def Let_def case_prod_beta SYNTHETIC_WARNING_LIMIT_def)
  ultimately show ?thesis
    unfolding Let_def report_counts using count_rows_exact count_rows_low count_rows_empty by simp
qed

text \<open>A cleaned dataset has no duplicate finding. When the cleaning pass removes duplicates,
  the quality report of what it keeps counts no exact and no near duplicate.\<close>

theorem cleaned_rows_have_no_duplicates:
  assumes "cc_dedupe cfg"
  shows "qr_duplicate_exact_count (build_basic_quality_report rt estimate (fst (clean_rows rt cfg rows)) schema) = 0
     \<and> qr_duplicate_normalized_count (build_basic_quality_report rt estimate (fst (clean_rows rt cfg rows)) schema) = 0"
proof -
  let ?rows = "kept (clean_loop rt cfg rows)"
  from clean_loop_ok [of rt cfg rows] assms
  have e: "distinct (map (exact_signature rt) ?rows)" and n: "distinct (texts_of rt ?rows)"
    by (auto simp: clean_ok_def texts_of_def)
  have "card (exact_signature rt ` set ?rows) = length ?rows"
    using distinct_card [OF e] by simp
  then have "qc_exact_duplicates (count_rows rt cn cl ?rows) = 0" for cn cl
    using count_rows_exact [of rt cn cl ?rows] by simp
  moreover have "qc_normalized_duplicates (count_rows rt cn cl ?rows) = 0" for cn cl
    using count_rows_normalized [of rt cn cl ?rows] distinct_card [OF n] by (simp split: if_splits)
  ultimately show ?thesis by (simp add: report_counts clean_rows_def Let_def)
qed

definition duplicate_rows :: "json list" where
  "duplicate_rows = [row_a, row_b, row_a]"

definition dedupe_config :: clean_config where
  "dedupe_config = \<lparr>cc_dedupe = True, cc_drop_low_information = False, cc_threshold = 5\<rparr>"

theorem cleaned_rows_have_no_duplicates_witness:
  "qr_duplicate_exact_count (build_basic_quality_report sample_rt (\<lambda>_. 0)
      (fst (clean_rows sample_rt dedupe_config duplicate_rows)) None) = 0
   \<and> qr_duplicate_exact_count (build_basic_quality_report sample_rt (\<lambda>_. 0) duplicate_rows None) = 1"
proof -
  have "qc_exact_duplicates (count_rows sample_rt True True duplicate_rows) = 1" by code_simp
  moreover have "applies_to (measure_applicability sample_rt duplicate_rows None) s" for s
    by (simp add: measure_applicability_def applies_to_def)
  ultimately show ?thesis
    using cleaned_rows_have_no_duplicates [of dedupe_config] by (simp add: report_counts dedupe_config_def)
qed

end
