(* ===== verification/Gate_Models.thy ===== *)
theory Gate_Models
  imports Severity_Scale Json_Value Py_Float
begin

text \<open>
  Gate results, thresholds and reports (\<open>gates/models.py\<close>). A gate result keeps its
  identifier, name, scope, status and the rows it names; its message is a constructor with the
  values the sentence interpolates, and the other display texts are left out. The thresholds are read field by field from the project's file; how a
  JSON value is coerced to a field's type is pydantic's and a parameter, the bounds are the
  code's.
\<close>

section \<open>Statuses\<close>

datatype gate_scope =
    Scope_dataset | Scope_row | Scope_import | Scope_export | Scope_split
  | Scope_evaluation_report | Scope_training_run | Scope_model_artifact | Scope_chat_suite

datatype gate_status = PASS | WARN | BLOCK

fun status_order :: "gate_status \<Rightarrow> nat" where
  "status_order PASS = 0"
| "status_order WARN = 1"
| "status_order BLOCK = 2"

text \<open>\<open>max(statuses, key=..., default=PASS)\<close>: the first of the largest.\<close>

definition worst_status :: "gate_status list \<Rightarrow> gate_status" where
  "worst_status ss = (case ss of
      [] \<Rightarrow> PASS
    | s # rest \<Rightarrow> fold (\<lambda>t best. if status_order best < status_order t then t else best) rest s)"

instantiation gate_status :: linorder
begin

definition less_eq_gate_status :: "gate_status \<Rightarrow> gate_status \<Rightarrow> bool" where
  "less_eq_gate_status s t \<longleftrightarrow> status_order s \<le> status_order t"

definition less_gate_status :: "gate_status \<Rightarrow> gate_status \<Rightarrow> bool" where
  "less_gate_status s t \<longleftrightarrow> status_order s < status_order t"

lemma status_order_inj: "status_order s = status_order t \<Longrightarrow> s = t"
  by (cases s; cases t) simp_all

instance
  by intro_classes (auto simp: less_eq_gate_status_def less_gate_status_def status_order_inj)

end

lemma worst_status_snoc:
  "worst_status (ss @ [s]) = (if status_order (worst_status ss) < status_order s then s else worst_status ss)"
  by (cases ss; cases s) (simp_all add: worst_status_def)

lemma worst_status_mem: "worst_status ss = PASS \<or> worst_status ss \<in> set ss"
  by (induction ss rule: rev_induct) (auto simp: worst_status_snoc, simp add: worst_status_def)

interpretation gate_scale: strict_severity_scale status_order PASS worst_status
proof
  show "worst_status [] = PASS" by (simp add: worst_status_def)
qed (simp_all add: worst_status_snoc worst_status_mem status_order_inj)

lemma worst_status_Max: "worst_status ss = Max (insert PASS (set ss))"
proof (rule sym, rule Max_eqI)
  fix s assume "s \<in> insert PASS (set ss)"
  then show "s \<le> worst_status ss"
    using gate_scale.rank_le_worst [of s ss] by (auto simp: less_eq_gate_status_def)
qed (use worst_status_mem [of ss] in auto)

lemma worst_status_block_iff: "worst_status ss = BLOCK \<longleftrightarrow> BLOCK \<in> set ss"
proof
  assume "worst_status ss = BLOCK"
  then show "BLOCK \<in> set ss" using worst_status_mem [of ss] by simp
next
  assume "BLOCK \<in> set ss"
  from gate_scale.rank_le_worst [OF this] show "worst_status ss = BLOCK" by (cases "worst_status ss") simp_all
qed


section \<open>Thresholds\<close>

datatype threshold_value = Count int | Flag bool | Score rat

text \<open>A count is at least zero; a score is at least zero, finite, and at most its upper bound.\<close>

datatype threshold_type = Count_field | Flag_field | Score_field "rat option"

record gate_thresholds =
  max_exact_duplicates :: int
  block_exact_duplicates :: bool
  max_normalized_duplicates :: int
  block_normalized_duplicates :: bool
  max_low_information :: int
  block_low_information :: bool
  warn_synthetic_pattern_issues :: int
  block_on_high_severity_pii :: bool
  warn_on_medium_severity_pii :: bool
  min_eval_average_score :: rat
  min_eval_pass_rate :: rat
  max_regression_score_drop :: rat
  min_chat_turns :: int
  max_chat_turns :: int
  block_chat_malformed :: bool

definition default_thresholds :: gate_thresholds where
  "default_thresholds = \<lparr>max_exact_duplicates = 0, block_exact_duplicates = True,
     max_normalized_duplicates = 0, block_normalized_duplicates = False,
     max_low_information = 0, block_low_information = False, warn_synthetic_pattern_issues = 1,
     block_on_high_severity_pii = True, warn_on_medium_severity_pii = True,
     min_eval_average_score = 70, min_eval_pass_rate = 1 / 2, max_regression_score_drop = 2,
     min_chat_turns = 2, max_chat_turns = 0, block_chat_malformed = False\<rparr>"

definition THRESHOLD_FIELDS :: "(string, threshold_type) dict" where
  "THRESHOLD_FIELDS =
    [(''max_exact_duplicates'', Count_field), (''block_exact_duplicates'', Flag_field),
     (''max_normalized_duplicates'', Count_field), (''block_normalized_duplicates'', Flag_field),
     (''max_low_information'', Count_field), (''block_low_information'', Flag_field),
     (''warn_synthetic_pattern_issues'', Count_field),
     (''block_on_high_severity_pii'', Flag_field), (''warn_on_medium_severity_pii'', Flag_field),
     (''min_eval_average_score'', Score_field None), (''min_eval_pass_rate'', Score_field (Some 1)),
     (''max_regression_score_drop'', Score_field None),
     (''min_chat_turns'', Count_field), (''max_chat_turns'', Count_field),
     (''block_chat_malformed'', Flag_field)]"

definition threshold_values :: "gate_thresholds \<Rightarrow> (string, threshold_value) dict" where
  "threshold_values t =
    [(''max_exact_duplicates'', Count (max_exact_duplicates t)), (''block_exact_duplicates'', Flag (block_exact_duplicates t)),
     (''max_normalized_duplicates'', Count (max_normalized_duplicates t)),
     (''block_normalized_duplicates'', Flag (block_normalized_duplicates t)),
     (''max_low_information'', Count (max_low_information t)), (''block_low_information'', Flag (block_low_information t)),
     (''warn_synthetic_pattern_issues'', Count (warn_synthetic_pattern_issues t)),
     (''block_on_high_severity_pii'', Flag (block_on_high_severity_pii t)),
     (''warn_on_medium_severity_pii'', Flag (warn_on_medium_severity_pii t)),
     (''min_eval_average_score'', Score (min_eval_average_score t)), (''min_eval_pass_rate'', Score (min_eval_pass_rate t)),
     (''max_regression_score_drop'', Score (max_regression_score_drop t)),
     (''min_chat_turns'', Count (min_chat_turns t)), (''max_chat_turns'', Count (max_chat_turns t)),
     (''block_chat_malformed'', Flag (block_chat_malformed t))]"

definition count_of :: "threshold_value \<Rightarrow> int" where
  "count_of v = (case v of Count n \<Rightarrow> n | _ \<Rightarrow> 0)"
definition flag_of :: "threshold_value \<Rightarrow> bool" where
  "flag_of v = (case v of Flag b \<Rightarrow> b | _ \<Rightarrow> False)"
definition score_of :: "threshold_value \<Rightarrow> rat" where
  "score_of v = (case v of Score x \<Rightarrow> x | _ \<Rightarrow> 0)"

text \<open>The object whose fields have the given values.\<close>

definition thresholds_of :: "(string \<Rightarrow> threshold_value) \<Rightarrow> gate_thresholds" where
  "thresholds_of v = \<lparr>max_exact_duplicates = count_of (v ''max_exact_duplicates''),
     block_exact_duplicates = flag_of (v ''block_exact_duplicates''),
     max_normalized_duplicates = count_of (v ''max_normalized_duplicates''),
     block_normalized_duplicates = flag_of (v ''block_normalized_duplicates''),
     max_low_information = count_of (v ''max_low_information''),
     block_low_information = flag_of (v ''block_low_information''),
     warn_synthetic_pattern_issues = count_of (v ''warn_synthetic_pattern_issues''),
     block_on_high_severity_pii = flag_of (v ''block_on_high_severity_pii''),
     warn_on_medium_severity_pii = flag_of (v ''warn_on_medium_severity_pii''),
     min_eval_average_score = score_of (v ''min_eval_average_score''),
     min_eval_pass_rate = score_of (v ''min_eval_pass_rate''),
     max_regression_score_drop = score_of (v ''max_regression_score_drop''),
     min_chat_turns = count_of (v ''min_chat_turns''), max_chat_turns = count_of (v ''max_chat_turns''),
     block_chat_malformed = flag_of (v ''block_chat_malformed'')\<rparr>"

record field_coercion =
  as_int :: "json \<Rightarrow> int option"
  as_bool :: "json \<Rightarrow> bool option"
  as_float :: "json \<Rightarrow> rat option"

definition validate_threshold :: "field_coercion \<Rightarrow> string \<Rightarrow> json \<Rightarrow> threshold_value option" where
  "validate_threshold co key v = (case dget THRESHOLD_FIELDS key of
      None \<Rightarrow> None
    | Some Count_field \<Rightarrow> (case as_int co v of Some n \<Rightarrow> if 0 \<le> n then Some (Count n) else None | None \<Rightarrow> None)
    | Some Flag_field \<Rightarrow> map_option Flag (as_bool co v)
    | Some (Score_field hi) \<Rightarrow> (case as_float co v of
          Some x \<Rightarrow> if 0 \<le> x \<and> (case hi of None \<Rightarrow> True | Some h \<Rightarrow> x \<le> h) then Some (Score x) else None
        | None \<Rightarrow> None))"

text \<open>\<open>GateThresholds(**given)\<close>: every given field validated, the others at their default; \<open>None\<close>
  is the \<open>ValidationError\<close>.\<close>

definition make_thresholds :: "field_coercion \<Rightarrow> (string, json) dict \<Rightarrow> gate_thresholds option" where
  "make_thresholds co given =
     (if list_all (\<lambda>kv. validate_threshold co (fst kv) (snd kv) \<noteq> None) given
      then Some (thresholds_of (\<lambda>key. case dget given key of
          Some v \<Rightarrow> the (validate_threshold co key v)
        | None \<Rightarrow> the (dget (threshold_values default_thresholds) key)))
      else None)"

definition known_fields :: "(string, json) dict \<Rightarrow> (string, json) dict" where
  "known_fields data = List.map_filter (\<lambda>key. map_option (Pair key) (dget data key)) (map fst THRESHOLD_FIELDS)"

text \<open>The file as the value it parses to; \<open>None\<close> is a missing, unreadable or malformed file. The
  last construction validates only fields that already passed on their own.\<close>

definition load_gate_thresholds :: "field_coercion \<Rightarrow> json option \<Rightarrow> gate_thresholds" where
  "load_gate_thresholds co file = (case file of
      Some (JObj data) \<Rightarrow>
        let known = known_fields data in
        (case make_thresholds co known of
           Some t \<Rightarrow> t
         | None \<Rightarrow>
             let valid = filter (\<lambda>kv. make_thresholds co [kv] \<noteq> None) known
             in the (make_thresholds co valid))
    | _ \<Rightarrow> default_thresholds)"

fun threshold_json :: "threshold_value \<Rightarrow> json" where
  "threshold_json (Count n) = JInt n"
| "threshold_json (Flag b) = JBool b"
| "threshold_json (Score x) = JFloat x"

definition save_gate_thresholds :: "gate_thresholds \<Rightarrow> json option" where
  "save_gate_thresholds t = Some (JObj (map (\<lambda>kv. (fst kv, threshold_json (snd kv))) (threshold_values t)))"


section \<open>Results and reports\<close>

datatype quality_excess =
    Exact_duplicates nat | Near_duplicates nat | Low_info_rows nat | Synthetic_patterns nat

text \<open>The sentence of a result, one constructor per text of \<open>gates/basic_gates.py\<close> and
  \<open>gates/runner.py\<close>.\<close>

datatype gate_message =
    Input_has_rows | Input_is_empty
  | Rows_validate | Rows_fail nat
  | Quality_within | Quality_exceeds "quality_excess list"
  | No_leakage | Rows_leak nat "string list"
  | No_pii | Pii_found "string list"
  | Weights_intact | Weights_are string
  | Evaluation_missing | Metrics_differ string string | Regressed_unverified rat
  | Unverified_linkage | Regressed rat | No_regression rat
  | Evaluation_meets | Evaluation_below
  | No_conversations | Well_formed nat | Structure_issues "(nat \<times> string) list"
  | Run_record_missing

text \<open>\<open>gr_repair\<close> tells whether a repair hint is given.\<close>

record gate_result =
  gr_gate_id :: string
  gr_name :: string
  gr_scope :: gate_scope
  gr_status :: gate_status
  gr_affected :: "string list"
  gr_message :: gate_message
  gr_repair :: bool

record gate_report =
  gp_scope :: gate_scope
  gp_target :: string
  gp_generated_at :: "string option"
  gp_overall_status :: gate_status
  gp_pass_count :: nat
  gp_warn_count :: nat
  gp_block_count :: nat
  gp_results :: "gate_result list"
  gp_thresholds :: "gate_thresholds option"

definition build_gate_report ::
  "gate_scope \<Rightarrow> string \<Rightarrow> gate_result list \<Rightarrow> string option \<Rightarrow> gate_thresholds option \<Rightarrow> gate_report" where
  "build_gate_report scope target results generated_at thresholds =
     (let statuses = map gr_status results in
      \<lparr>gp_scope = scope, gp_target = target, gp_generated_at = generated_at, gp_overall_status = worst_status statuses,
       gp_pass_count = length (filter (\<lambda>s. s = PASS) statuses),
       gp_warn_count = length (filter (\<lambda>s. s = WARN) statuses),
       gp_block_count = length (filter (\<lambda>s. s = BLOCK) statuses),
       gp_results = results, gp_thresholds = thresholds\<rparr>)"

definition report_blocked :: "gate_report \<Rightarrow> bool" where
  "report_blocked r \<longleftrightarrow> gp_overall_status r = BLOCK"



section \<open>What is loaded\<close>

definition threshold_ok :: "string \<Rightarrow> threshold_value \<Rightarrow> bool" where
  "threshold_ok key x \<longleftrightarrow> (case (dget THRESHOLD_FIELDS key, x) of
      (Some Count_field, Count n) \<Rightarrow> 0 \<le> n
    | (Some Flag_field, Flag _) \<Rightarrow> True
    | (Some (Score_field hi), Score r) \<Rightarrow> 0 \<le> r \<and> (case hi of None \<Rightarrow> True | Some h \<Rightarrow> r \<le> h)
    | _ \<Rightarrow> False)"

definition default_value :: "string \<Rightarrow> threshold_value" where
  "default_value key = the (dget (threshold_values default_thresholds) key)"

text \<open>The value of one field: the one given if it is valid, else the default.\<close>

definition chosen_value :: "field_coercion \<Rightarrow> (string, json) dict \<Rightarrow> string \<Rightarrow> threshold_value" where
  "chosen_value co data key = (case dget data key of
      Some v \<Rightarrow> (case validate_threshold co key v of Some x \<Rightarrow> x | None \<Rightarrow> default_value key)
    | None \<Rightarrow> default_value key)"

abbreviation threshold_names :: "string list" where
  "threshold_names \<equiv> map fst THRESHOLD_FIELDS"

lemma distinct_threshold_names: "distinct threshold_names"
  by (simp add: THRESHOLD_FIELDS_def)

lemma validate_threshold_ok: "validate_threshold co key v = Some x \<Longrightarrow> threshold_ok key x"
  by (auto simp: validate_threshold_def threshold_ok_def split: option.splits threshold_type.splits if_splits)

lemma default_value_ok: "key \<in> set threshold_names \<Longrightarrow> threshold_ok key (default_value key)"
  by (auto simp: THRESHOLD_FIELDS_def threshold_ok_def default_value_def threshold_values_def default_thresholds_def)

lemma chosen_value_ok: "key \<in> set threshold_names \<Longrightarrow> threshold_ok key (chosen_value co data key)"
  by (auto simp: chosen_value_def default_value_ok validate_threshold_ok split: option.split)

lemma threshold_ok_count: "threshold_ok key x \<Longrightarrow> dget THRESHOLD_FIELDS key = Some Count_field \<Longrightarrow> Count (count_of x) = x"
  by (cases x) (simp_all add: threshold_ok_def count_of_def)

lemma threshold_ok_flag: "threshold_ok key x \<Longrightarrow> dget THRESHOLD_FIELDS key = Some Flag_field \<Longrightarrow> Flag (flag_of x) = x"
  by (cases x) (simp_all add: threshold_ok_def flag_of_def)

lemma threshold_ok_score: "threshold_ok key x \<Longrightarrow> dget THRESHOLD_FIELDS key = Some (Score_field hi) \<Longrightarrow> Score (score_of x) = x"
  by (cases x) (simp_all add: threshold_ok_def score_of_def)

lemmas threshold_ok_value = threshold_ok_count threshold_ok_flag threshold_ok_score

lemma threshold_values_of:
  assumes "\<And>key. key \<in> set threshold_names \<Longrightarrow> threshold_ok key (v key)"
  shows "threshold_values (thresholds_of v) = map (\<lambda>key. (key, v key)) threshold_names"
proof -
  have ok: "threshold_ok key (v key)" if "dget THRESHOLD_FIELDS key = Some ty" for key ty
    using that by (intro assms) (force dest: map_of_SomeD)
  note ok [THEN threshold_ok_value(1)] ok [THEN threshold_ok_value(2)] ok [THEN threshold_ok_value(3)]
  then show ?thesis by (simp add: threshold_values_def thresholds_of_def THRESHOLD_FIELDS_def)
qed

lemma thresholds_of_values: "thresholds_of (\<lambda>key. the (dget (threshold_values t) key)) = t"
  by (cases t) (simp add: thresholds_of_def threshold_values_def count_of_def flag_of_def score_of_def)

lemma map_of_known: "dget (known_fields data) key = (if key \<in> set threshold_names then dget data key else None)"
proof -
  have "dget (List.map_filter (\<lambda>k. map_option (Pair k) (dget data k)) ks) key
      = (if key \<in> set ks then dget data key else None)" for ks
    by (induction ks) (auto simp: map_filter_simps split: option.splits)
  then show ?thesis by (simp add: known_fields_def)
qed

lemma known_distinct: "distinct (dkeys (known_fields data))"
proof -
  have "set (dkeys (List.map_filter (\<lambda>k. map_option (Pair k) (dget data k)) ks)) \<subseteq> set ks" for ks
    by (induction ks) (auto simp: map_filter_simps split: option.splits)
  then have "distinct ks \<Longrightarrow> distinct (dkeys (List.map_filter (\<lambda>k. map_option (Pair k) (dget data k)) ks))" for ks
    by (induction ks) (auto simp: map_filter_simps split: option.splits dest!: subsetD)
  then show ?thesis unfolding known_fields_def using distinct_threshold_names by blast
qed

lemma thresholds_of_cong: "(\<And>key. key \<in> set threshold_names \<Longrightarrow> v key = w key) \<Longrightarrow> thresholds_of v = thresholds_of w"
  by (simp add: thresholds_of_def THRESHOLD_FIELDS_def)

lemma map_of_filter_values:
  "distinct (dkeys d) \<Longrightarrow> dget (filter (\<lambda>kv. P (fst kv) (snd kv)) d) k
     = (case dget d k of None \<Rightarrow> None | Some v \<Rightarrow> if P k v then Some v else None)"
proof (induction d)
  case (Cons kv d)
  then have "k = fst kv \<Longrightarrow> dget d k = None" by (simp add: map_of_eq_None_iff)
  with Cons show ?case by (cases kv) (auto split: option.splits)
qed simp

lemma load_chosen: "load_gate_thresholds co (Some (JObj data)) = thresholds_of (chosen_value co data)"
proof -
  let ?known = "known_fields data"
  let ?ok = "\<lambda>kv. validate_threshold co (fst kv) (snd kv) \<noteq> None"
  let ?valid = "filter ?ok ?known"
  have one: "make_thresholds co [kv] \<noteq> None \<longleftrightarrow> ?ok kv" for kv by (simp add: make_thresholds_def)
  have valid: "make_thresholds co ?valid = Some (thresholds_of (\<lambda>key. case dget ?valid key of
      Some v \<Rightarrow> the (validate_threshold co key v) | None \<Rightarrow> default_value key))"
    by (simp add: make_thresholds_def default_value_def list_all_iff cong: option.case_cong)
  have get: "dget ?valid key = (case dget ?known key of
      None \<Rightarrow> None | Some v \<Rightarrow> if validate_threshold co key v \<noteq> None then Some v else None)" for key
    by (rule map_of_filter_values [OF known_distinct])
  have "(case dget ?valid key of Some v \<Rightarrow> the (validate_threshold co key v) | None \<Rightarrow> default_value key)
      = chosen_value co data key" if "key \<in> set threshold_names" for key
    unfolding get map_of_known chosen_value_def using that by (auto split: option.splits)
  then have salvaged: "the (make_thresholds co ?valid) = thresholds_of (chosen_value co data)"
    unfolding valid option.sel by (rule thresholds_of_cong)
  show ?thesis
  proof (cases "make_thresholds co ?known")
    case None
    with salvaged show ?thesis
      unfolding load_gate_thresholds_def option.case json.case Let_def one by simp
  next
    case (Some t)
    then have "?valid = ?known"
      by (auto simp: make_thresholds_def list_all_iff intro!: filter_True split: if_splits)
    with Some salvaged show ?thesis by (simp add: load_gate_thresholds_def Let_def)
  qed
qed


lemma status_counts:
  "length (filter (\<lambda>s. s = PASS) ss) + length (filter (\<lambda>s. s = WARN) ss)
     + length (filter (\<lambda>s. s = BLOCK) ss) = length ss"
proof (induction ss)
  case (Cons s ss)
  then show ?case by (cases s) simp_all
qed simp

lemma block_counted: "0 < length (filter (\<lambda>s. s = BLOCK) ss) \<longleftrightarrow> BLOCK \<in> set ss"
  by (induction ss) auto

lemma worst_status_append: "worst_status (ss @ ts) = max (worst_status ss) (worst_status ts)"
proof -
  have "worst_status [a, b] = max a b" for a b
    by (cases a; cases b) (simp_all add: worst_status_def max_def less_eq_gate_status_def)
  then show ?thesis unfolding gate_scale.worst_append [of ss ts] .
qed


text \<open>A JSON integer, boolean and float coerce to themselves.\<close>

definition coercion_exact :: "field_coercion \<Rightarrow> bool" where
  "coercion_exact co \<longleftrightarrow> (\<forall>n. as_int co (JInt n) = Some n) \<and> (\<forall>b. as_bool co (JBool b) = Some b)
     \<and> (\<forall>x. as_float co (JFloat x) = Some x)"


section \<open>Properties\<close>

text \<open>The thresholds are salvaged field by field and always in bounds. From an object, every
  field that is given and valid on its own is taken and every other field is at its default,
  whatever else the file holds; and from any file at all, every loaded count is non-negative,
  every score non-negative and the pass rate at most one, so no file disables a gate by an
  out-of-range value.\<close>

theorem thresholds_salvaged_in_bounds:
  "threshold_values (load_gate_thresholds co (Some (JObj data)))
     = map (\<lambda>key. (key, chosen_value co data key)) threshold_names
   \<and> list_all (\<lambda>kv. threshold_ok (fst kv) (snd kv)) (threshold_values (load_gate_thresholds co file))"
proof -
  have vals: "threshold_values (load_gate_thresholds co (Some (JObj data)))
      = map (\<lambda>key. (key, chosen_value co data key)) threshold_names" for data
    unfolding load_chosen by (intro threshold_values_of chosen_value_ok)
  have "threshold_values default_thresholds = map (\<lambda>key. (key, default_value key)) threshold_names"
    by (simp add: threshold_values_def THRESHOLD_FIELDS_def default_value_def)
  then have "list_all (\<lambda>kv. threshold_ok (fst kv) (snd kv)) (threshold_values default_thresholds)"
    using default_value_ok by (simp add: list_all_iff)
  moreover have "list_all (\<lambda>kv. threshold_ok (fst kv) (snd kv)) (threshold_values (load_gate_thresholds co (Some (JObj data))))" for data
    unfolding vals using chosen_value_ok by (simp add: list_all_iff)
  moreover have "(\<exists>data. file = Some (JObj data)) \<or> load_gate_thresholds co file = default_thresholds"
    by (auto simp: load_gate_thresholds_def split: option.splits json.splits)
  ultimately show ?thesis using vals by metis
qed

text \<open>Saved thresholds load back. Whatever valid thresholds are saved, loading the file gives
  exactly them, provided a JSON integer, boolean and float coerce to themselves.\<close>

theorem saved_thresholds_load_back:
  assumes "coercion_exact co" and "list_all (\<lambda>kv. threshold_ok (fst kv) (snd kv)) (threshold_values t)"
  shows "load_gate_thresholds co (save_gate_thresholds t) = t"
proof -
  let ?data = "map (\<lambda>kv. (fst kv, threshold_json (snd kv))) (threshold_values t)"
  have validates: "validate_threshold co key (threshold_json x) = Some x" if "threshold_ok key x" for key x
    using assms(1) that
    by (cases x) (auto simp: validate_threshold_def threshold_ok_def coercion_exact_def
      split: option.splits threshold_type.splits)
  have names: "dkeys (threshold_values t) = threshold_names"
    by (simp add: threshold_values_def THRESHOLD_FIELDS_def)
  have "chosen_value co ?data key = the (dget (threshold_values t) key)" if "key \<in> set threshold_names" for key
  proof -
    from that names obtain x where x: "dget (threshold_values t) key = Some x"
      by (metis map_of_eq_None_iff not_None_eq list.set_map)
    then have "(key, x) \<in> set (threshold_values t)" by (rule map_of_SomeD)
    with assms(2) have "threshold_ok key x" by (auto simp: list_all_iff)
    then show ?thesis by (simp add: chosen_value_def map_of_map_snd x validates)
  qed
  then have "thresholds_of (chosen_value co ?data) = thresholds_of (\<lambda>key. the (dget (threshold_values t) key))"
    by (rule thresholds_of_cong)
  then show ?thesis by (simp add: save_gate_thresholds_def load_chosen thresholds_of_values)
qed

definition sample_coercion :: field_coercion where
  "sample_coercion = \<lparr>as_int = (\<lambda>v. case v of JInt n \<Rightarrow> Some n | _ \<Rightarrow> None),
     as_bool = (\<lambda>v. case v of JBool b \<Rightarrow> Some b | _ \<Rightarrow> None),
     as_float = (\<lambda>v. case v of JFloat x \<Rightarrow> Some x | JInt n \<Rightarrow> Some (of_int n) | _ \<Rightarrow> None)\<rparr>"

theorem saved_thresholds_load_back_witness:
  "load_gate_thresholds sample_coercion (save_gate_thresholds (default_thresholds\<lparr>min_eval_pass_rate := 9 / 10\<rparr>))
     = default_thresholds\<lparr>min_eval_pass_rate := 9 / 10\<rparr>"
proof (rule saved_thresholds_load_back)
  show "coercion_exact sample_coercion" by (simp add: coercion_exact_def sample_coercion_def)
  show "list_all (\<lambda>kv. threshold_ok (fst kv) (snd kv)) (threshold_values (default_thresholds\<lparr>min_eval_pass_rate := 9 / 10\<rparr>))"
    by (simp add: threshold_values_def default_thresholds_def threshold_ok_def THRESHOLD_FIELDS_def)
qed

text \<open>The report's verdict is that of its worst gate. It is blocked exactly when some gate
  blocks and passes exactly when every gate passes; the three counts add up to the number of
  gates; and running two groups of gates in one report gives the worse of the two verdicts.\<close>

lemma report_verdict_is_worst_gate:
  "let r = build_gate_report scope target results now thresholds in
     (report_blocked r \<longleftrightarrow> BLOCK \<in> set (map gr_status results))
   \<and> (gp_overall_status r = PASS \<longleftrightarrow> set (map gr_status results) \<subseteq> {PASS})
   \<and> gp_pass_count r + gp_warn_count r + gp_block_count r = length results
   \<and> (0 < gp_block_count r \<longleftrightarrow> report_blocked r)
   \<and> gp_overall_status (build_gate_report scope target (results @ extra) now thresholds)
       = max (gp_overall_status r) (gp_overall_status (build_gate_report scope target extra now thresholds))"
proof -
  define ss where "ss = map gr_status results"
  have counts: "length (filter (\<lambda>s. s = PASS) ss) + length (filter (\<lambda>s. s = WARN) ss)
      + length (filter (\<lambda>s. s = BLOCK) ss) = length results"
    using status_counts [of ss] by (simp add: ss_def)
  have "0 < length (filter (\<lambda>s. s = BLOCK) ss) \<longleftrightarrow> BLOCK \<in> set ss" by (rule block_counted)
  then show ?thesis
    using counts worst_status_block_iff [of ss] gate_scale.worst_base_iff [of ss]
    unfolding build_gate_report_def report_blocked_def Let_def map_append ss_def [symmetric]
    by (simp add: worst_status_append)
qed

end
