(* ===== verification/Gate_Checks.thy ===== *)
theory Gate_Checks
  imports Gate_Models Quality Validator Splitters
begin

text \<open>
  The gates (\<open>gates/basic_gates.py\<close>): functions from a report that is already computed to a
  gate result. Scores are floats, compared and subtracted as \<open>Py_Float\<close> has them.
\<close>

section \<open>Presence, schema, quality, leakage and PII\<close>

definition input_present_gate :: "nat \<Rightarrow> gate_scope \<Rightarrow> bool \<Rightarrow> gate_result" where
  "input_present_gate row_count scope block_when_empty =
    \<lparr>gr_gate_id = ''input_present'', gr_name = ''Input present'', gr_scope = scope,
     gr_status = (if 0 < row_count then PASS else if block_when_empty then BLOCK else WARN),
     gr_affected = [], gr_message = (if row_count \<noteq> 0 then Input_has_rows else Input_is_empty),
     gr_repair = (row_count = 0)\<rparr>"

text \<open>\<open>sorted({str(n) for n in numbers})\<close>: the decimal texts in code-point order.\<close>

definition sorted_numerals :: "nat list \<Rightarrow> string list" where
  "sorted_numerals ns = sort (remdups (map nat_str ns))"

definition issue_rows :: "validation_report \<Rightarrow> nat list" where
  "issue_rows report = List.map_filter vi_row_number (vr_errors report)"

definition schema_gate :: "validation_report \<Rightarrow> gate_scope \<Rightarrow> gate_result" where
  "schema_gate report scope =
    \<lparr>gr_gate_id = ''schema'', gr_name = ''Schema validation'', gr_scope = scope,
     gr_status = (if vr_valid report then PASS else BLOCK),
     gr_affected = sorted_numerals (issue_rows report),
     gr_message = (if vr_valid report then Rows_validate else Rows_fail (length (remdups (issue_rows report)))),
     gr_repair = (\<not> vr_valid report)\<rparr>"

text \<open>The statuses and messages the gate collects, in order.\<close>

definition quality_excesses :: "quality_report \<Rightarrow> gate_thresholds \<Rightarrow> (gate_status \<times> quality_excess) list" where
  "quality_excesses report t =
     (if max_exact_duplicates t < int (qr_duplicate_exact_count report)
      then [(if block_exact_duplicates t then BLOCK else WARN, Exact_duplicates (qr_duplicate_exact_count report))] else [])
   @ (if max_normalized_duplicates t < int (qr_duplicate_normalized_count report)
      then [(if block_normalized_duplicates t then BLOCK else WARN, Near_duplicates (qr_duplicate_normalized_count report))] else [])
   @ (if max_low_information t < int (qr_low_information_count report)
      then [(if block_low_information t then BLOCK else WARN, Low_info_rows (qr_low_information_count report))] else [])
   @ (if warn_synthetic_pattern_issues t \<le> int (qr_synthetic_pattern_count report)
      then [(WARN, Synthetic_patterns (qr_synthetic_pattern_count report))] else [])"

definition quality_gate :: "quality_report \<Rightarrow> gate_thresholds \<Rightarrow> gate_scope \<Rightarrow> gate_result" where
  "quality_gate report t scope =
     (let found = quality_excesses report t; status = worst_status (PASS # map fst found) in
      \<lparr>gr_gate_id = ''quality'', gr_name = ''Quality thresholds'', gr_scope = scope, gr_status = status,
       gr_affected = [],
       gr_message = (if status = PASS then Quality_within else Quality_exceeds (map snd found)),
       gr_repair = (status \<noteq> PASS)\<rparr>)"

definition leakage_gate :: "leakage_report \<Rightarrow> gate_scope \<Rightarrow> gate_result" where
  "leakage_gate report scope =
     (let leaked = lr_rows_shared_across_splits report; status = (if 0 < leaked then BLOCK else PASS) in
      \<lparr>gr_gate_id = ''leakage'', gr_name = ''Train/validation/test leakage'', gr_scope = scope, gr_status = status,
       gr_affected = [],
       gr_message = (if status = PASS then No_leakage else Rows_leak leaked (map sl_sample (take 2 (lr_leaks report)))),
       gr_repair = (status \<noteq> PASS)\<rparr>)"

definition pii_gate :: "quality_report \<Rightarrow> gate_thresholds \<Rightarrow> gate_scope \<Rightarrow> gate_result" where
  "pii_gate report t scope =
     (let high = filter (\<lambda>f. pf_severity f = ''high'') (qr_pii_findings report);
          medium = filter (\<lambda>f. pf_severity f = ''medium'') (qr_pii_findings report);
          status = (if high \<noteq> [] \<and> block_on_high_severity_pii t then BLOCK
                    else if medium \<noteq> [] \<and> warn_on_medium_severity_pii t then WARN
                    else if high \<noteq> [] \<or> medium \<noteq> [] then WARN
                    else PASS)
      in \<lparr>gr_gate_id = ''pii'', gr_name = ''PII / secret leakage'', gr_scope = scope, gr_status = status,
          gr_affected = sorted_numerals (concat (map pf_row_numbers (qr_pii_findings report))),
          gr_message = (if status = PASS then No_pii
            else Pii_found (sort (remdups (map pf_kind (qr_pii_findings report))))),
          gr_repair = (status \<noteq> PASS)\<rparr>)"


section \<open>Integrity, regression and evaluation score\<close>

definition artifact_integrity_gate :: "string \<Rightarrow> gate_scope \<Rightarrow> gate_result" where
  "artifact_integrity_gate integrity scope =
     (let ok = (integrity = ''ok'') in
      \<lparr>gr_gate_id = ''integrity'', gr_name = ''Artifact integrity'', gr_scope = scope,
       gr_status = (if ok then PASS else BLOCK), gr_affected = [],
       gr_message = (if ok then Weights_intact else Weights_are integrity), gr_repair = (\<not> ok)\<rparr>)"

record evaluation_report =
  er_dataset :: string
  er_model :: string
  er_metric :: string
  er_examples_tested :: int
  er_average_score :: rat
  er_failed_examples :: int

definition metric_label :: "string \<Rightarrow> string" where
  "metric_label metric = (if metric = ''keyword_overlap'' then ''keyword-overlap''
     else if metric = ''llm_judge'' then ''LLM-judge'' else metric)"

definition regression_result :: "gate_scope \<Rightarrow> gate_status \<Rightarrow> gate_message \<Rightarrow> gate_result" where
  "regression_result scope status message =
    \<lparr>gr_gate_id = ''regression'', gr_name = ''Training regression'', gr_scope = scope, gr_status = status,
     gr_affected = [], gr_message = message, gr_repair = (status \<noteq> PASS)\<rparr>"

definition score_delta :: "evaluation_report \<Rightarrow> evaluation_report \<Rightarrow> rat" where
  "score_delta before after = py_round (fsub (er_average_score after) (er_average_score before)) 2"

definition regression_gate ::
  "evaluation_report option \<Rightarrow> evaluation_report option \<Rightarrow> gate_thresholds \<Rightarrow> bool \<Rightarrow> gate_scope \<Rightarrow> gate_result" where
  "regression_gate before after t provenance_ok scope = (case (before, after) of
      (Some b, Some a) \<Rightarrow>
        if er_metric b \<noteq> er_metric a then
          regression_result scope WARN (Metrics_differ (metric_label (er_metric b)) (metric_label (er_metric a)))
        else
          let delta = score_delta b a; regressed = delta < - max_regression_score_drop t in
          if \<not> provenance_ok then
            (if regressed then regression_result scope BLOCK (Regressed_unverified \<bar>delta\<bar>)
             else regression_result scope WARN Unverified_linkage)
          else if regressed then regression_result scope BLOCK (Regressed \<bar>delta\<bar>)
          else regression_result scope PASS (No_regression delta)
    | _ \<Rightarrow> regression_result scope WARN Evaluation_missing)"

definition eval_score_gate :: "evaluation_report \<Rightarrow> gate_thresholds \<Rightarrow> gate_scope \<Rightarrow> gate_result" where
  "eval_score_gate report t scope =
     (let tested = er_examples_tested report;
          pass_rate = (if tested \<noteq> 0 then int_div_int (tested - er_failed_examples report) tested else 0);
          below_score = er_average_score report < min_eval_average_score t;
          below_pass = pass_rate < min_eval_pass_rate t;
          status = (if below_score \<or> below_pass then BLOCK else PASS)
      in \<lparr>gr_gate_id = ''eval_score'', gr_name = ''Evaluation score'', gr_scope = scope, gr_status = status,
          gr_affected = [], gr_message = (if status = PASS then Evaluation_meets else Evaluation_below),
          gr_repair = (status \<noteq> PASS)\<rparr>)"


section \<open>Conversation structure\<close>

definition CHAT_MALFORMED_FAULTS :: "string list" where
  "CHAT_MALFORMED_FAULTS = [''assistant_first'', ''no_assistant'', ''no_user'', ''dangling_user'',
     ''dangling_system_or_tool'', ''empty_turn'']"

text \<open>\<open>None\<close> and a missing role are \<open>JNull\<close>.\<close>

definition message_role :: "json \<Rightarrow> json" where
  "message_role message = (case message of
      JObj kvs \<Rightarrow> (case dget kvs ''role'' of Some role \<Rightarrow> role | None \<Rightarrow> JNull)
    | _ \<Rightarrow> JNull)"

definition empty_turn :: "json \<Rightarrow> bool" where
  "empty_turn message \<longleftrightarrow> (case message of
      JObj kvs \<Rightarrow> (case dget kvs ''content'' of Some (JStr s) \<Rightarrow> strip s = [] | _ \<Rightarrow> False)
    | _ \<Rightarrow> False)"

definition system_misplaced :: "json list \<Rightarrow> bool" where
  "system_misplaced roles \<longleftrightarrow>
     (let positions = map fst (filter (\<lambda>ir. snd ir = JStr ''system'') (enum_from 0 roles)) in
      1 < length positions \<or> list_ex (\<lambda>i. i \<noteq> 0) positions)"

definition repeats_role :: "json list \<Rightarrow> bool" where
  "repeats_role roles \<longleftrightarrow> list_ex (\<lambda>(previous, current). previous \<noteq> JNull \<and> py_eq previous current) (zip roles (tl roles))"

text \<open>The set of faults, as a list in the order they are added; each is added once.\<close>

definition conversation_faults :: "json list \<Rightarrow> gate_thresholds \<Rightarrow> string list" where
  "conversation_faults messages t =
     (let roles = map message_role messages;
          n = int (length messages);
          non_system = filter (\<lambda>role. role \<noteq> JStr ''system'') roles
      in (if n < min_chat_turns t then [''too_few_turns''] else [])
       @ (if 0 < max_chat_turns t \<and> max_chat_turns t < n then [''too_many_turns''] else [])
       @ (if system_misplaced roles then [''system_misplaced''] else [])
       @ (if non_system \<noteq> [] \<and> hd non_system = JStr ''assistant'' then [''assistant_first''] else [])
       @ (if JStr ''assistant'' \<notin> set roles then [''no_assistant''] else [])
       @ (if JStr ''user'' \<notin> set roles then [''no_user''] else [])
       @ (if roles \<noteq> [] \<and> last roles = JStr ''user'' then [''dangling_user'']
          else if roles \<noteq> [] \<and> (last roles = JStr ''system'' \<or> last roles = JStr ''tool'')
          then [''dangling_system_or_tool''] else [])
       @ (if repeats_role roles then [''consecutive_same_role''] else [])
       @ (if list_ex empty_turn messages then [''empty_turn''] else []))"

definition conversation :: "json \<Rightarrow> json list option" where
  "conversation row = (case row of
      JObj kvs \<Rightarrow> (case dget kvs ''messages'' of Some (JList ms) \<Rightarrow> Some ms | _ \<Rightarrow> None)
    | _ \<Rightarrow> None)"

record chat_tally =
  ct_conversations :: nat
  ct_fault_rows :: "(string, nat list) dict"
  ct_affected :: "nat list"

definition tally_fault :: "nat \<Rightarrow> string \<Rightarrow> chat_tally \<Rightarrow> chat_tally" where
  "tally_fault n fault tally =
     (let so_far = (case dget (ct_fault_rows tally) fault of Some ns \<Rightarrow> ns | None \<Rightarrow> []) in
      tally\<lparr>ct_fault_rows := dset fault (so_far @ [n]) (ct_fault_rows tally),
            ct_affected := List.insert n (ct_affected tally)\<rparr>)"

definition tally_row :: "gate_thresholds \<Rightarrow> nat \<times> json \<Rightarrow> chat_tally \<Rightarrow> chat_tally" where
  "tally_row t nr tally = (case conversation (snd nr) of
      None \<Rightarrow> tally
    | Some ms \<Rightarrow> fold (tally_fault (fst nr)) (conversation_faults ms t)
        (tally\<lparr>ct_conversations := ct_conversations tally + 1\<rparr>))"

definition chat_tally :: "gate_thresholds \<Rightarrow> json list \<Rightarrow> chat_tally" where
  "chat_tally t rows = for_rows (tally_row t) rows \<lparr>ct_conversations = 0, ct_fault_rows = [], ct_affected = []\<rparr>"

definition chat_structure_gate :: "json list \<Rightarrow> gate_thresholds \<Rightarrow> gate_scope \<Rightarrow> gate_result" where
  "chat_structure_gate rows t scope =
     (let tally = chat_tally t rows;
          result = (\<lambda>status affected message repair.
            \<lparr>gr_gate_id = ''chat_structure'', gr_name = ''Chat conversation structure'', gr_scope = scope,
             gr_status = status, gr_affected = affected, gr_message = message, gr_repair = repair\<rparr>)
      in if ct_conversations tally = 0 then result WARN [] No_conversations True
         else if ct_fault_rows tally = [] then result PASS [] (Well_formed (ct_conversations tally)) False
         else
           let has_malformed = list_ex (\<lambda>fault. dget (ct_fault_rows tally) fault \<noteq> None) CHAT_MALFORMED_FAULTS in
           result (if has_malformed \<and> block_chat_malformed t then BLOCK else WARN)
             (map nat_str (sort (ct_affected tally)))
             (Structure_issues (map (\<lambda>(fault, ns). (length ns, fault)) (sort_key fst (ct_fault_rows tally)))) True)"


section \<open>The severities of the findings\<close>

definition row_has_pii :: "runtime \<Rightarrow> string \<Rightarrow> json \<Rightarrow> bool" where
  "row_has_pii rt severity row \<longleftrightarrow>
     list_ex (\<lambda>(pt, ms). pt_severity pt = severity \<and> ms \<noteq> []) (row_matches rt row)"

definition kind_severity :: "string \<Rightarrow> string" where
  "kind_severity k = (if k = ''email'' \<or> k = ''ssn'' then ''medium'' else ''high'')"

definition graded :: "(string, pii_entry) dict \<Rightarrow> bool" where
  "graded d \<longleftrightarrow> (\<forall>k e. dget d k = Some e \<longrightarrow> pe_severity e = kind_severity k)"

definition has_grade :: "string \<Rightarrow> (string, pii_entry) dict \<Rightarrow> bool" where
  "has_grade severity d \<longleftrightarrow> (\<exists>k e. dget d k = Some e \<and> pe_severity e = severity)"

lemma row_matches_severity: "(pt, ms) \<in> set (row_matches rt row) \<Longrightarrow> pt_severity pt = kind_severity (pt_kind pt)"
  by (auto simp: row_matches_def Let_def PII_PATTERNS_def credit_card_pattern_def kind_severity_def split: if_splits)

lemma hit_entry_severity [simp]: "pe_severity (hit_entry n m sample e) = pe_severity e"
  by (simp add: hit_entry_def)

lemma record_hit_graded:
  assumes "graded d" and "pt_severity pt = kind_severity (pt_kind pt)"
  shows "graded (record_hit pt n m sample d)"
    and "has_grade sev (record_hit pt n m sample d) \<longleftrightarrow> has_grade sev d \<or> pt_severity pt = sev"
proof -
  have here: "dget (record_hit pt n m sample d) k = Some e \<Longrightarrow> k = pt_kind pt \<Longrightarrow> pe_severity e = pt_severity pt" for k e
    using assms by (auto simp: record_hit_get fresh_entry_def graded_def split: option.splits)
  have there: "k \<noteq> pt_kind pt \<Longrightarrow> dget (record_hit pt n m sample d) k = dget d k" for k
    by (simp add: record_hit_get)
  show "graded (record_hit pt n m sample d)" using assms here there unfolding graded_def by metis
  have "\<exists>e. dget (record_hit pt n m sample d) (pt_kind pt) = Some e" by (simp add: record_hit_get)
  then show "has_grade sev (record_hit pt n m sample d) \<longleftrightarrow> has_grade sev d \<or> pt_severity pt = sev"
    using assms here there unfolding graded_def has_grade_def by metis
qed

lemma record_all_graded:
  assumes "graded d" and "list_all (\<lambda>(pt, ms). pt_severity pt = kind_severity (pt_kind pt)) pms"
  shows "graded (fold (record_one n) pms d)
    \<and> (has_grade sev (fold (record_one n) pms d) \<longleftrightarrow>
         has_grade sev d \<or> list_ex (\<lambda>(pt, ms). pt_severity pt = sev \<and> ms \<noteq> []) pms)"
  using assms
proof (induction pms arbitrary: d)
  case (Cons pm pms)
  obtain pt ms where pm: "pm = (pt, ms)" by force
  show ?case
  proof (cases "ms = []")
    case True
    with Cons show ?thesis by (simp add: pm)
  next
    case False
    let ?d = "record_hit pt n (length ms) (hit_sample pt ms) d"
    from Cons.prems have pt: "pt_severity pt = kind_severity (pt_kind pt)" by (simp add: pm)
    note step = record_hit_graded [OF Cons.prems(1) pt, where n = n and m = "length ms" and sample = "hit_sample pt ms"]
    have "fold (record_one n) (pm # pms) d = fold (record_one n) pms ?d" using False by (simp add: pm)
    moreover from Cons.prems have "list_all (\<lambda>(pt, ms). pt_severity pt = kind_severity (pt_kind pt)) pms" by simp
    ultimately show ?thesis using Cons.IH [OF step(1)] False unfolding step(2) by (simp only: pm) simp
  qed
qed simp

lemma record_row_fold: "record_row rt (n, row) d = fold (record_one n) (row_matches rt row) d"
  by (simp only: record_row_def fst_conv snd_conv)

lemma detect_severity:
  "(\<exists>f\<in>set (detect_pii rt rows). pf_severity f = sev) \<longleftrightarrow> list_ex (row_has_pii rt sev) rows"
proof -
  let ?d = "for_rows (record_row rt) rows []"
  have "graded ?d \<and> (has_grade sev ?d \<longleftrightarrow> list_ex (row_has_pii rt sev) rows)"
  proof (induction rule: for_rows_inv)
    case (step ys y st)
    have "list_all (\<lambda>(pt, ms). pt_severity pt = kind_severity (pt_kind pt)) (row_matches rt y)"
      using row_matches_severity by (force simp: list_all_iff)
    from record_all_graded [OF conjunct1 [OF step] this, where n = "Suc (length ys)" and sev = sev] step
    show ?case by (simp add: record_row_fold row_has_pii_def [of rt sev y])
  qed (simp add: graded_def has_grade_def)
  moreover have "(\<exists>f\<in>set (detect_pii rt rows). pf_severity f = sev) \<longleftrightarrow> (\<exists>(k, e)\<in>set ?d. pe_severity e = sev)"
    by (force simp: detect_pii_def finding_of_def)
  moreover have "(\<exists>(k, e)\<in>set ?d. pe_severity e = sev) \<longleftrightarrow> has_grade sev ?d"
    using detect_entries [of rt rows] by (force simp: has_grade_def)
  ultimately show ?thesis by blast
qed


section \<open>When a gate blocks\<close>

named_theorems gate_verdict

lemma input_present_verdict [gate_verdict]:
  "gr_status (input_present_gate n scope b) = BLOCK \<longleftrightarrow> n = 0 \<and> b"
  by (simp add: input_present_gate_def)

lemma schema_verdict [gate_verdict]: "gr_status (schema_gate report scope) = BLOCK \<longleftrightarrow> \<not> vr_valid report"
  by (simp add: schema_gate_def)

lemma block_flagged: "BLOCK \<in> set (map fst (if c then [(if b then BLOCK else WARN, m)] else [])) \<longleftrightarrow> b \<and> c"
  by auto

lemma warn_flagged: "BLOCK \<notin> set (map fst (if c then [(WARN, m)] else []))"
  by auto

lemma quality_verdict [gate_verdict]:
  "gr_status (quality_gate report t scope) = BLOCK \<longleftrightarrow>
     (block_exact_duplicates t \<and> max_exact_duplicates t < int (qr_duplicate_exact_count report))
   \<or> (block_normalized_duplicates t \<and> max_normalized_duplicates t < int (qr_duplicate_normalized_count report))
   \<or> (block_low_information t \<and> max_low_information t < int (qr_low_information_count report))"
proof -
  have "gr_status (quality_gate report t scope) = BLOCK \<longleftrightarrow> BLOCK \<in> set (map fst (quality_excesses report t))"
    by (simp add: quality_gate_def Let_def worst_status_block_iff)
  then show ?thesis
    unfolding quality_excesses_def map_append set_append Un_iff block_flagged
    by (simp only: warn_flagged simp_thms)
qed

lemma leakage_verdict [gate_verdict]:
  "gr_status (leakage_gate report scope) = BLOCK \<longleftrightarrow> 0 < lr_rows_shared_across_splits report"
  by (simp add: leakage_gate_def Let_def)

lemma pii_verdict:
  "gr_status (pii_gate report t scope) =
     (if list_ex (\<lambda>f. pf_severity f = ''high'') (qr_pii_findings report)
      then if block_on_high_severity_pii t then BLOCK else WARN
      else if list_ex (\<lambda>f. pf_severity f = ''medium'') (qr_pii_findings report) then WARN else PASS)"
  by (auto simp: pii_gate_def Let_def list_ex_iff filter_empty_conv)

lemma pii_report_verdict:
  "gr_status (pii_gate (build_basic_quality_report rt estimate rows schema) t scope) =
     (if list_ex (row_has_pii rt ''high'') rows
      then if block_on_high_severity_pii t then BLOCK else WARN
      else if list_ex (row_has_pii rt ''medium'') rows then WARN else PASS)"
  unfolding pii_verdict report_counts detect_severity [symmetric] by (simp add: list_ex_iff)

lemma integrity_verdict [gate_verdict]:
  "gr_status (artifact_integrity_gate i scope) = BLOCK \<longleftrightarrow> i \<noteq> ''ok''"
  by (simp add: artifact_integrity_gate_def Let_def)

text \<open>A comparison is possible when both evaluations are there and share their metric.\<close>

definition comparable :: "evaluation_report option \<Rightarrow> evaluation_report option \<Rightarrow> bool" where
  "comparable before after \<longleftrightarrow> (case (before, after) of
      (Some b, Some a) \<Rightarrow> er_metric b = er_metric a | _ \<Rightarrow> False)"

definition score_dropped :: "gate_thresholds \<Rightarrow> evaluation_report option \<Rightarrow> evaluation_report option \<Rightarrow> bool" where
  "score_dropped t before after \<longleftrightarrow> score_delta (the before) (the after) < - max_regression_score_drop t"

lemma regression_verdict:
  "gr_status (regression_gate before after t provenance_ok scope) =
     (if \<not> comparable before after then WARN
      else if score_dropped t before after then BLOCK
      else if provenance_ok then PASS else WARN)"
  by (simp add: regression_gate_def comparable_def score_dropped_def regression_result_def Let_def split: option.split)

lemma gate_scopes:
  "gr_scope (regression_gate before after t ok scope) = scope"
  "gr_gate_id (regression_gate before after t ok scope) = ''regression''"
  by (simp_all add: regression_gate_def regression_result_def Let_def split: option.split)


section \<open>What the tally holds\<close>

definition row_faults :: "gate_thresholds \<Rightarrow> json \<Rightarrow> string list" where
  "row_faults t row = (case conversation row of None \<Rightarrow> [] | Some ms \<Rightarrow> conversation_faults ms t)"

definition faulty_rows :: "gate_thresholds \<Rightarrow> json list \<Rightarrow> nat list" where
  "faulty_rows t rows = map fst (filter (\<lambda>nr. row_faults t (snd nr) \<noteq> []) (enum_from 1 rows))"

lemma faulty_rows_snoc:
  "faulty_rows t (rows @ [row]) = faulty_rows t rows @ (if row_faults t row \<noteq> [] then [Suc (length rows)] else [])"
  by (simp add: faulty_rows_def)

lemma faulty_rows_le: "n \<in> set (faulty_rows t rows) \<Longrightarrow> n \<le> length rows"
  by (auto simp: faulty_rows_def enum_from_def simp del: upt_Suc dest!: set_zip_leftD)

lemma sorted_faulty_rows: "sorted (faulty_rows t rows)"
proof -
  have "sorted (map fst (enum_from 1 rows))" by (simp add: enum_from_def del: upt_Suc)
  then show ?thesis unfolding faulty_rows_def by (rule sorted_filter)
qed

lemma tally_fault_fields [simp]:
  "ct_conversations (tally_fault n fault tally) = ct_conversations tally"
  "ct_affected (tally_fault n fault tally) = List.insert n (ct_affected tally)"
  "dkeys (ct_fault_rows (tally_fault n fault tally)) = [] \<longleftrightarrow> False"
  "set (dkeys (ct_fault_rows (tally_fault n fault tally))) = insert fault (set (dkeys (ct_fault_rows tally)))"
  by (auto simp: tally_fault_def Let_def dom_update split: option.splits)

lemma tally_faults:
  "ct_conversations (fold (tally_fault n) fs tally) = ct_conversations tally"
  "set (dkeys (ct_fault_rows (fold (tally_fault n) fs tally))) = set (dkeys (ct_fault_rows tally)) \<union> set fs"
  "n \<notin> set (ct_affected tally) \<Longrightarrow>
     set (ct_affected (fold (tally_fault n) fs tally)) = set (ct_affected tally) \<union> (if fs \<noteq> [] then {n} else {})"
  "distinct (ct_affected tally) \<Longrightarrow> distinct (ct_affected (fold (tally_fault n) fs tally))"
proof -
  show "ct_conversations (fold (tally_fault n) fs tally) = ct_conversations tally"
    by (induction fs arbitrary: tally) simp_all
  show "set (dkeys (ct_fault_rows (fold (tally_fault n) fs tally))) = set (dkeys (ct_fault_rows tally)) \<union> set fs"
  proof (induction fs arbitrary: tally)
    case (Cons f fs)
    have "set (dkeys (ct_fault_rows (fold (tally_fault n) fs (tally_fault n f tally))))
        = set (dkeys (ct_fault_rows (tally_fault n f tally))) \<union> set fs" by (rule Cons.IH)
    then show ?case unfolding tally_fault_fields(4) by simp
  qed simp
  have "set (ct_affected (fold (tally_fault n) fs tally)) = set (ct_affected tally) \<union> (if fs \<noteq> [] then {n} else {})"
    by (induction fs arbitrary: tally) auto
  then show "n \<notin> set (ct_affected tally) \<Longrightarrow>
     set (ct_affected (fold (tally_fault n) fs tally)) = set (ct_affected tally) \<union> (if fs \<noteq> [] then {n} else {})" .
  show "distinct (ct_affected tally) \<Longrightarrow> distinct (ct_affected (fold (tally_fault n) fs tally))"
    by (induction fs arbitrary: tally) simp_all
qed

lemma chat_tally_holds:
  "ct_conversations (chat_tally t rows) = length (filter (\<lambda>row. conversation row \<noteq> None) rows)
   \<and> set (dkeys (ct_fault_rows (chat_tally t rows))) = (\<Union>row\<in>set rows. set (row_faults t row))
   \<and> set (ct_affected (chat_tally t rows)) = set (faulty_rows t rows)
   \<and> distinct (ct_affected (chat_tally t rows))"
  unfolding chat_tally_def
proof (rule for_rows_inv [where I = "\<lambda>rows st. ct_conversations st = length (filter (\<lambda>row. conversation row \<noteq> None) rows)
   \<and> set (dkeys (ct_fault_rows st)) = (\<Union>row\<in>set rows. set (row_faults t row))
   \<and> set (ct_affected st) = set (faulty_rows t rows) \<and> distinct (ct_affected st)"], goal_cases init step)
  case (step ys y st)
  show ?case
  proof (cases "conversation y")
    case None
    with step show ?thesis by (simp add: tally_row_def row_faults_def faulty_rows_snoc)
  next
    case (Some ms)
    let ?st = "st\<lparr>ct_conversations := ct_conversations st + 1\<rparr>"
    have new: "tally_row t (Suc (length ys), y) st = fold (tally_fault (Suc (length ys))) (row_faults t y) ?st"
      by (simp add: tally_row_def Some row_faults_def)
    have f: "Suc (length ys) \<notin> set (ct_affected ?st)" "distinct (ct_affected ?st)"
      using step faulty_rows_le by fastforce+
    show ?thesis
      unfolding new tally_faults(1,2) tally_faults(3) [OF f(1)] using step tally_faults(4) [OF f(2)]
      by (simp add: Some faulty_rows_snoc Un_commute)
  qed
qed (simp add: faulty_rows_def)

lemma sorted_affected: "sort (ct_affected (chat_tally t rows)) = faulty_rows t rows"
proof (rule sorted_distinct_set_unique)
  have "distinct (map fst (enum_from 1 rows))" by (simp add: enum_from_def del: upt_Suc)
  then show "distinct (faulty_rows t rows)" unfolding faulty_rows_def by (rule distinct_map_filter)
qed (use chat_tally_holds [of t rows] sorted_faulty_rows in auto)


section \<open>A well-formed conversation\<close>

abbreviation "sys \<equiv> JStr ''system''"
abbreviation "usr \<equiv> JStr ''user''"
abbreviation "asst \<equiv> JStr ''assistant''"

text \<open>One or more exchanges, each a user turn answered by the assistant.\<close>

fun exchanges :: "json list \<Rightarrow> bool" where
  "exchanges [u, a] = (u = usr \<and> a = asst)"
| "exchanges (u # a # rest) = (u = usr \<and> a = asst \<and> exchanges rest)"
| "exchanges _ = False"

definition well_formed_roles :: "json list \<Rightarrow> bool" where
  "well_formed_roles roles \<longleftrightarrow> exchanges roles \<or> (roles \<noteq> [] \<and> hd roles = sys \<and> exchanges (tl roles))"

lemma repeats_role_Cons:
  "repeats_role (x # y # rs) \<longleftrightarrow> (x \<noteq> JNull \<and> py_eq x y) \<or> repeats_role (y # rs)"
  by (simp add: repeats_role_def)

lemma repeats_role_short [simp]: "\<not> repeats_role []" "\<not> repeats_role [x]"
  by (simp_all add: repeats_role_def)

lemma exchanges_set: "exchanges rs \<Longrightarrow> set rs = {usr, asst}"
  by (induction rs rule: exchanges.induct) auto

lemma exchanges_iff:
  assumes "set rs \<subseteq> {usr, asst}"
  shows "exchanges rs \<longleftrightarrow> rs \<noteq> [] \<and> hd rs = usr \<and> last rs = asst \<and> \<not> repeats_role rs"
  using assms
proof (induction rs rule: exchanges.induct)
  case (2 u a v rest)
  show ?case
  proof (cases "u = usr \<and> a = asst")
    case True
    have "py_eq asst v \<longleftrightarrow> v \<noteq> usr" using 2(2) by auto
    with 2 True show ?thesis by (auto simp: repeats_role_Cons)
  next
    case False
    with 2(2) show ?thesis by (auto simp: repeats_role_Cons)
  qed
qed (auto simp: repeats_role_Cons)

lemma system_misplaced_iff:
  "system_misplaced roles \<longleftrightarrow> sys \<in> set (tl roles)"
proof (cases roles)
  case (Cons r rs)
  have shift: "sys \<in> set rs \<longleftrightarrow> filter (\<lambda>ir. snd ir = sys) (enum_from 1 rs) \<noteq> []"
  proof -
    have "set rs = snd ` set (enum_from 1 rs)" by (simp flip: set_map)
    then show ?thesis by (force simp: filter_empty_conv)
  qed
  have pos: "i \<noteq> 0" if "(i, r) \<in> set (enum_from 1 rs)" for i r
    using that by (auto simp: enum_from_def simp del: upt_Suc dest!: set_zip_leftD)
  have "enum_from 0 roles = (0, r) # enum_from 1 rs" by (simp add: Cons)
  moreover have "list_ex (\<lambda>i. i \<noteq> 0) (map fst (filter (\<lambda>ir. snd ir = sys) (enum_from 1 rs)))
      \<longleftrightarrow> filter (\<lambda>ir. snd ir = sys) (enum_from 1 rs) \<noteq> []"
  proof (cases "filter (\<lambda>ir. snd ir = sys) (enum_from 1 rs)")
    case (Cons ir irs)
    then have "ir \<in> set (filter (\<lambda>ir. snd ir = sys) (enum_from 1 rs))" by simp
    then have "ir \<in> set (enum_from 1 rs)" by simp
    with pos [of "fst ir" "snd ir"] have "fst ir \<noteq> 0" by simp
    with Cons show ?thesis by simp
  qed simp
  ultimately show ?thesis by (auto simp: system_misplaced_def Let_def Cons shift)
qed (simp add: system_misplaced_def enum_from_def)

lemma exchanges_faultless:
  assumes "set rs \<subseteq> {usr, asst}"
  shows "exchanges rs \<longleftrightarrow> usr \<in> set rs \<and> asst \<in> set rs \<and> hd rs \<noteq> asst \<and> last rs \<noteq> usr \<and> \<not> repeats_role rs"
proof
  assume e: "exchanges rs"
  then show "usr \<in> set rs \<and> asst \<in> set rs \<and> hd rs \<noteq> asst \<and> last rs \<noteq> usr \<and> \<not> repeats_role rs"
    using exchanges_set [OF e] exchanges_iff [OF assms] by simp
next
  assume r: "usr \<in> set rs \<and> asst \<in> set rs \<and> hd rs \<noteq> asst \<and> last rs \<noteq> usr \<and> \<not> repeats_role rs"
  then have "rs \<noteq> []" by auto
  then have "hd rs \<in> {usr, asst}" "last rs \<in> {usr, asst}" using assms by (meson hd_in_set last_in_set subsetD)+
  with r \<open>rs \<noteq> []\<close> show "exchanges rs" by (simp add: exchanges_iff [OF assms])
qed

lemma exchanges_no_system: "exchanges rs \<Longrightarrow> sys \<notin> set rs"
  by (auto dest: exchanges_set)

lemma well_formed_iff:
  assumes "set roles \<subseteq> {sys, usr, asst}"
  shows "well_formed_roles roles \<longleftrightarrow> sys \<notin> set (tl roles) \<and> usr \<in> set roles \<and> asst \<in> set roles
     \<and> \<not> (filter (\<lambda>r. r \<noteq> sys) roles \<noteq> [] \<and> hd (filter (\<lambda>r. r \<noteq> sys) roles) = asst)
     \<and> last roles \<noteq> usr \<and> last roles \<noteq> sys \<and> \<not> repeats_role roles"
proof (cases "sys \<in> set (tl roles)")
  case True
  have "\<not> exchanges roles" using True exchanges_no_system [of roles] by (cases roles) auto
  with True show ?thesis using exchanges_no_system by (auto simp: well_formed_roles_def)
next
  case False
  define body where "body = filter (\<lambda>r. r \<noteq> sys) roles"
  have split: "roles = (if roles \<noteq> [] \<and> hd roles = sys then [sys] else []) @ body"
  proof -
    have "filter (\<lambda>r. r \<noteq> sys) rs = rs" if "sys \<notin> set rs" for rs
      using that by (auto intro: filter_True)
    with False show ?thesis by (cases roles) (auto simp: body_def)
  qed
  have body: "set body \<subseteq> {usr, asst}" using assms by (auto simp: body_def)
  note short = exchanges_faultless [OF body]
  have last_sys: "last body \<noteq> sys" if "body \<noteq> []"
    using subsetD [OF body last_in_set [OF that]] by auto
  show ?thesis
  proof (cases "roles \<noteq> [] \<and> hd roles = sys")
    case True
    with split have roles: "roles = sys # body" by simp
    have "\<not> exchanges roles" using exchanges_no_system [of roles] by (auto simp: roles)
    moreover have "repeats_role roles \<longleftrightarrow> repeats_role body"
      using body by (cases body) (auto simp: roles repeats_role_Cons)
    ultimately show ?thesis
      unfolding body_def [symmetric] well_formed_roles_def using False last_sys by (auto simp: roles short)
  next
    case False
    with split have "body = roles" by auto
    then have f: "filter (\<lambda>r. r \<noteq> sys) roles = roles" and e: "exchanges roles \<longleftrightarrow> usr \<in> set roles \<and> asst \<in> set roles
        \<and> hd roles \<noteq> asst \<and> last roles \<noteq> usr \<and> \<not> repeats_role roles" and l: "roles \<noteq> [] \<longrightarrow> last roles \<noteq> sys"
      using short last_sys by (simp_all add: body_def)
    show ?thesis
      unfolding f well_formed_roles_def e using \<open>sys \<notin> set (tl roles)\<close> False l by auto
  qed
qed


section \<open>Properties\<close>

text \<open>The fault check accepts exactly the well-formed conversations. When every message has
  the role system, user or assistant, no fault is found if and only if the number of messages
  is within the configured bounds, no turn is blank, and the roles are an optional system
  message followed by one or more exchanges of a user turn and an assistant turn.\<close>

theorem faultless_iff_well_formed:
  assumes "set (map message_role ms) \<subseteq> {sys, usr, asst}"
  shows "conversation_faults ms t = [] \<longleftrightarrow>
     min_chat_turns t \<le> int (length ms) \<and> (max_chat_turns t \<le> 0 \<or> int (length ms) \<le> max_chat_turns t)
   \<and> \<not> list_ex empty_turn ms \<and> well_formed_roles (map message_role ms)"
proof -
  have tool: "ms \<noteq> [] \<Longrightarrow> last (map message_role ms) \<noteq> JStr ''tool''"
    using subsetD [OF assms last_in_set] by fastforce
  have given: "usr \<in> set (map message_role ms) \<Longrightarrow> ms \<noteq> []" by auto
  show ?thesis
    unfolding well_formed_iff [OF assms] conversation_faults_def Let_def system_misplaced_iff
    using tool given by auto
qed

definition good_chat :: "json list" where
  "good_chat = [JObj [(''role'', sys), (''content'', JStr ''s'')], JObj [(''role'', usr), (''content'', JStr ''q'')],
     JObj [(''role'', asst), (''content'', JStr ''a'')]]"

theorem faultless_iff_well_formed_witness:
  "conversation_faults good_chat default_thresholds = [] \<and> conversation_faults (rev good_chat) default_thresholds \<noteq> []"
proof -
  have "well_formed_roles (map message_role good_chat)" "\<not> list_ex empty_turn good_chat"
    "\<not> well_formed_roles (map message_role (rev good_chat))"
    by (simp_all add: well_formed_roles_def good_chat_def message_role_def empty_turn_def strip_def strip_with_def is_space_def)
  moreover have "set (map message_role good_chat) \<subseteq> {sys, usr, asst}" "length good_chat = 3"
    by (simp_all add: good_chat_def message_role_def)
  ultimately show ?thesis
    using faultless_iff_well_formed [of good_chat default_thresholds]
      faultless_iff_well_formed [of "rev good_chat" default_thresholds]
    by (simp add: default_thresholds_def)
qed

text \<open>The chat gate judges every conversation. It passes exactly when there is a conversation
  and none has a fault, it blocks exactly when blocking is configured and some conversation has
  a fault that breaks training, and it names exactly the rows with a fault, in order.\<close>

theorem chat_gate_is_exact:
  "let g = chat_structure_gate rows t scope in
     (gr_status g = PASS \<longleftrightarrow> list_ex (\<lambda>row. conversation row \<noteq> None) rows \<and> list_all (\<lambda>row. row_faults t row = []) rows)
   \<and> (gr_status g = BLOCK \<longleftrightarrow> block_chat_malformed t
        \<and> list_ex (\<lambda>row. set (row_faults t row) \<inter> set CHAT_MALFORMED_FAULTS \<noteq> {}) rows)
   \<and> gr_affected g = map nat_str (faulty_rows t rows)"
proof -
  let ?tally = "chat_tally t rows"
  have n: "ct_conversations ?tally = 0 \<longleftrightarrow> \<not> list_ex (\<lambda>row. conversation row \<noteq> None) rows"
    using chat_tally_holds [of t rows] by (auto simp: filter_empty_conv list_ex_iff)
  have keys: "set (dkeys (ct_fault_rows ?tally)) = (\<Union>row\<in>set rows. set (row_faults t row))"
    using chat_tally_holds by blast
  then have none: "ct_fault_rows ?tally = [] \<longleftrightarrow> list_all (\<lambda>row. row_faults t row = []) rows"
    by (cases "ct_fault_rows ?tally") (fastforce simp: list_all_iff)+
  have malformed: "list_ex (\<lambda>fault. dget (ct_fault_rows ?tally) fault \<noteq> None) CHAT_MALFORMED_FAULTS
      \<longleftrightarrow> list_ex (\<lambda>row. set (row_faults t row) \<inter> set CHAT_MALFORMED_FAULTS \<noteq> {}) rows"
    using keys by (auto simp: list_ex_iff map_of_eq_None_iff)
  have quiet: "ct_conversations ?tally = 0 \<Longrightarrow> list_all (\<lambda>row. row_faults t row = []) rows"
    unfolding n by (auto simp: list_all_iff list_ex_iff row_faults_def split: option.split)
  have clean: "list_all (\<lambda>row. row_faults t row = []) rows \<Longrightarrow> faulty_rows t rows = []
      \<and> \<not> list_ex (\<lambda>row. set (row_faults t row) \<inter> set CHAT_MALFORMED_FAULTS \<noteq> {}) rows"
    by (auto simp: faulty_rows_def list_all_iff list_ex_iff filter_empty_conv enum_from_def dest: set_zip_rightD)
  show ?thesis
    unfolding chat_structure_gate_def Let_def none malformed sorted_affected
    using quiet clean n by (simp split: if_split) blast
qed

end
