(* ===== verification/Checkpoint.thy ===== *)
theory Checkpoint
  imports Version_Store Validator
begin

text \<open>
  Checkpoints and exact resume lineage (\<open>platform/checkpoint.py\<close>, with the contracts of
  \<open>platform/contracts.py\<close> it seals): the manifest and its canonical hash, its atomic write, the
  fail-closed verification of a checkpoint directory, and the admission of a resume. The files
  of a directory are a function from relative paths to what the file system says of them;
  \<open>parse\<close> and \<open>dump\<close> are pydantic's reader and writer of a manifest and are parameters.
\<close>

section \<open>Contracts\<close>

record hash_ref =
  hr_algo :: string
  hr_value :: "string option"

record ref =
  rf_id :: string
  rf_hash :: "hash_ref option"

record file_entry =
  fe_path :: string
  fe_role :: string
  fe_sha256 :: string
  fe_size_bytes :: int

record training_state =
  ts_optimizer_captured :: bool
  ts_scheduler_captured :: bool
  ts_scaler_captured :: bool
  ts_rng_captured :: bool
  ts_sampler_state_captured :: bool
  ts_rng_algorithm :: "string option"
  ts_epoch :: rat
  ts_global_optimizer_step :: int
  ts_microstep_within_step :: int
  ts_gradient_accumulation_steps :: int
  ts_consumed_microsteps :: int

record bound_identities =
  bi_plan_hash :: string
  bi_execution_configuration_hash :: string
  bi_backend_ref :: ref
  bi_environment_lock_hash :: "string option"
  bi_worker_wheel_sha256 :: "string option"
  bi_model_ref :: ref
  bi_tokenizer_ref :: ref
  bi_dataset_ref :: ref
  bi_chat_template_sha256 :: "string option"
  bi_formatter_sha256 :: "string option"
  bi_objective_ref :: ref
  bi_seed :: int
  bi_data_seed :: int

record checkpoint_manifest =
  cm_checkpoint_id :: string
  cm_hash :: string
  cm_source_run_id :: string
  cm_parent_checkpoint_id :: "string option"
  cm_parent_checkpoint_hash :: "string option"
  cm_created_at :: string
  cm_complete :: bool
  cm_bound :: bound_identities
  cm_state :: training_state
  cm_files :: "file_entry list"

record resume_lineage =
  rl_parent_run_id :: string
  rl_parent_checkpoint_id :: string
  rl_parent_checkpoint_hash :: string
  rl_resumed_from_global_step :: int

record resume_request =
  rq_checkpoint_id :: string
  rq_checkpoint_manifest_hash :: string
  rq_checkpoint_dir :: string

text \<open>The patterns: pydantic's \<open>$\<close> matches at the very end only.\<close>

definition sha256_pattern :: "string \<Rightarrow> bool" where
  "sha256_pattern s \<longleftrightarrow> length s = 64 \<and>
     list_all (\<lambda>c. let n = (of_char c :: nat) in (48 \<le> n \<and> n \<le> 57) \<or> (97 \<le> n \<and> n \<le> 102)) s"

definition id_pattern :: "string \<Rightarrow> bool" where
  "id_pattern s \<longleftrightarrow> s \<noteq> [] \<and> list_all id_char s"

definition opt_ok :: "('a \<Rightarrow> bool) \<Rightarrow> 'a option \<Rightarrow> bool" where
  "opt_ok p x = (case x of None \<Rightarrow> True | Some v \<Rightarrow> p v)"

definition FILE_ROLES :: "string list" where
  "FILE_ROLES = [''optimizer'', ''scheduler'', ''scaler'', ''rng'', ''sampler'', ''trainer_state'',
     ''adapter_weights'', ''other'']"

text \<open>\<open>str(PurePosixPath(path))\<close> of a relative path; the empty path prints as a dot.\<close>

definition posix_str :: "string \<Rightarrow> string" where
  "posix_str path = (if posix_parts path = [] then ''.'' else join ''/'' (posix_parts path))"

definition file_entry_ok :: "file_entry \<Rightarrow> bool" where
  "file_entry_ok e \<longleftrightarrow> fe_path e \<noteq> [] \<and> fe_role e \<in> set FILE_ROLES \<and> sha256_pattern (fe_sha256 e) \<and> 0 \<le> fe_size_bytes e
     \<and> \<not> (posix_absolute (fe_path e) \<or> ''..'' \<in> set (posix_parts (fe_path e))
          \<or> ''.'' \<in> set (posix_parts (fe_path e)) \<or> posix_str (fe_path e) \<noteq> fe_path e)"

definition training_state_ok :: "training_state \<Rightarrow> bool" where
  "training_state_ok s \<longleftrightarrow> ts_optimizer_captured s \<and> 0 \<le> ts_epoch s \<and> 1 \<le> ts_global_optimizer_step s
     \<and> 0 \<le> ts_microstep_within_step s \<and> 1 \<le> ts_gradient_accumulation_steps s \<and> 0 \<le> ts_consumed_microsteps s
     \<and> \<not> ts_gradient_accumulation_steps s \<le> ts_microstep_within_step s
     \<and> \<not> (ts_rng_captured s \<and> (ts_rng_algorithm s = None \<or> ts_rng_algorithm s = Some []))"

definition bound_ok :: "bound_identities \<Rightarrow> bool" where
  "bound_ok b \<longleftrightarrow> sha256_pattern (bi_plan_hash b) \<and> sha256_pattern (bi_execution_configuration_hash b)
     \<and> list_all (\<lambda>r. rf_id r \<noteq> []) [bi_backend_ref b, bi_model_ref b, bi_tokenizer_ref b, bi_dataset_ref b, bi_objective_ref b]
     \<and> list_all (opt_ok sha256_pattern) [bi_environment_lock_hash b, bi_worker_wheel_sha256 b,
          bi_chat_template_sha256 b, bi_formatter_sha256 b]
     \<and> 0 \<le> bi_seed b \<and> 0 \<le> bi_data_seed b"

definition manifest_ok :: "checkpoint_manifest \<Rightarrow> bool" where
  "manifest_ok m \<longleftrightarrow> id_pattern (cm_checkpoint_id m) \<and> sha256_pattern (cm_hash m) \<and> id_pattern (cm_source_run_id m)
     \<and> opt_ok id_pattern (cm_parent_checkpoint_id m) \<and> opt_ok sha256_pattern (cm_parent_checkpoint_hash m)
     \<and> bound_ok (cm_bound m) \<and> training_state_ok (cm_state m) \<and> list_all file_entry_ok (cm_files m)
     \<and> cm_files m \<noteq> []
     \<and> (let paths = map fe_path (cm_files m) in paths = sort paths \<and> distinct paths)
     \<and> list_ex (\<lambda>e. fe_role e = ''optimizer'') (cm_files m)
     \<and> (cm_parent_checkpoint_id m = None \<longleftrightarrow> cm_parent_checkpoint_hash m = None)
     \<and> cm_parent_checkpoint_id m \<noteq> Some (cm_checkpoint_id m)"


section \<open>The canonical hash\<close>

text \<open>\<open>model_dump(mode="json")\<close>: the fields in declaration order.\<close>

definition opt_json :: "string option \<Rightarrow> json" where
  "opt_json x = (case x of None \<Rightarrow> JNull | Some s \<Rightarrow> JStr s)"

definition hash_ref_json :: "hash_ref \<Rightarrow> json" where
  "hash_ref_json h = JObj [(''algo'', JStr (hr_algo h)), (''value'', opt_json (hr_value h))]"

definition ref_json :: "ref \<Rightarrow> json" where
  "ref_json r = JObj [(''id'', JStr (rf_id r)),
     (''hash'', case rf_hash r of None \<Rightarrow> JNull | Some h \<Rightarrow> hash_ref_json h)]"

definition file_entry_json :: "file_entry \<Rightarrow> json" where
  "file_entry_json e = JObj [(''path'', JStr (fe_path e)), (''role'', JStr (fe_role e)),
     (''sha256'', JStr (fe_sha256 e)), (''size_bytes'', JInt (fe_size_bytes e))]"

definition training_state_json :: "training_state \<Rightarrow> json" where
  "training_state_json s = JObj [(''optimizer_captured'', JBool (ts_optimizer_captured s)),
     (''scheduler_captured'', JBool (ts_scheduler_captured s)), (''scaler_captured'', JBool (ts_scaler_captured s)),
     (''rng_captured'', JBool (ts_rng_captured s)), (''sampler_state_captured'', JBool (ts_sampler_state_captured s)),
     (''rng_algorithm'', opt_json (ts_rng_algorithm s)), (''epoch'', JFloat (ts_epoch s)),
     (''global_optimizer_step'', JInt (ts_global_optimizer_step s)),
     (''microstep_within_step'', JInt (ts_microstep_within_step s)),
     (''gradient_accumulation_steps'', JInt (ts_gradient_accumulation_steps s)),
     (''consumed_microsteps'', JInt (ts_consumed_microsteps s))]"

definition bound_json :: "bound_identities \<Rightarrow> json" where
  "bound_json b = JObj [(''plan_hash'', JStr (bi_plan_hash b)),
     (''execution_configuration_hash'', JStr (bi_execution_configuration_hash b)),
     (''backend_ref'', ref_json (bi_backend_ref b)), (''environment_lock_hash'', opt_json (bi_environment_lock_hash b)),
     (''worker_wheel_sha256'', opt_json (bi_worker_wheel_sha256 b)), (''model_ref'', ref_json (bi_model_ref b)),
     (''tokenizer_ref'', ref_json (bi_tokenizer_ref b)), (''dataset_ref'', ref_json (bi_dataset_ref b)),
     (''chat_template_sha256'', opt_json (bi_chat_template_sha256 b)),
     (''formatter_sha256'', opt_json (bi_formatter_sha256 b)), (''objective_ref'', ref_json (bi_objective_ref b)),
     (''seed'', JInt (bi_seed b)), (''data_seed'', JInt (bi_data_seed b))]"

definition manifest_payload :: "checkpoint_manifest \<Rightarrow> json" where
  "manifest_payload m = JObj [(''contract_version'', JStr ''1.0.0''), (''schema_kind'', JStr ''checkpoint-manifest-v1''),
     (''checkpoint_id'', JStr (cm_checkpoint_id m)), (''source_run_id'', JStr (cm_source_run_id m)),
     (''parent_checkpoint_id'', opt_json (cm_parent_checkpoint_id m)),
     (''parent_checkpoint_hash'', opt_json (cm_parent_checkpoint_hash m)),
     (''created_at'', JStr (cm_created_at m)), (''complete'', JBool (cm_complete m)),
     (''bound'', bound_json (cm_bound m)), (''state'', training_state_json (cm_state m)),
     (''files'', JList (map file_entry_json (cm_files m)))]"

definition manifest_hash :: "runtime \<Rightarrow> json \<Rightarrow> string" where
  "manifest_hash rt payload = sha256_hex rt (utf8 (dumps_compact rt payload))"

definition verify_manifest_hash :: "runtime \<Rightarrow> checkpoint_manifest \<Rightarrow> bool" where
  "verify_manifest_hash rt m \<longleftrightarrow> cm_hash m = manifest_hash rt (manifest_payload m)"

definition seal_manifest :: "runtime \<Rightarrow> checkpoint_manifest \<Rightarrow> checkpoint_manifest" where
  "seal_manifest rt m =
     (let completed = m\<lparr>cm_complete := True, cm_hash := replicate 64 (CHR ''0'')\<rparr>;
          digest = manifest_hash rt (manifest_payload completed)
      in completed\<lparr>cm_hash := digest\<rparr>)"


section \<open>The directory\<close>

text \<open>What the file system says of one member: a path with no file is one that is not a file.\<close>

record member =
  mb_symlink :: bool
  mb_contained :: bool
  mb_is_file :: bool
  mb_nlink :: nat
  mb_bytes :: bytes

record checkpoint_dir =
  cd_manifest :: "bytes option"
  cd_tmp :: "bytes option"
  cd_member :: "string \<Rightarrow> member"

datatype checkpoint_reason = Missing_file | Malformed | Incomplete | Hash_mismatch | Unsafe_path
  | External_change | Incompatible | Ambiguous

definition load_checkpoint_manifest ::
  "(bytes \<Rightarrow> checkpoint_manifest option) \<Rightarrow> checkpoint_dir \<Rightarrow> checkpoint_reason + checkpoint_manifest" where
  "load_checkpoint_manifest parse d = (case cd_manifest d of
      None \<Rightarrow> Inl Missing_file
    | Some text \<Rightarrow> (case parse text of
          None \<Rightarrow> Inl Malformed
        | Some m \<Rightarrow> if manifest_ok m then Inr m else Inl Malformed))"

definition safe_member :: "member \<Rightarrow> checkpoint_reason + bytes" where
  "safe_member f =
     (if mb_symlink f then Inl Unsafe_path
      else if \<not> mb_contained f then Inl Unsafe_path
      else if \<not> mb_is_file f \<or> mb_symlink f then Inl Missing_file
      else if 1 < mb_nlink f then Inl Unsafe_path
      else Inr (mb_bytes f))"

fun verify_files :: "runtime \<Rightarrow> checkpoint_dir \<Rightarrow> file_entry list \<Rightarrow> checkpoint_reason option" where
  "verify_files rt d [] = None"
| "verify_files rt d (e # es) = (case safe_member (cd_member d (fe_path e)) of
      Inl r \<Rightarrow> Some r
    | Inr content \<Rightarrow>
        if int (length content) \<noteq> fe_size_bytes e \<or> sha256_hex rt content \<noteq> fe_sha256 e then Some External_change
        else verify_files rt d es)"

definition verify_checkpoint_integrity ::
  "runtime \<Rightarrow> (bytes \<Rightarrow> checkpoint_manifest option) \<Rightarrow> checkpoint_dir \<Rightarrow> checkpoint_reason + checkpoint_manifest" where
  "verify_checkpoint_integrity rt parse d = (case load_checkpoint_manifest parse d of
      Inl r \<Rightarrow> Inl r
    | Inr m \<Rightarrow>
        if \<not> cm_complete m then Inl Incomplete
        else if \<not> verify_manifest_hash rt m then Inl Hash_mismatch
        else (case verify_files rt d (cm_files m) of Some r \<Rightarrow> Inl r | None \<Rightarrow> Inr m))"

definition verify_matches_request :: "checkpoint_manifest \<Rightarrow> resume_request \<Rightarrow> checkpoint_reason option" where
  "verify_matches_request m rq =
     (if cm_checkpoint_id m \<noteq> rq_checkpoint_id rq then Some Incompatible
      else if cm_hash m \<noteq> rq_checkpoint_manifest_hash rq then Some Incompatible
      else None)"

text \<open>The write in the places a crash can interrupt it: before, with part of the temporary file,
  with all of it, and after the rename.\<close>

datatype write_point = Not_started | Partly_written nat | All_written | Renamed

fun write_checkpoint_manifest ::
  "(checkpoint_manifest \<Rightarrow> bytes) \<Rightarrow> checkpoint_manifest \<Rightarrow> write_point \<Rightarrow> checkpoint_dir \<Rightarrow> checkpoint_dir" where
  "write_checkpoint_manifest dump m Not_started d = d"
| "write_checkpoint_manifest dump m (Partly_written n) d = d\<lparr>cd_tmp := Some (take n (dump m))\<rparr>"
| "write_checkpoint_manifest dump m All_written d = d\<lparr>cd_tmp := Some (dump m)\<rparr>"
| "write_checkpoint_manifest dump m Renamed d = d\<lparr>cd_tmp := None, cd_manifest := Some (dump m)\<rparr>"


section \<open>Compatibility and admission\<close>

record resolved_execution =
  ex_environment_binding :: string
  ex_environment_ref :: ref
  ex_backend_ref :: ref
  ex_configuration_hash :: string
  ex_model_ref :: ref
  ex_tokenizer_ref :: ref
  ex_dataset_ref :: ref
  ex_chat_template_sha256 :: "string option"
  ex_objective_ref :: ref
  ex_seed :: int
  ex_data_seed :: int

record run_plan =
  rp_plan_hash :: string
  rp_resolved_execution :: "resolved_execution option"

definition bound_identities_from_plan ::
  "run_plan \<Rightarrow> string option \<Rightarrow> checkpoint_reason + bound_identities" where
  "bound_identities_from_plan plan worker_wheel = (case rp_resolved_execution plan of
      None \<Rightarrow> Inl Ambiguous
    | Some ex \<Rightarrow> Inr
        \<lparr>bi_plan_hash = rp_plan_hash plan, bi_execution_configuration_hash = ex_configuration_hash ex,
         bi_backend_ref = ex_backend_ref ex,
         bi_environment_lock_hash =
           (if ex_environment_binding ex = ''managed_lock''
            then (case rf_hash (ex_environment_ref ex) of None \<Rightarrow> None | Some h \<Rightarrow> hr_value h) else None),
         bi_worker_wheel_sha256 = worker_wheel, bi_model_ref = ex_model_ref ex, bi_tokenizer_ref = ex_tokenizer_ref ex,
         bi_dataset_ref = ex_dataset_ref ex, bi_chat_template_sha256 = ex_chat_template_sha256 ex,
         bi_formatter_sha256 = None, bi_objective_ref = ex_objective_ref ex, bi_seed = ex_seed ex,
         bi_data_seed = ex_data_seed ex\<rparr>)"

definition ref_identity :: "ref \<Rightarrow> string \<times> string option" where
  "ref_identity r = (rf_id r, case rf_hash r of None \<Rightarrow> None | Some h \<Rightarrow> hr_value h)"

text \<open>The values \<open>getattr\<close> yields for \<open>_PLAN_DERIVABLE_FIELDS\<close>, a reference by its identity.\<close>

datatype field_value = Hash_field string | Lock_field "string option" | Ref_field "string \<times> string option" | Seed_field int

definition plan_derivable :: "bound_identities \<Rightarrow> field_value list" where
  "plan_derivable b = [Hash_field (bi_plan_hash b), Hash_field (bi_execution_configuration_hash b),
     Lock_field (bi_environment_lock_hash b), Ref_field (ref_identity (bi_model_ref b)),
     Ref_field (ref_identity (bi_tokenizer_ref b)), Ref_field (ref_identity (bi_dataset_ref b)),
     Ref_field (ref_identity (bi_objective_ref b)), Seed_field (bi_seed b), Seed_field (bi_data_seed b)]"

definition verify_resumable_into :: "checkpoint_manifest \<Rightarrow> run_plan \<Rightarrow> checkpoint_reason option" where
  "verify_resumable_into m plan = (case bound_identities_from_plan plan None of
      Inl r \<Rightarrow> Some r
    | Inr target \<Rightarrow>
        let bound = cm_bound m in
        if ref_identity (bi_backend_ref bound) \<noteq> ref_identity (bi_backend_ref target) then Some Incompatible
        else if list_ex (\<lambda>(b, t). b \<noteq> t) (zip (plan_derivable bound) (plan_derivable target)) then Some Incompatible
        else if bi_chat_template_sha256 target \<noteq> None \<and> bi_chat_template_sha256 bound \<noteq> None
          \<and> bi_chat_template_sha256 target \<noteq> bi_chat_template_sha256 bound then Some Incompatible
        else None)"

definition admit_resume ::
  "runtime \<Rightarrow> (bytes \<Rightarrow> checkpoint_manifest option) \<Rightarrow> run_plan \<Rightarrow> checkpoint_dir \<Rightarrow> string
     \<Rightarrow> checkpoint_reason + resume_lineage" where
  "admit_resume rt parse plan d resumed_run_id = (case verify_checkpoint_integrity rt parse d of
      Inl r \<Rightarrow> Inl r
    | Inr m \<Rightarrow> (case verify_resumable_into m plan of
          Some r \<Rightarrow> Inl r
        | None \<Rightarrow>
            if resumed_run_id = cm_source_run_id m then Inl Ambiguous
            else Inr \<lparr>rl_parent_run_id = cm_source_run_id m, rl_parent_checkpoint_id = cm_checkpoint_id m,
              rl_parent_checkpoint_hash = cm_hash m,
              rl_resumed_from_global_step = ts_global_optimizer_step (cm_state m)\<rparr>))"


section \<open>The payload determines the manifest\<close>

lemma canon_get:
  assumes "canon (JObj a) = canon (JObj b)" and "distinct (dkeys a)" and "distinct (dkeys b)"
  shows "map_option canon (dget a k) = map_option canon (dget b k)"
proof -
  let ?g = "\<lambda>kv. (fst kv, canon (snd kv))"
  have get: "map_of (sort_key fst (map ?g kvs)) k = map_option canon (dget kvs k)"
    if "distinct (dkeys kvs)" for kvs :: "(string, json) dict"
  proof -
    have d: "distinct (map fst (map ?g kvs))" using that by (simp add: comp_def)
    have "mset (map fst (sort_key fst (map ?g kvs))) = mset (map fst (map ?g kvs))" by (simp del: map_map)
    from mset_eq_imp_distinct_iff [OF this] d have "distinct (map fst (sort_key fst (map ?g kvs)))" by simp
    then have "map_of (sort_key fst (map ?g kvs)) = map_of (map ?g kvs)"
      using d by (intro map_of_inject_set [THEN iffD2]) simp_all
    then have "map_of (sort_key fst (map ?g kvs)) k = map_of (map ?g kvs) k" by simp
    also have "\<dots> = map_option canon (dget kvs k)" by (induction kvs) auto
    finally show ?thesis .
  qed
  from assms(1) have "sort_key fst (map ?g a) = sort_key fst (map ?g b)" by simp
  with get [OF assms(2)] get [OF assms(3)] show ?thesis by metis
qed

text \<open>Two objects written with the same keys in the same order have the same values.\<close>

lemma canon_values:
  assumes "canon (JObj a) = canon (JObj b)" and "dkeys a = dkeys b" and "distinct (dkeys a)"
  shows "map canon (map snd a) = map canon (map snd b)"
proof (rule nth_equalityI)
  from assms(2) have len: "length a = length b" by (metis length_map)
  then show "length (map canon (map snd a)) = length (map canon (map snd b))" by simp
  fix i assume "i < length (map canon (map snd a))"
  then have i: "i < length a" "i < length b" using len by simp_all
  then have k: "fst (b ! i) = fst (a ! i)" using assms(2) by (metis nth_map)
  have get: "dget d (fst (d ! i)) = Some (snd (d ! i))" if "distinct (dkeys d)" "i < length d" for d :: "(string, json) dict"
    using that by simp
  have "map_option canon (dget a (fst (a ! i))) = map_option canon (dget b (fst (a ! i)))"
    using assms by (intro canon_get) simp_all
  with get [OF assms(3) i(1)] get [of b] assms(2,3) i(2) k show "map canon (map snd a) ! i = map canon (map snd b) ! i"
    using i by (simp del: map_of_eq_Some_iff)
qed

lemma canon_object_eq:
  assumes "dkeys a = dkeys b" and "distinct (dkeys a)"
  shows "canon (JObj a) = canon (JObj b) \<longleftrightarrow> map canon (map snd a) = map canon (map snd b)"
proof
  assume v: "map canon (map snd a) = map canon (map snd b)"
  have z: "map (\<lambda>kv. (fst kv, canon (snd kv))) d = zip (dkeys d) (map canon (map snd d))" for d
    by (induction d) auto
  have "map (\<lambda>kv. (fst kv, canon (snd kv))) a = map (\<lambda>kv. (fst kv, canon (snd kv))) b"
    unfolding z [of a] z [of b] v assms(1) ..
  then show "canon (JObj a) = canon (JObj b)" by (simp only: canon.simps)
qed (rule canon_values [OF _ assms])

lemma canon_leaf [simp]:
  "canon (JStr s) = canon (JStr t) \<longleftrightarrow> s = t" "canon (JInt i) = canon (JInt j) \<longleftrightarrow> i = j"
  "canon (JBool b) = canon (JBool c) \<longleftrightarrow> b = c" "canon (JFloat x) = canon (JFloat y) \<longleftrightarrow> x = y"
  "canon (opt_json p) = canon (opt_json q) \<longleftrightarrow> p = q"
  by (auto simp: opt_json_def split: option.splits)

lemma canon_hash_ref [simp]: "canon (hash_ref_json h) = canon (hash_ref_json k) \<longleftrightarrow> h = k"
  unfolding hash_ref_json_def by (subst canon_object_eq) (auto simp del: canon.simps)

lemma canon_ref [simp]: "canon (ref_json r) = canon (ref_json s) \<longleftrightarrow> r = s"
proof -
  have "canon (hash_ref_json h) \<noteq> JNull" for h by (simp add: hash_ref_json_def)
  then have "canon (case x of None \<Rightarrow> JNull | Some h \<Rightarrow> hash_ref_json h)
      = canon (case y of None \<Rightarrow> JNull | Some h \<Rightarrow> hash_ref_json h) \<longleftrightarrow> x = y" for x y
    by (cases x; cases y) (auto simp: eq_commute [of JNull])
  then show ?thesis unfolding ref_json_def by (subst canon_object_eq) (auto simp del: canon.simps)
qed

lemma canon_file_entry [simp]: "canon (file_entry_json e) = canon (file_entry_json f) \<longleftrightarrow> e = f"
  unfolding file_entry_json_def by (subst canon_object_eq) (auto simp del: canon.simps)

lemma canon_training_state [simp]: "canon (training_state_json s) = canon (training_state_json t) \<longleftrightarrow> s = t"
  unfolding training_state_json_def by (subst canon_object_eq) (auto simp del: canon.simps)

lemma canon_bound [simp]: "canon (bound_json b) = canon (bound_json c) \<longleftrightarrow> b = c"
  unfolding bound_json_def by (subst canon_object_eq) (auto simp del: canon.simps)

lemma canon_files [simp]:
  "canon (JList (map file_entry_json es)) = canon (JList (map file_entry_json fs)) \<longleftrightarrow> es = fs"
proof -
  have "inj (\<lambda>e. canon (file_entry_json e))" by (rule injI) simp
  then show ?thesis by (simp add: comp_def inj_map_eq_map)
qed

text \<open>The payload determines every field but the hash.\<close>

lemma canon_payload:
  "canon (manifest_payload m) = canon (manifest_payload n) \<longleftrightarrow> m\<lparr>cm_hash := []\<rparr> = n\<lparr>cm_hash := []\<rparr>"
  unfolding manifest_payload_def by (cases m; cases n, subst canon_object_eq) (auto simp del: canon.simps)


section \<open>What a verified checkpoint is\<close>

lemma utf8_inj: "utf8 s = utf8 t \<Longrightarrow> s = t"
  by (metis utf8_decode_utf8 option.inject)

text \<open>SHA-256 is free of collisions on a set of byte strings.\<close>

definition sha256_injective :: "runtime \<Rightarrow> bytes set \<Rightarrow> bool" where
  "sha256_injective rt B \<longleftrightarrow> inj_on (sha256_hex rt) B"

definition payload_bytes :: "runtime \<Rightarrow> checkpoint_manifest \<Rightarrow> bytes" where
  "payload_bytes rt m = utf8 (dumps_compact rt (manifest_payload m))"

definition directory_bytes :: "checkpoint_dir \<Rightarrow> checkpoint_manifest \<Rightarrow> bytes set" where
  "directory_bytes d m = (\<lambda>e. mb_bytes (cd_member d (fe_path e))) ` set (cm_files m)"

lemma payload_bytes_eq_iff:
  "float_repr_ok (float_repr rt) \<Longrightarrow> payload_bytes rt m = payload_bytes rt n \<longleftrightarrow> m\<lparr>cm_hash := []\<rparr> = n\<lparr>cm_hash := []\<rparr>"
  using utf8_inj dumps_compact_eq_iff [of rt] unfolding payload_bytes_def canon_payload [symmetric] by metis

lemma same_body_same_hash: "m\<lparr>cm_hash := []\<rparr> = n\<lparr>cm_hash := []\<rparr> \<Longrightarrow> cm_hash m = cm_hash n \<Longrightarrow> m = n"
  by (cases m; cases n) simp

lemma safe_member_Inr:
  "safe_member f = Inr content \<longleftrightarrow> \<not> mb_symlink f \<and> mb_contained f \<and> mb_is_file f \<and> mb_nlink f \<le> 1 \<and> content = mb_bytes f"
  by (auto simp: safe_member_def)

definition member_intact :: "runtime \<Rightarrow> checkpoint_dir \<Rightarrow> file_entry \<Rightarrow> bool" where
  "member_intact rt d e \<longleftrightarrow> (let f = cd_member d (fe_path e) in
     \<not> mb_symlink f \<and> mb_contained f \<and> mb_is_file f \<and> mb_nlink f \<le> 1
     \<and> int (length (mb_bytes f)) = fe_size_bytes e \<and> sha256_hex rt (mb_bytes f) = fe_sha256 e)"

lemma verify_files_None: "verify_files rt d es = None \<longleftrightarrow> list_all (member_intact rt d) es"
  by (induction es) (auto simp: member_intact_def Let_def safe_member_def)

text \<open>A checkpoint is intact when it is sealed and every file is exactly what was sealed.\<close>

definition checkpoint_intact :: "runtime \<Rightarrow> checkpoint_dir \<Rightarrow> checkpoint_manifest \<Rightarrow> bool" where
  "checkpoint_intact rt d m \<longleftrightarrow> manifest_ok m \<and> cm_complete m \<and> verify_manifest_hash rt m
     \<and> list_all (member_intact rt d) (cm_files m)"

lemma verify_checkpoint_Inr:
  "verify_checkpoint_integrity rt parse d = Inr m \<longleftrightarrow>
     (\<exists>text. cd_manifest d = Some text \<and> parse text = Some m) \<and> checkpoint_intact rt d m"
  by (auto simp: verify_checkpoint_integrity_def load_checkpoint_manifest_def checkpoint_intact_def verify_files_None [symmetric]
      split: option.splits sum.splits if_splits)

text \<open>The plan derives the identities a manifest binds.\<close>

definition same_identities :: "bound_identities \<Rightarrow> bound_identities \<Rightarrow> bool" where
  "same_identities b t \<longleftrightarrow> bi_plan_hash b = bi_plan_hash t
     \<and> bi_execution_configuration_hash b = bi_execution_configuration_hash t
     \<and> bi_environment_lock_hash b = bi_environment_lock_hash t
     \<and> map ref_identity [bi_backend_ref b, bi_model_ref b, bi_tokenizer_ref b, bi_dataset_ref b, bi_objective_ref b]
       = map ref_identity [bi_backend_ref t, bi_model_ref t, bi_tokenizer_ref t, bi_dataset_ref t, bi_objective_ref t]
     \<and> bi_seed b = bi_seed t \<and> bi_data_seed b = bi_data_seed t
     \<and> (bi_chat_template_sha256 b = bi_chat_template_sha256 t
        \<or> bi_chat_template_sha256 b = None \<or> bi_chat_template_sha256 t = None)"

lemma resumable_iff:
  "verify_resumable_into m plan = None \<longleftrightarrow>
     (\<exists>t. bound_identities_from_plan plan None = Inr t \<and> same_identities (cm_bound m) t)"
  by (auto simp: verify_resumable_into_def Let_def same_identities_def plan_derivable_def split: sum.splits)

lemma seal_verifies: "verify_manifest_hash rt (seal_manifest rt m)"
proof -
  have "canon (manifest_payload (n\<lparr>cm_hash := h\<rparr>)) = canon (manifest_payload n)" for n h
    by (simp add: canon_payload)
  then show ?thesis
    by (simp add: verify_manifest_hash_def seal_manifest_def Let_def manifest_hash_def dumps_compact_def)
qed


section \<open>A checkpoint of one file\<close>

definition tiny_rt :: runtime where
  "tiny_rt = sample_rt\<lparr>sha256_hex := (\<lambda>s. if s = [] then replicate 64 (CHR ''a'') else replicate 64 (CHR ''0''))\<rparr>"

definition tiny_ref :: ref where "tiny_ref = \<lparr>rf_id = ''m'', rf_hash = None\<rparr>"

definition tiny_manifest :: checkpoint_manifest where
  "tiny_manifest = \<lparr>cm_checkpoint_id = ''c1'', cm_hash = replicate 64 (CHR ''0''), cm_source_run_id = ''r1'',
     cm_parent_checkpoint_id = None, cm_parent_checkpoint_hash = None, cm_created_at = [], cm_complete = True,
     cm_bound = \<lparr>bi_plan_hash = replicate 64 (CHR ''1''), bi_execution_configuration_hash = replicate 64 (CHR ''2''),
       bi_backend_ref = tiny_ref, bi_environment_lock_hash = None, bi_worker_wheel_sha256 = None,
       bi_model_ref = tiny_ref, bi_tokenizer_ref = tiny_ref, bi_dataset_ref = tiny_ref, bi_chat_template_sha256 = None,
       bi_formatter_sha256 = None, bi_objective_ref = tiny_ref, bi_seed = 0, bi_data_seed = 0\<rparr>,
     cm_state = \<lparr>ts_optimizer_captured = True, ts_scheduler_captured = False, ts_scaler_captured = False,
       ts_rng_captured = False, ts_sampler_state_captured = False, ts_rng_algorithm = None, ts_epoch = 0,
       ts_global_optimizer_step = 3, ts_microstep_within_step = 0, ts_gradient_accumulation_steps = 1,
       ts_consumed_microsteps = 3\<rparr>,
     cm_files = [\<lparr>fe_path = ''o.pt'', fe_role = ''optimizer'', fe_sha256 = replicate 64 (CHR ''a''), fe_size_bytes = 0\<rparr>]\<rparr>"

definition tiny_dir :: checkpoint_dir where
  "tiny_dir = \<lparr>cd_manifest = Some ''m'', cd_tmp = None,
     cd_member = (\<lambda>_. \<lparr>mb_symlink = False, mb_contained = True, mb_is_file = True, mb_nlink = 1, mb_bytes = []\<rparr>)\<rparr>"

definition tiny_parse :: "bytes \<Rightarrow> checkpoint_manifest option" where
  "tiny_parse text = (if text = ''m'' then Some tiny_manifest else None)"

lemma tiny_ok: "manifest_ok tiny_manifest"
  by code_simp

lemma payload_not_empty: "dumps_compact rt (manifest_payload m) \<noteq> []"
  by (simp add: dumps_compact_def manifest_payload_def)

lemma utf8_Nil_iff [simp]: "utf8 s = [] \<longleftrightarrow> s = []"
  using utf8_inj [of s "[]"] by (auto simp: utf8_def)

lemma tiny_fields [simp]:
  "cm_complete tiny_manifest" "cm_hash tiny_manifest = replicate 64 (CHR ''0'')"
  "cm_files tiny_manifest = [\<lparr>fe_path = ''o.pt'', fe_role = ''optimizer'', fe_sha256 = replicate 64 (CHR ''a''), fe_size_bytes = 0\<rparr>]"
  "cd_manifest tiny_dir = Some ''m''"
  "cd_member tiny_dir = (\<lambda>_. \<lparr>mb_symlink = False, mb_contained = True, mb_is_file = True, mb_nlink = 1, mb_bytes = []\<rparr>)"
  by (simp_all add: tiny_manifest_def tiny_dir_def)

lemma tiny_hash [simp]: "sha256_hex tiny_rt s = (if s = [] then replicate 64 (CHR ''a'') else replicate 64 (CHR ''0''))"
  by (simp add: tiny_rt_def)

lemma tiny_member: "cd_member d = cd_member tiny_dir \<Longrightarrow> list_all (member_intact tiny_rt d) (cm_files tiny_manifest)"
  by (simp add: member_intact_def del: replicate.simps)

lemma tiny_hash_ok: "verify_manifest_hash tiny_rt tiny_manifest"
  by (simp add: verify_manifest_hash_def manifest_hash_def payload_not_empty)

lemma tiny_intact: "cd_member d = cd_member tiny_dir \<Longrightarrow> checkpoint_intact tiny_rt d tiny_manifest"
  unfolding checkpoint_intact_def using tiny_ok tiny_hash_ok tiny_member by simp_all

lemma tiny_verifies: "verify_checkpoint_integrity tiny_rt tiny_parse tiny_dir = Inr tiny_manifest"
  using tiny_intact by (simp add: verify_checkpoint_Inr tiny_parse_def)


section \<open>Properties\<close>

text \<open>C7: The manifest hash pins the checkpoint. If SHA-256 has no collision among the bytes at
  hand, two directories that both verify as the checkpoint a request names have the same
  manifest, field for field, and the same bytes in every file it lists; so no swapped manifest,
  file or directory passes for the one a resume names.\<close>

theorem manifest_hash_pins_checkpoint:
  assumes "float_repr_ok (float_repr rt)"
    and "sha256_injective rt ({payload_bytes rt m, payload_bytes rt n} \<union> directory_bytes d m \<union> directory_bytes d' n)"
    and "verify_checkpoint_integrity rt parse d = Inr m" and "verify_checkpoint_integrity rt parse d' = Inr n"
    and "verify_matches_request m rq = None" and "verify_matches_request n rq = None"
  shows "m = n \<and> list_all (\<lambda>e. mb_bytes (cd_member d (fe_path e)) = mb_bytes (cd_member d' (fe_path e))) (cm_files m)"
proof -
  from assms(3,4) have ok: "checkpoint_intact rt d m" "checkpoint_intact rt d' n"
    by (simp_all add: verify_checkpoint_Inr)
  from assms(5,6) have hash: "cm_hash m = cm_hash n" by (simp add: verify_matches_request_def split: if_splits)
  with ok have "sha256_hex rt (payload_bytes rt m) = sha256_hex rt (payload_bytes rt n)"
    by (simp add: checkpoint_intact_def verify_manifest_hash_def manifest_hash_def payload_bytes_def)
  then have "payload_bytes rt m = payload_bytes rt n"
    by (rule inj_onD [OF assms(2) [unfolded sha256_injective_def]]) simp_all
  with assms(1) hash have same: "m = n" by (simp add: payload_bytes_eq_iff same_body_same_hash)
  have "mb_bytes (cd_member d (fe_path e)) = mb_bytes (cd_member d' (fe_path e))" if e: "e \<in> set (cm_files m)" for e
  proof (rule inj_onD [OF assms(2) [unfolded sha256_injective_def]])
    from ok e same show "sha256_hex rt (mb_bytes (cd_member d (fe_path e))) = sha256_hex rt (mb_bytes (cd_member d' (fe_path e)))"
      by (simp add: checkpoint_intact_def list_all_iff member_intact_def Let_def)
  qed (use e same in \<open>auto simp: directory_bytes_def\<close>)
  with same show ?thesis by (simp add: list_all_iff)
qed

theorem manifest_hash_pins_checkpoint_witness:
  "tiny_manifest = tiny_manifest \<and> list_all (\<lambda>e. mb_bytes (cd_member tiny_dir (fe_path e))
     = mb_bytes (cd_member (tiny_dir\<lparr>cd_tmp := Some ''x''\<rparr>) (fe_path e))) (cm_files tiny_manifest)"
proof (rule manifest_hash_pins_checkpoint [where rt = tiny_rt and parse = tiny_parse
      and rq = "\<lparr>rq_checkpoint_id = ''c1'', rq_checkpoint_manifest_hash = replicate 64 (CHR ''0''), rq_checkpoint_dir = []\<rparr>"])
  show "float_repr_ok (float_repr tiny_rt)" using sample_float_ok by (simp add: tiny_rt_def)
  have d: "directory_bytes d tiny_manifest = {[]}" if "cd_member d = cd_member tiny_dir" for d
    using that by (simp add: directory_bytes_def)
  show "sha256_injective tiny_rt ({payload_bytes tiny_rt tiny_manifest, payload_bytes tiny_rt tiny_manifest}
      \<union> directory_bytes tiny_dir tiny_manifest \<union> directory_bytes (tiny_dir\<lparr>cd_tmp := Some ''x''\<rparr>) tiny_manifest)"
    by (simp add: d sha256_injective_def inj_on_def payload_bytes_def payload_not_empty)
  show "verify_checkpoint_integrity tiny_rt tiny_parse tiny_dir = Inr tiny_manifest" by (rule tiny_verifies)
  show "verify_checkpoint_integrity tiny_rt tiny_parse (tiny_dir\<lparr>cd_tmp := Some ''x''\<rparr>) = Inr tiny_manifest"
    using tiny_intact [of "tiny_dir\<lparr>cd_tmp := Some ''x''\<rparr>"] by (simp add: verify_checkpoint_Inr tiny_parse_def)
qed (simp_all add: verify_matches_request_def tiny_manifest_def)

text \<open>C10: A resume is admitted exactly into the run that was checkpointed. It is admitted if and
  only if the directory holds a sealed manifest all of whose files are intact, the plan derives
  the same plan, configuration, environment lock, backend, model, tokenizer, dataset,
  objective and seeds, the chat templates do not conflict, and the new run has a new id; the
  lineage then names the parent run, the checkpoint, its hash and its step.\<close>

theorem resume_admission_is_exact:
  "admit_resume rt parse plan d run_id = Inr l \<longleftrightarrow>
     (\<exists>text m target. cd_manifest d = Some text \<and> parse text = Some m \<and> checkpoint_intact rt d m
       \<and> bound_identities_from_plan plan None = Inr target \<and> same_identities (cm_bound m) target
       \<and> run_id \<noteq> cm_source_run_id m
       \<and> l = \<lparr>rl_parent_run_id = cm_source_run_id m, rl_parent_checkpoint_id = cm_checkpoint_id m,
           rl_parent_checkpoint_hash = cm_hash m, rl_resumed_from_global_step = ts_global_optimizer_step (cm_state m)\<rparr>)"
proof -
  have "admit_resume rt parse plan d run_id = Inr l \<longleftrightarrow>
     (\<exists>m. verify_checkpoint_integrity rt parse d = Inr m \<and> verify_resumable_into m plan = None
       \<and> run_id \<noteq> cm_source_run_id m
       \<and> l = \<lparr>rl_parent_run_id = cm_source_run_id m, rl_parent_checkpoint_id = cm_checkpoint_id m,
           rl_parent_checkpoint_hash = cm_hash m, rl_resumed_from_global_step = ts_global_optimizer_step (cm_state m)\<rparr>)"
    by (auto simp: admit_resume_def split: sum.splits option.splits if_splits)
  then show ?thesis unfolding verify_checkpoint_Inr resumable_iff by blast
qed

text \<open>C33: Sealing and writing a checkpoint is atomic. Interrupted at any point before the rename
  the directory verifies exactly as it did before the write; after it, the directory verifies
  to the sealed manifest, provided its files are what the manifest records and the JSON text
  of a manifest reads back.\<close>

theorem sealed_checkpoint_written_atomically:
  assumes "parse (dump (seal_manifest rt m)) = Some (seal_manifest rt m)" and "manifest_ok (seal_manifest rt m)"
    and "list_all (member_intact rt d) (cm_files m)"
  shows "verify_checkpoint_integrity rt parse (write_checkpoint_manifest dump (seal_manifest rt m) p d)
     = (if p = Renamed then Inr (seal_manifest rt m) else verify_checkpoint_integrity rt parse d)"
proof (cases "p = Renamed")
  case True
  have "cm_complete (seal_manifest rt m)" "cm_files (seal_manifest rt m) = cm_files m"
    by (simp_all add: seal_manifest_def Let_def)
  moreover have "member_intact rt (d\<lparr>cd_tmp := None, cd_manifest := Some x\<rparr>) = member_intact rt d" for x
    by (simp add: member_intact_def fun_eq_iff)
  ultimately show ?thesis
    using assms True by (simp add: verify_checkpoint_Inr checkpoint_intact_def seal_verifies)
next
  case False
  have "verify_files rt (d\<lparr>cd_tmp := t\<rparr>) es = verify_files rt d es" for t es
    by (induction es) (simp_all split: sum.split)
  then have files: "verify_files rt (d\<lparr>cd_tmp := t\<rparr>) = verify_files rt d" for t by (intro ext)
  have "verify_checkpoint_integrity rt parse (d\<lparr>cd_tmp := t\<rparr>) = verify_checkpoint_integrity rt parse d" for t
    unfolding verify_checkpoint_integrity_def load_checkpoint_manifest_def files by simp
  with False show ?thesis by (cases p) simp_all
qed

theorem sealed_checkpoint_written_atomically_witness:
  "verify_checkpoint_integrity tiny_rt tiny_parse
     (write_checkpoint_manifest (\<lambda>_. ''m'') (seal_manifest tiny_rt tiny_manifest) Renamed (tiny_dir\<lparr>cd_manifest := None\<rparr>))
   = Inr (seal_manifest tiny_rt tiny_manifest)"
proof -
  have s: "seal_manifest tiny_rt tiny_manifest = tiny_manifest"
    by (simp add: seal_manifest_def manifest_hash_def payload_not_empty)
  show ?thesis
    using sealed_checkpoint_written_atomically [of tiny_parse "\<lambda>_. ''m''" tiny_rt tiny_manifest "tiny_dir\<lparr>cd_manifest := None\<rparr>" Renamed]
      tiny_ok tiny_member [of "tiny_dir\<lparr>cd_manifest := None\<rparr>"]
    by (simp add: s tiny_parse_def del: tiny_fields)
qed

end
