(* ===== verification/Run_Registry.thy ===== *)
theory Run_Registry
  imports Checkpoint
begin

text \<open>
  The training-run registry (\<open>training/run_registry.py\<close>) and the commands of the CLI that read
  and write it (\<open>training-run-list\<close>, \<open>training-run-update\<close>, \<open>training-run-resume-prepare\<close>, and the
  back-link \<open>dataset-version-create --stamp-run\<close> writes, of \<open>cli.py\<close>). A registry is the directory \<open>training_runs/\<close>: whether it exists, and what each
  \<open><slug>.json\<close> holds, in the order the directory lists its files; \<open>None\<close> is a file that does not
  parse. The rename that ends a write is atomic, so a file is always a whole record.
\<close>

section \<open>Records\<close>

record run_provenance =
  pv_dataset_fingerprint :: "string option"
  pv_dataset_row_count :: nat
  pv_config_sha256 :: "string option"
  pv_engine_version :: string
  pv_platform :: string
  pv_python_version :: string

record run_record =
  rr_run_id :: string
  rr_created_at :: string
  rr_updated_at :: string
  rr_status :: string
  rr_target :: string
  rr_base_model :: string
  rr_config_path :: string
  rr_output_dir :: string
  rr_argv :: "string list"
  rr_pid :: "int option"
  rr_process_started_at :: "string option"
  rr_exit_code :: "int option"
  rr_checkpoints :: "string list"
  rr_before_eval_path :: "string option"
  rr_after_eval_path :: "string option"
  rr_after_eval_model :: "string option"
  rr_source_snapshot_id :: "string option"
  rr_provenance :: "run_provenance option"
  rr_resume_lineage :: "resume_lineage option"
  rr_notes :: string

definition PREPARED :: string where "PREPARED = ''prepared''"
definition RUNNING :: string where "RUNNING = ''running''"
definition SUCCEEDED :: string where "SUCCEEDED = ''succeeded''"
definition FAILED :: string where "FAILED = ''failed''"
definition CANCELLED :: string where "CANCELLED = ''cancelled''"
definition INTERRUPTED :: string where "INTERRUPTED = ''interrupted''"

definition RUN_STATUSES :: "string list" where
  "RUN_STATUSES = [PREPARED, RUNNING, SUCCEEDED, FAILED, CANCELLED, INTERRUPTED]"

definition TERMINAL_STATUSES :: "string list" where
  "TERMINAL_STATUSES = [SUCCEEDED, FAILED, CANCELLED, INTERRUPTED]"

lemmas run_status_defs = PREPARED_def RUNNING_def SUCCEEDED_def FAILED_def CANCELLED_def INTERRUPTED_def
  RUN_STATUSES_def TERMINAL_STATUSES_def

definition is_terminal :: "run_record \<Rightarrow> bool" where
  "is_terminal r \<longleftrightarrow> rr_status r \<in> set TERMINAL_STATUSES"

definition is_unconfirmed :: "run_record \<Rightarrow> bool" where
  "is_unconfirmed r \<longleftrightarrow> rr_status r = RUNNING"

definition new_run_record :: "string \<Rightarrow> string \<Rightarrow> string \<Rightarrow> run_record" where
  "new_run_record run_id created_at updated_at = \<lparr>rr_run_id = run_id, rr_created_at = created_at,
     rr_updated_at = updated_at, rr_status = PREPARED, rr_target = [], rr_base_model = [], rr_config_path = [],
     rr_output_dir = [], rr_argv = [], rr_pid = None, rr_process_started_at = None, rr_exit_code = None,
     rr_checkpoints = [], rr_before_eval_path = None, rr_after_eval_path = None, rr_after_eval_model = None,
     rr_source_snapshot_id = None, rr_provenance = None, rr_resume_lineage = None, rr_notes = []\<rparr>"


section \<open>File names\<close>

text \<open>\<open>re.sub(r"[^A-Za-z0-9._-]+", "_", run_id).strip("_") or "run"\<close>.\<close>

definition run_slug :: "string \<Rightarrow> string" where
  "run_slug run_id =
     (let s = strip_with (\<lambda>c. c = CHR ''_'') (sub_runs False run_id) in if s = [] then ''run'' else s)"

definition valid_run_id :: "string \<Rightarrow> bool" where
  "valid_run_id s =
     (let body = (if s \<noteq> [] \<and> last s = nl then butlast s else s) in body \<noteq> [] \<and> list_all id_char body)"

definition mint_run_id :: "string \<Rightarrow> string \<Rightarrow> string" where
  "mint_run_id timestamp_compact suffix = timestamp_compact @ ''-'' @ suffix"


section \<open>Storage\<close>

record run_store =
  rs_dir :: bool
  rs_files :: "(string, run_record option) dict"

datatype run_error = Invalid_run_id | No_run_record | Corrupt_run_record | Unknown_run_status | Run_already_terminal
  | Not_resumable checkpoint_reason | Version_not_captured

definition save_run_record :: "run_store \<Rightarrow> run_record \<Rightarrow> run_error + run_store" where
  "save_run_record st r =
     (if \<not> valid_run_id (rr_run_id r) then Inl Invalid_run_id
      else Inr (st\<lparr>rs_dir := True, rs_files := dset (run_slug (rr_run_id r)) (Some r) (rs_files st)\<rparr>))"

text \<open>\<open>record_path(..).exists()\<close> and \<open>load_run_record\<close>.\<close>

definition find_run_record :: "run_store \<Rightarrow> string \<Rightarrow> run_error + run_record" where
  "find_run_record st run_id = (case dget (rs_files st) (run_slug run_id) of
      None \<Rightarrow> Inl No_run_record
    | Some None \<Rightarrow> Inl Corrupt_run_record
    | Some (Some r) \<Rightarrow> Inr r)"

text \<open>\<open>sort(key=.., reverse=True)\<close> keeps the order of equal keys.\<close>

definition list_run_records :: "run_store \<Rightarrow> run_record list" where
  "list_run_records st =
     (if \<not> rs_dir st then []
      else rev (sort_key rr_run_id (rev (List.map_filter snd (rs_files st)))))"

definition prepare_resumed_run ::
  "runtime \<Rightarrow> (bytes \<Rightarrow> checkpoint_manifest option) \<Rightarrow> run_store \<Rightarrow> run_plan \<Rightarrow> checkpoint_dir \<Rightarrow> string \<Rightarrow> string
     \<Rightarrow> run_error + run_store" where
  "prepare_resumed_run rt parse st plan d run_id now = (case admit_resume rt parse plan d run_id of
      Inl reason \<Rightarrow> Inl (Not_resumable reason)
    | Inr lineage \<Rightarrow> save_run_record st ((new_run_record run_id now now)
        \<lparr>rr_base_model := (case rp_resolved_execution plan of Some ex \<Rightarrow> rf_id (ex_model_ref ex) | None \<Rightarrow> []),
         rr_resume_lineage := Some lineage,
         rr_notes := ''resume-prepared; worker resume execution is a separate gated slice''\<rparr>))"

definition validate_transition :: "string \<Rightarrow> string \<Rightarrow> run_error option" where
  "validate_transition old_status new_status =
     (if new_status \<notin> set RUN_STATUSES then Some Unknown_run_status
      else if old_status \<in> set TERMINAL_STATUSES \<and> new_status \<noteq> old_status then Some Run_already_terminal
      else None)"

definition reconcile_record :: "(int \<Rightarrow> bool) \<Rightarrow> string \<Rightarrow> run_record \<Rightarrow> run_record" where
  "reconcile_record is_alive now r =
     (if rr_status r = RUNNING \<and> (case rr_pid r of None \<Rightarrow> True | Some pid \<Rightarrow> \<not> is_alive pid)
      then r\<lparr>rr_status := INTERRUPTED, rr_updated_at := now,
             rr_notes := (if rr_notes r \<noteq> [] then rr_notes r @ '' '' else []) @ ''reconciled: process not alive on load''\<rparr>
      else r)"

definition reconcile_running_records :: "run_record list \<Rightarrow> (int \<Rightarrow> bool) \<Rightarrow> string \<Rightarrow> run_record list" where
  "reconcile_running_records records is_alive now = map (reconcile_record is_alive now) records"


section \<open>Commands\<close>

text \<open>\<open>{record.run_id: record.status for record in records}\<close>: the last record of an id counts.\<close>

definition prior_status :: "run_record list \<Rightarrow> string \<Rightarrow> string option" where
  "prior_status records run_id = map_of (rev (map (\<lambda>r. (rr_run_id r, rr_status r)) records)) run_id"

text \<open>A command that fails keeps what it wrote before it failed.\<close>

fun save_changed :: "(string \<Rightarrow> string option) \<Rightarrow> run_record list \<Rightarrow> run_store \<Rightarrow> run_error option \<times> run_store" where
  "save_changed prior [] st = (None, st)"
| "save_changed prior (r # rs) st =
     (if prior (rr_run_id r) \<noteq> Some (rr_status r)
      then (case save_run_record st r of Inl e \<Rightarrow> (Some e, st) | Inr st' \<Rightarrow> save_changed prior rs st')
      else save_changed prior rs st)"

definition training_run_list :: "(int \<Rightarrow> bool) \<Rightarrow> string \<Rightarrow> run_store \<Rightarrow> run_error option \<times> run_store" where
  "training_run_list is_alive now st =
     (let records = list_run_records st
      in save_changed (prior_status records) (reconcile_running_records records is_alive now) st)"

record run_update =
  up_run_id :: string
  up_status :: "string option"
  up_exit_code :: "int option"
  up_before_eval_path :: "string option"
  up_after_eval_path :: "string option"
  up_after_eval_model :: "string option"

text \<open>\<open>given x old\<close> is the field after \<open>if x is not None: updates[..] = x\<close>.\<close>

definition given :: "'a option \<Rightarrow> 'a option \<Rightarrow> 'a option" where
  "given x old = (case x of None \<Rightarrow> old | Some v \<Rightarrow> Some v)"

definition training_run_update :: "run_update \<Rightarrow> string \<Rightarrow> run_store \<Rightarrow> run_error option \<times> run_store" where
  "training_run_update u now st = (case find_run_record st (up_run_id u) of
      Inl e \<Rightarrow> (Some e, st)
    | Inr r \<Rightarrow>
        (case (case up_status u of None \<Rightarrow> None | Some s \<Rightarrow> validate_transition (rr_status r) s) of
          Some e \<Rightarrow> (Some e, st)
        | None \<Rightarrow>
            let saved = r\<lparr>rr_updated_at := now,
                  rr_status := (case up_status u of None \<Rightarrow> rr_status r | Some s \<Rightarrow> s),
                  rr_exit_code := given (up_exit_code u) (rr_exit_code r),
                  rr_before_eval_path := given (up_before_eval_path u) (rr_before_eval_path r),
                  rr_after_eval_path := given (up_after_eval_path u) (rr_after_eval_path r),
                  rr_after_eval_model := given (up_after_eval_model u) (rr_after_eval_model r)\<rparr>
            in (case save_run_record st saved of Inl e \<Rightarrow> (Some e, st) | Inr st' \<Rightarrow> (None, st'))))"

definition training_run_resume_prepare ::
  "runtime \<Rightarrow> (bytes \<Rightarrow> checkpoint_manifest option) \<Rightarrow> run_plan \<Rightarrow> checkpoint_dir \<Rightarrow> string \<Rightarrow> string \<Rightarrow> run_store
     \<Rightarrow> run_error option \<times> run_store" where
  "training_run_resume_prepare rt parse plan d stamp now st =
     (case prepare_resumed_run rt parse st plan d (mint_run_id stamp ''resume'') now of
        Inl e \<Rightarrow> (Some e, st) | Inr st' \<Rightarrow> (None, st'))"

text \<open>The back-link of a new version, onto the record that was loaded before the version was captured;
  \<open>published\<close> is the id and the time of the version.\<close>

definition stamp_run :: "run_record \<Rightarrow> string \<times> string \<Rightarrow> run_store \<Rightarrow> run_error option \<times> run_store" where
  "stamp_run r published st =
     (case save_run_record st (r\<lparr>rr_source_snapshot_id := Some (fst published), rr_updated_at := snd published\<rparr>) of
        Inl e \<Rightarrow> (Some e, st) | Inr st' \<Rightarrow> (None, st'))"

definition dataset_version_create_stamped :: "string \<Rightarrow> (string \<times> string) option \<Rightarrow> run_store \<Rightarrow> run_error option \<times> run_store" where
  "dataset_version_create_stamped run_id published st = (case find_run_record st run_id of
      Inl e \<Rightarrow> (Some e, st)
    | Inr r \<Rightarrow> (case published of None \<Rightarrow> (Some Version_not_captured, st) | Some v \<Rightarrow> stamp_run r v st))"

datatype run_command =
    List_runs "int \<Rightarrow> bool" string
  | Update_run run_update string
  | Prepare_resume run_plan checkpoint_dir string string
  | Create_version string "(string \<times> string) option"

fun apply_command :: "runtime \<Rightarrow> (bytes \<Rightarrow> checkpoint_manifest option) \<Rightarrow> run_command \<Rightarrow> run_store \<Rightarrow> run_store" where
  "apply_command rt parse (List_runs is_alive now) st = snd (training_run_list is_alive now st)"
| "apply_command rt parse (Update_run u now) st = snd (training_run_update u now st)"
| "apply_command rt parse (Prepare_resume plan d stamp now) st = snd (training_run_resume_prepare rt parse plan d stamp now st)"
| "apply_command rt parse (Create_version run_id published) st = snd (dataset_version_create_stamped run_id published st)"


section \<open>A coherent registry\<close>

text \<open>Every record is in the file its id names, and has an id that could be saved.\<close>

definition well_named :: "run_store \<Rightarrow> bool" where
  "well_named st \<longleftrightarrow> (rs_files st \<noteq> [] \<longrightarrow> rs_dir st) \<and> distinct (dkeys (rs_files st))
     \<and> (\<forall>name r. (name, Some r) \<in> set (rs_files st) \<longrightarrow> name = run_slug (rr_run_id r) \<and> valid_run_id (rr_run_id r))"

definition run_at :: "run_store \<Rightarrow> string \<Rightarrow> run_record option" where
  "run_at st name = (case dget (rs_files st) name of Some (Some r) \<Rightarrow> Some r | _ \<Rightarrow> None)"

lemma run_at_iff: "run_at st name = Some r \<longleftrightarrow> dget (rs_files st) name = Some (Some r)"
  by (auto simp: run_at_def split: option.splits)

lemma well_namedD: "well_named st \<Longrightarrow> run_at st name = Some r \<Longrightarrow> name = run_slug (rr_run_id r) \<and> valid_run_id (rr_run_id r)"
  unfolding run_at_iff well_named_def by (meson map_of_SomeD)

lemma save_run_record_result:
  assumes "save_run_record st r = Inr st'"
  shows "run_at st' name = (if name = run_slug (rr_run_id r) then Some r else run_at st name)"
    and "well_named st \<Longrightarrow> well_named st'"
proof -
  from assms have ok: "valid_run_id (rr_run_id r)"
    and st': "st' = st\<lparr>rs_dir := True, rs_files := dset (run_slug (rr_run_id r)) (Some r) (rs_files st)\<rparr>"
    by (auto simp: save_run_record_def split: if_splits)
  show "run_at st' name = (if name = run_slug (rr_run_id r) then Some r else run_at st name)"
    by (simp add: st' run_at_def dget_dset)
  show "well_named st'" if "well_named st"
  proof -
    have "name = run_slug (rr_run_id x) \<and> valid_run_id (rr_run_id x)" if "(name, Some x) \<in> set (rs_files st')" for name x
    proof -
      have "distinct (dkeys (rs_files st'))" using \<open>well_named st\<close> by (simp add: st' well_named_def distinct_update)
      with that have "run_at st' name = Some x" by (simp add: run_at_iff)
      with well_namedD [OF \<open>well_named st\<close>] ok show ?thesis by (auto simp: st' run_at_def dget_dset split: if_splits option.splits)
    qed
    with that show ?thesis by (simp add: well_named_def st' distinct_update)
  qed
qed

lemma set_list_run_records: "rs_dir st \<or> rs_files st = [] \<Longrightarrow> set (list_run_records st) = {r. \<exists>name. (name, Some r) \<in> set (rs_files st)}"
proof -
  assume "rs_dir st \<or> rs_files st = []"
  moreover have "set (List.map_filter snd d) = {r. \<exists>name. (name, Some r) \<in> set d}" for d :: "(string, run_record option) dict"
    by (induction d) (auto simp: map_filter_simps split: option.splits)
  ultimately show ?thesis by (auto simp: list_run_records_def map_filter_simps)
qed

lemma listed_slugs_distinct:
  assumes "well_named st"
  shows "distinct (map (\<lambda>r. run_slug (rr_run_id r)) (list_run_records st))"
proof -
  let ?f = "\<lambda>r. run_slug (rr_run_id r)"
  have "map ?f (List.map_filter snd d) = map fst (filter (\<lambda>nr. snd nr \<noteq> None) d)"
    if "\<forall>name r. (name, Some r) \<in> set d \<longrightarrow> name = ?f r" for d
    using that by (induction d) (auto simp: map_filter_simps split: option.splits)
  from this [of "rs_files st"] have "distinct (map ?f (List.map_filter snd (rs_files st)))"
    using assms distinct_map_filter [of fst "rs_files st"] by (simp add: well_named_def)
  moreover have "mset (map ?f (rev (sort_key rr_run_id (rev (List.map_filter snd (rs_files st))))))
      = mset (map ?f (List.map_filter snd (rs_files st)))" by simp
  note mset_eq_imp_distinct_iff [OF this]
  ultimately show ?thesis by (simp only: list_run_records_def split: if_split) simp
qed

lemma prior_status_listed:
  assumes "well_named st" and "r \<in> set (list_run_records st)"
  shows "prior_status (list_run_records st) (rr_run_id r) = Some (rr_status r)"
proof -
  have "distinct (map run_slug (map rr_run_id (list_run_records st)))"
    using listed_slugs_distinct [OF assms(1)] by (simp add: comp_def)
  then have "distinct (map rr_run_id (list_run_records st))" by (simp only: distinct_map)
  then have "distinct (map fst (rev (map (\<lambda>r. (rr_run_id r, rr_status r)) (list_run_records st))))"
    by (simp add: rev_map [symmetric] comp_def)
  moreover have "(rr_run_id r, rr_status r) \<in> set (rev (map (\<lambda>r. (rr_run_id r, rr_status r)) (list_run_records st)))"
    using assms(2) by auto
  ultimately show ?thesis unfolding prior_status_def by (simp only: map_of_eq_Some_iff)
qed

text \<open>What \<open>save_changed\<close> leaves behind, when the records go to different files.\<close>

lemma save_changed_result:
  assumes "\<forall>r\<in>set rs. valid_run_id (rr_run_id r)" and "distinct (map (\<lambda>r. run_slug (rr_run_id r)) rs)"
  shows "(well_named st \<longrightarrow> well_named (snd (save_changed prior rs st)))
    \<and> fst (save_changed prior rs st) = None
    \<and> (\<forall>r\<in>set rs. prior (rr_run_id r) \<noteq> Some (rr_status r) \<longrightarrow>
        run_at (snd (save_changed prior rs st)) (run_slug (rr_run_id r)) = Some r)
    \<and> (\<forall>name. (\<forall>r\<in>set rs. name = run_slug (rr_run_id r) \<longrightarrow> prior (rr_run_id r) = Some (rr_status r)) \<longrightarrow>
        run_at (snd (save_changed prior rs st)) name = run_at st name)"
  using assms
proof (induction rs arbitrary: st)
  case (Cons r rs)
  show ?case
  proof (cases "prior (rr_run_id r) = Some (rr_status r)")
    case True
    with Cons show ?thesis by auto
  next
    case False
    from Cons.prems obtain st' where st': "save_run_record st r = Inr st'" by (simp add: save_run_record_def)
    note saved = save_run_record_result [OF st']
    have new: "run_slug (rr_run_id r) \<notin> (\<lambda>r. run_slug (rr_run_id r)) ` set rs" using Cons.prems by simp
    have IH: "(well_named st' \<longrightarrow> well_named (snd (save_changed prior rs st')))
      \<and> fst (save_changed prior rs st') = None
      \<and> (\<forall>r\<in>set rs. prior (rr_run_id r) \<noteq> Some (rr_status r) \<longrightarrow>
          run_at (snd (save_changed prior rs st')) (run_slug (rr_run_id r)) = Some r)
      \<and> (\<forall>name. (\<forall>r\<in>set rs. name = run_slug (rr_run_id r) \<longrightarrow> prior (rr_run_id r) = Some (rr_status r)) \<longrightarrow>
          run_at (snd (save_changed prior rs st')) name = run_at st' name)"
      using Cons.prems by (intro Cons.IH) auto
    have "run_at (snd (save_changed prior rs st')) (run_slug (rr_run_id r)) = Some r"
      using IH new saved(1) [of "run_slug (rr_run_id r)"] by force
    moreover have "save_changed prior (r # rs) st = save_changed prior rs st'" using False st' by simp
    ultimately show ?thesis using IH saved False by auto
  qed
qed simp

lemma reconcile_id [simp]: "rr_run_id (reconcile_record is_alive now r) = rr_run_id r"
  by (simp add: reconcile_record_def)

lemma reconcile_unchanged:
  "rr_status (reconcile_record is_alive now r) = rr_status r \<Longrightarrow> reconcile_record is_alive now r = r"
  by (auto simp: reconcile_record_def run_status_defs split: if_splits)

text \<open>Listing reconciles every record and nothing else.\<close>

lemma training_run_list_result:
  assumes "well_named st"
  shows "well_named (snd (training_run_list is_alive now st))"
    and "run_at (snd (training_run_list is_alive now st)) name
      = map_option (reconcile_record is_alive now) (run_at st name)"
proof -
  let ?rs = "list_run_records st" and ?rec = "reconcile_record is_alive now"
  let ?st' = "snd (training_run_list is_alive now st)"
  have files: "r \<in> set ?rs \<longleftrightarrow> (\<exists>name. run_at st name = Some r)" for r
    using assms set_list_run_records [of st] by (auto simp: well_named_def run_at_iff)
  have result: "?st' = snd (save_changed (prior_status ?rs) (map ?rec ?rs) st)"
    by (simp add: training_run_list_def Let_def reconcile_running_records_def)
  have valid: "\<forall>r\<in>set (map ?rec ?rs). valid_run_id (rr_run_id r)"
    using files well_namedD [OF assms] by auto
  have "distinct (map (\<lambda>r. run_slug (rr_run_id r)) (map ?rec ?rs))"
    using listed_slugs_distinct [OF assms] by (simp add: comp_def)
  note saved = save_changed_result [OF valid this, of st "prior_status ?rs"]
  show "well_named ?st'" using saved assms result by simp
  show "run_at ?st' name = map_option ?rec (run_at st name)"
  proof (cases "run_at st name")
    case None
    have "name \<noteq> run_slug (rr_run_id y)" if "y \<in> set (map ?rec ?rs)" for y
    proof -
      from that obtain x where x: "x \<in> set ?rs" "y = ?rec x" by auto
      with files obtain n where "run_at st n = Some x" by blast
      with well_namedD [OF assms this] None x show ?thesis by auto
    qed
    with saved have "run_at ?st' name = run_at st name" unfolding result by blast
    with None show ?thesis by simp
  next
    case (Some r)
    then have r: "r \<in> set ?rs" "name = run_slug (rr_run_id r)" using files well_namedD [OF assms] by blast+
    note p = prior_status_listed [OF assms r(1)]
    show ?thesis
    proof (cases "?rec r = r")
      case True
      have "x = r" if "x \<in> set ?rs" "name = run_slug (rr_run_id x)" for x
        using that files well_namedD [OF assms] Some by (metis option.inject)
      then have "prior_status ?rs (rr_run_id y) = Some (rr_status y)"
        if "y \<in> set (map ?rec ?rs)" "name = run_slug (rr_run_id y)" for y
        using that p True by auto
      with saved have "run_at ?st' name = run_at st name" unfolding result by blast
      with Some True show ?thesis by simp
    next
      case False
      with reconcile_unchanged have "rr_status (?rec r) \<noteq> rr_status r" by blast
      then have "prior_status ?rs (rr_run_id (?rec r)) \<noteq> Some (rr_status (?rec r))" using p by simp
      moreover have "?rec r \<in> set (map ?rec ?rs)" using r(1) by simp
      ultimately have "run_at ?st' (run_slug (rr_run_id (?rec r))) = Some (?rec r)"
        unfolding result using saved by blast
      with Some r show ?thesis by simp
    qed
  qed
qed


lemma find_run_record_Inr: "find_run_record st run_id = Inr r \<longleftrightarrow> run_at st (run_slug run_id) = Some r"
  by (auto simp: find_run_record_def run_at_def split: option.splits)

text \<open>An update either changes nothing or saves the record it found, and never moves a terminal
  status.\<close>

lemma training_run_update_saves:
  assumes "snd (training_run_update u now st) = st'"
  shows "st' = st \<or> (\<exists>x y. run_at st (run_slug (up_run_id u)) = Some x \<and> save_run_record st y = Inr st'
    \<and> rr_run_id y = rr_run_id x \<and> (is_terminal x \<longrightarrow> rr_status y = rr_status x))"
proof (cases "find_run_record st (up_run_id u)")
  case (Inl e)
  with assms show ?thesis by (simp add: training_run_update_def)
next
  case (Inr x)
  define y where "y = x\<lparr>rr_updated_at := now,
      rr_status := (case up_status u of None \<Rightarrow> rr_status x | Some s \<Rightarrow> s),
      rr_exit_code := given (up_exit_code u) (rr_exit_code x),
      rr_before_eval_path := given (up_before_eval_path u) (rr_before_eval_path x),
      rr_after_eval_path := given (up_after_eval_path u) (rr_after_eval_path x),
      rr_after_eval_model := given (up_after_eval_model u) (rr_after_eval_model x)\<rparr>"
  define e where "e = (case up_status u of None \<Rightarrow> None | Some s \<Rightarrow> validate_transition (rr_status x) s)"
  have upd: "training_run_update u now st = (case e of Some e \<Rightarrow> (Some e, st)
      | None \<Rightarrow> (case save_run_record st y of Inl e \<Rightarrow> (Some e, st) | Inr st' \<Rightarrow> (None, st')))"
    by (simp only: training_run_update_def Inr sum.case e_def y_def Let_def)
  have "is_terminal x \<longrightarrow> rr_status y = rr_status x" if "e = None"
    using that by (auto simp: e_def y_def validate_transition_def is_terminal_def split: option.splits if_splits)
  moreover have "rr_run_id y = rr_run_id x" by (simp add: y_def)
  ultimately show ?thesis
    using assms Inr unfolding upd find_run_record_Inr by (auto split: option.splits sum.splits)
qed

lemma prepare_resume_saves:
  assumes "snd (training_run_resume_prepare rt parse plan d stamp now st) = st'"
  shows "st' = st \<or> (\<exists>y. save_run_record st y = Inr st' \<and> rr_run_id y = mint_run_id stamp ''resume'')"
  using assms
  by (auto simp: training_run_resume_prepare_def prepare_resumed_run_def new_run_record_def split: sum.splits)

text \<open>A stamp keeps the status of the record it loaded.\<close>

lemma create_version_saves:
  assumes "snd (dataset_version_create_stamped run_id published st) = st'"
  shows "st' = st \<or> (\<exists>x y. run_at st (run_slug run_id) = Some x \<and> save_run_record st y = Inr st'
    \<and> rr_run_id y = rr_run_id x \<and> rr_status y = rr_status x)"
proof (cases "find_run_record st run_id")
  case (Inr x)
  then have "run_at st (run_slug run_id) = Some x" by (simp add: find_run_record_Inr)
  moreover have "rr_run_id (x\<lparr>rr_source_snapshot_id := v, rr_updated_at := t\<rparr>) = rr_run_id x"
    "rr_status (x\<lparr>rr_source_snapshot_id := v, rr_updated_at := t\<rparr>) = rr_status x" for v t by simp_all
  moreover have "st' = st \<or> (\<exists>v t. save_run_record st (x\<lparr>rr_source_snapshot_id := v, rr_updated_at := t\<rparr>) = Inr st')"
    using assms Inr by (auto simp: dataset_version_create_stamped_def stamp_run_def split: option.splits sum.splits)
  ultimately show ?thesis by metis
qed (use assms in \<open>simp add: dataset_version_create_stamped_def\<close>)

text \<open>The minted id is new: its time stamp has microseconds.\<close>

definition enabled :: "run_store \<Rightarrow> run_command \<Rightarrow> bool" where
  "enabled st c = (case c of
      Prepare_resume _ _ stamp _ \<Rightarrow> run_slug (mint_run_id stamp ''resume'') \<notin> set (dkeys (rs_files st))
    | _ \<Rightarrow> True)"

inductive runs_to :: "runtime \<Rightarrow> (bytes \<Rightarrow> checkpoint_manifest option) \<Rightarrow> run_store \<Rightarrow> run_store \<Rightarrow> bool"
  for rt parse st where
  start: "runs_to rt parse st st"
| command: "runs_to rt parse st (apply_command rt parse c st')"
    if "runs_to rt parse st st'" "enabled st' c"

lemma command_keeps_terminal:
  assumes "well_named st" and "enabled st c"
  shows "well_named (apply_command rt parse c st)"
    and "run_at st name = Some r \<Longrightarrow> is_terminal r \<Longrightarrow>
      \<exists>r'. run_at (apply_command rt parse c st) name = Some r' \<and> rr_status r' = rr_status r"
proof -
  have "well_named (apply_command rt parse c st) \<and> (run_at st name = Some r \<longrightarrow> is_terminal r \<longrightarrow>
      (\<exists>r'. run_at (apply_command rt parse c st) name = Some r' \<and> rr_status r' = rr_status r))"
  proof (cases c)
    case (List_runs is_alive now)
    have "is_terminal r \<Longrightarrow> rr_status (reconcile_record is_alive now r) = rr_status r"
      by (auto simp: is_terminal_def reconcile_record_def run_status_defs)
    then show ?thesis using training_run_list_result [OF assms(1)] by (simp add: List_runs)
  next
    case (Update_run u now)
    from training_run_update_saves [OF refl, of u now st] show ?thesis
    proof (elim disjE exE conjE)
      fix x y
      assume x: "run_at st (run_slug (up_run_id u)) = Some x" "rr_run_id y = rr_run_id x"
        and y: "save_run_record st y = Inr (snd (training_run_update u now st))"
        and t: "is_terminal x \<longrightarrow> rr_status y = rr_status x"
      have "run_slug (rr_run_id y) = run_slug (up_run_id u)" using well_namedD [OF assms(1) x(1)] x(2) by simp
      then show ?thesis using save_run_record_result [OF y] assms(1) x(1) t by (auto simp: Update_run)
    qed (use assms(1) in \<open>simp add: Update_run\<close>)
  next
    case (Prepare_resume plan d stamp now)
    from prepare_resume_saves [OF refl, of rt parse plan d stamp now st] show ?thesis
    proof (elim disjE exE conjE)
      fix y
      assume y: "save_run_record st y = Inr (snd (training_run_resume_prepare rt parse plan d stamp now st))"
        "rr_run_id y = mint_run_id stamp ''resume''"
      have "run_at st (run_slug (rr_run_id y)) = None"
        using assms(2) by (simp add: enabled_def Prepare_resume y(2) run_at_def map_of_eq_None_iff [THEN iffD2])
      then show ?thesis using save_run_record_result [OF y(1)] assms(1) by (auto simp: Prepare_resume)
    qed (use assms(1) in \<open>simp add: Prepare_resume\<close>)
  next
    case (Create_version run_id published)
    from create_version_saves [OF refl, of run_id published st] show ?thesis
    proof (elim disjE exE conjE)
      fix x y
      assume x: "run_at st (run_slug run_id) = Some x" "rr_run_id y = rr_run_id x"
        and y: "save_run_record st y = Inr (snd (dataset_version_create_stamped run_id published st))"
        and t: "rr_status y = rr_status x"
      have "run_slug (rr_run_id y) = run_slug run_id" using well_namedD [OF assms(1) x(1)] x(2) by simp
      then show ?thesis using save_run_record_result [OF y] assms(1) x(1) t by (auto simp: Create_version)
    qed (use assms(1) in \<open>simp add: Create_version\<close>)
  qed
  then show "well_named (apply_command rt parse c st)"
    and "run_at st name = Some r \<Longrightarrow> is_terminal r \<Longrightarrow>
      \<exists>r'. run_at (apply_command rt parse c st) name = Some r' \<and> rr_status r' = rr_status r" by blast+
qed

lemma runs_to_well_named: "runs_to rt parse st st' \<Longrightarrow> well_named st \<Longrightarrow> well_named st'"
  by (induction rule: runs_to.induct) (auto dest: command_keeps_terminal(1))

lemma terminal_kept:
  assumes "runs_to rt parse st st'" and "well_named st" and "run_at st name = Some r" and "is_terminal r"
  shows "\<exists>r'. run_at st' name = Some r' \<and> rr_status r' = rr_status r"
  using assms
proof (induction rule: runs_to.induct)
  case (command st' c)
  then obtain r' where r': "run_at st' name = Some r'" "rr_status r' = rr_status r" by blast
  moreover from r' command.prems have "is_terminal r'" by (simp add: is_terminal_def)
  ultimately show ?case
    using command_keeps_terminal(2) [OF runs_to_well_named [OF command.hyps(1) command.prems(1)] command.hyps(2)] by metis
qed blast

text \<open>The file name does not determine the id: underscores at either end are stripped, and an id
  of nothing else shares the file of \<open>run\<close>.\<close>

abbreviation bare :: "string \<Rightarrow> string" where
  "bare \<equiv> strip_with (\<lambda>c. c = CHR ''_'')"

lemma run_slug_eq_iff:
  assumes "list_all id_char a" and "list_all id_char b"
  shows "run_slug a = run_slug b \<longleftrightarrow> bare a = bare b \<or> {bare a, bare b} = {[], ''run''}"
proof -
  have "run_slug c = (if bare c = [] then ''run'' else bare c)" if "list_all id_char c" for c
    using that by (simp add: run_slug_def sub_runs_id)
  then show ?thesis using assms by (simp add: doubleton_eq_iff) metis
qed

lemma distinct_ids_share_a_file:
  "valid_run_id ''a'' \<and> valid_run_id ''_a'' \<and> run_slug ''a'' = run_slug ''_a''"
  "valid_run_id ''run'' \<and> valid_run_id ''__'' \<and> run_slug ''run'' = run_slug ''__''"
  by code_simp+


section \<open>Properties\<close>

text \<open>C15: A finished run stays finished. Along any sequence of commands, each run to its end before
  the next (the stamp of a version is not, lemma \<open>stale_stamp\<close>), the registry stays coherent, every record in the file its id names, and a run that has succeeded, failed, been
  cancelled or interrupted keeps that status in its file, whatever updates ask for.\<close>

theorem terminal_run_is_final:
  assumes "runs_to rt parse st st'" and "well_named st" and "run_at st name = Some r" and "is_terminal r"
  shows "well_named st' \<and> (\<exists>r'. run_at st' name = Some r' \<and> rr_status r' = rr_status r)"
  using terminal_kept [OF assms] runs_to_well_named [OF assms(1,2)] by blast

definition sample_runs :: run_store where
  "sample_runs = \<lparr>rs_dir = True,
     rs_files = [(''r1'', Some ((new_run_record ''r1'' ''t0'' ''t0'')\<lparr>rr_status := SUCCEEDED\<rparr>)),
       (''r2'', Some ((new_run_record ''r2'' ''t0'' ''t0'')\<lparr>rr_status := RUNNING, rr_pid := Some 7\<rparr>)), (''junk'', None)]\<rparr>"

definition fail_r1 :: run_update where
  "fail_r1 = \<lparr>up_run_id = ''r1'', up_status = Some FAILED, up_exit_code = None, up_before_eval_path = None,
     up_after_eval_path = None, up_after_eval_model = None\<rparr>"

lemma sample_slugs: "run_slug ''r1'' = ''r1'' \<and> run_slug ''r2'' = ''r2'' \<and> valid_run_id ''r1'' \<and> valid_run_id ''r2''"
  by code_simp

text \<open>The stamp's record is loaded before the version is captured: a run that ends in between is
  running again once the stamp is saved.\<close>

lemma stale_stamp:
  "let r = (new_run_record ''r2'' ''t0'' ''t0'')\<lparr>rr_status := RUNNING, rr_pid := Some 7\<rparr>;
       ended = apply_command rt parse (Update_run (fail_r1\<lparr>up_run_id := ''r2''\<rparr>) ''t1'') sample_runs in
   find_run_record sample_runs ''r2'' = Inr r
   \<and> map_option rr_status (run_at ended ''r2'') = Some FAILED
   \<and> map_option rr_status (run_at (snd (stamp_run r (''v1'', ''t2'') ended)) ''r2'') = Some RUNNING"
  by code_simp

lemma sample_well_named: "well_named sample_runs"
  using sample_slugs by (auto simp: well_named_def sample_runs_def new_run_record_def)

theorem terminal_run_is_final_witness:
  "\<exists>r'. run_at (apply_command sample_rt tiny_parse (Update_run fail_r1 ''t1'') sample_runs) ''r1'' = Some r'
     \<and> rr_status r' = SUCCEEDED"
proof -
  have steps: "runs_to sample_rt tiny_parse sample_runs (apply_command sample_rt tiny_parse (Update_run fail_r1 ''t1'') sample_runs)"
    by (rule runs_to.command [OF runs_to.start]) (simp add: enabled_def)
  from terminal_run_is_final [OF steps sample_well_named, of "''r1''" "(new_run_record ''r1'' ''t0'' ''t0'')\<lparr>rr_status := SUCCEEDED\<rparr>"]
  show ?thesis by (simp add: run_at_def sample_runs_def is_terminal_def TERMINAL_STATUSES_def)
qed

text \<open>C16: A run whose process is gone is interrupted by the next listing, for good. Once a listing
  finds a running record without a live process, the record is interrupted from then on, along
  any further commands.\<close>

theorem dead_run_is_interrupted:
  assumes "well_named st" and "run_at st name = Some r" and "rr_status r = RUNNING"
    and "case rr_pid r of None \<Rightarrow> True | Some pid \<Rightarrow> \<not> is_alive pid"
    and "runs_to rt parse (apply_command rt parse (List_runs is_alive now) st) st'"
  shows "\<exists>r'. run_at st' name = Some r' \<and> rr_status r' = INTERRUPTED"
proof -
  let ?r = "reconcile_record is_alive now r"
  have listed: "well_named (apply_command rt parse (List_runs is_alive now) st)"
      "run_at (apply_command rt parse (List_runs is_alive now) st) name = Some ?r"
    using training_run_list_result [OF assms(1)] assms(2) by simp_all
  have "rr_status ?r = INTERRUPTED" using assms(3,4) by (simp add: reconcile_record_def)
  moreover from this have "is_terminal ?r" by (simp add: is_terminal_def TERMINAL_STATUSES_def)
  ultimately show ?thesis using terminal_kept [OF assms(5) listed] by simp
qed

theorem dead_run_is_interrupted_witness:
  "\<exists>r'. run_at (apply_command sample_rt tiny_parse (List_runs (\<lambda>_. False) ''t1'') sample_runs) ''r2'' = Some r'
     \<and> rr_status r' = INTERRUPTED"
proof (rule dead_run_is_interrupted [OF sample_well_named, where is_alive = "\<lambda>_. False" and now = "''t1''"
      and rt = sample_rt and parse = tiny_parse])
  show "run_at sample_runs ''r2'' = Some ((new_run_record ''r2'' ''t0'' ''t0'')\<lparr>rr_status := RUNNING, rr_pid := Some 7\<rparr>)"
    by (simp add: run_at_def sample_runs_def)
qed (simp_all add: runs_to.start)

end
