(* ===== verification/Artifact_Registry.thy ===== *)
theory Artifact_Registry
  imports Run_Registry
begin

text \<open>
  The weight registry (\<open>training/artifact_registry.py\<close>): artifact records, the cheap fingerprint
  and the byte-exact hash of the weights they point at, and their integrity against the disk. The
  disk is a function from absolute paths to what is there; a directory is the list of the regular
  files below it, by relative path. SHA-1 and path normalisation are parameters.
\<close>

section \<open>The disk\<close>

record disk_file =
  df_rel :: string
  df_bytes :: bytes
  df_mtime_ns :: int

text \<open>An opaque node exists but is neither a file nor a directory, or raises on access.\<close>

datatype disk_node = Absent | File_node disk_file | Dir_node "disk_file list" | Opaque_node

type_synonym disk = "string \<Rightarrow> disk_node"

definition DESCRIPTOR_FILES :: "string list" where
  "DESCRIPTOR_FILES = [''adapter_config.json'', ''config.json'']"

definition WEIGHT_SUFFIXES :: "string list" where
  "WEIGHT_SUFFIXES = [''.safetensors'', ''.bin'', ''.gguf'', ''.pt'', ''.pth'', ''.onnx'', ''.h5'']"

text \<open>\<open>Path.suffix\<close>: from the last dot of the name, unless that dot is its first or last character.\<close>

definition file_name :: "string \<Rightarrow> string" where
  "file_name rel = last (split_on (CHR ''/'') rel)"

definition path_suffix :: "string \<Rightarrow> string" where
  "path_suffix rel =
     (let name = file_name rel; ext = takeWhile (\<lambda>c. c \<noteq> CHR ''.'') (rev name)
      in if ext = [] \<or> length name \<le> Suc (length ext) then [] else CHR ''.'' # rev ext)"

definition top_level :: "disk_file list \<Rightarrow> disk_file list" where
  "top_level fs = filter (\<lambda>f. CHR ''/'' \<notin> set (df_rel f)) fs"

definition descriptor_file :: "disk_file list \<Rightarrow> disk_file option" where
  "descriptor_file fs = (case List.map_filter (\<lambda>name. find (\<lambda>f. df_rel f = name) fs) DESCRIPTOR_FILES of
      f # _ \<Rightarrow> Some f
    | [] \<Rightarrow> (case sort_key df_rel (top_level fs) of f # _ \<Rightarrow> Some f | [] \<Rightarrow> None))"

definition weight_files :: "disk_file list \<Rightarrow> disk_file list" where
  "weight_files fs = sort_key df_rel (filter (\<lambda>f. lower (path_suffix (df_rel f)) \<in> set WEIGHT_SUFFIXES) fs)"


section \<open>Fingerprint and content hash\<close>

definition stat_text :: "disk_file \<Rightarrow> string" where
  "stat_text f = nat_str (length (df_bytes f)) @ '':'' @ int_str (df_mtime_ns f)"

definition stat_part :: "disk_file \<Rightarrow> string" where
  "stat_part f = df_rel f @ ''='' @ stat_text f"

definition compute_fingerprint :: "disk_node \<Rightarrow> string option" where
  "compute_fingerprint node = (case node of
      File_node f \<Rightarrow> Some (stat_text f)
    | Dir_node fs \<Rightarrow>
        let parts = (case descriptor_file fs of None \<Rightarrow> [] | Some f \<Rightarrow> [stat_part f]) @ map stat_part (weight_files fs)
        in if parts \<noteq> [] then Some (join '';'' parts) else None
    | _ \<Rightarrow> None)"

text \<open>The key of a single file is \<open>Path.relative_to\<close> of itself, a dot.\<close>

definition keyed_bytes :: "string \<times> bytes \<Rightarrow> bytes" where
  "keyed_bytes kb = utf8 (fst kb) @ [CHR 0x00] @ snd kb @ [CHR 0x00]"

definition content_hash_files :: "runtime \<Rightarrow> (string \<times> bytes) list \<Rightarrow> string" where
  "content_hash_files rt kbs = sha256_hex rt (concat (map keyed_bytes kbs))"

definition keyed :: "disk_file list \<Rightarrow> (string \<times> bytes) list" where
  "keyed fs = map (\<lambda>f. (df_rel f, df_bytes f)) fs"

definition compute_content_hash :: "runtime \<Rightarrow> disk_node \<Rightarrow> string option" where
  "compute_content_hash rt node = (case node of
      File_node f \<Rightarrow> Some (content_hash_files rt [(''.'', df_bytes f)])
    | Dir_node fs \<Rightarrow>
        let files = (if weight_files fs \<noteq> [] then weight_files fs
              else case descriptor_file fs of Some f \<Rightarrow> [f] | None \<Rightarrow> [])
        in if files = [] then None else Some (content_hash_files rt (keyed files))
    | _ \<Rightarrow> None)"

definition compute_weight_content_hash :: "runtime \<Rightarrow> string \<Rightarrow> disk_node \<Rightarrow> string option" where
  "compute_weight_content_hash rt path node = (case node of
      File_node f \<Rightarrow>
        if lower (path_suffix path) \<in> set WEIGHT_SUFFIXES then Some (content_hash_files rt [(''.'', df_bytes f)]) else None
    | Dir_node fs \<Rightarrow> if weight_files fs \<noteq> [] then Some (content_hash_files rt (keyed (weight_files fs))) else None
    | _ \<Rightarrow> None)"


section \<open>Records and integrity\<close>

record artifact_record =
  ar_artifact_id :: string
  ar_run_id :: string
  ar_created_at :: string
  ar_updated_at :: string
  ar_path :: string
  ar_kind :: string
  ar_status :: string
  ar_fingerprint :: "string option"
  ar_content_hash :: "string option"
  ar_notes :: string

definition CANDIDATE :: string where "CANDIDATE = ''candidate''"
definition KEPT :: string where "KEPT = ''kept''"
definition REJECTED :: string where "REJECTED = ''rejected''"
definition OK :: string where "OK = ''ok''"
definition MISSING :: string where "MISSING = ''missing''"
definition MODIFIED :: string where "MODIFIED = ''modified''"

lemmas integrity_defs = OK_def MISSING_def MODIFIED_def

definition ARTIFACT_STATUSES :: "string list" where
  "ARTIFACT_STATUSES = [CANDIDATE, KEPT, REJECTED]"

definition artifact_integrity :: "disk \<Rightarrow> artifact_record \<Rightarrow> string" where
  "artifact_integrity disk r =
     (if disk (ar_path r) = Absent then MISSING
      else if ar_fingerprint r = None then OK
      else case compute_fingerprint (disk (ar_path r)) of
          None \<Rightarrow> MODIFIED
        | Some current \<Rightarrow> if Some current = ar_fingerprint r then OK else MODIFIED)"

definition artifact_content_integrity :: "runtime \<Rightarrow> disk \<Rightarrow> artifact_record \<Rightarrow> string" where
  "artifact_content_integrity rt disk r =
     (if disk (ar_path r) = Absent then MISSING
      else if ar_content_hash r = None then artifact_integrity disk r
      else case compute_content_hash rt (disk (ar_path r)) of
          None \<Rightarrow> MODIFIED
        | Some current \<Rightarrow> if Some current = ar_content_hash r then OK else MODIFIED)"


section \<open>The registry\<close>

text \<open>The directory \<open>model_artifacts/\<close>: what each \<open><artifact id>.json\<close> holds, in directory order.\<close>

record artifact_store =
  as_dir :: bool
  as_files :: "(string, artifact_record option) dict"

datatype artifact_error = No_training_run | Invalid_artifact_id | Unknown_artifact_status | No_artifact
  | Corrupt_artifact

record path_functions =
  normalize_path :: "string \<Rightarrow> string"
  sha1_hex :: "bytes \<Rightarrow> string"

definition make_artifact_id :: "path_functions \<Rightarrow> string \<Rightarrow> string \<Rightarrow> string" where
  "make_artifact_id pf run_id path = run_id @ ''-'' @ take 8 (sha1_hex pf (utf8 (normalize_path pf path)))"

definition save_artifact_record :: "artifact_store \<Rightarrow> artifact_record \<Rightarrow> artifact_error + artifact_store" where
  "save_artifact_record st r =
     (if \<not> valid_run_id (ar_artifact_id r) then Inl Invalid_artifact_id
      else Inr (st\<lparr>as_dir := True, as_files := dset (ar_artifact_id r) (Some r) (as_files st)\<rparr>))"

definition load_artifact_record :: "artifact_store \<Rightarrow> string \<Rightarrow> artifact_error + artifact_record" where
  "load_artifact_record st artifact_id = (case dget (as_files st) artifact_id of
      None \<Rightarrow> Inl No_artifact
    | Some None \<Rightarrow> Inl Corrupt_artifact
    | Some (Some r) \<Rightarrow> Inr r)"

definition register_artifact ::
  "runtime \<Rightarrow> path_functions \<Rightarrow> disk \<Rightarrow> run_store \<Rightarrow> artifact_store \<Rightarrow> string \<Rightarrow> string \<Rightarrow> string \<Rightarrow> string \<Rightarrow> string
     \<Rightarrow> artifact_error + (artifact_record \<times> artifact_store)" where
  "register_artifact rt pf disk registry st run_id path label notes now =
     (if dget (rs_files registry) (run_slug run_id) = None then Inl No_training_run
      else
        let normalized = normalize_path pf path;
            artifact_id = make_artifact_id pf run_id normalized;
            existing = (case dget (as_files st) artifact_id of Some (Some e) \<Rightarrow> Some e | _ \<Rightarrow> None);
            r = \<lparr>ar_artifact_id = artifact_id, ar_run_id = run_id,
                 ar_created_at = (case existing of Some e \<Rightarrow> ar_created_at e | None \<Rightarrow> now), ar_updated_at = now,
                 ar_path = normalized, ar_kind = (if label \<noteq> [] then label else ''adapter''),
                 ar_status = (case existing of Some e \<Rightarrow> ar_status e | None \<Rightarrow> CANDIDATE),
                 ar_fingerprint = compute_fingerprint (disk normalized),
                 ar_content_hash = compute_content_hash rt (disk normalized),
                 ar_notes = (case existing of Some e \<Rightarrow> if notes \<noteq> [] then notes else ar_notes e | None \<Rightarrow> notes)\<rparr>
        in (case save_artifact_record st r of Inl e \<Rightarrow> Inl e | Inr st' \<Rightarrow> Inr (r, st')))"

fun first_artifacts :: "string set \<Rightarrow> artifact_record option list \<Rightarrow> artifact_record list" where
  "first_artifacts seen [] = []"
| "first_artifacts seen (None # rs) = first_artifacts seen rs"
| "first_artifacts seen (Some r # rs) =
     (if ar_artifact_id r \<in> seen then first_artifacts seen rs
      else r # first_artifacts (insert (ar_artifact_id r) seen) rs)"

definition list_artifacts :: "disk \<Rightarrow> artifact_store \<Rightarrow> (artifact_record \<times> string) list" where
  "list_artifacts disk st =
     (if \<not> as_dir st then []
      else map (\<lambda>r. (r, artifact_integrity disk r))
        (rev (sort_key ar_artifact_id (rev (first_artifacts {} (map snd (as_files st)))))))"

definition update_artifact_status ::
  "artifact_store \<Rightarrow> string \<Rightarrow> string \<Rightarrow> string \<Rightarrow> artifact_error + (artifact_record \<times> artifact_store)" where
  "update_artifact_status st artifact_id status now =
     (if status \<notin> set ARTIFACT_STATUSES then Inl Unknown_artifact_status
      else (case load_artifact_record st artifact_id of
          Inl e \<Rightarrow> Inl e
        | Inr r \<Rightarrow>
            let updated = r\<lparr>ar_status := status, ar_updated_at := now\<rparr>
            in (case save_artifact_record st updated of Inl e \<Rightarrow> Inl e | Inr st' \<Rightarrow> Inr (updated, st'))))"


section \<open>What the byte-exact check sees\<close>

text \<open>The hashed bytes of two lists of files with the same names and sizes agree only if the files
  do.\<close>

lemma keyed_bytes_inj:
  assumes "map (\<lambda>kb. (fst kb, length (snd kb))) xs = map (\<lambda>kb. (fst kb, length (snd kb))) ys"
    and "concat (map keyed_bytes xs) = concat (map keyed_bytes ys)"
  shows "xs = ys"
  using assms
proof (induction xs arbitrary: ys)
  case (Cons x xs)
  then obtain y ys' where ys: "ys = y # ys'" by (cases ys) auto
  with Cons.prems have same: "fst x = fst y" "length (snd x) = length (snd y)" by auto
  with Cons.prems(2) have "snd x = snd y \<and> concat (map keyed_bytes xs) = concat (map keyed_bytes ys')"
    by (simp add: ys keyed_bytes_def [of x] keyed_bytes_def [of y])
  with Cons ys same show ?case by (simp add: prod_eq_iff)
qed simp

text \<open>Without that condition they can: a zero byte, a name and a zero byte inside one file read as
  the boundary between two.\<close>

definition one_weight :: "disk_file list" where
  "one_weight = [\<lparr>df_rel = ''a.bin'', df_bytes = ''x'' @ [CHR 0x00] @ ''b.bin'' @ [CHR 0x00] @ ''y'', df_mtime_ns = 0\<rparr>]"

definition two_weights :: "disk_file list" where
  "two_weights = [\<lparr>df_rel = ''a.bin'', df_bytes = ''x'', df_mtime_ns = 0\<rparr>,
     \<lparr>df_rel = ''b.bin'', df_bytes = ''y'', df_mtime_ns = 0\<rparr>]"

lemma two_weight_sets_one_hash:
  "compute_content_hash rt (Dir_node one_weight) = compute_content_hash rt (Dir_node two_weights)
   \<and> keyed (weight_files one_weight) \<noteq> keyed (weight_files two_weights)"
proof -
  have w: "weight_files one_weight = one_weight" "weight_files two_weights = two_weights" by code_simp+
  have "concat (map keyed_bytes (keyed one_weight)) = concat (map keyed_bytes (keyed two_weights))"
    "keyed one_weight \<noteq> keyed two_weights" "one_weight \<noteq> []" "two_weights \<noteq> []" by code_simp+
  then show ?thesis by (simp add: compute_content_hash_def w content_hash_files_def)
qed

text \<open>Registering a path again refreshes the recorded hash and keeps the status.\<close>

lemma reregistered_status:
  assumes "register_artifact rt pf disk registry st run_id path label notes now = Inr (r, st')"
    and "dget (as_files st) (make_artifact_id pf run_id (normalize_path pf path)) = Some (Some e)"
  shows "ar_status r = ar_status e \<and> ar_content_hash r = compute_content_hash rt (disk (ar_path r))"
  using assms by (auto simp: register_artifact_def Let_def split: if_splits sum.splits)


section \<open>Properties\<close>

text \<open>The byte-exact check sees any change of bytes. If the weights of a directory have the
  names and sizes they had when the record's hash was taken, and SHA-256 has no collision on
  the two contents, the record is intact exactly when no byte of any weight changed.\<close>

theorem weight_change_detected:
  assumes "ar_content_hash r = compute_content_hash rt (Dir_node before)" and "disk (ar_path r) = Dir_node now"
    and "weight_files before \<noteq> []"
    and "map (\<lambda>f. (df_rel f, length (df_bytes f))) (weight_files before)
      = map (\<lambda>f. (df_rel f, length (df_bytes f))) (weight_files now)"
    and "sha256_injective rt {concat (map keyed_bytes (keyed (weight_files before))),
      concat (map keyed_bytes (keyed (weight_files now)))}"
  shows "artifact_content_integrity rt disk r = OK \<longleftrightarrow>
    map df_bytes (weight_files before) = map df_bytes (weight_files now)"
proof -
  let ?kb = "\<lambda>fs. keyed (weight_files fs)"
  have some: "weight_files now \<noteq> []" using assms(3,4) by (metis map_is_Nil_conv)
  have "artifact_content_integrity rt disk r = OK \<longleftrightarrow> content_hash_files rt (?kb now) = content_hash_files rt (?kb before)"
    using assms(1-3) some
    by (simp add: artifact_content_integrity_def compute_content_hash_def integrity_defs)
  also have "\<dots> \<longleftrightarrow> concat (map keyed_bytes (?kb now)) = concat (map keyed_bytes (?kb before))"
    using inj_on_eq_iff [OF assms(5) [unfolded sha256_injective_def]] by (simp add: content_hash_files_def)
  also have "\<dots> \<longleftrightarrow> ?kb now = ?kb before"
  proof
    assume "concat (map keyed_bytes (?kb now)) = concat (map keyed_bytes (?kb before))"
    with assms(4) show "?kb now = ?kb before" by (intro keyed_bytes_inj) (simp_all add: keyed_def comp_def)
  qed simp
  also have "\<dots> \<longleftrightarrow> map df_bytes (weight_files before) = map df_bytes (weight_files now)"
  proof -
    have names: "map df_rel (weight_files before) = map df_rel (weight_files now)"
      using arg_cong [OF assms(4), of "map fst"] by (simp add: comp_def)
    have pair: "keyed fs = zip (map df_rel fs) (map df_bytes fs)" for fs by (induction fs) (simp_all add: keyed_def)
    show ?thesis unfolding pair names [symmetric] by (metis length_map map_snd_zip names)
  qed
  finally show ?thesis .
qed

definition weights_at :: "char \<Rightarrow> disk_file list" where
  "weights_at n = [\<lparr>df_rel = ''adapter_config.json'', df_bytes = ''{}'', df_mtime_ns = 1\<rparr>,
     \<lparr>df_rel = ''adapter.safetensors'', df_bytes = [CHR ''w'', n], df_mtime_ns = 2\<rparr>]"

text \<open>A digest that tells the two contents apart.\<close>

definition telling_rt :: runtime where
  "telling_rt = sample_rt\<lparr>sha256_hex := (\<lambda>b. replicate 63 (CHR ''0'') @ [if CHR 0x02 \<in> set b then CHR ''1'' else CHR ''0''])\<rparr>"

definition weights_record :: artifact_record where
  "weights_record = \<lparr>ar_artifact_id = ''a1'', ar_run_id = ''r1'', ar_created_at = [], ar_updated_at = [],
     ar_path = ''/w'', ar_kind = ''adapter'', ar_status = CANDIDATE, ar_fingerprint = None,
     ar_content_hash = compute_content_hash telling_rt (Dir_node (weights_at (CHR 0x01))), ar_notes = []\<rparr>"

theorem weight_change_detected_witness:
  "artifact_content_integrity telling_rt (\<lambda>_. Dir_node (weights_at (CHR 0x01))) weights_record = OK
     \<and> artifact_content_integrity telling_rt (\<lambda>_. Dir_node (weights_at (CHR 0x02))) weights_record \<noteq> OK"
proof -
  have same: "map (\<lambda>f. (df_rel f, length (df_bytes f))) (weight_files (weights_at (CHR 0x01)))
      = map (\<lambda>f. (df_rel f, length (df_bytes f))) (weight_files (weights_at (CHR 0x02)))" by code_simp
  have other: "sha256_hex telling_rt (concat (map keyed_bytes (keyed (weight_files (weights_at (CHR 0x01))))))
      \<noteq> sha256_hex telling_rt (concat (map keyed_bytes (keyed (weight_files (weights_at (CHR 0x02))))))"
    "weight_files (weights_at (CHR 0x01)) \<noteq> []"
    "map df_bytes (weight_files (weights_at (CHR 0x01))) \<noteq> map df_bytes (weight_files (weights_at (CHR 0x02)))" by code_simp+
  have inj: "sha256_injective telling_rt {concat (map keyed_bytes (keyed (weight_files (weights_at (CHR 0x01))))),
      concat (map keyed_bytes (keyed (weight_files (weights_at c))))}" if "c = CHR 0x01 \<or> c = CHR 0x02" for c
    unfolding sha256_injective_def inj_on_def using that other(1) by force
  have recorded: "ar_content_hash weights_record = compute_content_hash telling_rt (Dir_node (weights_at (CHR 0x01)))"
    by (simp add: weights_record_def)
  show ?thesis
    using weight_change_detected [OF recorded refl other(2) refl inj] weight_change_detected [OF recorded refl other(2) same inj] other(3)
    by blast
qed

end
