(* ===== verification/Gate_Runner.thy ===== *)
theory Gate_Runner
  imports Gate_Checks Artifact_Registry Cleaning
begin

text \<open>
  The gate runner (\<open>gates/runner.py\<close>): it computes the reports the gates judge, assembles the gate
  reports, and enforces promotion; with the \<open>artifact-register\<close> and \<open>artifact-update\<close> commands of
  \<open>cli.py\<close>. \<open>builtin\<close> is the directory of shipped schemas and \<open>estimate\<close> the token estimator.
\<close>

section \<open>Dataset, chat, export, split and evaluation gates\<close>

fun validate_numbered ::
  "(string \<Rightarrow> dataset_schema option) \<Rightarrow> string \<Rightarrow> dataset_schema option \<Rightarrow> (nat \<times> json) list \<Rightarrow> validation_report
     \<Rightarrow> validator_error + validation_report" where
  "validate_numbered builtin schema_id schema [] report = Inr (report\<lparr>vr_valid := (vr_errors report = [])\<rparr>)"
| "validate_numbered builtin schema_id schema ((n, row) # rest) report =
     (case (case schema of
          None \<Rightarrow> validate_jsonl_row builtin row schema_id (Some n)
        | Some s \<Rightarrow> Inr (validate_jsonl_row_against None row s (Some n))) of
        Inl e \<Rightarrow> Inl e
      | Inr issues \<Rightarrow> validate_numbered builtin schema_id schema rest
          (report\<lparr>vr_checked_rows := vr_checked_rows report + 1, vr_errors := vr_errors report @ issues\<rparr>))"

definition validate_rows ::
  "(string \<Rightarrow> dataset_schema option) \<Rightarrow> json list \<Rightarrow> string \<Rightarrow> dataset_schema option
     \<Rightarrow> validator_error + validation_report" where
  "validate_rows builtin rows schema_id schema =
     validate_numbered builtin schema_id schema (enum_from 1 rows) (empty_report schema_id)"

definition thresholds_or_default :: "gate_thresholds option \<Rightarrow> gate_thresholds" where
  "thresholds_or_default t = (case t of Some t \<Rightarrow> t | None \<Rightarrow> default_thresholds)"

definition run_dataset_gates ::
  "runtime \<Rightarrow> (string \<Rightarrow> int) \<Rightarrow> (string \<Rightarrow> dataset_schema option) \<Rightarrow> json list \<Rightarrow> string \<Rightarrow> gate_thresholds option
     \<Rightarrow> string \<Rightarrow> string option \<Rightarrow> dataset_schema option \<Rightarrow> validator_error + gate_report" where
  "run_dataset_gates rt estimate builtin rows schema_id thresholds target now schema =
     (let t = thresholds_or_default thresholds in
      case validate_rows builtin rows schema_id schema of
        Inl e \<Rightarrow> Inl e
      | Inr validation \<Rightarrow>
          let quality = build_basic_quality_report rt estimate rows schema in
          Inr (build_gate_report Scope_dataset target
            [input_present_gate (length rows) Scope_dataset False, schema_gate validation Scope_dataset,
             quality_gate quality t Scope_dataset, pii_gate quality t Scope_dataset] now (Some t)))"

definition run_chat_gates ::
  "(string \<Rightarrow> dataset_schema option) \<Rightarrow> json list \<Rightarrow> string \<Rightarrow> gate_thresholds option
     \<Rightarrow> string \<Rightarrow> string option \<Rightarrow> dataset_schema option \<Rightarrow> validator_error + gate_report" where
  "run_chat_gates builtin rows schema_id thresholds target now schema =
     (let t = thresholds_or_default thresholds in
      case validate_rows builtin rows schema_id schema of
        Inl e \<Rightarrow> Inl e
      | Inr validation \<Rightarrow> Inr (build_gate_report Scope_chat_suite target
            [input_present_gate (length rows) Scope_chat_suite True, schema_gate validation Scope_chat_suite,
             chat_structure_gate rows t Scope_chat_suite] now (Some t)))"

definition export_thresholds :: "gate_thresholds \<Rightarrow> gate_thresholds" where
  "export_thresholds t = t\<lparr>block_exact_duplicates := False, block_normalized_duplicates := False,
     block_low_information := False\<rparr>"

definition run_export_gates ::
  "runtime \<Rightarrow> (string \<Rightarrow> int) \<Rightarrow> (string \<Rightarrow> dataset_schema option) \<Rightarrow> json list \<Rightarrow> string \<Rightarrow> gate_thresholds option
     \<Rightarrow> string \<Rightarrow> string option \<Rightarrow> dataset_schema option \<Rightarrow> validator_error + gate_report" where
  "run_export_gates rt estimate builtin rows schema_id thresholds target now schema =
     (let t = export_thresholds (thresholds_or_default thresholds) in
      case validate_rows builtin rows schema_id schema of
        Inl e \<Rightarrow> Inl e
      | Inr validation \<Rightarrow>
          let quality = build_basic_quality_report rt estimate rows schema in
          Inr (build_gate_report Scope_export target
            [input_present_gate (length rows) Scope_export True, schema_gate validation Scope_export,
             pii_gate quality t Scope_export, quality_gate quality t Scope_export] now (Some t)))"

definition run_split_gate ::
  "runtime \<Rightarrow> json list \<Rightarrow> json list \<Rightarrow> json list \<Rightarrow> string \<Rightarrow> string option \<Rightarrow> gate_report" where
  "run_split_gate rt train validation test target now =
     build_gate_report Scope_split target
       [leakage_gate (detect_split_leakage rt train validation test) Scope_split] now None"

definition run_evaluation_gate ::
  "evaluation_report \<Rightarrow> gate_thresholds option \<Rightarrow> string \<Rightarrow> string option \<Rightarrow> gate_report" where
  "run_evaluation_gate report thresholds target now =
     (let t = thresholds_or_default thresholds in
      build_gate_report Scope_evaluation_report target [eval_score_gate report t Scope_evaluation_report] now (Some t))"


section \<open>Training-run and artifact gates\<close>

definition truthy :: "string option \<Rightarrow> bool" where
  "truthy x \<longleftrightarrow> (case x of None \<Rightarrow> False | Some s \<Rightarrow> s \<noteq> [])"

definition linked_report :: "(string \<Rightarrow> evaluation_report option) \<Rightarrow> string option \<Rightarrow> evaluation_report option" where
  "linked_report load_report path = (if truthy path then load_report (the path) else None)"

definition regression_inputs ::
  "run_record \<Rightarrow> (string \<Rightarrow> evaluation_report option) \<Rightarrow> evaluation_report option \<times> evaluation_report option \<times> bool" where
  "regression_inputs run load_report =
     (let before = linked_report load_report (rr_before_eval_path run);
          after = linked_report load_report (rr_after_eval_path run)
      in (before, after, case after of
            None \<Rightarrow> True
          | Some a \<Rightarrow>
              if \<not> truthy (rr_after_eval_model run) then False
              else if rr_base_model run = [] then False
              else if rr_after_eval_model run = Some (rr_base_model run) then False
              else if rr_after_eval_model run \<noteq> Some (er_model a) then False
              else True))"

definition run_training_run_gate ::
  "run_record \<Rightarrow> (string \<Rightarrow> evaluation_report option) \<Rightarrow> gate_thresholds option \<Rightarrow> string option \<Rightarrow> gate_report" where
  "run_training_run_gate r load_report thresholds now =
     (let t = thresholds_or_default thresholds; (before, after, provenance_ok) = regression_inputs r load_report
      in build_gate_report Scope_training_run (rr_run_id r)
           [regression_gate before after t provenance_ok Scope_training_run] now (Some t))"

definition run_artifact_gate ::
  "artifact_record \<Rightarrow> string \<Rightarrow> run_record option \<Rightarrow> (string \<Rightarrow> evaluation_report option) \<Rightarrow> gate_thresholds option
     \<Rightarrow> string option \<Rightarrow> gate_report" where
  "run_artifact_gate artifact integrity run load_report thresholds now =
     (let t = thresholds_or_default thresholds;
          regression = (case run of
              None \<Rightarrow> regression_result Scope_model_artifact WARN Run_record_missing
            | Some r \<Rightarrow> (let (before, after, provenance_ok) = regression_inputs r load_report
                in regression_gate before after t provenance_ok Scope_model_artifact))
      in build_gate_report Scope_model_artifact (ar_artifact_id artifact)
           [artifact_integrity_gate integrity Scope_model_artifact, regression] now (Some t))"


section \<open>Promotion\<close>

datatype promote_error = Artifact_failed artifact_error | Promote_blocked gate_report

text \<open>What promotion reads besides the artifact: the disk, the run records and the evaluation
  reports, a report that is missing or corrupt as \<open>None\<close>.\<close>

record surroundings =
  su_disk :: disk
  su_registry :: run_store
  su_report :: "string \<Rightarrow> evaluation_report option"
  su_thresholds :: gate_thresholds

definition promote_gate :: "runtime \<Rightarrow> surroundings \<Rightarrow> artifact_record \<Rightarrow> gate_thresholds option \<Rightarrow> string \<Rightarrow> gate_report" where
  "promote_gate rt su artifact thresholds now =
     run_artifact_gate artifact (artifact_content_integrity rt (su_disk su) artifact)
       (run_at (su_registry su) (run_slug (ar_run_id artifact))) (su_report su) thresholds (Some now)"

definition promote_artifact ::
  "runtime \<Rightarrow> surroundings \<Rightarrow> artifact_store \<Rightarrow> string \<Rightarrow> string \<Rightarrow> gate_thresholds option
     \<Rightarrow> promote_error + (artifact_record \<times> gate_report \<times> artifact_store)" where
  "promote_artifact rt su st artifact_id now thresholds = (case load_artifact_record st artifact_id of
      Inl e \<Rightarrow> Inl (Artifact_failed e)
    | Inr artifact \<Rightarrow>
        let report = promote_gate rt su artifact thresholds now in
        if gp_overall_status report = BLOCK then Inl (Promote_blocked report)
        else (case update_artifact_status st artifact_id KEPT now of
            Inl e \<Rightarrow> Inl (Artifact_failed e)
          | Inr (updated, st') \<Rightarrow> Inr (updated, report, st')))"

definition scope_value :: "gate_scope \<Rightarrow> string" where
  "scope_value s = (case s of Scope_dataset \<Rightarrow> ''dataset'' | Scope_row \<Rightarrow> ''row'' | Scope_import \<Rightarrow> ''import''
     | Scope_export \<Rightarrow> ''export'' | Scope_split \<Rightarrow> ''split'' | Scope_evaluation_report \<Rightarrow> ''evaluation_report''
     | Scope_training_run \<Rightarrow> ''training_run'' | Scope_model_artifact \<Rightarrow> ''model_artifact''
     | Scope_chat_suite \<Rightarrow> ''chat_suite'')"

text \<open>\<open>Path(text).name\<close> with every run of other characters an underscore.\<close>

definition target_slug :: "string \<Rightarrow> string" where
  "target_slug target =
     (let name = (if posix_parts target = [] then [] else last (posix_parts target));
          base = strip_with (\<lambda>c. c = CHR ''_'') (sub_runs False name)
      in if base = [] then ''target'' else base)"

definition save_gate_report :: "(string, gate_report) dict \<Rightarrow> gate_report \<Rightarrow> (string, gate_report) dict" where
  "save_gate_report reports r = dset (scope_value (gp_scope r) @ ''-'' @ target_slug (gp_target r)) r reports"


section \<open>Commands\<close>

datatype artifact_command =
    Register_artifact string string string string string
  | Update_artifact string string string

text \<open>A command gives the new store and, for a promotion that goes through, the artifact it kept
  with the report of its gate.\<close>

definition artifact_update ::
  "runtime \<Rightarrow> surroundings \<Rightarrow> string \<Rightarrow> string \<Rightarrow> string \<Rightarrow> artifact_store
     \<Rightarrow> artifact_store \<times> (artifact_record \<times> gate_report) option" where
  "artifact_update rt su artifact_id status now st =
     (if status = ''kept''
      then (case promote_artifact rt su st artifact_id now (Some (su_thresholds su)) of
          Inl _ \<Rightarrow> (st, None)
        | Inr (r, report, st') \<Rightarrow> (st', Some (r, report)))
      else (case update_artifact_status st artifact_id status now of
          Inl _ \<Rightarrow> (st, None)
        | Inr (_, st') \<Rightarrow> (st', None)))"

fun apply_artifact_command ::
  "runtime \<Rightarrow> path_functions \<Rightarrow> surroundings \<Rightarrow> artifact_command \<Rightarrow> artifact_store
     \<Rightarrow> artifact_store \<times> (artifact_record \<times> gate_report) option" where
  "apply_artifact_command rt pf su (Register_artifact run_id path label notes now) st =
     (case register_artifact rt pf (su_disk su) (su_registry su) st run_id path label notes now of
        Inl _ \<Rightarrow> (st, None) | Inr (_, st') \<Rightarrow> (st', None))"
| "apply_artifact_command rt pf su (Update_artifact artifact_id status now) st =
     artifact_update rt su artifact_id status now st"


section \<open>Verdicts of whole reports\<close>

lemma built_blocked [gate_verdict]:
  "gp_overall_status (build_gate_report scope target results now t) = BLOCK
     \<longleftrightarrow> list_ex (\<lambda>g. gr_status g = BLOCK) results"
  by (force simp: build_gate_report_def Let_def worst_status_block_iff list_ex_iff)

lemma validate_numbered_result:
  "validate_numbered builtin schema_id (Some s) nrs r = Inr (r
     \<lparr>vr_valid := (vr_errors r @ concat (map (\<lambda>nr. validate_jsonl_row_against None (snd nr) s (Some (fst nr))) nrs) = []),
      vr_checked_rows := vr_checked_rows r + length nrs,
      vr_errors := vr_errors r @ concat (map (\<lambda>nr. validate_jsonl_row_against None (snd nr) s (Some (fst nr))) nrs)\<rparr>)"
  by (induction nrs arbitrary: r) auto

lemma validate_rows_valid:
  "\<exists>report. validate_rows builtin rows schema_id (Some s) = Inr report
     \<and> (vr_valid report \<longleftrightarrow> list_all (row_ok None s) rows)"
proof -
  have "list_all (\<lambda>nr. row_ok None s (snd nr)) (enum_from n rows) \<longleftrightarrow> list_all (row_ok None s) rows" for n
    by (induction rows arbitrary: n) simp_all
  then show ?thesis
    by (auto simp: validate_rows_def validate_numbered_result empty_report_def validate_row_ok list_all_iff)
qed

lemma crossing_positive: "leaked_signature rt nrs sig \<Longrightarrow> 0 < crossing_copies rt nrs sig"
  by (auto simp: leaked_signature_def crossing_copies_def split_names_def max_def split: if_splits)

lemma split_gate_verdict:
  "gp_overall_status (run_split_gate rt train validation test target now) =
     (if \<exists>sig. leaked_signature rt (named_rows train validation test) sig then BLOCK else PASS)"
proof -
  let ?leaked = "{sig. leaked_signature rt (named_rows train validation test) sig}"
  have "?leaked \<subseteq> normalized_text_signature rt ` (set train \<union> set validation)"
    by (auto simp: leaked_signature_names Let_def)
  then have "finite ?leaked" by (rule finite_subset) simp
  then have "lr_rows_shared_across_splits (detect_split_leakage rt train validation test) = 0 \<longleftrightarrow> ?leaked = {}"
    using crossing_positive by (simp add: detect_split_leakage_counts) (metis less_irrefl)
  then show ?thesis
    by (auto simp: run_split_gate_def build_gate_report_def leakage_gate_def Let_def worst_status_def)
qed

lemma distinct_splits_do_not_leak:
  assumes "distinct (filter (\<lambda>s. s \<noteq> []) (map (normalized_text_signature rt) (train @ validation @ test)))"
  shows "\<not> leaked_signature rt (named_rows train validation test) sig"
  using assms by (auto simp: leaked_signature_names Let_def)


section \<open>Promotion and the trace of commands\<close>

text \<open>What a promotion must have found: the weights intact, and no drop in score between comparable
  evaluations of the run.\<close>

definition promotable :: "runtime \<Rightarrow> surroundings \<Rightarrow> gate_thresholds \<Rightarrow> artifact_record \<Rightarrow> bool" where
  "promotable rt su t a \<longleftrightarrow> artifact_content_integrity rt (su_disk su) a = OK
     \<and> (case run_at (su_registry su) (run_slug (ar_run_id a)) of
          None \<Rightarrow> True
        | Some r \<Rightarrow>
            let before = linked_report (su_report su) (rr_before_eval_path r);
                after = linked_report (su_report su) (rr_after_eval_path r)
            in \<not> (comparable before after \<and> score_dropped t before after))"

lemma promote_gate_verdict:
  "gp_overall_status (promote_gate rt su a (Some t) now) = BLOCK \<longleftrightarrow> \<not> promotable rt su t a"
proof -
  have "gr_status (regression_gate before after t ok scope) = BLOCK \<longleftrightarrow> comparable before after \<and> score_dropped t before after"
    for before after ok scope by (simp add: regression_verdict)
  then show ?thesis
    by (simp add: promote_gate_def run_artifact_gate_def built_blocked promotable_def Let_def regression_inputs_def
        integrity_verdict OK_def thresholds_or_default_def regression_result_def case_prod_beta split: option.split)
qed

lemma kept_is_kept: "KEPT = ''kept''" "KEPT \<in> set ARTIFACT_STATUSES" "CANDIDATE \<noteq> KEPT"
  by (simp_all add: KEPT_def ARTIFACT_STATUSES_def CANDIDATE_def REJECTED_def)

definition artifact_at :: "artifact_store \<Rightarrow> string \<Rightarrow> artifact_record option" where
  "artifact_at st artifact_id = (case load_artifact_record st artifact_id of Inr r \<Rightarrow> Some r | Inl _ \<Rightarrow> None)"

lemma load_artifact_iff: "load_artifact_record st artifact_id = Inr r \<longleftrightarrow> artifact_at st artifact_id = Some r"
  by (auto simp: artifact_at_def split: sum.splits)

lemma save_artifact_at:
  assumes "save_artifact_record st r = Inr st'"
  shows "artifact_at st' k = (if k = ar_artifact_id r then Some r else artifact_at st k)"
  using assms
  by (auto simp: save_artifact_record_def artifact_at_def load_artifact_record_def dget_dset split: if_splits option.splits sum.splits)

text \<open>Every artifact file holds the record its name says.\<close>

definition artifacts_named :: "artifact_store \<Rightarrow> bool" where
  "artifacts_named st \<longleftrightarrow> (\<forall>k r. artifact_at st k = Some r \<longrightarrow> ar_artifact_id r = k)"

lemma register_saves:
  assumes "register_artifact rt pf disk registry st run_id path label notes now = Inr (r, st')"
  shows "save_artifact_record st r = Inr st' \<and> (ar_status r = CANDIDATE
    \<or> (\<exists>e. artifact_at st (ar_artifact_id r) = Some e \<and> ar_status r = ar_status e))"
  using assms
  by (auto simp: register_artifact_def Let_def artifact_at_def load_artifact_record_def split: if_splits sum.splits option.splits)

lemma update_saves:
  assumes "update_artifact_status st k status now = Inr (r, st')"
  shows "save_artifact_record st r = Inr st' \<and> ar_status r = status
    \<and> (\<exists>e. artifact_at st k = Some e \<and> r = e\<lparr>ar_status := status, ar_updated_at := now\<rparr>)"
  using assms by (auto simp: update_artifact_status_def load_artifact_iff Let_def split: if_splits sum.splits)

text \<open>A promotion that goes through.\<close>

definition kept_by :: "runtime \<Rightarrow> surroundings \<Rightarrow> artifact_store \<Rightarrow> string \<Rightarrow> bool" where
  "kept_by rt su st k \<longleftrightarrow> (\<exists>a. artifact_at st k = Some a \<and> promotable rt su (su_thresholds su) a)"

lemma artifact_update_effect:
  assumes "artifacts_named st" and "fst (artifact_update rt su k status now st) = st'"
  shows "artifacts_named st'"
    and "\<exists>a. artifact_at st' j = Some a \<and> ar_status a = KEPT \<Longrightarrow>
      (\<exists>a. artifact_at st j = Some a \<and> ar_status a = KEPT) \<or> (j = k \<and> status = ''kept'' \<and> kept_by rt su st k)"
proof -
  have "st' = st \<or> (\<exists>e. artifact_at st k = Some e \<and> (status = ''kept'' \<longrightarrow> kept_by rt su st k)
    \<and> save_artifact_record st (e\<lparr>ar_status := status, ar_updated_at := now\<rparr>) = Inr st')"
  proof (cases "status = ''kept''")
    case True
    show ?thesis
    proof (cases "promote_artifact rt su st k now (Some (su_thresholds su))")
      case (Inr x)
      then obtain a r report where a: "artifact_at st k = Some a"
        and gate: "gp_overall_status (promote_gate rt su a (Some (su_thresholds su)) now) \<noteq> BLOCK"
        and up: "update_artifact_status st k KEPT now = Inr (r, snd (snd x))"
        by (auto simp: promote_artifact_def load_artifact_iff Let_def split: sum.splits if_splits)
      have "st' = snd (snd x)" using assms(2) True Inr by (cases x) (auto simp: artifact_update_def)
      with update_saves [OF up] a gate True show ?thesis by (auto simp: kept_by_def promote_gate_verdict KEPT_def)
    qed (use assms(2) True in \<open>simp add: artifact_update_def\<close>)
  next
    case False
    then show ?thesis using assms(2) update_saves by (fastforce simp: artifact_update_def split: sum.splits)
  qed
  then show "artifacts_named st'"
    and "\<exists>a. artifact_at st' j = Some a \<and> ar_status a = KEPT \<Longrightarrow>
      (\<exists>a. artifact_at st j = Some a \<and> ar_status a = KEPT) \<or> (j = k \<and> status = ''kept'' \<and> kept_by rt su st k)"
    using assms(1) save_artifact_at by (auto simp: artifacts_named_def KEPT_def split: if_splits)
qed


lemma register_effect:
  assumes "artifacts_named st"
    and "register_artifact rt pf disk registry st run_id path label remark now = Inr (r, st')"
  shows "artifacts_named st'"
    and "\<exists>a. artifact_at st' j = Some a \<and> ar_status a = KEPT \<Longrightarrow> \<exists>a. artifact_at st j = Some a \<and> ar_status a = KEPT"
  using assms(1) register_saves [OF assms(2)] save_artifact_at [of st r st'] kept_is_kept(3)
  by (auto simp: artifacts_named_def split: if_splits)

lemma command_effect:
  assumes "artifacts_named st"
  shows "artifacts_named (fst (apply_artifact_command rt pf su c st))"
    and "\<exists>a. artifact_at (fst (apply_artifact_command rt pf su c st)) j = Some a \<and> ar_status a = KEPT \<Longrightarrow>
      (\<exists>a. artifact_at st j = Some a \<and> ar_status a = KEPT)
      \<or> (\<exists>now. c = Update_artifact j ''kept'' now \<and> kept_by rt su st j)"
proof -
  have "artifacts_named (fst (apply_artifact_command rt pf su c st))
    \<and> ((\<exists>a. artifact_at (fst (apply_artifact_command rt pf su c st)) j = Some a \<and> ar_status a = KEPT) \<longrightarrow>
      (\<exists>a. artifact_at st j = Some a \<and> ar_status a = KEPT)
      \<or> (\<exists>now. c = Update_artifact j ''kept'' now \<and> kept_by rt su st j))"
  proof (cases c)
    case (Register_artifact run_id path label remark now)
    then show ?thesis
      using assms register_effect [OF assms, of rt pf "su_disk su" "su_registry su" run_id path label remark now]
      by (simp split: sum.splits)
  next
    case (Update_artifact k status now)
    then show ?thesis using artifact_update_effect [OF assms refl, of rt su k status now] by auto
  qed
  then show "artifacts_named (fst (apply_artifact_command rt pf su c st))"
    and "\<exists>a. artifact_at (fst (apply_artifact_command rt pf su c st)) j = Some a \<and> ar_status a = KEPT \<Longrightarrow>
      (\<exists>a. artifact_at st j = Some a \<and> ar_status a = KEPT)
      \<or> (\<exists>now. c = Update_artifact j ''kept'' now \<and> kept_by rt su st j)" by blast+
qed

text \<open>Commands in sequence, each in the surroundings it finds.\<close>

fun run_trace :: "runtime \<Rightarrow> path_functions \<Rightarrow> (surroundings \<times> artifact_command) list \<Rightarrow> artifact_store \<Rightarrow> artifact_store" where
  "run_trace rt pf [] st = st"
| "run_trace rt pf ((su, c) # cs) st = run_trace rt pf cs (fst (apply_artifact_command rt pf su c st))"

lemma run_trace_append [simp]: "run_trace rt pf (cs @ ds) st = run_trace rt pf ds (run_trace rt pf cs st)"
  by (induction rt pf cs st rule: run_trace.induct) simp_all

lemma run_trace_named: "artifacts_named st \<Longrightarrow> artifacts_named (run_trace rt pf cs st)"
  by (induction rt pf cs st rule: run_trace.induct) (simp_all add: command_effect(1))

lemma kept_through_gate:
  assumes "artifacts_named st" and "\<exists>a. artifact_at (run_trace rt pf cs st) k = Some a \<and> ar_status a = KEPT"
  shows "(\<exists>a. artifact_at st k = Some a \<and> ar_status a = KEPT)
    \<or> (\<exists>pre su now post. cs = pre @ (su, Update_artifact k ''kept'' now) # post \<and> kept_by rt su (run_trace rt pf pre st) k)"
  using assms(2)
proof (induction cs rule: rev_induct)
  case (snoc sc cs)
  obtain su c where sc: "sc = (su, c)" by force
  from snoc.prems have "\<exists>a. artifact_at (fst (apply_artifact_command rt pf su c (run_trace rt pf cs st))) k = Some a \<and> ar_status a = KEPT"
    by (simp add: sc)
  from command_effect(2) [OF run_trace_named [OF assms(1)] this] show ?case
  proof
    assume "\<exists>a. artifact_at (run_trace rt pf cs st) k = Some a \<and> ar_status a = KEPT"
    from snoc.IH [OF this] show ?thesis by (metis append.assoc append_Cons)
  next
    assume "\<exists>now. c = Update_artifact k ''kept'' now \<and> kept_by rt su (run_trace rt pf cs st) k"
    then show ?thesis using sc by blast
  qed
qed simp


section \<open>Properties\<close>

text \<open>C14: The export gate blocks for three reasons only. It blocks exactly when there is no row,
  some row does not conform to the schema, or some row holds a high-severity secret and
  blocking on those is configured; duplicates and low-information rows never block an export,
  and the switch for medium-severity findings changes no verdict.\<close>

theorem export_gate_blocks_exactly:
  "\<exists>report. run_export_gates rt estimate builtin rows schema_id (Some t) target now (Some s) = Inr report
     \<and> (report_blocked report \<longleftrightarrow> rows = [] \<or> list_ex (\<lambda>row. \<not> row_ok None s row) rows
          \<or> (block_on_high_severity_pii t \<and> list_ex (row_has_pii rt ''high'') rows))
     \<and> (\<exists>report'. run_export_gates rt estimate builtin rows schema_id (Some (t\<lparr>warn_on_medium_severity_pii := b\<rparr>))
            target now (Some s) = Inr report' \<and> gp_overall_status report' = gp_overall_status report)"
proof -
  obtain v where v: "validate_rows builtin rows schema_id (Some s) = Inr v" "vr_valid v \<longleftrightarrow> list_all (row_ok None s) rows"
    using validate_rows_valid by blast
  have pii: "gr_status (pii_gate (build_basic_quality_report rt estimate rows schema) t' scope) = BLOCK \<longleftrightarrow>
      block_on_high_severity_pii t' \<and> list_ex (row_has_pii rt ''high'') rows" for schema t' scope
    by (simp add: pii_report_verdict)
  have "quality_excesses q (export_thresholds (t\<lparr>warn_on_medium_severity_pii := b\<rparr>)) = quality_excesses q (export_thresholds t)" for q
    by (simp add: quality_excesses_def export_thresholds_def)
  then have flag: "gr_status (pii_gate q (export_thresholds (t\<lparr>warn_on_medium_severity_pii := b\<rparr>)) scope) = gr_status (pii_gate q (export_thresholds t) scope)"
    "gr_status (quality_gate q (export_thresholds (t\<lparr>warn_on_medium_severity_pii := b\<rparr>)) scope) = gr_status (quality_gate q (export_thresholds t) scope)"
    for q scope by (simp_all add: pii_verdict quality_gate_def Let_def) (simp_all add: export_thresholds_def)
  let ?q = "build_basic_quality_report rt estimate rows (Some s)"
  define gates where "gates t = [input_present_gate (length rows) Scope_export True, schema_gate v Scope_export,
     pii_gate ?q t Scope_export, quality_gate ?q t Scope_export]" for t
  have run: "run_export_gates rt estimate builtin rows schema_id (Some t) target now (Some s)
      = Inr (build_gate_report Scope_export target (gates (export_thresholds t)) now (Some (export_thresholds t)))" for t
    by (simp add: run_export_gates_def v thresholds_or_default_def gates_def Let_def)
  have "list_ex (\<lambda>g. gr_status g = BLOCK) (gates (export_thresholds t)) \<longleftrightarrow> rows = [] \<or> list_ex (\<lambda>row. \<not> row_ok None s row) rows
      \<or> (block_on_high_severity_pii t \<and> list_ex (row_has_pii rt ''high'') rows)"
    by (simp add: gates_def pii gate_verdict v(2) list_ex_iff list_all_iff) (simp add: export_thresholds_def)
  moreover have "map gr_status (gates (export_thresholds (t\<lparr>warn_on_medium_severity_pii := b\<rparr>))) = map gr_status (gates (export_thresholds t))"
    by (simp add: gates_def flag)
  ultimately show ?thesis
    unfolding run report_blocked_def by (simp add: built_blocked) (simp add: build_gate_report_def Let_def)
qed

text \<open>A deduplicated dataset splits without leakage. Rows cleaned with deduplication, split at
  random with any ratios, pass the split gate: no signature occurs in two of the splits.\<close>

theorem deduplicated_split_passes_gate:
  assumes "cc_dedupe cfg" and "random_split shuffle (fst (clean_rows rt cfg rows)) train_ratio validation_ratio seed = Inr s"
    and "mset (shuffle seed (fst (clean_rows rt cfg rows))) = mset (fst (clean_rows rt cfg rows))"
  shows "gp_overall_status (run_split_gate rt (sr_train s) (sr_validation s) (sr_test s) target now) = PASS"
proof -
  let ?rows = "fst (clean_rows rt cfg rows)" and ?parts = "sr_train s @ sr_validation s @ sr_test s"
  have "distinct (filter (\<lambda>s. s \<noteq> []) (map (normalized_text_signature rt) ?rows))"
    using clean_loop_ok [of rt cfg rows] assms(1) by (simp add: clean_ok_def clean_rows_def Let_def)
  moreover have "mset (filter (\<lambda>s. s \<noteq> []) (map (normalized_text_signature rt) ?parts))
      = mset (filter (\<lambda>s. s \<noteq> []) (map (normalized_text_signature rt) ?rows))"
    unfolding random_split_concat [OF assms(2)] using assms(3) by (simp del: filter_map)
  note mset_eq_imp_distinct_iff [OF this]
  ultimately have "distinct (filter (\<lambda>s. s \<noteq> []) (map (normalized_text_signature rt) ?parts))" by blast
  from distinct_splits_do_not_leak [OF this] show ?thesis by (simp add: split_gate_verdict)
qed

theorem deduplicated_split_passes_gate_witness:
  "\<exists>s. random_split (\<lambda>_. rev) (fst (clean_rows sample_rt \<lparr>cc_dedupe = True, cc_drop_low_information = False, cc_threshold = 5\<rparr>
        [row_a, row_b, row_c, row_a])) (fl (1/2)) (fl (1/10)) 7 = Inr s
     \<and> gp_overall_status (run_split_gate sample_rt (sr_train s) (sr_validation s) (sr_test s) [] None) = PASS"
proof -
  let ?cfg = "\<lparr>cc_dedupe = True, cc_drop_low_information = False, cc_threshold = 5\<rparr>"
  have clean: "fst (clean_rows sample_rt ?cfg [row_a, row_b, row_c, row_a]) = [row_a, row_b, row_c]" by code_simp
  have run: "random_split (\<lambda>_. rev) [row_a, row_b, row_c] (fl (1/2)) (fl (1/10)) 7 = Inr
      (case random_split (\<lambda>_. rev) [row_a, row_b, row_c] (fl (1/2)) (fl (1/10)) 7 of Inr s \<Rightarrow> s)" by code_simp
  show ?thesis
    using deduplicated_split_passes_gate [of ?cfg "\<lambda>_. rev" sample_rt "[row_a, row_b, row_c, row_a]", unfolded clean, OF _ run]
      run unfolding clean by fastforce
qed

text \<open>C4: Only the gate keeps an artifact. Along any sequence of register and update commands, an
  artifact that ends up kept, and was not at the start, was kept by an update to kept that found
  its weights intact, byte for byte where a hash was recorded, and no drop of the score between
  comparable evaluations of its run.\<close>

theorem kept_only_through_gate:
  assumes "artifacts_named st" and "artifact_at (run_trace rt pf cs st) k = Some a" and "ar_status a = KEPT"
    and "case artifact_at st k of None \<Rightarrow> True | Some a \<Rightarrow> ar_status a \<noteq> KEPT"
  shows "\<exists>pre su now post. cs = pre @ (su, Update_artifact k ''kept'' now) # post
     \<and> kept_by rt su (run_trace rt pf pre st) k"
  using kept_through_gate [OF assms(1), of rt pf cs k] assms(2-4) by (auto split: option.splits)

definition candidate_store :: artifact_store where
  "candidate_store = \<lparr>as_dir = True, as_files = [(''a1'', Some \<lparr>ar_artifact_id = ''a1'', ar_run_id = ''r1'',
     ar_created_at = [], ar_updated_at = [], ar_path = ''/w'', ar_kind = ''adapter'', ar_status = CANDIDATE,
     ar_fingerprint = None, ar_content_hash = None, ar_notes = []\<rparr>)]\<rparr>"

definition intact_surroundings :: surroundings where
  "intact_surroundings = \<lparr>su_disk = (\<lambda>_. Dir_node []), su_registry = \<lparr>rs_dir = False, rs_files = []\<rparr>,
     su_report = (\<lambda>_. None), su_thresholds = default_thresholds\<rparr>"

definition plain_paths :: path_functions where
  "plain_paths = \<lparr>normalize_path = (\<lambda>p. p), sha1_hex = (\<lambda>b. take 40 (sample_hash b))\<rparr>"

theorem kept_only_through_gate_witness:
  "\<exists>pre su now post. [(intact_surroundings, Update_artifact ''a1'' ''kept'' ''t1'')]
      = pre @ (su, Update_artifact ''a1'' ''kept'' now) # post
     \<and> kept_by sample_rt su (run_trace sample_rt plain_paths pre candidate_store) ''a1''"
proof -
  let ?cs = "[(intact_surroundings, Update_artifact ''a1'' ''kept'' ''t1'')]"
  have "valid_run_id ''a1''" by code_simp
  then have kept: "map_option ar_status (artifact_at (run_trace sample_rt plain_paths ?cs candidate_store) ''a1'') = Some KEPT"
    by (simp add: artifact_update_def promote_artifact_def promote_gate_verdict load_artifact_record_def artifact_at_def
        update_artifact_status_def save_artifact_record_def promotable_def artifact_content_integrity_def
        artifact_integrity_def run_at_def Let_def ARTIFACT_STATUSES_def candidate_store_def intact_surroundings_def)
  then obtain a where a: "artifact_at (run_trace sample_rt plain_paths ?cs candidate_store) ''a1'' = Some a" "ar_status a = KEPT"
    by (auto simp del: run_trace.simps)
  show ?thesis
    by (rule kept_only_through_gate [OF _ a])
      (auto simp: artifacts_named_def artifact_at_def load_artifact_record_def candidate_store_def kept_is_kept(3)
        split: if_splits)
qed

end
