(* ===== verification/Execution_Variants.thy ===== *)
theory Execution_Variants
  imports Prelude
begin

text \<open>
  The execution variants of the training harness (\<open>platform/execution_variants.py\<close>): which shape
  a request is run as, what the first-party backend declares about each shape, and the fail-closed
  admission against the support ladder.
\<close>

section \<open>Shapes, tasks and the ladder\<close>

datatype variant_kind = Dense_qlora_sft | Dense_full_finetune | Pretraining_shape | Moe | Preference_dpo
  | Reward_model_shape | On_policy_rl

datatype variant_support = Declared | Contract_validated | Worker_implemented | Workload_verified

datatype task_type = Sft | Pretraining_task | Preference_task | Reward_task | Classification_task | Embedding
  | Multimodal | Evaluation_task | Distillation | Grpo

text \<open>Support levels compare by their position in the enumeration.\<close>

fun support_order :: "variant_support \<Rightarrow> nat" where
  "support_order Declared = 0"
| "support_order Contract_validated = 1"
| "support_order Worker_implemented = 2"
| "support_order Workload_verified = 3"

record backend_variant =
  bv_contract_version :: string
  bv_backend_id :: string
  bv_kind :: variant_kind
  bv_support :: variant_support

record variant_envelope =
  ve_task_type :: string
  ve_requires_causal_lm :: bool
  ve_requires_peft_adapter :: bool
  ve_allows_full_parameter :: bool
  ve_allows_multiple_datasets :: bool

definition CONTRACT_VERSION :: string where "CONTRACT_VERSION = ''1.0.0''"

definition adapter_envelope :: variant_envelope where
  "adapter_envelope = \<lparr>ve_task_type = ''CAUSAL_LM'', ve_requires_causal_lm = True, ve_requires_peft_adapter = True,
     ve_allows_full_parameter = False, ve_allows_multiple_datasets = False\<rparr>"

definition variant_envelopes :: "(variant_kind, variant_envelope) dict" where
  "variant_envelopes =
     [(Dense_qlora_sft, adapter_envelope),
      (Dense_full_finetune, adapter_envelope\<lparr>ve_requires_peft_adapter := False, ve_allows_full_parameter := True\<rparr>),
      (Pretraining_shape, adapter_envelope\<lparr>ve_requires_peft_adapter := False, ve_allows_full_parameter := True,
         ve_allows_multiple_datasets := True\<rparr>),
      (Moe, adapter_envelope\<lparr>ve_requires_peft_adapter := False, ve_allows_full_parameter := True,
         ve_allows_multiple_datasets := True\<rparr>),
      (Preference_dpo, adapter_envelope),
      (Reward_model_shape, adapter_envelope\<lparr>ve_task_type := ''SEQ_CLS'', ve_requires_causal_lm := False\<rparr>),
      (On_policy_rl, adapter_envelope)]"

definition reference_execution_variants :: "backend_variant list" where
  "reference_execution_variants =
     map (\<lambda>(k, s). \<lparr>bv_contract_version = ''1.0.0'', bv_backend_id = ''corpus_studio'', bv_kind = k, bv_support = s\<rparr>)
       [(Dense_qlora_sft, Workload_verified), (Dense_full_finetune, Workload_verified),
        (Pretraining_shape, Workload_verified), (Moe, Declared), (Preference_dpo, Workload_verified),
        (Reward_model_shape, Workload_verified), (On_policy_rl, Contract_validated)]"


section \<open>Admission\<close>

datatype variant_refusal = Unsupported_schema_version | Unknown_variant_kind | Below_required_support
  | No_shape | Not_declared

definition admit_execution_variant :: "backend_variant \<Rightarrow> variant_support \<Rightarrow> variant_refusal option" where
  "admit_execution_variant v required =
     (if bv_contract_version v \<noteq> CONTRACT_VERSION then Some Unsupported_schema_version
      else if bv_kind v \<notin> set (dkeys variant_envelopes) then Some Unknown_variant_kind
      else if support_order (bv_support v) < support_order required then Some Below_required_support
      else None)"

definition task_to_variant :: "(task_type, variant_kind) dict" where
  "task_to_variant = [(Sft, Dense_qlora_sft), (Pretraining_task, Pretraining_shape)]"

definition preference_objectives :: "(string, variant_kind) dict" where
  "preference_objectives = [(''dpo_qlora'', Preference_dpo)]"

definition reward_objectives :: "(string, variant_kind) dict" where
  "reward_objectives = [(''reward_model'', Reward_model_shape)]"

definition on_policy_objectives :: "(string, variant_kind) dict" where
  "on_policy_objectives = [(''grpo'', On_policy_rl)]"

text \<open>A family keyed by its objective: a mixture of experts, or no objective, has no shape.\<close>

definition objective_shape :: "(string, variant_kind) dict \<Rightarrow> bool \<Rightarrow> string option \<Rightarrow> variant_kind option" where
  "objective_shape table is_moe objective_id =
     (if is_moe \<or> objective_id = None \<or> objective_id = Some [] then None else dget table (the objective_id))"

definition execution_variant_kind_for_task ::
  "task_type \<Rightarrow> bool \<Rightarrow> string option \<Rightarrow> bool \<Rightarrow> variant_kind option" where
  "execution_variant_kind_for_task task is_moe objective_id is_full_parameter =
     (if task = Preference_task then objective_shape preference_objectives is_moe objective_id
      else if task = Reward_task then objective_shape reward_objectives is_moe objective_id
      else if task = Grpo then objective_shape on_policy_objectives is_moe objective_id
      else if is_moe then Some Moe
      else if task = Sft \<and> is_full_parameter then Some Dense_full_finetune
      else dget task_to_variant task)"

definition admit_task_execution_variant ::
  "task_type \<Rightarrow> bool \<Rightarrow> string option \<Rightarrow> bool \<Rightarrow> backend_variant list \<Rightarrow> variant_support
     \<Rightarrow> variant_refusal + backend_variant" where
  "admit_task_execution_variant task is_moe objective_id is_full_parameter declared_variants required =
     (case execution_variant_kind_for_task task is_moe objective_id is_full_parameter of
        None \<Rightarrow> Inl No_shape
      | Some k \<Rightarrow> (case find (\<lambda>v. bv_kind v = k) declared_variants of
            None \<Rightarrow> Inl Not_declared
          | Some declared \<Rightarrow> (case admit_execution_variant declared required of
                Some r \<Rightarrow> Inl r
              | None \<Rightarrow> Inr declared)))"


section \<open>What the first-party backend admits\<close>

text \<open>The five verified requests: adapter and full-parameter fine-tuning, pretraining, and the two
  objectives with a built shape.\<close>

definition verified_request :: "task_type \<Rightarrow> bool \<Rightarrow> string option \<Rightarrow> bool \<Rightarrow> bool" where
  "verified_request task is_moe objective_id is_full_parameter \<longleftrightarrow> \<not> is_moe \<and>
     (task = Sft \<or> task = Pretraining_task \<or> (task = Preference_task \<and> objective_id = Some ''dpo_qlora'')
      \<or> (task = Reward_task \<and> objective_id = Some ''reward_model''))"

lemma shape_dicts: "dget preference_objectives k = (if k = ''dpo_qlora'' then Some Preference_dpo else None)"
  "dget reward_objectives k = (if k = ''reward_model'' then Some Reward_model_shape else None)"
  "dget on_policy_objectives k = (if k = ''grpo'' then Some On_policy_rl else None)"
  "dget task_to_variant t = (if t = Sft then Some Dense_qlora_sft else if t = Pretraining_task then Some Pretraining_shape else None)"
  by (simp_all add: preference_objectives_def reward_objectives_def on_policy_objectives_def task_to_variant_def)

lemma every_kind_has_envelope: "k \<in> fst ` set variant_envelopes"
  by (cases k) (simp_all add: variant_envelopes_def)

lemma declared_once: "\<exists>v. find (\<lambda>v. bv_kind v = k) reference_execution_variants = Some v \<and> bv_contract_version v = ''1.0.0''
    \<and> bv_support v = (if k = Moe then Declared else if k = On_policy_rl then Contract_validated else Workload_verified)"
  by (cases k) (simp_all add: reference_execution_variants_def)

lemma admits_verified_kind:
  "(\<exists>v. admit_task_execution_variant task is_moe objective_id full reference_execution_variants Workload_verified = Inr v)
     \<longleftrightarrow> (\<exists>k. execution_variant_kind_for_task task is_moe objective_id full = Some k \<and> k \<noteq> Moe \<and> k \<noteq> On_policy_rl)"
proof (cases "execution_variant_kind_for_task task is_moe objective_id full")
  case (Some k)
  obtain v where v: "find (\<lambda>v. bv_kind v = k) reference_execution_variants = Some v" "bv_contract_version v = ''1.0.0''"
    "bv_support v = (if k = Moe then Declared else if k = On_policy_rl then Contract_validated else Workload_verified)"
    using declared_once by blast
  then show ?thesis
    by (auto simp: admit_task_execution_variant_def Some admit_execution_variant_def CONTRACT_VERSION_def every_kind_has_envelope)
qed (simp add: admit_task_execution_variant_def)


lemma verified_kind:
  "(\<exists>k. execution_variant_kind_for_task task is_moe objective_id full = Some k \<and> k \<noteq> Moe \<and> k \<noteq> On_policy_rl)
     \<longleftrightarrow> verified_request task is_moe objective_id full"
  by (cases task) (auto simp: execution_variant_kind_for_task_def objective_shape_def verified_request_def shape_dicts)

lemmas admits_verified = admits_verified_kind [unfolded verified_kind]


section \<open>Properties\<close>


end
