(* ===== verification/Watchdog.thy ===== *)
theory Watchdog
  imports Py_Float
begin

text \<open>
  The run watchdog (\<open>platform/watchdog.py\<close>): the running peak of the memory samples, the spill
  flag, the stall of the heartbeat, and the fit measured from the peak. The heartbeat of the run
  and the polling thread share the state under one lock, so a run of the watchdog is a sequence
  of the critical sections: a beat, the folding of a sample, and the stall check of a poll. The
  clock readings and what the sampler returned are the arguments of the events; the rationale
  text of a fit is left out.
\<close>

section \<open>Memory samples\<close>

record memory_metrics =
  mm_torch_allocated :: "int option"
  mm_torch_reserved :: "int option"
  mm_torch_peak_allocated :: "int option"
  mm_torch_peak_reserved :: "int option"
  mm_device_used :: "int option"
  mm_device_free :: "int option"
  mm_dedicated :: "int option"
  mm_shared :: "int option"
  mm_system_ram :: "int option"
  mm_rss :: "int option"

text \<open>What the contract model admits: no negative count.\<close>

definition memory_ok :: "memory_metrics \<Rightarrow> bool" where
  "memory_ok m \<longleftrightarrow> list_all (\<lambda>f. case f m of None \<Rightarrow> True | Some n \<Rightarrow> 0 \<le> n)
     [mm_torch_allocated, mm_torch_reserved, mm_torch_peak_allocated, mm_torch_peak_reserved,
      mm_device_used, mm_device_free, mm_dedicated, mm_shared, mm_system_ram, mm_rss]"

text \<open>Python's \<open>or\<close> on optional integers: zero and None are false.\<close>

definition or_opt :: "int option \<Rightarrow> int option \<Rightarrow> int option" where
  "or_opt a b = (case a of Some n \<Rightarrow> if n \<noteq> 0 then Some n else b | None \<Rightarrow> b)"

definition observed_spill :: "memory_metrics \<Rightarrow> bool" where
  "observed_spill s = (case mm_shared s of None \<Rightarrow> False | Some n \<Rightarrow> n \<noteq> 0 \<and> 0 < n)"

definition max_opt :: "int option \<Rightarrow> int option \<Rightarrow> int option" where
  "max_opt a b = (case a of None \<Rightarrow> b | Some x \<Rightarrow> (case b of None \<Rightarrow> a | Some y \<Rightarrow> Some (max x y)))"

definition merge_peak :: "memory_metrics option \<Rightarrow> memory_metrics \<Rightarrow> memory_metrics" where
  "merge_peak acc s = (case acc of
      None \<Rightarrow> s
    | Some a \<Rightarrow>
       \<lparr>mm_torch_allocated = max_opt (mm_torch_allocated a) (mm_torch_allocated s),
        mm_torch_reserved = max_opt (mm_torch_reserved a) (mm_torch_reserved s),
        mm_torch_peak_allocated = max_opt (mm_torch_peak_allocated a) (mm_torch_peak_allocated s),
        mm_torch_peak_reserved = max_opt (mm_torch_peak_reserved a) (mm_torch_peak_reserved s),
        mm_device_used = max_opt (mm_device_used a) (mm_device_used s),
        mm_device_free = mm_device_free s,
        mm_dedicated = or_opt (mm_dedicated a) (mm_dedicated s),
        mm_shared = max_opt (mm_shared a) (mm_shared s),
        mm_system_ram = max_opt (mm_system_ram a) (mm_system_ram s),
        mm_rss = max_opt (mm_rss a) (mm_rss s)\<rparr>)"


section \<open>The measured fit\<close>

datatype residency = Wddm | Linux_dedicated | Unified_memory | Unknown_residency

datatype fit_class = PLANNED_UNPROVEN | NATIVE_SAFE | NATIVE_TIGHT | NATIVE_UNPROVEN | MARGINAL
  | CONTROLLED_ACTIVATION_OFFLOAD | CONTROLLED_OPTIMIZER_OFFLOAD | CONTROLLED_PARAMETER_OFFLOAD
  | ACCIDENTAL_UNIFIED_MEMORY_PAGING | ACCIDENTAL_WDDM_SPILL | THRASHING | FIT_FAIL

record fit_classification =
  fc_classification :: fit_class
  fc_estimated_peak :: "int option"
  fc_device_capacity :: "int option"
  fc_headroom :: "int option"

definition TIGHT_FRACTION :: rat where "TIGHT_FRACTION = fl (9 / 10)"

definition peak_bytes :: "memory_metrics \<Rightarrow> int" where
  "peak_bytes peak = (case or_opt (mm_torch_peak_reserved peak) (mm_torch_reserved peak) of Some n \<Rightarrow> n | None \<Rightarrow> 0)"

definition reconcile_measured_fit :: "memory_metrics \<Rightarrow> residency \<Rightarrow> bool \<Rightarrow> fit_classification" where
  "reconcile_measured_fit peak residency proven =
     (let reserved = peak_bytes peak; capacity = mm_dedicated peak;
          headroom = map_option (\<lambda>c. c - reserved) capacity
      in if reserved \<le> 0
         then \<lparr>fc_classification = NATIVE_UNPROVEN, fc_estimated_peak = None,
               fc_device_capacity = capacity, fc_headroom = None\<rparr>
         else
           \<lparr>fc_classification =
              (if observed_spill peak
               then if residency = Unified_memory then ACCIDENTAL_UNIFIED_MEMORY_PAGING else ACCIDENTAL_WDDM_SPILL
               else if \<not> proven then NATIVE_UNPROVEN
               else if (case capacity of None \<Rightarrow> False | Some c \<Rightarrow> int_times_float c TIGHT_FRACTION < of_int reserved)
                 then NATIVE_TIGHT
               else NATIVE_SAFE),
            fc_estimated_peak = Some reserved, fc_device_capacity = capacity, fc_headroom = headroom\<rparr>)"


section \<open>The watchdog\<close>

record watchdog =
  wd_timeout :: rat
  wd_last_beat :: rat
  wd_peak :: "memory_metrics option"
  wd_stalled :: bool
  wd_ever_stalled :: bool
  wd_spilled :: bool

definition is_stalled :: "rat \<Rightarrow> rat \<Rightarrow> rat \<Rightarrow> bool" where
  "is_stalled now last_beat timeout = (if timeout \<le> 0 then False else timeout < fsub now last_beat)"

definition new_watchdog :: "rat \<Rightarrow> rat \<Rightarrow> watchdog" where
  "new_watchdog timeout now = \<lparr>wd_timeout = timeout, wd_last_beat = now, wd_peak = None, wd_stalled = False,
     wd_ever_stalled = False, wd_spilled = False\<rparr>"

definition start_watchdog :: "rat \<Rightarrow> watchdog \<Rightarrow> watchdog" where
  "start_watchdog now w = w\<lparr>wd_last_beat := now\<rparr>"

definition beat :: "rat \<Rightarrow> watchdog \<Rightarrow> watchdog" where
  "beat now w = w\<lparr>wd_last_beat := now, wd_stalled := False\<rparr>"

text \<open>The sampler raises, finds no device, or returns a sample.\<close>

datatype probe = Probe_fault | No_device | Sampled memory_metrics

definition fold_sample :: "probe \<Rightarrow> watchdog \<Rightarrow> watchdog" where
  "fold_sample p w = (case p of
      Sampled s \<Rightarrow> w\<lparr>wd_peak := Some (merge_peak (wd_peak w) s), wd_spilled := wd_spilled w \<or> observed_spill s\<rparr>
    | _ \<Rightarrow> w)"

definition stall_check :: "rat \<Rightarrow> watchdog \<Rightarrow> watchdog \<times> bool" where
  "stall_check now w =
     (let stalled_now = is_stalled now (wd_last_beat w) (wd_timeout w)
      in (if stalled_now then w\<lparr>wd_stalled := True, wd_ever_stalled := True\<rparr> else w,
          stalled_now \<and> \<not> wd_stalled w))"

text \<open>One pass of the thread; the flag is whether \<open>on_stall\<close> is called.\<close>

definition poll_once :: "probe \<Rightarrow> rat \<Rightarrow> watchdog \<Rightarrow> watchdog \<times> bool" where
  "poll_once p now w = stall_check now (fold_sample p w)"

definition measured_fit :: "watchdog \<Rightarrow> residency \<Rightarrow> bool \<Rightarrow> fit_classification option" where
  "measured_fit w residency proven = map_option (\<lambda>peak. reconcile_measured_fit peak residency proven) (wd_peak w)"


section \<open>Runs of the watchdog\<close>

datatype wd_event = Beat rat | Sample probe | Check rat

fun watchdog_step :: "wd_event \<Rightarrow> watchdog \<Rightarrow> watchdog \<times> bool" where
  "watchdog_step (Beat now) w = (beat now w, False)"
| "watchdog_step (Sample p) w = (fold_sample p w, False)"
| "watchdog_step (Check now) w = stall_check now w"

text \<open>The state after a sequence of sections, and how often \<open>on_stall\<close> was called.\<close>

fun watch :: "watchdog \<Rightarrow> wd_event list \<Rightarrow> watchdog \<times> nat" where
  "watch w [] = (w, 0)"
| "watch w (e # es) = (case watchdog_step e w of (w', fired) \<Rightarrow>
     (case watch w' es of (w'', n) \<Rightarrow> (w'', of_bool fired + n)))"

lemma poll_once_sections: "watch w [Sample p, Check now] = (case poll_once p now w of (w', fired) \<Rightarrow> (w', of_bool fired))"
  by (simp add: poll_once_def split: prod.splits)


section \<open>Episodes of silence\<close>

text \<open>A trace falls into episodes, each what happens after one beat and before the next.\<close>

fun episodes :: "rat \<Rightarrow> wd_event list \<Rightarrow> (rat \<times> wd_event list) list" where
  "episodes b [] = [(b, [])]"
| "episodes b (Beat now # es) = (b, []) # episodes now es"
| "episodes b (e # es) = (case episodes b es of (c, xs) # rest \<Rightarrow> (c, e # xs) # rest | [] \<Rightarrow> [])"

text \<open>An episode is silent when some check of it comes later than the timeout after its beat.\<close>

definition late_check :: "rat \<Rightarrow> rat \<Rightarrow> wd_event \<Rightarrow> bool" where
  "late_check timeout b e = (case e of Check now \<Rightarrow> is_stalled now b timeout | _ \<Rightarrow> False)"

definition silent :: "rat \<Rightarrow> rat \<times> wd_event list \<Rightarrow> bool" where
  "silent timeout ep = list_ex (late_check timeout (fst ep)) (snd ep)"

lemma late_check_simps [simp]:
  "\<not> late_check timeout b (Beat now)" "\<not> late_check timeout b (Sample p)"
  "late_check timeout b (Check now) = is_stalled now b timeout"
  by (simp_all add: late_check_def)

lemma episodes_first: "\<exists>xs rest. episodes b es = (b, xs) # rest"
  by (induction b es rule: episodes.induct) auto

lemma silent_Cons:
  "silent timeout (b, e # xs) \<longleftrightarrow> late_check timeout b e \<or> silent timeout (b, xs)"
  by (simp add: silent_def)

lemma silent_Nil [simp]: "\<not> silent timeout (b, [])"
  by (simp add: silent_def)

text \<open>The state and the calls after a trace, from any state: an episode already reported is not
  reported again.\<close>

lemma watch_stalls:
  assumes "watch w es = (w', n)" and "episodes (wd_last_beat w) es = ep # rest"
    and "silenced = filter (silent (wd_timeout w)) rest"
  shows "n = (if silent (wd_timeout w) ep \<and> \<not> wd_stalled w then 1 else 0) + length silenced
    \<and> wd_ever_stalled w' = (wd_ever_stalled w \<or> silent (wd_timeout w) ep \<or> silenced \<noteq> [])
    \<and> wd_stalled w' = (if rest = [] then wd_stalled w \<or> silent (wd_timeout w) ep else silent (wd_timeout w) (last rest))"
  using assms
proof (induction w es arbitrary: w' n ep rest silenced rule: watch.induct)
  case (2 w e es)
  obtain w1 fired where step: "watchdog_step e w = (w1, fired)" by force
  obtain w2 m where tail: "watch w1 es = (w2, m)" by force
  obtain xs rest1 where eps: "episodes (wd_last_beat w1) es = (wd_last_beat w1, xs) # rest1"
    using episodes_first by blast
  note IH = 2(1) [OF step [symmetric] tail eps refl, simplified]
  from 2(2) step tail have r: "w' = w2" "n = of_bool fired + m" by simp_all
  show ?case
  proof (cases e)
    case (Beat now)
    with step have w1: "w1 = beat now w" "\<not> fired" by simp_all
    with 2(3) eps Beat have "ep = (wd_last_beat w, [])" "rest = (now, xs) # rest1" by (simp_all add: beat_def)
    with IH r w1 2(4) show ?thesis by (auto simp: beat_def)
  next
    case (Sample p)
    with step have w1: "w1 = fold_sample p w" "\<not> fired" by simp_all
    have keep: "wd_last_beat w1 = wd_last_beat w" "wd_timeout w1 = wd_timeout w" "wd_stalled w1 = wd_stalled w"
      "wd_ever_stalled w1 = wd_ever_stalled w" using w1 by (simp_all add: fold_sample_def split: probe.splits)
    with 2(3) eps Sample have "ep = (wd_last_beat w, e # xs)" "rest = rest1" by simp_all
    with IH r w1 2(4) keep Sample show ?thesis by (simp add: silent_Cons)
  next
    case (Check now)
    with step have w1: "w1 = fst (stall_check now w)" "fired = snd (stall_check now w)" by simp_all
    have keep: "wd_last_beat w1 = wd_last_beat w" "wd_timeout w1 = wd_timeout w"
      using w1 by (simp_all add: stall_check_def Let_def)
    with 2(3) eps Check have "ep = (wd_last_beat w, e # xs)" "rest = rest1" by simp_all
    with IH r w1 2(4) keep Check show ?thesis by (auto simp: silent_Cons stall_check_def Let_def)
  qed
qed auto


section \<open>The peak\<close>

definition probe_samples :: "wd_event list \<Rightarrow> memory_metrics list" where
  "probe_samples es = List.map_filter (\<lambda>e. case e of Sample (Sampled s) \<Rightarrow> Some s | _ \<Rightarrow> None) es"

fun merge_all :: "memory_metrics option \<Rightarrow> memory_metrics list \<Rightarrow> memory_metrics option" where
  "merge_all acc [] = acc"
| "merge_all acc (s # ss) = merge_all (Some (merge_peak acc s)) ss"

lemma watch_peak:
  "watch w es = (w', n) \<Longrightarrow> wd_peak w' = merge_all (wd_peak w) (probe_samples es)
     \<and> wd_spilled w' = (wd_spilled w \<or> list_ex observed_spill (probe_samples es))"
proof (induction w es arbitrary: w' n rule: watch.induct)
  case (2 w e es)
  obtain w1 fired where step: "watchdog_step e w = (w1, fired)" by force
  obtain w2 m where tail: "watch w1 es = (w2, m)" by force
  note IH = 2(1) [OF step [symmetric] tail, simplified]
  from 2(2) step tail have "w' = w2" by simp
  with IH step show ?case
    by (cases e) (auto simp: probe_samples_def map_filter_simps beat_def fold_sample_def stall_check_def Let_def
      split: probe.splits if_splits)
qed (simp add: probe_samples_def map_filter_simps)

text \<open>The largest value a field was seen with.\<close>

definition largest :: "(memory_metrics \<Rightarrow> int option) \<Rightarrow> memory_metrics list \<Rightarrow> int option" where
  "largest f ss = fold (\<lambda>s acc. max_opt acc (f s)) ss None"

lemma max_opt_None [simp]: "max_opt None b = b" "max_opt a None = a"
  by (simp_all add: max_opt_def split: option.splits)

lemma merge_all_field:
  assumes "\<And>a s. f (merge_peak (Some a) s) = max_opt (f a) (f s)"
  shows "merge_all (Some a) ss = Some peak \<Longrightarrow> f peak = fold (\<lambda>s acc. max_opt acc (f s)) ss (f a)"
  by (induction ss arbitrary: a) (simp_all add: assms)

lemma merge_all_largest:
  assumes "\<And>a s. f (merge_peak (Some a) s) = max_opt (f a) (f s)" and "merge_all None ss = Some peak"
  shows "f peak = largest f ss"
proof (cases ss)
  case (Cons s ts)
  with assms(2) have "merge_all (Some s) ts = Some peak" by (simp add: merge_peak_def)
  from merge_all_field [of f, OF assms(1) this] show ?thesis by (simp add: Cons largest_def)
qed (use assms(2) in simp)

lemma peak_fields:
  assumes "merge_all None ss = Some peak"
  shows "mm_torch_reserved peak = largest mm_torch_reserved ss"
    and "mm_torch_peak_reserved peak = largest mm_torch_peak_reserved ss"
    and "mm_shared peak = largest mm_shared ss"
proof -
  have field: "mm_torch_reserved (merge_peak (Some a) s) = max_opt (mm_torch_reserved a) (mm_torch_reserved s)"
    "mm_torch_peak_reserved (merge_peak (Some a) s) = max_opt (mm_torch_peak_reserved a) (mm_torch_peak_reserved s)"
    "mm_shared (merge_peak (Some a) s) = max_opt (mm_shared a) (mm_shared s)" for a s
    by (simp_all add: merge_peak_def)
  show "mm_torch_reserved peak = largest mm_torch_reserved ss"
    and "mm_torch_peak_reserved peak = largest mm_torch_peak_reserved ss"
    and "mm_shared peak = largest mm_shared ss"
    by (fact merge_all_largest [of mm_torch_reserved, OF field(1) assms] merge_all_largest [of mm_torch_peak_reserved, OF field(2) assms]
      merge_all_largest [of mm_shared, OF field(3) assms])+
qed

text \<open>A fold of maxima over counts is positive exactly when some sample is.\<close>

lemma max_opt_positive: "(case max_opt a b of None \<Rightarrow> False | Some n \<Rightarrow> 0 < n)
    \<longleftrightarrow> (case a of None \<Rightarrow> False | Some n \<Rightarrow> 0 < n) \<or> (case b of None \<Rightarrow> False | Some n \<Rightarrow> 0 < n)"
  by (auto simp: max_opt_def split: option.splits)

definition positive_in :: "(memory_metrics \<Rightarrow> int option) \<Rightarrow> memory_metrics \<Rightarrow> bool" where
  "positive_in f s = (case f s of None \<Rightarrow> False | Some n \<Rightarrow> 0 < n)"

lemma largest_positive: "(case largest f ss of None \<Rightarrow> False | Some n \<Rightarrow> 0 < n) \<longleftrightarrow> list_ex (positive_in f) ss"
proof -
  have "(case fold (\<lambda>s acc. max_opt acc (f s)) ss a of None \<Rightarrow> False | Some n \<Rightarrow> 0 < n)
      \<longleftrightarrow> (case a of None \<Rightarrow> False | Some n \<Rightarrow> 0 < n) \<or> list_ex (positive_in f) ss" for a
    by (induction ss arbitrary: a) (simp_all add: max_opt_positive positive_in_def)
  from this [of None] show ?thesis by (simp add: largest_def)
qed

lemma observed_spill_positive: "observed_spill = positive_in mm_shared"
  by (auto simp: observed_spill_def positive_in_def fun_eq_iff split: option.splits)

definition counted :: "int option \<Rightarrow> bool" where
  "counted a \<longleftrightarrow> (case a of None \<Rightarrow> True | Some n \<Rightarrow> 0 \<le> n)"

lemma counted_max: "counted a \<Longrightarrow> counted b \<Longrightarrow> counted (max_opt a b)"
  by (auto simp: counted_def max_opt_def split: option.splits)

lemma largest_counted:
  assumes "list_all memory_ok ss"
  shows "counted (largest mm_torch_peak_reserved ss)"
proof -
  have ok: "memory_ok s \<Longrightarrow> counted (mm_torch_peak_reserved s)" for s by (simp add: memory_ok_def counted_def)
  have "list_all memory_ok ss \<Longrightarrow> counted a \<Longrightarrow> counted (fold (\<lambda>s acc. max_opt acc (mm_torch_peak_reserved s)) ss a)" for a
  proof (induction ss arbitrary: a)
    case (Cons s ss)
    from Cons.prems ok counted_max have "counted (max_opt a (mm_torch_peak_reserved s))" by simp
    with Cons show ?case by simp
  qed simp
  from this [OF assms, of None] show ?thesis by (simp add: largest_def counted_def)
qed

text \<open>Something was reserved in the peak exactly when it was in some sample.\<close>

lemma peak_reserved:
  assumes "merge_all None ss = Some peak" and "list_all memory_ok ss"
  shows "0 < peak_bytes peak \<longleftrightarrow> list_ex (\<lambda>s. positive_in mm_torch_peak_reserved s \<or> positive_in mm_torch_reserved s) ss"
proof -
  have ex: "list_ex (\<lambda>s. P s \<or> Q s) ss \<longleftrightarrow> list_ex P ss \<or> list_ex Q ss" for P Q :: "memory_metrics \<Rightarrow> bool"
    by (induction ss) auto
  have "0 < peak_bytes peak \<longleftrightarrow> (case largest mm_torch_peak_reserved ss of None \<Rightarrow> False | Some n \<Rightarrow> 0 < n)
      \<or> (case largest mm_torch_reserved ss of None \<Rightarrow> False | Some n \<Rightarrow> 0 < n)"
    using largest_counted [OF assms(2)]
    by (auto simp: peak_bytes_def peak_fields [OF assms(1)] or_opt_def counted_def split: option.splits)
  then show ?thesis unfolding largest_positive ex .
qed

lemma peak_spilled:
  assumes "merge_all None ss = Some peak"
  shows "observed_spill peak \<longleftrightarrow> list_ex observed_spill ss"
  using largest_positive [of mm_shared ss] by (simp add: observed_spill_positive positive_in_def peak_fields [OF assms])


section \<open>Properties\<close>

text \<open>C12: A silent run is reported, once per episode. In any interleaving of beats, samples and
  stall checks, the stall callback is called exactly once for every episode in which a check
  found the last beat older than the timeout; whether the run ever stalled is remembered, and
  the current flag tells whether the episode in progress has been found silent.\<close>

theorem silence_reported_once:
  "watch (new_watchdog timeout now) es = (w, calls) \<Longrightarrow>
     calls = length (filter (silent timeout) (episodes now es))
     \<and> wd_ever_stalled w = list_ex (silent timeout) (episodes now es)
     \<and> wd_stalled w = silent timeout (last (episodes now es))"
proof -
  assume w: "watch (new_watchdog timeout now) es = (w, calls)"
  obtain xs rest where eps: "episodes now es = (now, xs) # rest" using episodes_first by blast
  then have "episodes (wd_last_beat (new_watchdog timeout now)) es = (now, xs) # rest" by (simp add: new_watchdog_def)
  from watch_stalls [OF w this refl] show ?thesis
    by (auto simp: eps new_watchdog_def list_ex_iff filter_empty_conv)
qed

theorem silence_reported_once_witness:
  "\<exists>w. watch (new_watchdog 180 0) [Check 100, Check 200, Check 300, Beat 310, Check 320, Check 500] = (w, 2)
     \<and> wd_ever_stalled w \<and> wd_stalled w"
proof -
  let ?es = "[Check 100, Check 200, Check 300, Beat 310, Check 320, Check 500]"
  obtain w calls where w: "watch (new_watchdog 180 0) ?es = (w, calls)" by force
  have "length (filter (silent 180) (episodes 0 ?es)) = 2 \<and> list_ex (silent 180) (episodes 0 ?es)
      \<and> silent 180 (last (episodes 0 ?es))" by code_simp
  with silence_reported_once [OF w] w show ?thesis by auto
qed

text \<open>C34: A native fit is earned only by a completed run that stayed on the device. The fit
  measured over any trace of samples is native, safe or tight, exactly when the run is proven,
  no sample spilled to shared memory, and some sample reserved memory; a spill is reported as
  one whether or not the run completed.\<close>

theorem native_fit_is_earned:
  assumes "watch (new_watchdog timeout now) es = (w, calls)" and "list_all memory_ok (probe_samples es)"
    and "measured_fit w residency proven = Some fit"
  shows "(fc_classification fit \<in> {NATIVE_SAFE, NATIVE_TIGHT} \<longleftrightarrow>
      proven \<and> \<not> list_ex observed_spill (probe_samples es)
      \<and> list_ex (\<lambda>s. positive_in mm_torch_peak_reserved s \<or> positive_in mm_torch_reserved s) (probe_samples es))
    \<and> (fc_classification fit \<in> {ACCIDENTAL_WDDM_SPILL, ACCIDENTAL_UNIFIED_MEMORY_PAGING} \<longleftrightarrow>
      wd_spilled w
      \<and> list_ex (\<lambda>s. positive_in mm_torch_peak_reserved s \<or> positive_in mm_torch_reserved s) (probe_samples es))"
proof -
  from assms(3) obtain peak where peak: "wd_peak w = Some peak" "fit = reconcile_measured_fit peak residency proven"
    by (auto simp: measured_fit_def)
  note run = watch_peak [OF assms(1)]
  from run peak(1) have merged: "merge_all None (probe_samples es) = Some peak" by (simp add: new_watchdog_def)
  from run have "wd_spilled w = list_ex observed_spill (probe_samples es)" by (simp add: new_watchdog_def)
  with peak_reserved [OF merged assms(2)] peak_spilled [OF merged] show ?thesis
    by (simp add: peak(2) reconcile_measured_fit_def Let_def not_less [symmetric])
qed

definition sample_of :: "int \<Rightarrow> int \<Rightarrow> memory_metrics" where
  "sample_of reserved shared = \<lparr>mm_torch_allocated = None, mm_torch_reserved = Some reserved, mm_torch_peak_allocated = None,
     mm_torch_peak_reserved = Some reserved, mm_device_used = None, mm_device_free = None, mm_dedicated = Some 12,
     mm_shared = Some shared, mm_system_ram = None, mm_rss = None\<rparr>"

theorem native_fit_is_earned_witness:
  "\<exists>w calls fit. watch (new_watchdog 180 0) [Sample (Sampled (sample_of 4 0)), Sample Probe_fault, Sample (Sampled (sample_of 8 0))] = (w, calls)
     \<and> measured_fit w Wddm True = Some fit \<and> fc_classification fit \<in> {NATIVE_SAFE, NATIVE_TIGHT}"
proof -
  let ?es = "[Sample (Sampled (sample_of 4 0)), Sample Probe_fault, Sample (Sampled (sample_of 8 0))]"
  obtain w calls where w: "watch (new_watchdog 180 0) ?es = (w, calls)" by force
  have samples: "probe_samples ?es = [sample_of 4 0, sample_of 8 0]" by (simp add: probe_samples_def map_filter_simps)
  have "wd_peak w \<noteq> None" using watch_peak [OF w] by (simp add: samples)
  then obtain fit where fit: "measured_fit w Wddm True = Some fit" by (auto simp: measured_fit_def)
  have "list_all memory_ok [sample_of 4 0, sample_of 8 0]" "\<not> list_ex observed_spill [sample_of 4 0, sample_of 8 0]"
    "list_ex (\<lambda>s. positive_in mm_torch_peak_reserved s \<or> positive_in mm_torch_reserved s) [sample_of 4 0, sample_of 8 0]"
    by (simp_all add: sample_of_def memory_ok_def observed_spill_def positive_in_def)
  with native_fit_is_earned [OF w _ fit] w fit show ?thesis unfolding samples by blast
qed

end
