(* ===== verification/Safetensors.thy ===== *)
theory Safetensors
  imports Checkpoint "HOL-Library.Product_Lexorder"
begin

text \<open>
  Reading the tensor identity of a Safetensors file without loading a tensor
  (\<open>platform/parameter_accounting.py\<close>): the header and its layout checks, the digest of every
  tensor, and the canonical digest of the whole state. The file is its bytes, unchanged during the
  read. A parameter gives what \<open>json.loads\<close> makes of the header when the hook keeps every pair of
  an object; an integer of more digits than the interpreter converts raises a plain
  \<open>ValueError\<close>, which is not one of the errors the reader expects.
\<close>

section \<open>The header\<close>

datatype header_json = Parsed json | Not_json | Raises_value_error

datatype header_error = Truncated_length | Invalid_length | Truncated_header | Bad_framing | Duplicate_key | Bad_json
  | Not_an_object | Bad_metadata | Too_many_tensors | Bad_record | Bad_dtype_or_offsets string | Out_of_range string
  | Bad_shape string | Bad_dimension string | Too_many_coordinates string | Size_mismatch string | Inventory_too_large
  | Header_exceeds_file | Overlapping string | Non_contiguous string | Uncovered_data | Not_a_regular_file | No_tensors | Escaped_value_error

record tensor =
  tn_name :: string
  tn_dtype :: string
  tn_shape :: "int list"
  tn_start :: int
  tn_end :: int

definition DTYPE_BYTES :: "(string, int) dict" where
  "DTYPE_BYTES = [(''BOOL'', 1), (''U8'', 1), (''I8'', 1), (''F8_E4M3'', 1), (''F8_E4M3FN'', 1), (''F8_E5M2'', 1),
     (''F8_E8M0'', 1), (''U16'', 2), (''I16'', 2), (''F16'', 2), (''BF16'', 2), (''U32'', 4), (''I32'', 4), (''F32'', 4),
     (''U64'', 8), (''I64'', 8), (''F64'', 8)]"

definition MAX_SAFETENSORS_HEADER_BYTES :: int where "MAX_SAFETENSORS_HEADER_BYTES = 16 * 1024 * 1024"
definition MAX_SAFETENSORS_TENSORS :: int where "MAX_SAFETENSORS_TENSORS = 1000000"
definition MAX_TENSOR_DIMENSIONS :: nat where "MAX_TENSOR_DIMENSIONS = 32"
definition MAX_PARAMETER_COORDINATES :: int where "MAX_PARAMETER_COORDINATES = 2 ^ 63 - 1"

text \<open>The product of the dimensions, refused as soon as it passes the bound. A boolean is not a
  dimension.\<close>

fun coordinates_of :: "string \<Rightarrow> int \<Rightarrow> json list \<Rightarrow> header_error + int \<times> int list" where
  "coordinates_of name n [] = Inr (n, [])"
| "coordinates_of name n (v # vs) = (case v of
      JInt d \<Rightarrow>
        if d < 0 then Inl (Bad_dimension name)
        else if MAX_PARAMETER_COORDINATES < n * d then Inl (Too_many_coordinates name)
        else (case coordinates_of name (n * d) vs of Inl e \<Rightarrow> Inl e | Inr (m, ds) \<Rightarrow> Inr (m, d # ds))
    | _ \<Rightarrow> Inl (Bad_dimension name))"

definition tensor_coordinates :: "string \<Rightarrow> json option \<Rightarrow> header_error + int \<times> int list" where
  "tensor_coordinates name shape = (case shape of
      Some (JList vs) \<Rightarrow> if MAX_TENSOR_DIMENSIONS < length vs then Inl (Bad_shape name) else coordinates_of name 1 vs
    | _ \<Rightarrow> Inl (Bad_shape name))"

definition offsets_of :: "json option \<Rightarrow> (int \<times> int) option" where
  "offsets_of v = (case v of
      Some (JList [JInt a, JInt b]) \<Rightarrow> if a < 0 \<or> b < 0 then None else Some (a, b)
    | _ \<Rightarrow> None)"

definition dtype_of :: "json option \<Rightarrow> (string \<times> int) option" where
  "dtype_of v = (case v of
      Some (JStr s) \<Rightarrow> (case dget DTYPE_BYTES s of None \<Rightarrow> None | Some w \<Rightarrow> Some (s, w))
    | _ \<Rightarrow> None)"

definition decode_tensor :: "int \<Rightarrow> string \<times> json \<Rightarrow> header_error + int \<times> tensor" where
  "decode_tensor data_bytes nv = (case nv of (name, value) \<Rightarrow>
     (case value of
        JObj entries \<Rightarrow>
          if name = [] then Inl Bad_record
          else (case (dtype_of (dget entries ''dtype''), offsets_of (dget entries ''data_offsets'')) of
              (Some (dtype, width), Some (start, end')) \<Rightarrow>
                if end' < start \<or> data_bytes < end' then Inl (Out_of_range name)
                else (case tensor_coordinates name (dget entries ''shape'') of
                    Inl e \<Rightarrow> Inl e
                  | Inr (n, shape) \<Rightarrow>
                      if end' - start \<noteq> n * width then Inl (Size_mismatch name)
                      else Inr (n, \<lparr>tn_name = name, tn_dtype = dtype, tn_shape = shape, tn_start = start, tn_end = end'\<rparr>))
            | _ \<Rightarrow> Inl (Bad_dtype_or_offsets name))
      | _ \<Rightarrow> Inl Bad_record))"

fun decode_tensors :: "int \<Rightarrow> int \<Rightarrow> (string \<times> json) list \<Rightarrow> header_error + int \<times> tensor list" where
  "decode_tensors data_bytes coordinates [] = Inr (coordinates, [])"
| "decode_tensors data_bytes coordinates (nv # nvs) = (case decode_tensor data_bytes nv of
      Inl e \<Rightarrow> Inl e
    | Inr (n, t) \<Rightarrow>
        if MAX_PARAMETER_COORDINATES < coordinates + n then Inl Inventory_too_large
        else (case decode_tensors data_bytes (coordinates + n) nvs of
            Inl e \<Rightarrow> Inl e
          | Inr (m, ts) \<Rightarrow> Inr (m, t # ts)))"

text \<open>The intervals in order, from the cursor to the end of the data.\<close>

fun check_layout :: "int \<Rightarrow> int \<Rightarrow> tensor list \<Rightarrow> header_error option" where
  "check_layout data_bytes cursor [] = (if cursor \<noteq> data_bytes then Some Uncovered_data else None)"
| "check_layout data_bytes cursor (t # ts) =
     (if tn_start t \<noteq> cursor then Some (if tn_start t < cursor then Overlapping (tn_name t) else Non_contiguous (tn_name t))
      else check_layout data_bytes (tn_end t) ts)"

definition interval_key :: "tensor \<Rightarrow> int \<times> int \<times> string" where
  "interval_key t = (tn_start t, tn_end t, tn_name t)"

text \<open>The hook sees every object of the text.\<close>

fun duplicate_free :: "json \<Rightarrow> bool" where
  "duplicate_free (JList vs) \<longleftrightarrow> list_all duplicate_free vs"
| "duplicate_free (JObj kvs) \<longleftrightarrow> distinct (map fst kvs) \<and> list_all (\<lambda>kv. duplicate_free (snd kv)) kvs"
| "duplicate_free v \<longleftrightarrow> True"

definition metadata_ok :: "json option \<Rightarrow> bool" where
  "metadata_ok v = (case v of
      None \<Rightarrow> True
    | Some JNull \<Rightarrow> True
    | Some (JObj kvs) \<Rightarrow> list_all (\<lambda>kv. case snd kv of JStr _ \<Rightarrow> True | _ \<Rightarrow> False) kvs
    | _ \<Rightarrow> False)"

definition well_framed :: "bytes \<Rightarrow> bool" where
  "well_framed header \<longleftrightarrow> header \<noteq> [] \<and> hd header = CHR ''{''
     \<and> (let r = dropWhile (\<lambda>c. c = CHR '' '') (rev header) in r \<noteq> [] \<and> hd r = CHR ''}'')"

definition decode_safetensors_header ::
  "(bytes \<Rightarrow> header_json) \<Rightarrow> bytes \<Rightarrow> int \<Rightarrow> header_error + int \<times> tensor list" where
  "decode_safetensors_header loads header data_bytes =
     (if \<not> well_framed header then Inl Bad_framing
      else case loads header of
        Not_json \<Rightarrow> Inl Bad_json
      | Raises_value_error \<Rightarrow> Inl Escaped_value_error
      | Parsed v \<Rightarrow>
          if \<not> duplicate_free v then Inl Duplicate_key
          else (case v of
              JObj payload \<Rightarrow>
                if \<not> metadata_ok (dget payload ''__metadata__'') then Inl Bad_metadata
                else let items = filter (\<lambda>nv. fst nv \<noteq> ''__metadata__'') payload in
                  if MAX_SAFETENSORS_TENSORS < int (length items) then Inl Too_many_tensors
                  else if data_bytes < 0 then Inl Header_exceeds_file
                  else (case decode_tensors data_bytes 0 (sort_key fst items) of
                      Inl e \<Rightarrow> Inl e
                    | Inr (coordinates, ts) \<Rightarrow>
                        (case check_layout data_bytes 0 (sort_key interval_key ts) of
                           Some e \<Rightarrow> Inl e
                         | None \<Rightarrow> Inr (coordinates, ts)))
            | _ \<Rightarrow> Inl Not_an_object))"


section \<open>The file\<close>

text \<open>\<open>struct.unpack("<Q", ...)\<close>.\<close>

fun unpack_le :: "bytes \<Rightarrow> int" where
  "unpack_le [] = 0"
| "unpack_le (c # cs) = of_nat (of_char c) + 256 * unpack_le cs"

definition slice_bytes :: "bytes \<Rightarrow> int \<Rightarrow> int \<Rightarrow> bytes" where
  "slice_bytes b start end' = take (nat (end' - start)) (drop (nat start) b)"

record tensor_digest =
  td_name :: string
  td_dtype :: string
  td_shape :: "int list"
  td_content_sha256 :: string

record tensor_state =
  st_content_sha256 :: string
  st_tensor_state_sha256 :: string
  st_tensor_names :: "string list"

definition digest_json :: "tensor_digest \<Rightarrow> json" where
  "digest_json d = JObj [(''name'', JStr (td_name d)), (''dtype'', JStr (td_dtype d)),
     (''shape'', JList (map JInt (td_shape d))), (''content_sha256'', JStr (td_content_sha256 d))]"

definition canonical_tensor_state_sha256 :: "runtime \<Rightarrow> tensor_digest list \<Rightarrow> string" where
  "canonical_tensor_state_sha256 rt records =
     sha256_hex rt (utf8 (dumps_compact rt (JList (map digest_json (sort_key td_name records)))))"

text \<open>The header of a file, and the tensors with the place where the data starts.\<close>

definition read_safetensors_header ::
  "(bytes \<Rightarrow> header_json) \<Rightarrow> bytes \<Rightarrow> header_error + nat \<times> int \<times> tensor list" where
  "read_safetensors_header loads b =
     (if length (take 8 b) \<noteq> 8 then Inl Truncated_length
      else let header_length = unpack_le (take 8 b) in
        if header_length \<le> 0 \<or> MAX_SAFETENSORS_HEADER_BYTES < header_length \<or> header_length mod 8 \<noteq> 0
        then Inl Invalid_length
        else let header = take (nat header_length) (drop 8 b) in
          if length header \<noteq> nat header_length then Inl Truncated_header
          else let data_start = 8 + nat header_length in
            (case decode_safetensors_header loads header (int (length b) - int data_start) of
               Inl e \<Rightarrow> Inl e
             | Inr (coordinates, ts) \<Rightarrow> Inr (data_start, coordinates, ts)))"

definition tensor_bytes :: "bytes \<Rightarrow> nat \<Rightarrow> tensor \<Rightarrow> bytes" where
  "tensor_bytes b data_start t = slice_bytes b (int data_start + tn_start t) (int data_start + tn_end t)"

definition tensor_digest_of :: "runtime \<Rightarrow> bytes \<Rightarrow> nat \<Rightarrow> tensor \<Rightarrow> tensor_digest" where
  "tensor_digest_of rt b data_start t = \<lparr>td_name = tn_name t, td_dtype = tn_dtype t, td_shape = tn_shape t,
     td_content_sha256 = sha256_hex rt (tensor_bytes b data_start t)\<rparr>"

text \<open>\<open>None\<close> stands for a path that is missing, linked, outside its directory or not a regular
  file.\<close>

definition validate_safetensors_tensor_file ::
  "runtime \<Rightarrow> (bytes \<Rightarrow> header_json) \<Rightarrow> bytes option \<Rightarrow> header_error + tensor_state" where
  "validate_safetensors_tensor_file rt loads file = (case file of
      None \<Rightarrow> Inl Not_a_regular_file
    | Some b \<Rightarrow> (case read_safetensors_header loads b of
          Inl e \<Rightarrow> Inl e
        | Inr (data_start, coordinates, ts) \<Rightarrow>
            if ts = [] then Inl No_tensors
            else Inr \<lparr>st_content_sha256 = sha256_hex rt b,
              st_tensor_state_sha256 = canonical_tensor_state_sha256 rt (map (tensor_digest_of rt b data_start) ts),
              st_tensor_names = map tn_name ts\<rparr>))"


section \<open>The layout\<close>

text \<open>What an accepted record says: its place in the data, and the size its shape and type give.\<close>

definition sized :: "tensor \<Rightarrow> bool" where
  "sized t \<longleftrightarrow> (case dget DTYPE_BYTES (tn_dtype t) of
      None \<Rightarrow> False | Some width \<Rightarrow> tn_end t - tn_start t = prod_list (tn_shape t) * width)"

definition tensor_ok :: "int \<Rightarrow> tensor \<Rightarrow> bool" where
  "tensor_ok data_bytes t \<longleftrightarrow> tn_name t \<noteq> [] \<and> 0 \<le> tn_start t \<and> tn_start t \<le> tn_end t \<and> tn_end t \<le> data_bytes
     \<and> list_all (\<lambda>d. 0 \<le> d) (tn_shape t) \<and> sized t"

lemma coordinates_of_Inr:
  "coordinates_of name n vs = Inr (m, ds) \<Longrightarrow> m = n * prod_list ds \<and> list_all (\<lambda>d. 0 \<le> d) ds"
  by (induction name n vs arbitrary: m ds rule: coordinates_of.induct) (auto simp: mult.assoc split: json.splits if_splits sum.splits)

lemma tensor_coordinates_Inr:
  "tensor_coordinates name shape = Inr (m, ds) \<Longrightarrow> m = prod_list ds \<and> list_all (\<lambda>d. 0 \<le> d) ds"
  by (auto simp: tensor_coordinates_def dest: coordinates_of_Inr split: option.splits json.splits if_splits)

lemma offsets_of_Some: "offsets_of v = Some (a, b) \<Longrightarrow> 0 \<le> a \<and> 0 \<le> b"
  by (auto simp: offsets_of_def split: option.splits json.splits list.splits if_splits)

lemma dtype_of_Some: "dtype_of v = Some (s, w) \<Longrightarrow> dget DTYPE_BYTES s = Some w"
  by (auto simp: dtype_of_def split: option.splits json.splits)

lemma decode_tensor_Inr:
  assumes "decode_tensor data_bytes (name, v) = Inr (n, t)"
  shows "tn_name t = name" and "tensor_ok data_bytes t" and "n = prod_list (tn_shape t)"
proof -
  from assms obtain entries dtype width a b shape where d:
    "name \<noteq> []" "dtype_of (dget entries ''dtype'') = Some (dtype, width)"
    "offsets_of (dget entries ''data_offsets'') = Some (a, b)" "\<not> (b < a \<or> data_bytes < b)"
    "tensor_coordinates name (dget entries ''shape'') = Inr (n, shape)" "b - a = n * width"
    "t = \<lparr>tn_name = name, tn_dtype = dtype, tn_shape = shape, tn_start = a, tn_end = b\<rparr>"
    by (auto simp: decode_tensor_def split: json.splits if_splits option.splits sum.splits)
  with offsets_of_Some [OF d(3)] dtype_of_Some [OF d(2)] tensor_coordinates_Inr [OF d(5)]
  show "tn_name t = name" and "tensor_ok data_bytes t" and "n = prod_list (tn_shape t)"
    by (auto simp: tensor_ok_def sized_def)
qed

lemma decode_tensors_Inr:
  "decode_tensors data_bytes n nvs = Inr (m, ts) \<Longrightarrow> map tn_name ts = map fst nvs \<and> list_all (tensor_ok data_bytes) ts
     \<and> m = n + (\<Sum>t\<leftarrow>ts. prod_list (tn_shape t)) \<and> (nvs \<noteq> [] \<longrightarrow> m \<le> MAX_PARAMETER_COORDINATES)"
proof (induction data_bytes n nvs arbitrary: m ts rule: decode_tensors.induct)
  case (2 data_bytes n nv nvs)
  obtain name v where nv: "nv = (name, v)" by force
  from 2(2) obtain k t ts' where d: "decode_tensor data_bytes nv = Inr (k, t)" "\<not> MAX_PARAMETER_COORDINATES < n + k"
    "decode_tensors data_bytes (n + k) nvs = Inr (m, ts')" "ts = t # ts'"
    by (auto split: sum.splits if_splits)
  from decode_tensor_Inr [OF d(1) [unfolded nv]] 2(1) [OF d(1) refl d(2) d(3)] d(2,3,4) nv show ?case by (cases nvs) auto
qed auto

lemma decode_header_Inr:
  assumes "decode_safetensors_header loads header data_bytes = Inr (n, ts)"
  shows "sorted (map tn_name ts)" and "distinct (map tn_name ts)" and "list_all (tensor_ok data_bytes) ts"
    and "n = (\<Sum>t\<leftarrow>ts. prod_list (tn_shape t))" and "n \<le> MAX_PARAMETER_COORDINATES"
    and "check_layout data_bytes 0 (sort_key interval_key ts) = None"
proof -
  from assms obtain payload where d: "distinct (map fst payload)"
    "decode_tensors data_bytes 0 (sort_key fst (filter (\<lambda>nv. fst nv \<noteq> ''__metadata__'') payload)) = Inr (n, ts)"
    "check_layout data_bytes 0 (sort_key interval_key ts) = None"
    by (auto simp: decode_safetensors_header_def Let_def split: if_splits header_json.splits json.splits sum.splits option.splits)
  let ?items = "filter (\<lambda>nv. fst nv \<noteq> ''__metadata__'') payload"
  note t = decode_tensors_Inr [OF d(2)]
  from t show "sorted (map tn_name ts)" "list_all (tensor_ok data_bytes) ts" "n = (\<Sum>t\<leftarrow>ts. prod_list (tn_shape t))" by simp_all
  from t show "n \<le> MAX_PARAMETER_COORDINATES"
    by (cases "sort_key fst ?items = []") (auto simp: MAX_PARAMETER_COORDINATES_def)
  have "distinct (map fst ?items)" using d(1) by (rule distinct_map_filter)
  then have "distinct (map fst (sort_key fst ?items))" by (simp add: distinct_map inj_on_def)
  with t show "distinct (map tn_name ts)" by simp
  show "check_layout data_bytes 0 (sort_key interval_key ts) = None" by (fact d(3))
qed

lemma slice_bytes_append:
  assumes "0 \<le> a" "a \<le> m" "m \<le> e"
  shows "slice_bytes b a m @ slice_bytes b m e = slice_bytes b a e"
proof -
  have "nat (e - a) = nat (m - a) + nat (e - m)" "nat m = nat (m - a) + nat a" using assms by linarith+
  then show ?thesis by (simp only: slice_bytes_def take_add drop_drop)
qed

text \<open>Accepted intervals tile the data from the cursor on.\<close>

lemma check_layout_tiles:
  assumes "0 \<le> k"
  shows "check_layout data_bytes cursor ts = None \<Longrightarrow> 0 \<le> cursor \<Longrightarrow> list_all (\<lambda>t. tn_start t \<le> tn_end t) ts
     \<Longrightarrow> cursor \<le> data_bytes \<and> concat (map (\<lambda>t. slice_bytes b (k + tn_start t) (k + tn_end t)) ts)
       = slice_bytes b (k + cursor) (k + data_bytes)"
proof (induction data_bytes cursor ts rule: check_layout.induct)
  case (1 data_bytes cursor)
  then show ?case by (simp add: slice_bytes_def split: if_splits)
next
  case (2 data_bytes cursor t ts)
  from 2(2) have c: "tn_start t = cursor" "check_layout data_bytes (tn_end t) ts = None" by (simp_all split: if_splits)
  from 2(4) have o: "cursor \<le> tn_end t" "list_all (\<lambda>t. tn_start t \<le> tn_end t) ts" using c(1) by simp_all
  have "\<not> tn_start t \<noteq> cursor" using c(1) by simp
  from 2(1) [OF this c(2) _ o(2)] o(1) 2(3) have IH: "tn_end t \<le> data_bytes"
    "concat (map (\<lambda>t. slice_bytes b (k + tn_start t) (k + tn_end t)) ts) = slice_bytes b (k + tn_end t) (k + data_bytes)" by simp_all
  with c(1) o(1) 2(3) assms show ?case by (simp add: slice_bytes_append)
qed

lemma sort_key_mset: "mset (sort_key f xs) = mset xs"
  by simp

lemma read_header_Inr:
  assumes "read_safetensors_header loads b = Inr (start, n, ts)"
  shows "start = 8 + nat (unpack_le (take 8 b))" and "start \<le> length b" and "start mod 8 = 0"
    and "decode_safetensors_header loads (take (start - 8) (drop 8 b)) (int (length b) - int start) = Inr (n, ts)"
proof -
  let ?l = "unpack_le (take 8 b)"
  from assms have r: "length (take 8 b) = 8" "0 < ?l" "?l mod 8 = 0" "length (take (nat ?l) (drop 8 b)) = nat ?l"
    "start = 8 + nat ?l" "decode_safetensors_header loads (take (nat ?l) (drop 8 b)) (int (length b) - int start) = Inr (n, ts)"
    by (auto simp: read_safetensors_header_def Let_def split: if_splits sum.splits)
  show "start = 8 + nat ?l" by (fact r(5))
  from r(1,4,5) show "start \<le> length b" by simp
  have "?l = 8 * (?l div 8)" using r(3) by presburger
  then have "nat ?l = 8 * nat (?l div 8)" by (metis nat_mult_distrib nat_numeral zero_le_numeral)
  then have "nat ?l mod 8 = 0" by simp
  with r(5) show "start mod 8 = 0" by simp
  show "decode_safetensors_header loads (take (start - 8) (drop 8 b)) (int (length b) - int start) = Inr (n, ts)"
    using r(5,6) by simp
qed

lemma file_layout:
  assumes "read_safetensors_header loads b = Inr (start, n, ts)"
  shows "b = take start b @ concat (map (tensor_bytes b start) (sort_key interval_key ts))"
    and "t \<in> set ts \<Longrightarrow> sized t \<and> int (length (tensor_bytes b start t)) = tn_end t - tn_start t"
    and "sorted (map tn_name ts)" and "distinct (map tn_name ts)" and "n \<le> MAX_PARAMETER_COORDINATES"
    and "n = (\<Sum>t\<leftarrow>ts. prod_list (tn_shape t))"
proof -
  note r = read_header_Inr [OF assms]
  note h = decode_header_Inr [OF r(4)]
  from h show "sorted (map tn_name ts)" "distinct (map tn_name ts)" "n \<le> MAX_PARAMETER_COORDINATES"
    "n = (\<Sum>t\<leftarrow>ts. prod_list (tn_shape t))" by simp_all
  have "list_all (\<lambda>t. tn_start t \<le> tn_end t) (sort_key interval_key ts)"
    using h(3) by (auto simp: list_all_iff tensor_ok_def)
  from check_layout_tiles [OF _ h(6) _ this, of "int start" b]
  have "concat (map (tensor_bytes b start) (sort_key interval_key ts)) = slice_bytes b (int start) (int (length b))"
    unfolding tensor_bytes_def by simp
  then show "b = take start b @ concat (map (tensor_bytes b start) (sort_key interval_key ts))"
    using r(2) by (simp add: slice_bytes_def)
  assume "t \<in> set ts"
  with h(3) have "tensor_ok (int (length b) - int start) t" by (simp add: list_all_iff)
  with r(2) show "sized t \<and> int (length (tensor_bytes b start t)) = tn_end t - tn_start t"
    by (auto simp: tensor_ok_def tensor_bytes_def slice_bytes_def)
qed


section \<open>The state digest\<close>

lemma canon_digest_json:
  "canon (digest_json d) = JObj [(''content_sha256'', JStr (td_content_sha256 d)), (''dtype'', JStr (td_dtype d)),
     (''name'', JStr (td_name d)), (''shape'', JList (map JInt (td_shape d)))]"
  by (simp add: digest_json_def comp_def)

lemma digest_json_inj: "canon (digest_json d) = canon (digest_json d') \<Longrightarrow> d = d'"
  unfolding canon_digest_json by (cases d, cases d') (simp add: inj_map_eq_map inj_def)


text \<open>What a file says: every tensor with its bytes, by name.\<close>

definition contents_of :: "bytes \<Rightarrow> nat \<Rightarrow> tensor list \<Rightarrow> (string \<times> string \<times> int list \<times> bytes) list" where
  "contents_of b start ts = map (\<lambda>t. (tn_name t, tn_dtype t, tn_shape t, tensor_bytes b start t)) ts"

definition state_text :: "runtime \<Rightarrow> tensor_digest list \<Rightarrow> bytes" where
  "state_text rt records = utf8 (dumps_compact rt (JList (map digest_json (sort_key td_name records))))"

lemma state_sha256: "canonical_tensor_state_sha256 rt records = sha256_hex rt (state_text rt records)"
  by (simp add: canonical_tensor_state_sha256_def state_text_def)

lemma state_text_inj:
  assumes "float_repr_ok (float_repr rt)" and "sorted (map td_name xs)" and "sorted (map td_name ys)"
  shows "state_text rt xs = state_text rt ys \<longleftrightarrow> xs = ys"
proof
  assume "state_text rt xs = state_text rt ys"
  then have "map (\<lambda>d. canon (digest_json d)) xs = map (\<lambda>d. canon (digest_json d)) ys"
    using assms by (auto simp: state_text_def sort_key_id_if_sorted dumps_compact_eq_iff comp_def dest!: utf8_inj)
  then show "xs = ys" by (rule map_injective) (auto intro: injI digest_json_inj)
qed simp

definition state_inputs :: "runtime \<Rightarrow> bytes \<Rightarrow> nat \<Rightarrow> tensor list \<Rightarrow> bytes set" where
  "state_inputs rt b start ts = insert (state_text rt (map (tensor_digest_of rt b start) ts)) (tensor_bytes b start ` set ts)"

lemma digests_eq_iff:
  assumes "sha256_injective rt (tensor_bytes b start ` set ts \<union> tensor_bytes b' start' ` set ts')"
  shows "map (tensor_digest_of rt b start) ts = map (tensor_digest_of rt b' start') ts' \<longleftrightarrow> contents_of b start ts = contents_of b' start' ts'"
  using assms unfolding contents_of_def sha256_injective_def
proof (induction ts arbitrary: ts')
  case (Cons t ts)
  show ?case
  proof (cases ts')
    case (Cons t' us)
    from Cons.prems have "sha256_hex rt (tensor_bytes b start t) = sha256_hex rt (tensor_bytes b' start' t')
        \<longleftrightarrow> tensor_bytes b start t = tensor_bytes b' start' t'" by (rule inj_on_eq_iff) (simp_all add: Cons)
    moreover have "inj_on (sha256_hex rt) (tensor_bytes b start ` set ts \<union> tensor_bytes b' start' ` set us)"
      by (rule inj_on_subset [OF Cons.prems]) (auto simp: Cons)
    from Cons.IH [OF this] have "map (tensor_digest_of rt b start) ts = map (tensor_digest_of rt b' start') us
        \<longleftrightarrow> map (\<lambda>t. (tn_name t, tn_dtype t, tn_shape t, tensor_bytes b start t)) ts
          = map (\<lambda>t. (tn_name t, tn_dtype t, tn_shape t, tensor_bytes b' start' t)) us" .
    moreover have "tensor_digest_of rt b start t = tensor_digest_of rt b' start' t' \<longleftrightarrow> tn_name t = tn_name t' \<and> tn_dtype t = tn_dtype t'
        \<and> tn_shape t = tn_shape t' \<and> sha256_hex rt (tensor_bytes b start t) = sha256_hex rt (tensor_bytes b' start' t')"
      by (auto simp: tensor_digest_of_def)
    ultimately show ?thesis by (simp add: Cons)
  qed simp
qed auto


section \<open>Properties\<close>

text \<open>C24: No byte of an accepted weights file is unaccounted for. A file whose header is accepted is
  its length field and header followed by the bytes of its tensors, one after the other in the
  order of their offsets, with no gap, overlap or tail; the names are distinct; every tensor has
  as many bytes as its shape and type give, and the number of coordinates is theirs and bounded.\<close>

theorem weights_file_is_tiled:
  assumes "read_safetensors_header loads b = Inr (start, n, ts)"
  shows "b = take start b @ concat (map (tensor_bytes b start) (sort_key interval_key ts))
    \<and> start = 8 + nat (unpack_le (take 8 b)) \<and> start mod 8 = 0
    \<and> distinct (map tn_name ts)
    \<and> list_all (\<lambda>t. case dget DTYPE_BYTES (tn_dtype t) of None \<Rightarrow> False
        | Some width \<Rightarrow> int (length (tensor_bytes b start t)) = prod_list (tn_shape t) * width) ts
    \<and> n = (\<Sum>t\<leftarrow>ts. prod_list (tn_shape t)) \<and> n \<le> MAX_PARAMETER_COORDINATES"
proof -
  note l = file_layout [OF assms]
  have "list_all (\<lambda>t. case dget DTYPE_BYTES (tn_dtype t) of None \<Rightarrow> False
        | Some width \<Rightarrow> int (length (tensor_bytes b start t)) = prod_list (tn_shape t) * width) ts"
    unfolding list_all_iff
  proof
    fix t assume "t \<in> set ts"
    from l(2) [OF this] show "case dget DTYPE_BYTES (tn_dtype t) of None \<Rightarrow> False
        | Some width \<Rightarrow> int (length (tensor_bytes b start t)) = prod_list (tn_shape t) * width"
      by (simp add: sized_def split: option.splits)
  qed
  with l(1,4,5,6) read_header_Inr(1,3) [OF assms] show ?thesis by blast
qed

text \<open>C25: The state digest identifies the tensors and nothing else. Two accepted files, however
  their headers are written and their tensors are placed, have the same state digest exactly when
  they hold the same tensors: the same names, types and shapes with the same bytes.\<close>

theorem state_digest_identifies_tensors:
  assumes "float_repr_ok (float_repr rt)"
    and "validate_safetensors_tensor_file rt loads (Some b) = Inr s" "read_safetensors_header loads b = Inr (start, n, ts)"
    and "validate_safetensors_tensor_file rt loads (Some b') = Inr s'" "read_safetensors_header loads b' = Inr (start', n', ts')"
    and "sha256_injective rt (state_inputs rt b start ts \<union> state_inputs rt b' start' ts')"
  shows "st_tensor_state_sha256 s = st_tensor_state_sha256 s' \<longleftrightarrow> contents_of b start ts = contents_of b' start' ts'"
proof -
  let ?d = "map (tensor_digest_of rt b start) ts" and ?d' = "map (tensor_digest_of rt b' start') ts'"
  have s: "st_tensor_state_sha256 s = sha256_hex rt (state_text rt ?d)" "st_tensor_state_sha256 s' = sha256_hex rt (state_text rt ?d')"
    using assms(2-5) by (auto simp: validate_safetensors_tensor_file_def state_sha256 split: if_splits)
  have names: "map td_name (map (tensor_digest_of rt b start) ts) = map tn_name ts" for b start ts
    by (simp add: tensor_digest_of_def comp_def)
  have "sorted (map td_name ?d)" "sorted (map td_name ?d')"
    unfolding names by (fact file_layout(3) [OF assms(3)] file_layout(3) [OF assms(5)])+
  note text_eq = state_text_inj [OF assms(1) this]
  have inj: "inj_on (sha256_hex rt) (state_inputs rt b start ts \<union> state_inputs rt b' start' ts')"
    using assms(6) by (simp add: sha256_injective_def)
  have "st_tensor_state_sha256 s = st_tensor_state_sha256 s' \<longleftrightarrow> state_text rt ?d = state_text rt ?d'"
    unfolding s by (rule inj_on_eq_iff [OF inj]) (simp_all add: state_inputs_def)
  also have "\<dots> \<longleftrightarrow> contents_of b start ts = contents_of b' start' ts'"
    unfolding text_eq by (rule digests_eq_iff, unfold sha256_injective_def, rule inj_on_subset [OF inj]) (auto simp: state_inputs_def)
  finally show ?thesis .
qed


text \<open>Two files with the tensors \<open>a\<close> and \<open>b\<close>, placed in either order.\<close>

definition tiny_header :: "int \<Rightarrow> int \<Rightarrow> json" where
  "tiny_header a b = JObj
     [(''b'', JObj [(''dtype'', JStr ''U8''), (''shape'', JList [JInt 2]), (''data_offsets'', JList [JInt b, JInt (b + 2)])]),
      (''a'', JObj [(''dtype'', JStr ''U16''), (''shape'', JList [JInt 1, JInt 1]), (''data_offsets'', JList [JInt a, JInt (a + 2)])])]"

definition tiny_loads :: "bytes \<Rightarrow> header_json" where
  "tiny_loads h = (if h = ''{ab}    '' then Parsed (tiny_header 0 2) else if h = ''{ba}    '' then Parsed (tiny_header 2 0) else Not_json)"

definition tiny_length :: bytes where
  "tiny_length = CHR 0x08 # replicate 7 (CHR 0x00)"

definition tiny_file :: bytes where "tiny_file = tiny_length @ ''{ab}    '' @ ''xyuv''"
definition tiny_swapped :: bytes where "tiny_swapped = tiny_length @ ''{ba}    '' @ ''uvxy''"

definition tiny_tensors :: "int \<Rightarrow> int \<Rightarrow> tensor list" where
  "tiny_tensors a b = [\<lparr>tn_name = ''a'', tn_dtype = ''U16'', tn_shape = [1, 1], tn_start = a, tn_end = a + 2\<rparr>,
     \<lparr>tn_name = ''b'', tn_dtype = ''U8'', tn_shape = [2], tn_start = b, tn_end = b + 2\<rparr>]"

lemma tiny_reads:
  "read_safetensors_header tiny_loads tiny_file = Inr (16, 3, tiny_tensors 0 2)"
  "read_safetensors_header tiny_loads tiny_swapped = Inr (16, 3, tiny_tensors 2 0)"
  by code_simp+

text \<open>A hash without collisions.\<close>

definition plain_rt :: runtime where
  "plain_rt = sample_rt\<lparr>sha256_hex := (\<lambda>b. b)\<rparr>"

lemma plain_rt_ok: "float_repr_ok (float_repr plain_rt)" "sha256_injective plain_rt B"
  by (simp_all add: plain_rt_def sha256_injective_def sample_rt_def sample_repr_ok)

theorem weights_file_is_tiled_witness:
  "tiny_file = take 16 tiny_file @ concat (map (tensor_bytes tiny_file 16) (sort_key interval_key (tiny_tensors 0 2)))"
  using weights_file_is_tiled [OF tiny_reads(1)] by blast

lemma tiny_validates:
  "\<exists>s. validate_safetensors_tensor_file plain_rt tiny_loads (Some tiny_file) = Inr s"
  "\<exists>s. validate_safetensors_tensor_file plain_rt tiny_loads (Some tiny_swapped) = Inr s"
  by (simp_all add: validate_safetensors_tensor_file_def tiny_reads tiny_tensors_def)

theorem state_digest_identifies_tensors_witness:
  "\<exists>s s'. validate_safetensors_tensor_file plain_rt tiny_loads (Some tiny_file) = Inr s
     \<and> validate_safetensors_tensor_file plain_rt tiny_loads (Some tiny_swapped) = Inr s'
     \<and> st_tensor_state_sha256 s = st_tensor_state_sha256 s'"
proof -
  from tiny_validates obtain s s' where v:
    "validate_safetensors_tensor_file plain_rt tiny_loads (Some tiny_file) = Inr s"
    "validate_safetensors_tensor_file plain_rt tiny_loads (Some tiny_swapped) = Inr s'" by blast
  have "contents_of tiny_file 16 (tiny_tensors 0 2) = contents_of tiny_swapped 16 (tiny_tensors 2 0)" by code_simp
  with state_digest_identifies_tensors [OF plain_rt_ok(1) v(1) tiny_reads(1) v(2) tiny_reads(2) plain_rt_ok(2)] v
  show ?thesis by blast
qed

text \<open>An integer too long to convert leaves the reader as another error than those its callers catch.\<close>

lemma long_integer_escapes:
  "validate_safetensors_tensor_file rt (\<lambda>_. Raises_value_error) (Some tiny_file) = Inl Escaped_value_error"
proof -
  have "read_safetensors_header (\<lambda>_. Raises_value_error) tiny_file = Inl Escaped_value_error" by code_simp
  then show ?thesis by (simp add: validate_safetensors_tensor_file_def)
qed

end
