(* ===== verification/Run_Admission.thy ===== *)
theory Run_Admission
  imports Execution_Variants Watchdog Artifact_Registry Safetensors
begin

text \<open>
  What the supervisor (\<open>platform/supervisor.py\<close>) checks before and after a run: the seals of the
  plan and of its execution (\<open>platform/planner.py\<close>, \<open>platform/execution_config.py\<close>), the runner
  lane, the manifests of the produced artifacts (\<open>platform/artifacts.py\<close>), and the success evidence
  of each execution variant. Message texts are left out: a refusal carries its reason.
\<close>

section \<open>Stages, failures and plans\<close>

datatype stage_marker = Process_start | Dataset_verification | Execution_config_verified | Env_loaded | Cuda_init
  | Tokenizer_load | Dataset_formatting | Truncation_analysis | Attention_policy_applied | Model_load
  | Placement_verified | Placement_deviation | Model_loaded | Quantized | Adapter_attached | Optimizer_created
  | Batch_materialized | Forward | Loss_stage | Backward | Optimizer_step | Checkpoint_stage | Reload
  | Evaluation_stage | Export

datatype failure_taxonomy = TAX_PASS | TAX_FAIL | OOM | TIMEOUT | KERNEL_STALL | NUMERICAL_FAILURE | GRADIENT_FAILURE
  | LOSS_EVIDENCE_FAILURE | OPTIMIZER_FAILURE | UPDATE_FAILURE | ARTIFACT_FAILURE | CHECKPOINT_FAILURE
  | ENVIRONMENT_FAILURE | UNSUPPORTED_CONFIGURATION | ACCIDENTAL_SPILL | CONTROLLED_OFFLOAD

text \<open>How a worker process can break the protocol (\<open>platform/worker_protocol.py\<close> and the parent).\<close>

datatype violation = Blank_line | Invalid_message | Wrong_version | Wrong_direction | Duplicate_message_id | First_not_hello
  | Hello_correlated | Backend_not_pinned | Wrong_backend | Backend_digest_differs | Wrong_environment | Wrong_correlation
  | After_terminal_event | Second_hello | Second_accept | Wrong_run_id | Hash_must_be_null | Wrong_variant_hash | Event_before_accept
  | Seq_not_greater | Heartbeat_before_accept | Terminal_before_accept | Terminal_state_differs | Plan_link_differs
  | Environment_link_differs | Dataset_link_differs | Target_differs | Base_model_differs | Failure_differs | Artifact_of_other_run
  | Artifact_of_other_model | Artifact_ids_differ | Foreign_evidence | Rejected_after_accept | Illegal_type
  | Not_a_dispatch | Dispatch_correlated | Unknown_backend | No_split_size | No_gc_threshold

datatype failure_reason = Plan_hash_failed | Two_executions | Configuration_hash_failed | No_lane | Wrong_lane | Wrong_runner
  | Artifact_manifest_failed | No_evidence | Steps_mismatch | No_optimizer_event | Loss_out_of_order | Loss_mismatch
  | Output_path_refused | Wrong_artifacts | Artifact_manifest_mismatch | Artifact_escaped | Integrity_incomplete
  | Adapter_invalid | Weights_changed | Config_changed | No_artifact_to_admit | Reload_not_verified
  | Artifacts_not_persisted | Manifest_not_persisted | Raised_by_runner string
  | Steps_override | Spawn_failed | Preflight_timeout | No_progress | Worker_exited | Malformed_terminal
  | Protocol_violated violation | Said string | Claims_without_execution | Export_tree_refused | Schedule_mismatch
  | Safetensors_refused | Weights_not_proposed | Config_not_proposed | Tensor_state_differs | Fit_not_bound | Fit_differs
  | Evidence_differs | Terminal_admission_raised

record runner_failure =
  rf_taxonomy :: failure_taxonomy
  rf_stage :: "stage_marker option"
  rf_exit_code :: "int option"
  rf_reason :: failure_reason

definition refuse :: "failure_taxonomy \<Rightarrow> stage_marker \<Rightarrow> failure_reason \<Rightarrow> runner_failure" where
  "refuse taxonomy stage reason = \<lparr>rf_taxonomy = taxonomy, rf_stage = Some stage, rf_exit_code = None, rf_reason = reason\<rparr>"

datatype variant = V_training | V_preference | V_pretraining | V_full_finetune | V_reward | V_rollout

definition EXECUTION_VARIANTS :: "variant list" where
  "EXECUTION_VARIANTS = [V_training, V_preference, V_pretraining, V_full_finetune, V_reward, V_rollout]"

text \<open>The payload is the JSON of the configuration without its hash.\<close>

record execution_config =
  ec_payload :: json
  ec_configuration_hash :: string
  ec_runtime_mode :: string
  ec_objective_id :: string
  ec_output_dir :: string
  ec_max_steps :: "int option"

text \<open>The payload is the JSON that is sealed, the plan without its hash and creation time.\<close>

datatype allocator_policy = Alloc_default | Alloc_expandable_segments | Alloc_max_split_size "int option"
  | Alloc_garbage_collection "rat option"

record sealed_plan =
  pl_plan_id :: string
  pl_plan_hash :: string
  pl_payload :: json
  pl_execution :: "variant \<Rightarrow> execution_config option"
  pl_backend_id :: string
  pl_backend_hash :: "hash_ref option"
  pl_environment :: ref
  pl_dataset :: ref
  pl_allocator :: allocator_policy
  pl_task :: task_type
  pl_base_model :: string
  pl_output_dir :: string


section \<open>Seals and lanes\<close>

definition canonical_sha256 :: "runtime \<Rightarrow> json \<Rightarrow> string" where
  "canonical_sha256 rt payload = sha256_hex rt (utf8 (dumps_compact rt payload))"

definition verify_run_plan_hash :: "runtime \<Rightarrow> sealed_plan \<Rightarrow> bool" where
  "verify_run_plan_hash rt plan \<longleftrightarrow> canonical_sha256 rt (pl_payload plan) = pl_plan_hash plan"

definition verify_configuration_hash :: "runtime \<Rightarrow> execution_config \<Rightarrow> bool" where
  "verify_configuration_hash rt cfg \<longleftrightarrow> ec_configuration_hash cfg = canonical_sha256 rt (ec_payload cfg)"

definition selected_variants :: "sealed_plan \<Rightarrow> variant list" where
  "selected_variants plan = filter (\<lambda>v. pl_execution plan v \<noteq> None) EXECUTION_VARIANTS"

definition resolved_execution_binding :: "sealed_plan \<Rightarrow> failure_reason + variant option" where
  "resolved_execution_binding plan =
     (let selected = selected_variants plan in
      if 1 < length selected then Inl Two_executions
      else Inr (if selected = [] then None else Some (hd selected)))"

definition admits_task :: "task_type \<Rightarrow> string option \<Rightarrow> bool \<Rightarrow> bool" where
  "admits_task task objective full \<longleftrightarrow>
     (case admit_task_execution_variant task False objective full reference_execution_variants Workload_verified of
        Inl _ \<Rightarrow> False | Inr _ \<Rightarrow> True)"

definition required_runner_lane :: "sealed_plan \<Rightarrow> failure_reason + string" where
  "required_runner_lane plan =
     (case pl_execution plan V_training of
        Some cfg \<Rightarrow>
          if pl_backend_id plan \<noteq> ''corpus_studio'' then Inl No_lane
          else Inr (if ec_runtime_mode cfg = ''cpu_toy'' then ''cpu_toy'' else ''training'')
      | None \<Rightarrow>
     (case pl_execution plan V_preference of
        Some cfg \<Rightarrow> if admits_task Preference_task (Some (ec_objective_id cfg)) False then Inr ''preference'' else Inl No_lane
      | None \<Rightarrow>
     (case pl_execution plan V_pretraining of
        Some cfg \<Rightarrow>
          if admits_task Pretraining_task None False
          then Inr (if ec_runtime_mode cfg = ''cpu_toy'' then ''pretraining_cpu_toy'' else ''pretraining'') else Inl No_lane
      | None \<Rightarrow>
     (case pl_execution plan V_full_finetune of
        Some cfg \<Rightarrow> if admits_task Sft None True then Inr ''full_finetune'' else Inl No_lane
      | None \<Rightarrow>
     (case pl_execution plan V_reward of
        Some cfg \<Rightarrow> if admits_task Reward_task (Some (ec_objective_id cfg)) False then Inr ''reward'' else Inl No_lane
      | None \<Rightarrow>
     (case pl_execution plan V_rollout of
        Some cfg \<Rightarrow> if admits_task Grpo (Some (ec_objective_id cfg)) False then Inr ''rollout'' else Inl No_lane
      | None \<Rightarrow>
          if pl_backend_id plan = ''echo''
          then if pl_task plan \<noteq> Evaluation_task then Inl No_lane else Inr ''echo''
          else Inl No_lane))))))"

definition verify_runner_lane :: "sealed_plan \<Rightarrow> string \<Rightarrow> failure_reason option" where
  "verify_runner_lane plan name = (case required_runner_lane plan of
      Inl r \<Rightarrow> Some r
    | Inr expected \<Rightarrow> if name \<noteq> expected then Some Wrong_lane else None)"

text \<open>The class of a runner object; an echo plan admits subclasses, the others the exact class.\<close>

datatype runner_class = Training_runner | Pretraining_runner | Preference_runner | Full_finetune_runner | Reward_runner
  | Rollout_runner | Echo_runner | Other_runner

definition expected_class :: "sealed_plan \<Rightarrow> runner_class" where
  "expected_class plan =
     (if pl_execution plan V_training \<noteq> None then Training_runner
      else if pl_execution plan V_pretraining \<noteq> None then Pretraining_runner
      else if pl_execution plan V_preference \<noteq> None then Preference_runner
      else if pl_execution plan V_full_finetune \<noteq> None then Full_finetune_runner
      else if pl_execution plan V_reward \<noteq> None then Reward_runner
      else if pl_execution plan V_rollout \<noteq> None then Rollout_runner
      else Echo_runner)"

definition unsupported :: "failure_reason \<Rightarrow> runner_failure" where
  "unsupported reason = refuse UNSUPPORTED_CONFIGURATION Env_loaded reason"

text \<open>The checks before the runner is called, in order.\<close>

definition admit_plan :: "runtime \<Rightarrow> sealed_plan \<Rightarrow> string \<Rightarrow> runner_class \<Rightarrow> runner_failure option" where
  "admit_plan rt plan name class =
     (if \<not> verify_run_plan_hash rt plan then Some (unsupported Plan_hash_failed)
      else case resolved_execution_binding plan of
        Inl r \<Rightarrow> Some (unsupported r)
      | Inr binding \<Rightarrow>
          if (case binding of None \<Rightarrow> False | Some v \<Rightarrow> \<not> verify_configuration_hash rt (the (pl_execution plan v)))
          then Some (unsupported Configuration_hash_failed)
          else (case verify_runner_lane plan name of
              Some r \<Rightarrow> Some (unsupported r)
            | None \<Rightarrow> if class \<noteq> expected_class plan then Some (unsupported Wrong_runner) else None))"


section \<open>Artifact manifests\<close>

record produced_artifact =
  pa_artifact_id :: string
  pa_kind :: string
  pa_path :: string
  pa_reload_verified :: bool

record artifact_manifest =
  am_artifact_id :: string
  am_run_id :: string
  am_base_model :: string
  am_kind :: string
  am_path :: string
  am_cheap_fingerprint :: "string option"
  am_content_hash :: "string option"
  am_metadata_hash :: "string option"
  am_current_integrity :: string
  am_reload_verified :: bool

definition ARTIFACT_KINDS :: "string list" where
  "ARTIFACT_KINDS = [''adapter'', ''model'', ''checkpoint'', ''merged_model'', ''gguf'', ''onnx'', ''quantized'', ''other'']"

text \<open>A file directly below a directory, and its bytes when there are any and not too many.\<close>

definition member_bytes :: "disk_node \<Rightarrow> string \<Rightarrow> bytes option" where
  "member_bytes node name = (case node of
      Dir_node fs \<Rightarrow> map_option df_bytes (find (\<lambda>f. df_rel f = name) fs)
    | _ \<Rightarrow> None)"

definition stable_bounded_file_bytes :: "disk_node \<Rightarrow> string \<Rightarrow> nat \<Rightarrow> bytes option" where
  "stable_bounded_file_bytes node name limit = (case member_bytes node name of
      None \<Rightarrow> None
    | Some b \<Rightarrow> if b = [] \<or> limit < length b then None else Some b)"

text \<open>The build is refused, as a validation error, when the id does not match its pattern.\<close>

definition build_artifact_manifest ::
  "runtime \<Rightarrow> disk \<Rightarrow> string \<Rightarrow> string \<Rightarrow> produced_artifact \<Rightarrow> artifact_manifest option" where
  "build_artifact_manifest rt disk run_id base_model a =
     (let node = disk (pa_path a); fingerprint = compute_fingerprint node in
      if \<not> id_pattern (pa_artifact_id a) then None
      else Some \<lparr>am_artifact_id = pa_artifact_id a, am_run_id = run_id, am_base_model = base_model,
        am_kind = (if pa_kind a \<in> set ARTIFACT_KINDS then pa_kind a else ''other''),
        am_path = pa_path a, am_cheap_fingerprint = fingerprint,
        am_content_hash = compute_content_hash rt node,
        am_metadata_hash = (if pa_kind a = ''adapter''
          then map_option (sha256_hex rt) (stable_bounded_file_bytes node ''adapter_config.json'' 1048576) else None),
        am_current_integrity = (if fingerprint \<noteq> None then OK else MISSING),
        am_reload_verified = pa_reload_verified a\<rparr>)"

fun build_artifact_manifests ::
  "runtime \<Rightarrow> disk \<Rightarrow> string \<Rightarrow> string \<Rightarrow> produced_artifact list \<Rightarrow> artifact_manifest list option" where
  "build_artifact_manifests rt disk run_id base_model [] = Some []"
| "build_artifact_manifests rt disk run_id base_model (a # as) = (case build_artifact_manifest rt disk run_id base_model a of
      None \<Rightarrow> None
    | Some m \<Rightarrow> map_option ((#) m) (build_artifact_manifests rt disk run_id base_model as))"

definition recheck_artifact_integrity :: "runtime \<Rightarrow> disk \<Rightarrow> artifact_manifest \<Rightarrow> artifact_manifest" where
  "recheck_artifact_integrity rt disk m =
     (let node = disk (am_path m);
          metadata_matches = (case am_metadata_hash m of
              None \<Rightarrow> True
            | Some h \<Rightarrow> map_option (sha256_hex rt) (stable_bounded_file_bytes node ''adapter_config.json'' 1048576) = Some h)
      in m\<lparr>am_current_integrity :=
        (if compute_fingerprint node = None then MISSING
         else if \<not> metadata_matches then MODIFIED
         else if am_content_hash m \<noteq> None
           then if compute_content_hash rt node = am_content_hash m then OK else MODIFIED
         else if am_cheap_fingerprint m \<noteq> None
           then if compute_fingerprint node = am_cheap_fingerprint m then OK else MODIFIED
         else ''unknown'')\<rparr>)"


section \<open>The event stream\<close>

datatype event_type = Stage_event | Metric_event | Log_event | Warning_event | Checkpoint_event | Eval_event | Artifact_event
  | Heartbeat_event | Terminal_event

datatype run_state = Prepared_state | Running_state | Succeeded | Failed_state | Cancelled_state | Interrupted_state

text \<open>What an \<open>emit\<close> call passes; the loss is absent with the metrics, or with them.\<close>

record event_call =
  cl_type :: event_type
  cl_stage :: "stage_marker option"
  cl_step :: "int option"
  cl_metrics :: "rat option option"
  cl_state :: "run_state option"

record run_event = event_call +
  re_run_id :: string
  re_seq :: nat


section \<open>Success evidence\<close>

record training_execution =
  tx_optimizer_created :: bool
  tx_completed_steps :: int
  tx_step_losses :: "(int \<times> rat) list"
  tx_after_sha256 :: string

record proposed_evidence =
  px_completed_steps :: int
  px_after_sha256 :: string
  px_tensor_names :: "string list"
  px_weights_sha256 :: string
  px_config_sha256 :: string
  px_measured_peak :: "memory_metrics option"

datatype success_evidence =
    Training_success training_execution string string "memory_metrics option"
  | Reverified_success proposed_evidence

text \<open>The machine the gates look at. Resolving a path against links, parsing JSON and reloading
  weights are parameters: whether a path is contained, regular and a directory, whether a tree has
  no links and nothing irregular, the two digests of an adapter that satisfies its seal, the JSON of
  a Safetensors header, and the digest of a reloaded state.\<close>

record machine =
  mc_disk :: disk
  mc_absolute :: "string \<Rightarrow> string"
  mc_output_ok :: "string \<Rightarrow> bool"
  mc_unlinked :: "string \<Rightarrow> bool"
  mc_header_loads :: "bytes \<Rightarrow> header_json"
  mc_sealed_adapter :: "string \<Rightarrow> execution_config \<Rightarrow> training_execution \<Rightarrow> (string \<times> string) option"
  mc_reload_model :: "string \<Rightarrow> string option"
  mc_reload_adapter :: "string \<Rightarrow> string option"

definition run_scoped_training_output :: "execution_config \<Rightarrow> string \<Rightarrow> string \<Rightarrow> string option" where
  "run_scoped_training_output cfg run_id leaf =
     (if \<not> id_pattern run_id \<or> run_id \<in> {''.'', ''..''} then None
      else Some (ec_output_dir cfg @ ''/runs/'' @ run_id @ ''/artifacts/'' @ leaf))"

definition verify_run_scoped_output_path ::
  "machine \<Rightarrow> execution_config \<Rightarrow> string \<Rightarrow> string \<Rightarrow> string option \<Rightarrow> string option" where
  "verify_run_scoped_output_path mc cfg run_id leaf observed = (case run_scoped_training_output cfg run_id leaf of
      None \<Rightarrow> None
    | Some p \<Rightarrow>
        let expected = mc_absolute mc p;
            candidate = (case observed of Some q \<Rightarrow> mc_absolute mc q | None \<Rightarrow> expected)
        in if candidate \<noteq> expected then None else if mc_output_ok mc expected then Some expected else None)"

definition step_metrics :: "run_event list \<Rightarrow> run_event list" where
  "step_metrics es = filter (\<lambda>e. cl_type e = Metric_event \<and> (case cl_step e of None \<Rightarrow> False | Some n \<Rightarrow> 0 < n)) es"

definition optimizer_events :: "run_event list \<Rightarrow> run_event list" where
  "optimizer_events es = filter (\<lambda>e. cl_type e = Stage_event \<and> cl_stage e = Some Optimizer_created) es"

definition event_loss :: "run_event \<Rightarrow> rat option" where
  "event_loss e = (case cl_metrics e of None \<Rightarrow> None | Some l \<Rightarrow> l)"

definition event_losses :: "run_event list \<Rightarrow> (int \<times> rat) list" where
  "event_losses es = map (\<lambda>e. (the (cl_step e), the (event_loss e))) (step_metrics es)"

text \<open>The trainer side of the gate: steps, optimizer and losses agree with the event stream.\<close>

definition training_stream_gate ::
  "execution_config \<Rightarrow> run_event list \<Rightarrow> training_execution option \<Rightarrow> runner_failure + training_execution" where
  "training_stream_gate cfg events evidence = (case evidence of
      None \<Rightarrow> Inl (refuse UPDATE_FAILURE Optimizer_step No_evidence)
    | Some tx \<Rightarrow>
        if ec_max_steps cfg \<noteq> None \<and> Some (tx_completed_steps tx) \<noteq> ec_max_steps cfg
        then Inl (refuse OPTIMIZER_FAILURE Optimizer_step Steps_mismatch)
        else if length (optimizer_events events) \<noteq> 1 \<or> \<not> tx_optimizer_created tx
        then Inl (refuse OPTIMIZER_FAILURE Optimizer_created No_optimizer_event)
        else if list_ex (\<lambda>e. re_seq e \<le> re_seq (hd (optimizer_events events)) \<or> event_loss e = None) (step_metrics events)
        then Inl (refuse LOSS_EVIDENCE_FAILURE Loss_stage Loss_out_of_order)
        else if event_losses events \<noteq> tx_step_losses tx
        then Inl (refuse LOSS_EVIDENCE_FAILURE Loss_stage Loss_mismatch)
        else Inr tx)"

text \<open>The artifact side: one adapter, at the sealed path, whose bytes are what was manifested.\<close>

definition training_artifact_gate ::
  "runtime \<Rightarrow> machine \<Rightarrow> execution_config \<Rightarrow> string \<Rightarrow> produced_artifact list \<Rightarrow> artifact_manifest list
     \<Rightarrow> training_execution \<Rightarrow> runner_failure + (string \<times> string)" where
  "training_artifact_gate rt mc cfg run_id produced manifests tx =
     (let export_failure = refuse ARTIFACT_FAILURE Export in
      case verify_run_scoped_output_path mc cfg run_id ''adapter'' None of
        None \<Rightarrow> Inl (export_failure Output_path_refused)
      | Some expected \<Rightarrow>
          let adapters = filter (\<lambda>a. pa_kind a = ''adapter'') produced;
              adapter_manifests = filter (\<lambda>m. am_kind m = ''adapter'') manifests;
              adapter = hd adapters; manifest = hd adapter_manifests
          in if length produced \<noteq> 1 \<or> length adapters \<noteq> 1 \<or> mc_absolute mc (pa_path adapter) \<noteq> expected
             then Inl (export_failure Wrong_artifacts)
             else if length manifests \<noteq> 1 \<or> length adapter_manifests \<noteq> 1
               \<or> am_artifact_id manifest \<noteq> pa_artifact_id adapter
             then Inl (export_failure Artifact_manifest_mismatch)
             else if mc_absolute mc (am_path manifest) \<noteq> expected then Inl (export_failure Artifact_escaped)
             else if am_current_integrity manifest \<noteq> OK \<or> am_content_hash manifest = None
               \<or> am_metadata_hash manifest = None \<or> am_cheap_fingerprint manifest = None
             then Inl (export_failure Integrity_incomplete)
             else (case mc_sealed_adapter mc (am_path manifest) cfg tx of
                 None \<Rightarrow> Inl (export_failure Adapter_invalid)
               | Some (weights_sha, config_sha) \<Rightarrow>
                   if compute_weight_content_hash rt (am_path manifest) (mc_disk mc (am_path manifest)) \<noteq> am_content_hash manifest
                   then Inl (export_failure Weights_changed)
                   else if Some config_sha \<noteq> am_metadata_hash manifest then Inl (export_failure Config_changed)
                   else Inr (weights_sha, config_sha)))"

definition validate_training_success_evidence ::
  "runtime \<Rightarrow> machine \<Rightarrow> execution_config \<Rightarrow> string \<Rightarrow> run_event list \<Rightarrow> produced_artifact list
     \<Rightarrow> artifact_manifest list \<Rightarrow> training_execution option \<Rightarrow> memory_metrics option \<Rightarrow> runner_failure + success_evidence" where
  "validate_training_success_evidence rt mc cfg run_id events produced manifests evidence peak =
     (case training_stream_gate cfg events evidence of
        Inl f \<Rightarrow> Inl f
      | Inr tx \<Rightarrow> (case training_artifact_gate rt mc cfg run_id produced manifests tx of
            Inl f \<Rightarrow> Inl f
          | Inr (weights_sha, config_sha) \<Rightarrow> Inr (Training_success tx weights_sha config_sha peak)))"

text \<open>Weights and configuration as saved must hash to what was proposed, and the reloaded state to
  the state that was trained.\<close>

definition reload_verify ::
  "runtime \<Rightarrow> disk \<Rightarrow> (string \<Rightarrow> string option) \<Rightarrow> string \<Rightarrow> string \<Rightarrow> string \<Rightarrow> proposed_evidence \<Rightarrow> bool" where
  "reload_verify rt disk reload weights_name config_name dir px =
     (case member_bytes (disk dir) weights_name of
        None \<Rightarrow> False
      | Some weights \<Rightarrow> (case member_bytes (disk dir) config_name of
            None \<Rightarrow> False
          | Some config \<Rightarrow>
              if sha256_hex rt weights \<noteq> px_weights_sha256 px then False
              else if sha256_hex rt config \<noteq> px_config_sha256 px then False
              else reload dir = Some (px_after_sha256 px)))"

definition reload_verify_full_model :: "runtime \<Rightarrow> machine \<Rightarrow> string \<Rightarrow> proposed_evidence \<Rightarrow> bool" where
  "reload_verify_full_model rt mc = reload_verify rt (mc_disk mc) (mc_reload_model mc) ''model.safetensors'' ''config.json''"

definition reload_verify_adapter :: "runtime \<Rightarrow> machine \<Rightarrow> string \<Rightarrow> proposed_evidence \<Rightarrow> bool" where
  "reload_verify_adapter rt mc =
     reload_verify rt (mc_disk mc) (mc_reload_adapter mc) ''adapter_model.safetensors'' ''adapter_config.json''"

definition validate_proposed ::
  "string \<Rightarrow> (string \<Rightarrow> proposed_evidence \<Rightarrow> bool) \<Rightarrow> execution_config \<Rightarrow> proposed_evidence option
     \<Rightarrow> produced_artifact list \<Rightarrow> memory_metrics option \<Rightarrow> runner_failure + success_evidence" where
  "validate_proposed artifact_kind verify cfg proposed produced peak = (case proposed of
      None \<Rightarrow> Inl (refuse UPDATE_FAILURE Optimizer_step No_evidence)
    | Some px \<Rightarrow>
        if (case ec_max_steps cfg of Some n \<Rightarrow> px_completed_steps px \<noteq> n | None \<Rightarrow> px_completed_steps px < 1)
        then Inl (refuse OPTIMIZER_FAILURE Optimizer_step Steps_mismatch)
        else (case find (\<lambda>a. pa_kind a = artifact_kind) produced of
            None \<Rightarrow> Inl (refuse ARTIFACT_FAILURE Export No_artifact_to_admit)
          | Some a \<Rightarrow>
              if \<not> verify (pa_path a) px then Inl (refuse ARTIFACT_FAILURE Export Reload_not_verified)
              else Inr (Reverified_success (px\<lparr>px_measured_peak := peak\<rparr>))))"

definition validate_preference_success_evidence where
  "validate_preference_success_evidence rt mc = validate_proposed ''adapter'' (reload_verify_adapter rt mc)"

definition validate_reward_success_evidence where
  "validate_reward_success_evidence rt mc = validate_proposed ''adapter'' (reload_verify_adapter rt mc)"

definition validate_rollout_success_evidence where
  "validate_rollout_success_evidence rt mc = validate_proposed ''adapter'' (reload_verify_adapter rt mc)"

definition validate_pretraining_success_evidence where
  "validate_pretraining_success_evidence rt mc = validate_proposed ''model'' (reload_verify_full_model rt mc)"

definition validate_full_finetune_success_evidence where
  "validate_full_finetune_success_evidence rt mc = validate_proposed ''model'' (reload_verify_full_model rt mc)"

end
