(* ===== verification/Supervisor.thy ===== *)
theory Supervisor
  imports Run_Admission
begin

text \<open>
  The run supervisor (\<open>platform/supervisor.py\<close>): one execution of a sealed plan through a runner,
  its event stream, the classification of its end, and the durable manifest. The runner is what it
  emits and how it ends; the observers and the writes of the record directory may fail at any
  event or write. Time stamps and message texts are left out.
\<close>

section \<open>Run identities\<close>

text \<open>\<open>re.sub(r"[^A-Za-z0-9._-]+", "-", value).strip("-") or "run"\<close>.\<close>

fun dash_runs :: "bool \<Rightarrow> string \<Rightarrow> string" where
  "dash_runs in_run [] = []"
| "dash_runs in_run (c # cs) =
     (if id_char c then c # dash_runs False cs
      else if in_run then dash_runs True cs else CHR ''-'' # dash_runs True cs)"

definition sanitize_id :: "string \<Rightarrow> string" where
  "sanitize_id v = (let cleaned = strip_with (\<lambda>c. c = CHR ''-'') (dash_runs False v) in if cleaned = [] then ''run'' else cleaned)"

definition run_record_directory :: "string \<Rightarrow> string \<Rightarrow> string" where
  "run_record_directory base run_id = base @ ''/runs/'' @ sanitize_id run_id"


section \<open>Observers of the stream\<close>

datatype telemetry_call = Set_phase string | Mark_step int string

text \<open>The list of the events, the lines of the durable log, what the sink was given, the calls on the
  telemetry control, the noted errors, and the next sequence number.\<close>

record run_log =
  lg_seq :: nat
  lg_events :: "run_event list"
  lg_durable :: "run_event list"
  lg_delivered :: "run_event list"
  lg_telemetry :: "telemetry_call list"
  lg_sink_errors :: "string list"

text \<open>A fault is the name of the exception the write of that event raises.\<close>

record observers =
  ob_record_dir :: bool
  ob_log_fault :: "run_event \<Rightarrow> string option"
  ob_sink :: bool
  ob_sink_fault :: "run_event \<Rightarrow> string option"
  ob_telemetry :: bool
  ob_warmup_steps :: int

definition empty_log :: run_log where
  "empty_log = \<lparr>lg_seq = 0, lg_events = [], lg_durable = [], lg_delivered = [], lg_telemetry = [], lg_sink_errors = []\<rparr>"

definition drive_telemetry :: "observers \<Rightarrow> run_event \<Rightarrow> telemetry_call list" where
  "drive_telemetry ob e =
     (if \<not> ob_telemetry ob then []
      else if cl_type e = Stage_event \<and> cl_stage e = Some Process_start then [Set_phase ''setup'']
      else if cl_type e = Metric_event \<and> (case cl_step e of None \<Rightarrow> False | Some n \<Rightarrow> 0 < n)
        then [Mark_step (the (cl_step e)) (if the (cl_step e) \<le> ob_warmup_steps ob then ''warmup'' else ''measured'')]
      else if cl_type e = Terminal_event then [Set_phase ''teardown''] else [])"

definition note_error :: "string \<Rightarrow> string list \<Rightarrow> string list" where
  "note_error label errors = (if label \<in> set errors then errors else errors @ [label])"

definition collect :: "observers \<Rightarrow> run_event \<Rightarrow> run_log \<Rightarrow> run_log" where
  "collect ob e lg =
     (let log_fault = (if ob_record_dir ob then ob_log_fault ob e else None);
          sink_fault = (if ob_sink ob then ob_sink_fault ob e else None);
          errors1 = (case log_fault of None \<Rightarrow> lg_sink_errors lg | Some x \<Rightarrow> note_error (''event_log:'' @ x) (lg_sink_errors lg));
          errors2 = (case sink_fault of None \<Rightarrow> errors1 | Some x \<Rightarrow> note_error x errors1)
      in lg\<lparr>lg_events := lg_events lg @ [e],
            lg_durable := lg_durable lg @ (if ob_record_dir ob \<and> log_fault = None then [e] else []),
            lg_delivered := lg_delivered lg @ (if ob_sink ob then [e] else []),
            lg_telemetry := lg_telemetry lg @ drive_telemetry ob e,
            lg_sink_errors := errors2\<rparr>)"

definition emit :: "observers \<Rightarrow> string \<Rightarrow> event_call \<Rightarrow> run_log \<Rightarrow> run_log" where
  "emit ob run_id c lg =
     collect ob \<lparr>cl_type = cl_type c, cl_stage = cl_stage c, cl_step = cl_step c, cl_metrics = cl_metrics c,
         cl_state = cl_state c, re_run_id = run_id, re_seq = lg_seq lg\<rparr> (lg\<lparr>lg_seq := Suc (lg_seq lg)\<rparr>)"

definition emit_terminal :: "observers \<Rightarrow> string \<Rightarrow> run_state \<Rightarrow> run_log \<Rightarrow> run_log" where
  "emit_terminal ob run_id state =
     emit ob run_id \<lparr>cl_type = Terminal_event, cl_stage = None, cl_step = None, cl_metrics = None, cl_state = Some state\<rparr>"


section \<open>The runner and its attempt\<close>

datatype runner_outcome = Returned "produced_artifact list" | Cancelled_run | Refused_run runner_failure | Crashed string

text \<open>A runner: its name and class, what it emits, how it ends, and what it leaves on the context.\<close>

record runner =
  rn_name :: string
  rn_class :: runner_class
  rn_calls :: "event_call list"
  rn_outcome :: runner_outcome
  rn_checkpoints :: "string list"
  rn_final_fit :: "fit_classification option"
  rn_measured_peak :: "memory_metrics option"
  rn_training :: "training_execution option"
  rn_proposed :: "variant \<Rightarrow> proposed_evidence option"

text \<open>How the guarded block ends; a failure carries its classification.\<close>

datatype attempt_end = Attempt_succeeded "variant \<Rightarrow> success_evidence option" | Attempt_cancelled
  | Attempt_failed runner_failure | Attempt_crashed string

record attempt =
  at_ran :: bool
  at_log :: run_log
  at_produced :: "produced_artifact list"
  at_artifact_ids :: "string list"
  at_artifacts :: "artifact_manifest list"
  at_stored :: "artifact_manifest list"
  at_end :: attempt_end

definition gate_for ::
  "runtime \<Rightarrow> machine \<Rightarrow> runner \<Rightarrow> string \<Rightarrow> run_event list \<Rightarrow> produced_artifact list \<Rightarrow> artifact_manifest list
     \<Rightarrow> variant \<Rightarrow> execution_config \<Rightarrow> runner_failure + success_evidence" where
  "gate_for rt mc runner run_id events produced manifests v cfg =
     (let peak = rn_measured_peak runner; proposed = rn_proposed runner v in case v of
        V_training \<Rightarrow> validate_training_success_evidence rt mc cfg run_id events produced manifests (rn_training runner) peak
      | V_pretraining \<Rightarrow> validate_pretraining_success_evidence rt mc cfg proposed produced peak
      | V_preference \<Rightarrow> validate_preference_success_evidence rt mc cfg proposed produced peak
      | V_full_finetune \<Rightarrow> validate_full_finetune_success_evidence rt mc cfg proposed produced peak
      | V_reward \<Rightarrow> validate_reward_success_evidence rt mc cfg proposed produced peak
      | V_rollout \<Rightarrow> validate_rollout_success_evidence rt mc cfg proposed produced peak)"

text \<open>The gates run in this order, each for the execution the plan carries.\<close>

definition GATE_ORDER :: "variant list" where
  "GATE_ORDER = [V_training, V_pretraining, V_preference, V_full_finetune, V_reward, V_rollout]"

fun gate_variants ::
  "sealed_plan \<Rightarrow> (variant \<Rightarrow> execution_config \<Rightarrow> runner_failure + success_evidence) \<Rightarrow> variant list
     \<Rightarrow> (variant \<Rightarrow> success_evidence option) \<Rightarrow> runner_failure + (variant \<Rightarrow> success_evidence option)" where
  "gate_variants plan gate [] evidence = Inr evidence"
| "gate_variants plan gate (v # vs) evidence = (case pl_execution plan v of
      None \<Rightarrow> gate_variants plan gate vs evidence
    | Some cfg \<Rightarrow> (case gate v cfg of
          Inl f \<Rightarrow> Inl f
        | Inr e \<Rightarrow> gate_variants plan gate vs (evidence(v := Some e))))"

text \<open>The manifests are written one after the other; the first write that fails ends the run.\<close>

definition stored_prefix :: "(artifact_manifest \<Rightarrow> bool) \<Rightarrow> artifact_manifest list \<Rightarrow> artifact_manifest list" where
  "stored_prefix write_ok = takeWhile write_ok"

definition attempt_run ::
  "runtime \<Rightarrow> machine \<Rightarrow> (artifact_manifest \<Rightarrow> bool) \<Rightarrow> observers \<Rightarrow> sealed_plan \<Rightarrow> runner \<Rightarrow> string \<Rightarrow> attempt" where
  "attempt_run rt mc write_ok ob plan runner run_id =
     (case admit_plan rt plan (rn_name runner) (rn_class runner) of
        Some f \<Rightarrow> \<lparr>at_ran = False, at_log = empty_log, at_produced = [], at_artifact_ids = [], at_artifacts = [],
          at_stored = [], at_end = Attempt_failed f\<rparr>
      | None \<Rightarrow>
          let lg = fold (emit ob run_id) (rn_calls runner) empty_log;
              ended = (\<lambda>produced ids manifests stored e. \<lparr>at_ran = True, at_log = lg, at_produced = produced,
                at_artifact_ids = ids, at_artifacts = manifests, at_stored = stored, at_end = e\<rparr>)
          in case rn_outcome runner of
            Cancelled_run \<Rightarrow> ended [] [] [] [] Attempt_cancelled
          | Refused_run f \<Rightarrow> ended [] [] [] [] (Attempt_failed f)
          | Crashed exc \<Rightarrow> ended [] [] [] [] (Attempt_crashed exc)
          | Returned produced \<Rightarrow>
              let ids = map pa_artifact_id produced in
              (case build_artifact_manifests rt (mc_disk mc) run_id (pl_base_model plan) produced of
                None \<Rightarrow> ended produced ids [] [] (Attempt_failed (refuse ARTIFACT_FAILURE Export Artifact_manifest_failed))
              | Some manifests \<Rightarrow>
                  (case gate_variants plan (gate_for rt mc runner run_id (lg_events lg) produced manifests) GATE_ORDER (\<lambda>_. None) of
                    Inl f \<Rightarrow> ended produced ids manifests [] (Attempt_failed f)
                  | Inr evidence \<Rightarrow>
                      let stored = (if ob_record_dir ob then stored_prefix write_ok manifests else []) in
                      if ob_record_dir ob \<and> \<not> list_all write_ok manifests
                      then ended produced [] manifests stored (Attempt_failed (refuse ARTIFACT_FAILURE Export Artifacts_not_persisted))
                      else ended produced ids manifests stored (Attempt_succeeded evidence))))"


section \<open>The manifest\<close>

record failure_record =
  fl_run_id :: "string option"
  fl_taxonomy :: failure_taxonomy
  fl_stage :: "stage_marker option"
  fl_exit_code :: "int option"
  fl_reason :: failure_reason
  fl_exception_type :: string

record run_manifest =
  mf_run_id :: string
  mf_plan_ref :: ref
  mf_environment :: "ref option"
  mf_dataset :: "ref option"
  mf_state :: run_state
  mf_base_model :: string
  mf_target :: string
  mf_output_dir :: string
  mf_artifact_ids :: "string list"
  mf_checkpoints :: "string list"
  mf_resume_lineage :: "resume_lineage option"
  mf_failure :: "failure_record option"
  mf_final_fit :: "fit_classification option"
  mf_evidence :: "variant \<Rightarrow> success_evidence option"
  mf_notes :: string

definition proven_native :: "fit_classification option \<Rightarrow> bool" where
  "proven_native fit = (case fit of None \<Rightarrow> False | Some f \<Rightarrow> fc_classification f \<in> {NATIVE_SAFE, NATIVE_TIGHT})"

text \<open>The validators of the contract: a manifest that fails them is never constructed, the
  constructor raises.\<close>

definition run_manifest_ok :: "run_manifest \<Rightarrow> bool" where
  "run_manifest_ok m \<longleftrightarrow> id_pattern (mf_run_id m)
     \<and> length (filter (\<lambda>v. mf_evidence m v \<noteq> None) EXECUTION_VARIANTS) \<le> 1
     \<and> \<not> (mf_state m \<noteq> Succeeded \<and> list_ex (\<lambda>v. mf_evidence m v \<noteq> None) EXECUTION_VARIANTS)
     \<and> \<not> (mf_state m \<noteq> Succeeded \<and> proven_native (mf_final_fit m))
     \<and> \<not> (proven_native (mf_final_fit m) \<and> list_all (\<lambda>v. mf_evidence m v = None) EXECUTION_VARIANTS)"

definition resolved_run :: "sealed_plan \<Rightarrow> bool" where
  "resolved_run plan \<longleftrightarrow> list_ex (\<lambda>v. pl_execution plan v \<noteq> None) EXECUTION_VARIANTS"

definition attempt_state :: "attempt_end \<Rightarrow> run_state" where
  "attempt_state e = (case e of Attempt_succeeded _ \<Rightarrow> Succeeded | Attempt_cancelled \<Rightarrow> Cancelled_state | _ \<Rightarrow> Failed_state)"

definition attempt_failure :: "string \<Rightarrow> attempt_end \<Rightarrow> failure_record option" where
  "attempt_failure run_id e = (case e of
      Attempt_failed f \<Rightarrow> Some \<lparr>fl_run_id = Some run_id, fl_taxonomy = rf_taxonomy f, fl_stage = rf_stage f, fl_exit_code = rf_exit_code f,
        fl_reason = rf_reason f, fl_exception_type = ''RunnerFailure''\<rparr>
    | Attempt_crashed exc \<Rightarrow> Some \<lparr>fl_run_id = Some run_id, fl_taxonomy = TAX_FAIL, fl_stage = None, fl_exit_code = None,
        fl_reason = Raised_by_runner exc, fl_exception_type = exc\<rparr>
    | _ \<Rightarrow> None)"

text \<open>The fit on the context: what the runner reported, promoted after every gate of a resolved run,
  and downgraded when the run did not succeed.\<close>

definition attempt_fit :: "sealed_plan \<Rightarrow> runner \<Rightarrow> attempt \<Rightarrow> fit_classification option" where
  "attempt_fit plan runner a =
     (let peak = (if at_ran a then rn_measured_peak runner else None);
          reported = (if at_ran a then rn_final_fit runner else None) in
      case peak of None \<Rightarrow> reported
      | Some pk \<Rightarrow>
          if attempt_state (at_end a) \<noteq> Succeeded then Some (reconcile_measured_fit pk Unknown_residency False)
          else if resolved_run plan then Some (reconcile_measured_fit pk Unknown_residency True)
          else reported)"

text \<open>Lineage is recorded only for the checkpoint the request names, verified again.\<close>

definition resume_lineage_of ::
  "runtime \<Rightarrow> (bytes \<Rightarrow> checkpoint_manifest option) \<Rightarrow> (resume_request \<times> checkpoint_dir) option \<Rightarrow> resume_lineage option" where
  "resume_lineage_of rt parse resume = (case resume of
      None \<Rightarrow> None
    | Some (rq, d) \<Rightarrow> (case verify_checkpoint_integrity rt parse d of
          Inl _ \<Rightarrow> None
        | Inr m \<Rightarrow>
            if cm_checkpoint_id m = rq_checkpoint_id rq \<and> cm_hash m = rq_checkpoint_manifest_hash rq
            then Some \<lparr>rl_parent_run_id = cm_source_run_id m, rl_parent_checkpoint_id = rq_checkpoint_id rq,
              rl_parent_checkpoint_hash = rq_checkpoint_manifest_hash rq,
              rl_resumed_from_global_step = ts_global_optimizer_step (cm_state m)\<rparr>
            else None))"

definition isolated_note :: "string list \<Rightarrow> string" where
  "isolated_note errors = ''event sink failures were isolated: '' @ join '', '' errors"

definition plan_ref :: "sealed_plan \<Rightarrow> ref" where
  "plan_ref plan = \<lparr>rf_id = pl_plan_id plan, rf_hash = Some \<lparr>hr_algo = ''sha256'', hr_value = Some (pl_plan_hash plan)\<rparr>\<rparr>"

definition build_run_manifest ::
  "sealed_plan \<Rightarrow> runner \<Rightarrow> string \<Rightarrow> resume_lineage option \<Rightarrow> attempt \<Rightarrow> run_manifest" where
  "build_run_manifest plan runner run_id lineage a =
     \<lparr>mf_run_id = run_id, mf_plan_ref = plan_ref plan, mf_environment = Some (pl_environment plan),
      mf_dataset = Some (pl_dataset plan),
      mf_state = attempt_state (at_end a), mf_base_model = pl_base_model plan,
      mf_target = (if resolved_run plan then pl_backend_id plan else rn_name runner),
      mf_output_dir = (if resolved_run plan
        then (case find (\<lambda>p. pa_kind p \<in> {''adapter'', ''model''}) (at_produced a) of
            Some p \<Rightarrow> pa_path p | None \<Rightarrow> pl_output_dir plan)
        else pl_output_dir plan),
      mf_artifact_ids = at_artifact_ids a,
      mf_checkpoints = (if at_ran a then rn_checkpoints runner else []),
      mf_resume_lineage = lineage,
      mf_failure = attempt_failure run_id (at_end a),
      mf_final_fit = attempt_fit plan runner a,
      mf_evidence = (case at_end a of Attempt_succeeded evidence \<Rightarrow> evidence | _ \<Rightarrow> (\<lambda>_. None)),
      mf_notes = (if lg_sink_errors (at_log a) \<noteq> [] then isolated_note (lg_sink_errors (at_log a)) else [])\<rparr>"


section \<open>Persistence and the end of the run\<close>

text \<open>The writes of \<open>RunManifest.json\<close> are atomic; \<open>write n\<close> is the exception the n-th attempt
  raises. The result is the manifest returned and the one on disk.\<close>

definition persistence_failure :: "string \<Rightarrow> string \<Rightarrow> failure_record" where
  "persistence_failure run_id exc = \<lparr>fl_run_id = Some run_id, fl_taxonomy = ARTIFACT_FAILURE, fl_stage = Some Export, fl_exit_code = None,
     fl_reason = Manifest_not_persisted, fl_exception_type = exc\<rparr>"

definition add_note :: "string \<Rightarrow> run_manifest \<Rightarrow> run_manifest" where
  "add_note note m = m\<lparr>mf_notes := mf_notes m @ (if mf_notes m \<noteq> [] then ''; '' else []) @ note\<rparr>"

definition failed_manifest :: "string \<Rightarrow> memory_metrics option \<Rightarrow> run_manifest \<Rightarrow> run_manifest" where
  "failed_manifest exc peak m = m\<lparr>mf_state := Failed_state, mf_failure := Some (persistence_failure (mf_run_id m) exc),
     mf_final_fit := map_option (\<lambda>pk. reconcile_measured_fit pk Unknown_residency False) peak,
     mf_evidence := (\<lambda>_. None)\<rparr>"

definition persist_manifest ::
  "(nat \<Rightarrow> string option) \<Rightarrow> memory_metrics option \<Rightarrow> run_manifest \<Rightarrow> run_manifest \<times> run_manifest option" where
  "persist_manifest write peak m = (case write 0 of
      None \<Rightarrow> (m, Some m)
    | Some exc \<Rightarrow>
        if mf_state m = Succeeded
        then let m' = failed_manifest exc peak m in
          (case write 1 of
             None \<Rightarrow> (m', Some m')
           | Some exc' \<Rightarrow> (add_note (''failed terminal manifest could not be persisted: '' @ exc') m', None))
        else (add_note (''terminal manifest could not be persisted: '' @ exc) m, None))"

fun occurs_in :: "string \<Rightarrow> string \<Rightarrow> bool" where
  "occurs_in p [] \<longleftrightarrow> p = []"
| "occurs_in p (c # cs) \<longleftrightarrow> has_prefix p (c # cs) \<or> occurs_in p cs"

text \<open>After the terminal event a note of the isolated errors is added, and written again.\<close>

definition note_isolated ::
  "bool \<Rightarrow> (nat \<Rightarrow> string option) \<Rightarrow> string list \<Rightarrow> run_manifest \<times> run_manifest option \<Rightarrow> run_manifest \<times> run_manifest option" where
  "note_isolated record_dir write errors mm =
     (if errors = [] \<or> occurs_in (isolated_note errors) (mf_notes (fst mm)) then mm
      else let m = add_note (isolated_note errors) (fst mm) in
        (m, if record_dir \<and> write 2 = None then Some m else snd mm))"

record supervised_run =
  xr_manifest :: run_manifest
  xr_events :: "run_event list"
  xr_artifacts :: "artifact_manifest list"
  xr_durable_manifest :: "run_manifest option"
  xr_durable_artifacts :: "artifact_manifest list"
  xr_log :: run_log

record surroundings_of_run =
  so_machine :: machine
  so_observers :: observers
  so_artifact_write :: "artifact_manifest \<Rightarrow> bool"
  so_manifest_write :: "nat \<Rightarrow> string option"
  so_open_fault :: "string option"
  so_parse :: "bytes \<Rightarrow> checkpoint_manifest option"

definition attempt_peak :: "runner \<Rightarrow> attempt \<Rightarrow> memory_metrics option" where
  "attempt_peak runner a = (if at_ran a then rn_measured_peak runner else None)"

text \<open>A run from the moment its record is open.\<close>

definition conduct_run ::
  "runtime \<Rightarrow> surroundings_of_run \<Rightarrow> sealed_plan \<Rightarrow> runner \<Rightarrow> string \<Rightarrow> (resume_request \<times> checkpoint_dir) option \<Rightarrow> supervised_run" where
  "conduct_run rt so plan runner run_id resume =
     (let rid = sanitize_id run_id; ob = so_observers so;
          a = attempt_run rt (so_machine so) (so_artifact_write so) ob plan runner rid;
          built = build_run_manifest plan runner rid (resume_lineage_of rt (so_parse so) resume) a;
          persisted = (if ob_record_dir ob then persist_manifest (so_manifest_write so) (attempt_peak runner a) built else (built, None));
          lg = emit_terminal ob rid (mf_state (fst persisted)) (at_log a);
          final = note_isolated (ob_record_dir ob) (so_manifest_write so) (lg_sink_errors lg) persisted
      in \<lparr>xr_manifest = fst final, xr_events = lg_events lg, xr_artifacts = at_artifacts a,
          xr_durable_manifest = snd final, xr_durable_artifacts = at_stored a, xr_log = lg\<rparr>)"


text \<open>The record directory is made and the event log opened before anything is guarded: an exception
  of either leaves the function.\<close>

definition execute_run ::
  "runtime \<Rightarrow> surroundings_of_run \<Rightarrow> sealed_plan \<Rightarrow> runner \<Rightarrow> string \<Rightarrow> (resume_request \<times> checkpoint_dir) option
     \<Rightarrow> string + supervised_run" where
  "execute_run rt so plan runner run_id resume =
     (case (if ob_record_dir (so_observers so) then so_open_fault so else None) of
        Some exc \<Rightarrow> Inl exc
      | None \<Rightarrow> Inr (conduct_run rt so plan runner run_id resume))"

lemma executed: "execute_run rt so plan runner run_id resume = Inr r \<Longrightarrow> r = conduct_run rt so plan runner run_id resume"
  by (simp add: execute_run_def split: option.splits if_splits)


section \<open>The stream\<close>

lemma emit_log:
  "lg_seq (emit ob run_id c lg) = Suc (lg_seq lg)"
  "\<exists>e. lg_events (emit ob run_id c lg) = lg_events lg @ [e] \<and> re_seq e = lg_seq lg \<and> re_run_id e = run_id
     \<and> cl_type e = cl_type c \<and> cl_state e = cl_state c
     \<and> lg_durable (emit ob run_id c lg) = lg_durable lg @ filter (\<lambda>e. ob_record_dir ob \<and> ob_log_fault ob e = None) [e]"
  by (simp_all add: emit_def collect_def Let_def split: option.splits)

text \<open>Numbered from zero under the run's identity, and the log holds the events whose write worked.\<close>

definition stream_ok :: "observers \<Rightarrow> string \<Rightarrow> run_log \<Rightarrow> bool" where
  "stream_ok ob run_id lg \<longleftrightarrow> map re_seq (lg_events lg) = [0..<lg_seq lg] \<and> list_all (\<lambda>e. re_run_id e = run_id) (lg_events lg)
     \<and> lg_durable lg = filter (\<lambda>e. ob_record_dir ob \<and> ob_log_fault ob e = None) (lg_events lg)"

lemma stream_ok_emit: "stream_ok ob run_id lg \<Longrightarrow> stream_ok ob run_id (emit ob run_id c lg)"
  using emit_log [of ob run_id c lg] by (auto simp: stream_ok_def)

lemma stream_ok_fold: "stream_ok ob run_id lg \<Longrightarrow> stream_ok ob run_id (fold (emit ob run_id) cs lg)"
  by (induction cs arbitrary: lg) (simp_all add: stream_ok_emit)

lemma stream_ok_empty: "stream_ok ob run_id empty_log"
  by (simp add: stream_ok_def empty_log_def)

lemma no_events [simp]: "lg_events empty_log = []"
  by (simp add: empty_log_def)

lemma fold_emit_types:
  "map cl_type (lg_events (fold (emit ob run_id) cs lg)) = map cl_type (lg_events lg) @ map cl_type cs"
proof (induction cs arbitrary: lg)
  case (Cons c cs)
  from emit_log(2) [of ob run_id c lg] Cons show ?case by auto
qed simp

text \<open>The log of an attempt is what the runner emitted, or nothing.\<close>

lemma attempt_log:
  "at_log (attempt_run rt mc w ob plan runner run_id) =
     (if at_ran (attempt_run rt mc w ob plan runner run_id) then fold (emit ob run_id) (rn_calls runner) empty_log else empty_log)"
  by (simp add: attempt_run_def Let_def split: option.splits runner_outcome.splits sum.splits)


section \<open>What admission implies\<close>

lemma admits_task_iff: "admits_task task objective full \<longleftrightarrow> verified_request task False objective full"
  unfolding admits_verified [symmetric] by (auto simp: admits_task_def split: sum.splits)

lemma no_rollout_lane:
  assumes "pl_execution plan V_rollout = Some cfg" and "length (selected_variants plan) \<le> 1"
  shows "required_runner_lane plan = Inl No_lane"
  using assms by (auto simp: required_runner_lane_def selected_variants_def EXECUTION_VARIANTS_def admits_task_iff
    verified_request_def split: if_splits option.splits)

lemma selected_mem: "v \<in> set (selected_variants plan) \<longleftrightarrow> pl_execution plan v \<noteq> None"
  by (cases v) (auto simp: selected_variants_def EXECUTION_VARIANTS_def)

lemma admitted:
  assumes "admit_plan rt plan name class = None"
  shows "verify_run_plan_hash rt plan" and "length (selected_variants plan) \<le> 1"
    and "required_runner_lane plan = Inr name" and "class = expected_class plan"
    and "pl_execution plan v = Some cfg \<Longrightarrow> verify_configuration_hash rt cfg \<and> v \<noteq> V_rollout"
proof -
  from assms show adm: "verify_run_plan_hash rt plan" "length (selected_variants plan) \<le> 1"
    "required_runner_lane plan = Inr name" "class = expected_class plan"
    by (auto simp: admit_plan_def resolved_execution_binding_def verify_runner_lane_def Let_def split: if_splits sum.splits option.splits)
  assume v: "pl_execution plan v = Some cfg"
  then have "v \<in> set (selected_variants plan)" by (simp add: selected_mem)
  with adm(2) have sel: "selected_variants plan = [v]" by (cases "selected_variants plan") auto
  have "v \<noteq> V_rollout" using no_rollout_lane [OF _ adm(2)] adm(3) v by auto
  moreover have "verify_configuration_hash rt cfg"
    using assms v by (auto simp: admit_plan_def resolved_execution_binding_def sel split: if_splits sum.splits option.splits)
  ultimately show "verify_configuration_hash rt cfg \<and> v \<noteq> V_rollout" by blast
qed


section \<open>What the gates imply\<close>

lemma gate_variants_Inr:
  assumes "gate_variants plan gate vs evidence = Inr evidence'" and "distinct vs"
  shows "(v \<in> set vs \<longrightarrow> pl_execution plan v = Some cfg \<longrightarrow> (\<exists>e. gate v cfg = Inr e \<and> evidence' v = Some e))
    \<and> ((v \<notin> set vs \<or> pl_execution plan v = None) \<longrightarrow> evidence' v = evidence v)"
  using assms
  by (induction vs arbitrary: evidence) (auto split: option.splits sum.splits if_splits)

lemma gate_order: "v \<in> set GATE_ORDER" "distinct GATE_ORDER"
  by (cases v) (simp_all add: GATE_ORDER_def)

lemma all_variants: "v \<in> set EXECUTION_VARIANTS"
  by (cases v) (simp_all add: EXECUTION_VARIANTS_def)

text \<open>An attempt that succeeds was admitted, returned, built its manifests, passed the gates, and
  stored every manifest if there is a record directory.\<close>

lemma attempt_succeeded:
  assumes "at_end (attempt_run rt mc w ob plan runner run_id) = Attempt_succeeded evidence"
  obtains produced manifests where
    "admit_plan rt plan (rn_name runner) (rn_class runner) = None" "rn_outcome runner = Returned produced"
    "build_artifact_manifests rt (mc_disk mc) run_id (pl_base_model plan) produced = Some manifests"
    "gate_variants plan (gate_for rt mc runner run_id (lg_events (fold (emit ob run_id) (rn_calls runner) empty_log)) produced manifests)
       GATE_ORDER (\<lambda>_. None) = Inr evidence"
    "attempt_run rt mc w ob plan runner run_id = \<lparr>at_ran = True, at_log = fold (emit ob run_id) (rn_calls runner) empty_log,
       at_produced = produced, at_artifact_ids = map pa_artifact_id produced, at_artifacts = manifests,
       at_stored = (if ob_record_dir ob then manifests else []), at_end = Attempt_succeeded evidence\<rparr>"
proof -
  have all: "list_all w ms \<Longrightarrow> stored_prefix w ms = ms" for ms
    by (simp add: stored_prefix_def takeWhile_eq_all_conv list_all_iff)
  show ?thesis
    using assms that all
    by (auto simp: attempt_run_def Let_def split: option.splits runner_outcome.splits sum.splits if_splits)
qed

lemma attempt_succeeded_facts:
  assumes "a = attempt_run rt mc w ob plan runner run_id" and "at_end a = Attempt_succeeded evidence"
  shows "admit_plan rt plan (rn_name runner) (rn_class runner) = None
    \<and> at_stored a = (if ob_record_dir ob then at_artifacts a else [])
    \<and> (\<exists>produced. build_artifact_manifests rt (mc_disk mc) run_id (pl_base_model plan) produced = Some (at_artifacts a)
         \<and> gate_variants plan (gate_for rt mc runner run_id (lg_events (at_log a)) produced (at_artifacts a)) GATE_ORDER (\<lambda>_. None)
             = Inr evidence)"
  by (rule attempt_succeeded [OF assms(2) [unfolded assms(1)]]) (simp add: assms(1), blast)

lemma attempt_evidence:
  assumes "at_end (attempt_run rt mc w ob plan runner run_id) = Attempt_succeeded evidence"
  shows "evidence v \<noteq> None \<longleftrightarrow> pl_execution plan v \<noteq> None"
  using assms
proof (rule attempt_succeeded)
  fix produced manifests
  assume "gate_variants plan (gate_for rt mc runner run_id (lg_events (fold (emit ob run_id) (rn_calls runner) empty_log)) produced manifests)
      GATE_ORDER (\<lambda>_. None) = Inr evidence"
  from gate_variants_Inr [OF this gate_order(2), of v] gate_order(1) [of v] show ?thesis by (cases "pl_execution plan v") auto
qed


lemma sanitize_id_ok: "id_pattern (sanitize_id v)"
proof -
  have chars: "set (dash_runs b v) \<subseteq> Collect id_char" for b
    by (induction b v rule: dash_runs.induct) (auto simp: id_char_def)
  have "set (strip_with p s) \<subseteq> set s" for p s
    by (auto simp: strip_with_def dest!: set_dropWhileD)
  from subset_trans [OF this chars [of False]] have "list_all id_char (strip_with (\<lambda>c. c = CHR ''-'') (dash_runs False v))"
    by (auto simp: list_all_iff)
  moreover have "list_all id_char ''run''" by code_simp
  ultimately show ?thesis by (auto simp: sanitize_id_def id_pattern_def Let_def)
qed

text \<open>The record directory of a run id is not always its own: the parent directory is a run id, and
  two ids can share a directory.\<close>

lemma record_directory_escapes:
  "run_record_directory base ''..'' = base @ ''/runs/..''" "run_record_directory base ''a b'' = run_record_directory base ''a-b''"
  by (simp_all add: run_record_directory_def) code_simp+

lemma unproven_not_native: "\<not> proven_native (Some (reconcile_measured_fit pk residency False))"
  by (simp add: proven_native_def reconcile_measured_fit_def Let_def)

lemma built_manifest_ok:
  assumes "a = attempt_run rt mc w ob plan runner run_id" and "id_pattern run_id" and "\<not> proven_native (rn_final_fit runner)"
  shows "run_manifest_ok (build_run_manifest plan runner run_id lineage a)"
proof (cases "\<exists>evidence. at_end a = Attempt_succeeded evidence")
  case True
  then obtain evidence where e: "at_end a = Attempt_succeeded evidence" by blast
  with assms(1) have ae: "at_end (attempt_run rt mc w ob plan runner run_id) = Attempt_succeeded evidence" by simp
  from attempt_succeeded [OF ae] have adm: "length (selected_variants plan) \<le> 1" using admitted(2) by metis
  note carried = attempt_evidence [OF ae]
  from adm have one: "length (filter (\<lambda>v. evidence v \<noteq> None) EXECUTION_VARIANTS) \<le> 1"
    unfolding carried selected_variants_def .
  have "proven_native (attempt_fit plan runner a) \<Longrightarrow> resolved_run plan"
    using assms(3) e by (auto simp: attempt_fit_def attempt_state_def Let_def proven_native_def split: option.splits if_splits)
  then have "proven_native (attempt_fit plan runner a) \<Longrightarrow> list_ex (\<lambda>v. evidence v \<noteq> None) EXECUTION_VARIANTS"
    unfolding resolved_run_def carried .
  with one e assms(2) show ?thesis
    by (auto simp: run_manifest_ok_def build_run_manifest_def attempt_state_def list_ex_iff list_all_iff)
next
  case False
  then have "attempt_state (at_end a) \<noteq> Succeeded" by (auto simp: attempt_state_def split: attempt_end.splits)
  moreover from this have "\<not> proven_native (attempt_fit plan runner a)"
    using assms(3) unproven_not_native by (auto simp: attempt_fit_def Let_def proven_native_def split: option.splits if_splits)
  moreover have "mf_evidence (build_run_manifest plan runner run_id lineage a) = (\<lambda>_. None)"
    using False by (auto simp: build_run_manifest_def split: attempt_end.splits)
  ultimately show ?thesis using assms(2)
    by (simp add: run_manifest_ok_def) (simp add: build_run_manifest_def list_ex_iff)
qed

lemma ok_note [simp]: "run_manifest_ok (add_note note m) = run_manifest_ok m"
  by (simp add: run_manifest_ok_def add_note_def)

lemma ok_failed: "id_pattern (mf_run_id m) \<Longrightarrow> run_manifest_ok (failed_manifest exc peak m)"
  using unproven_not_native by (cases peak) (auto simp: run_manifest_ok_def failed_manifest_def list_ex_iff proven_native_def)

lemma ok_noted: "run_manifest_ok (fst (note_isolated d w errs mm)) = run_manifest_ok (fst mm)"
  by (simp add: note_isolated_def Let_def)

lemma persisted_ok:
  "run_manifest_ok m \<Longrightarrow> run_manifest_ok (fst (persist_manifest w peak m))"
  using ok_failed [of m] by (auto simp: persist_manifest_def Let_def run_manifest_ok_def [of m] split: option.splits)


text \<open>What a piece of evidence stands for on the machine, gate by gate. For a trained adapter: the
  sealed steps; exactly one creation of the optimizer, before every step metric, each of which has
  a loss, and these losses; one artifact, an adapter at the sealed place of the run, with complete
  integrity, whose weights and configuration satisfy the adapter's seal and still have the
  manifested digests. For the other variants: the sealed steps, and a manifested artifact of the
  variant's kind whose weights and configuration are the bytes of the proposal and reload to the
  trained state.\<close>

definition steps_sealed :: "execution_config \<Rightarrow> int \<Rightarrow> bool" where
  "steps_sealed cfg n = (case ec_max_steps cfg of Some k \<Rightarrow> n = k | None \<Rightarrow> True)"

definition optimizer_first :: "run_event list \<Rightarrow> bool" where
  "optimizer_first events \<longleftrightarrow> (case optimizer_events events of
      [created] \<Rightarrow> list_all (\<lambda>e. re_seq created < re_seq e \<and> event_loss e \<noteq> None) (step_metrics events)
    | _ \<Rightarrow> False)"

definition member_hashes :: "runtime \<Rightarrow> disk_node \<Rightarrow> string \<Rightarrow> string \<Rightarrow> bool" where
  "member_hashes rt node name digest \<longleftrightarrow> (case member_bytes node name of None \<Rightarrow> False | Some b \<Rightarrow> sha256_hex rt b = digest)"

definition full_model :: "variant \<Rightarrow> bool" where
  "full_model v \<longleftrightarrow> v = V_pretraining \<or> v = V_full_finetune"

definition reproduces :: "runtime \<Rightarrow> machine \<Rightarrow> variant \<Rightarrow> string \<Rightarrow> proposed_evidence \<Rightarrow> bool" where
  "reproduces rt mc v path px \<longleftrightarrow>
     member_hashes rt (mc_disk mc path) (if full_model v then ''model.safetensors'' else ''adapter_model.safetensors'') (px_weights_sha256 px)
     \<and> member_hashes rt (mc_disk mc path) (if full_model v then ''config.json'' else ''adapter_config.json'') (px_config_sha256 px)
     \<and> (if full_model v then mc_reload_model else mc_reload_adapter) mc path = Some (px_after_sha256 px)"

definition evidence_holds ::
  "runtime \<Rightarrow> machine \<Rightarrow> string \<Rightarrow> run_event list \<Rightarrow> artifact_manifest list \<Rightarrow> variant \<Rightarrow> execution_config \<Rightarrow> success_evidence \<Rightarrow> bool" where
  "evidence_holds rt mc run_id events manifests v cfg e = (case e of
      Training_success tx weights_sha config_sha peak \<Rightarrow>
        v = V_training \<and> steps_sealed cfg (tx_completed_steps tx) \<and> tx_optimizer_created tx \<and> optimizer_first events
        \<and> event_losses events = tx_step_losses tx
        \<and> (case manifests of
             [m] \<Rightarrow> am_kind m = ''adapter''
               \<and> id_pattern run_id \<and> run_id \<notin> {''.'', ''..''}
               \<and> (let place = mc_absolute mc (ec_output_dir cfg @ ''/runs/'' @ run_id @ ''/artifacts/adapter'') in
                  mc_absolute mc (am_path m) = place \<and> mc_output_ok mc place)
               \<and> am_current_integrity m = ''ok'' \<and> am_cheap_fingerprint m \<noteq> None
               \<and> mc_sealed_adapter mc (am_path m) cfg tx = Some (weights_sha, config_sha)
               \<and> am_metadata_hash m = Some config_sha \<and> am_content_hash m \<noteq> None
               \<and> compute_weight_content_hash rt (am_path m) (mc_disk mc (am_path m)) = am_content_hash m
           | _ \<Rightarrow> False)
    | Reverified_success px \<Rightarrow>
        v \<noteq> V_training \<and> (case ec_max_steps cfg of Some n \<Rightarrow> px_completed_steps px = n | None \<Rightarrow> 1 \<le> px_completed_steps px)
        \<and> list_ex (\<lambda>m. am_kind m = (if full_model v then ''model'' else ''adapter'') \<and> reproduces rt mc v (am_path m) px) manifests)"

lemma reproduces_full:
  "full_model v \<Longrightarrow> reload_verify_full_model rt mc path px = reproduces rt mc v path px"
  "\<not> full_model v \<Longrightarrow> reload_verify_adapter rt mc path px = reproduces rt mc v path px"
  by (auto simp: reload_verify_full_model_def reload_verify_adapter_def reload_verify_def reproduces_def member_hashes_def split: option.splits)

lemma reproduces_peak [simp]: "reproduces rt mc v path (px\<lparr>px_measured_peak := peak\<rparr>) = reproduces rt mc v path px"
  by (simp add: reproduces_def)

lemma manifests_of:
  "build_artifact_manifests rt disk run_id base_model produced = Some manifests \<Longrightarrow>
     map (\<lambda>m. (am_kind m, am_path m)) manifests
       = map (\<lambda>a. (if pa_kind a \<in> set ARTIFACT_KINDS then pa_kind a else ''other'', pa_path a)) produced"
  by (induction produced arbitrary: manifests)
    (auto simp: build_artifact_manifest_def Let_def split: option.splits if_splits)

lemma produced_is_manifested:
  assumes "build_artifact_manifests rt disk run_id base_model produced = Some manifests" and "a \<in> set produced"
    and "pa_kind a \<in> {''model'', ''adapter''}"
  shows "\<exists>m \<in> set manifests. am_kind m = pa_kind a \<and> am_path m = pa_path a"
proof -
  have "(pa_kind a, pa_path a) \<in> set (map (\<lambda>m. (am_kind m, am_path m)) manifests)"
    unfolding manifests_of [OF assms(1)] using assms(2,3) by (force simp: ARTIFACT_KINDS_def)
  then show ?thesis by auto
qed

lemma proposed_holds:
  assumes "validate_proposed knd verify cfg proposed produced peak = Inr e"
  obtains px a where "e = Reverified_success (px\<lparr>px_measured_peak := peak\<rparr>)" "a \<in> set produced" "pa_kind a = knd" "verify (pa_path a) px"
    "case ec_max_steps cfg of Some n \<Rightarrow> px_completed_steps px = n | None \<Rightarrow> 1 \<le> px_completed_steps px"
proof -
  from assms obtain px a where r: "e = Reverified_success (px\<lparr>px_measured_peak := peak\<rparr>)" "find (\<lambda>a. pa_kind a = knd) produced = Some a"
    "verify (pa_path a) px" "case ec_max_steps cfg of Some n \<Rightarrow> px_completed_steps px = n | None \<Rightarrow> 1 \<le> px_completed_steps px"
    by (auto simp: validate_proposed_def split: option.splits if_splits)
  from r(2) have "a \<in> set produced" "pa_kind a = knd" by (auto simp: find_Some_iff)
  from that [OF r(1) this r(3,4)] show thesis .
qed

lemma one_of_length: "length xs = 1 \<Longrightarrow> \<exists>x. xs = [x]"
  by (cases xs) auto

lemma training_holds:
  assumes "validate_training_success_evidence rt mc cfg run_id events produced manifests evidence peak = Inr e"
  shows "evidence_holds rt mc run_id events manifests V_training cfg e"
proof -
  from assms obtain tx w c where e: "training_stream_gate cfg events evidence = Inr tx"
    "training_artifact_gate rt mc cfg run_id produced manifests tx = Inr (w, c)" "e = Training_success tx w c peak"
    by (auto simp: validate_training_success_evidence_def split: sum.splits)
  from e(1) have gate: "steps_sealed cfg (tx_completed_steps tx)" "tx_optimizer_created tx" "event_losses events = tx_step_losses tx"
    and one: "length (optimizer_events events) = 1"
    and order: "list_all (\<lambda>e. re_seq (hd (optimizer_events events)) < re_seq e \<and> event_loss e \<noteq> None) (step_metrics events)"
    by (auto simp: training_stream_gate_def steps_sealed_def list_ex_iff list_all_iff split: option.splits if_splits)
  from one_of_length [OF one] order have first: "optimizer_first events" by (auto simp: optimizer_first_def)
  from e(2) have "length manifests = 1" "length (filter (\<lambda>m. am_kind m = ''adapter'') manifests) = 1"
    by (auto simp: training_artifact_gate_def Let_def split: option.splits if_splits)
  then obtain m where m: "manifests = [m]" "am_kind m = ''adapter''" by (cases manifests) (auto split: if_splits)
  from e(2) m have "id_pattern run_id" "run_id \<notin> {''.'', ''..''}"
    "mc_absolute mc (am_path m) = mc_absolute mc (ec_output_dir cfg @ ''/runs/'' @ run_id @ ''/artifacts/adapter'')"
    "mc_output_ok mc (mc_absolute mc (ec_output_dir cfg @ ''/runs/'' @ run_id @ ''/artifacts/adapter''))"
    by (auto simp: training_artifact_gate_def verify_run_scoped_output_path_def run_scoped_training_output_def Let_def
      split: option.splits if_splits)
  moreover from e(2) m have "am_current_integrity m = ''ok''" "am_cheap_fingerprint m \<noteq> None"
    "mc_sealed_adapter mc (am_path m) cfg tx = Some (w, c)" "am_metadata_hash m = Some c" "am_content_hash m \<noteq> None"
    "compute_weight_content_hash rt (am_path m) (mc_disk mc (am_path m)) = am_content_hash m"
    by (auto simp: training_artifact_gate_def Let_def OK_def split: option.splits if_splits)
  ultimately show ?thesis using gate first m by (simp add: evidence_holds_def e(3) Let_def)
qed

lemma gate_holds:
  assumes "gate_for rt mc runner run_id events produced manifests v cfg = Inr e"
    and "build_artifact_manifests rt disk run_id base_model produced = Some manifests"
  shows "evidence_holds rt mc run_id events manifests v cfg e"
proof (cases "v = V_training")
  case True
  with assms(1) show ?thesis by (auto simp: gate_for_def Let_def intro: training_holds)
next
  case False
  have "validate_proposed (if full_model v then ''model'' else ''adapter'')
      (if full_model v then reload_verify_full_model rt mc else reload_verify_adapter rt mc)
      cfg (rn_proposed runner v) produced (rn_measured_peak runner) = Inr e"
    using assms(1) False by (cases v) (auto simp: gate_for_def full_model_def validate_preference_success_evidence_def
      validate_reward_success_evidence_def validate_rollout_success_evidence_def validate_pretraining_success_evidence_def
      validate_full_finetune_success_evidence_def)
  then obtain px a where px: "e = Reverified_success (px\<lparr>px_measured_peak := rn_measured_peak runner\<rparr>)" "a \<in> set produced"
    "pa_kind a = (if full_model v then ''model'' else ''adapter'')"
    "(if full_model v then reload_verify_full_model rt mc else reload_verify_adapter rt mc) (pa_path a) px"
    "case ec_max_steps cfg of Some n \<Rightarrow> px_completed_steps px = n | None \<Rightarrow> 1 \<le> px_completed_steps px"
    by (rule proposed_holds)
  from px(4) have "reproduces rt mc v (pa_path a) px" using reproduces_full [of v rt mc "pa_path a" px] by (cases "full_model v") simp_all
  moreover obtain m where "m \<in> set manifests" "am_kind m = (if full_model v then ''model'' else ''adapter'')" "am_path m = pa_path a"
    using produced_is_manifested [OF assms(2) px(2)] px(3) by (cases "full_model v") auto
  ultimately have "list_ex (\<lambda>m. am_kind m = (if full_model v then ''model'' else ''adapter'') \<and> reproduces rt mc v (am_path m) px) manifests"
    unfolding list_ex_iff by metis
  moreover have "px_completed_steps (px\<lparr>px_measured_peak := peak\<rparr>) = px_completed_steps px" for peak by simp
  ultimately show ?thesis using px(5) False unfolding px(1) evidence_holds_def by (simp split: option.splits)
qed

lemma evidence_holds_events:
  assumes "optimizer_events es = optimizer_events es'" and "step_metrics es = step_metrics es'"
  shows "evidence_holds rt mc run_id es ms v cfg e = evidence_holds rt mc run_id es' ms v cfg e"
proof -
  have "optimizer_first es = optimizer_first es'" "event_losses es = event_losses es'"
    by (simp_all only: optimizer_first_def event_losses_def assms)
  then show ?thesis by (simp only: evidence_holds_def)
qed

lemma terminal_keeps_evidence:
  "optimizer_events (lg_events (emit_terminal ob run_id st lg)) = optimizer_events (lg_events lg)"
  "step_metrics (lg_events (emit_terminal ob run_id st lg)) = step_metrics (lg_events lg)"
  using emit_log(2) [of ob run_id "\<lparr>cl_type = Terminal_event, cl_stage = None, cl_step = None, cl_metrics = None, cl_state = Some st\<rparr>" lg]
  by (auto simp: emit_terminal_def optimizer_events_def step_metrics_def)


text \<open>The lane of a plan: which runner, by name and by class, may run its one execution.\<close>

definition LANES :: "(variant \<times> bool option \<times> string \<times> runner_class) list" where
  "LANES = [(V_training, Some False, ''training'', Training_runner), (V_training, Some True, ''cpu_toy'', Training_runner),
     (V_pretraining, Some False, ''pretraining'', Pretraining_runner), (V_pretraining, Some True, ''pretraining_cpu_toy'', Pretraining_runner),
     (V_preference, None, ''preference'', Preference_runner), (V_full_finetune, None, ''full_finetune'', Full_finetune_runner),
     (V_reward, None, ''reward'', Reward_runner)]"

definition sealed_lane :: "sealed_plan \<Rightarrow> string \<Rightarrow> runner_class \<Rightarrow> bool" where
  "sealed_lane plan name cls \<longleftrightarrow> (case selected_variants plan of
      [] \<Rightarrow> pl_backend_id plan = ''echo'' \<and> pl_task plan = Evaluation_task \<and> name = ''echo'' \<and> cls = Echo_runner
    | [v] \<Rightarrow> (v = V_training \<longrightarrow> pl_backend_id plan = ''corpus_studio'')
        \<and> list_ex (\<lambda>(w, toy, n, c). w = v \<and> n = name \<and> c = cls
            \<and> (toy = None \<or> toy = Some (map_option ec_runtime_mode (pl_execution plan v) = Some ''cpu_toy''))) LANES
    | _ \<Rightarrow> False)"

lemma lane_sealed:
  assumes "length (selected_variants plan) \<le> 1" and "required_runner_lane plan = Inr name" and "cls = expected_class plan"
  shows "sealed_lane plan name cls"
proof (cases "selected_variants plan")
  case Nil
  then have "pl_execution plan v = None" for v using selected_mem [of v plan] by simp
  with assms(2,3) Nil show ?thesis
    by (auto simp: sealed_lane_def required_runner_lane_def expected_class_def split: if_splits)
next
  case (Cons v vs)
  with assms(1) have sel: "selected_variants plan = [v]" by simp
  then have others: "pl_execution plan w = None" if "w \<noteq> v" for w using selected_mem [of w plan] that by auto
  from sel obtain cfg where cfg: "pl_execution plan v = Some cfg" using selected_mem [of v plan] by auto
  have "v \<noteq> V_rollout" using no_rollout_lane [OF _ assms(1)] assms(2) cfg by auto
  with assms(2,3) sel cfg others show ?thesis
    by (cases v) (auto simp: sealed_lane_def LANES_def required_runner_lane_def expected_class_def split: if_splits)
qed


text \<open>The parts of an execution.\<close>

lemma conduct_run_parts:
  fixes rt so plan runner run_id resume
  defines "rid \<equiv> sanitize_id run_id" and "ob \<equiv> so_observers so"
  defines "a \<equiv> attempt_run rt (so_machine so) (so_artifact_write so) ob plan runner rid"
  defines "built \<equiv> build_run_manifest plan runner rid (resume_lineage_of rt (so_parse so) resume) a"
  defines "persisted \<equiv> if ob_record_dir ob then persist_manifest (so_manifest_write so) (attempt_peak runner a) built else (built, None)"
  defines "lg \<equiv> emit_terminal ob rid (mf_state (fst persisted)) (at_log a)"
  shows "(xr_manifest (conduct_run rt so plan runner run_id resume), xr_durable_manifest (conduct_run rt so plan runner run_id resume))
      = note_isolated (ob_record_dir ob) (so_manifest_write so) (lg_sink_errors lg) persisted"
    and "xr_events (conduct_run rt so plan runner run_id resume) = lg_events lg"
    and "xr_log (conduct_run rt so plan runner run_id resume) = lg"
    and "xr_artifacts (conduct_run rt so plan runner run_id resume) = at_artifacts a"
    and "xr_durable_artifacts (conduct_run rt so plan runner run_id resume) = at_stored a"
  by (simp_all add: conduct_run_def Let_def assms)

lemma noted_frame:
  assumes "note_isolated d w errs (m, disk) = (m', disk')"
  shows "mf_state m' = mf_state m" "mf_run_id m' = mf_run_id m" "mf_evidence m' = mf_evidence m"
    and "disk = Some m \<Longrightarrow> \<exists>n. disk' = Some (m'\<lparr>mf_notes := n\<rparr>)"
proof -
  have same: "\<exists>n. m = m\<lparr>mf_notes := n\<rparr>" by (rule exI [of _ "mf_notes m"]) simp
  from assms show "mf_state m' = mf_state m" "mf_run_id m' = mf_run_id m" "mf_evidence m' = mf_evidence m"
    by (auto simp: note_isolated_def Let_def add_note_def split: if_splits)
  assume "disk = Some m"
  with assms same show "\<exists>n. disk' = Some (m'\<lparr>mf_notes := n\<rparr>)"
    by (auto simp: note_isolated_def Let_def add_note_def split: if_splits)
qed

lemma persisted_frame:
  "mf_run_id (fst (persist_manifest w peak m)) = mf_run_id m"
  "mf_state (fst (persist_manifest w peak m)) = Succeeded \<Longrightarrow> mf_state m = Succeeded \<and> persist_manifest w peak m = (m, Some m)"
  by (auto simp: persist_manifest_def failed_manifest_def add_note_def Let_def split: option.splits if_splits)


section \<open>Properties\<close>

text \<open>C2: Success is earned. A run that ends succeeded, whatever its runner claims, carries a plan
  whose seal verifies and at most one execution, whose own seal verifies and which is not an
  on-policy rollout; its runner is the one of the lane of that execution, by name and by class;
  for the execution there is evidence that holds on the machine, gate by gate: the sealed steps;
  for a trained adapter one optimizer creation before every step loss, these losses, and the one
  adapter at the sealed place, with complete integrity, its own seal and the manifested bytes; for
  the others a manifested artifact of the right kind that has the proposed bytes and reloads to
  the trained state. With a record directory every artifact manifest is on disk, and so is the run
  manifest, up to its notes.\<close>

theorem success_is_earned:
  assumes "execute_run rt so plan runner run_id resume = Inr r" and "mf_state (xr_manifest r) = Succeeded"
  shows "canonical_sha256 rt (pl_payload plan) = pl_plan_hash plan \<and> length (selected_variants plan) \<le> 1
    \<and> sealed_lane plan (rn_name runner) (rn_class runner)
    \<and> list_all (\<lambda>v. case pl_execution plan v of
          None \<Rightarrow> mf_evidence (xr_manifest r) v = None
        | Some cfg \<Rightarrow> v \<noteq> V_rollout \<and> ec_configuration_hash cfg = canonical_sha256 rt (ec_payload cfg)
            \<and> (case mf_evidence (xr_manifest r) v of None \<Rightarrow> False
               | Some e \<Rightarrow> evidence_holds rt (so_machine so) (sanitize_id run_id) (xr_events r) (xr_artifacts r) v cfg e)) EXECUTION_VARIANTS
    \<and> (if ob_record_dir (so_observers so)
       then xr_durable_artifacts r = xr_artifacts r \<and> (\<exists>n. xr_durable_manifest r = Some ((xr_manifest r)\<lparr>mf_notes := n\<rparr>))
       else xr_durable_manifest r = None)"
proof -
  let ?rid = "sanitize_id run_id" and ?ob = "so_observers so"
  define a where "a = attempt_run rt (so_machine so) (so_artifact_write so) ?ob plan runner ?rid"
  define built where "built = build_run_manifest plan runner ?rid (resume_lineage_of rt (so_parse so) resume) a"
  define persisted where "persisted = (if ob_record_dir ?ob then persist_manifest (so_manifest_write so) (attempt_peak runner a) built else (built, None))"
  note parts = conduct_run_parts [of rt so plan runner run_id resume, folded a_def, folded built_def, folded persisted_def, folded executed [OF assms(1)]]
  obtain m d where md: "persisted = (m, d)" by force
  note final = noted_frame [OF parts(1) [symmetric, unfolded md]]
  from final(1) assms(2) have ms: "mf_state m = Succeeded" by simp
  have b: "m = built \<and> mf_state built = Succeeded \<and> d = (if ob_record_dir ?ob then Some built else None)"
    using ms md persisted_frame(2) [of "so_manifest_write so" "attempt_peak runner a" built]
    by (auto simp: persisted_def split: if_splits)
  then have "attempt_state (at_end a) = Succeeded" by (simp add: built_def build_run_manifest_def)
  then obtain evidence where e: "at_end a = Attempt_succeeded evidence" by (auto simp: attempt_state_def split: attempt_end.splits)
  obtain produced manifests where s:
    "admit_plan rt plan (rn_name runner) (rn_class runner) = None"
    "build_artifact_manifests rt (mc_disk (so_machine so)) ?rid (pl_base_model plan) produced = Some manifests"
    "gate_variants plan (gate_for rt (so_machine so) runner ?rid (lg_events (at_log a)) produced manifests) GATE_ORDER (\<lambda>_. None) = Inr evidence"
    "at_artifacts a = manifests" "at_stored a = (if ob_record_dir ?ob then manifests else [])"
    using attempt_succeeded_facts [OF a_def e] by blast
  have ev: "mf_evidence (xr_manifest r) = evidence" using final(3) b e by (simp add: built_def build_run_manifest_def)
  have stream: "optimizer_events (xr_events r) = optimizer_events (lg_events (at_log a))" "step_metrics (xr_events r) = step_metrics (lg_events (at_log a))"
    unfolding parts(2) by (rule terminal_keeps_evidence)+
  have holds: "case pl_execution plan v of None \<Rightarrow> mf_evidence (xr_manifest r) v = None
      | Some cfg \<Rightarrow> v \<noteq> V_rollout \<and> ec_configuration_hash cfg = canonical_sha256 rt (ec_payload cfg)
          \<and> (case mf_evidence (xr_manifest r) v of None \<Rightarrow> False
             | Some e \<Rightarrow> evidence_holds rt (so_machine so) ?rid (xr_events r) (xr_artifacts r) v cfg e)" for v
  proof (cases "pl_execution plan v")
    case None
    with gate_variants_Inr [OF s(3) gate_order(2), of v] show ?thesis by (simp add: ev)
  next
    case (Some cfg)
    with gate_variants_Inr [OF s(3) gate_order(2), of v cfg] gate_order(1) obtain g where
      g: "gate_for rt (so_machine so) runner ?rid (lg_events (at_log a)) produced manifests v cfg = Inr g" "evidence v = Some g" by blast
    from gate_holds [OF g(1) s(2)] have "evidence_holds rt (so_machine so) ?rid (xr_events r) (xr_artifacts r) v cfg g"
      unfolding evidence_holds_events [OF stream] parts(4) s(4) .
    with admitted(5) [OF s(1) Some] Some g(2) show ?thesis by (simp add: ev verify_configuration_hash_def)
  qed
  have durable: "if ob_record_dir ?ob then xr_durable_artifacts r = xr_artifacts r \<and> (\<exists>n. xr_durable_manifest r = Some ((xr_manifest r)\<lparr>mf_notes := n\<rparr>))
      else xr_durable_manifest r = None"
    using b final(4) s(4,5) parts(1) by (auto simp: parts(4,5) md note_isolated_def Let_def split: if_splits)
  show ?thesis
    using admitted(1,2) [OF s(1)] lane_sealed [OF admitted(2,3,4) [OF s(1)]] holds durable by (simp add: verify_run_plan_hash_def list_all_iff)
qed

text \<open>C11: Every run ends in a valid manifest. Whatever the plan is, however the runner ends and
  whichever writes and observers fail, the manifest the supervisor constructs and the one it
  returns satisfy the contract's validators: one evidence family at most, evidence and a proven
  native fit only on a succeeded run, and never a proven fit without evidence. The only exception
  that leaves the function is one of the opening of the record, before the plan is looked at. Only
  a fit the runner itself reports as proven is excluded, which the first-party runners never do.\<close>

theorem every_run_ends_in_a_valid_manifest:
  assumes "\<not> proven_native (rn_final_fit runner)"
  shows "(case execute_run rt so plan runner run_id resume of
        Inl exc \<Rightarrow> ob_record_dir (so_observers so) \<and> so_open_fault so = Some exc
      | Inr r \<Rightarrow> run_manifest_ok (xr_manifest r))
    \<and> run_manifest_ok (build_run_manifest plan runner (sanitize_id run_id) lineage
         (attempt_run rt (so_machine so) (so_artifact_write so) (so_observers so) plan runner (sanitize_id run_id)))"
proof -
  have built: "run_manifest_ok (build_run_manifest plan runner (sanitize_id run_id) lineage
      (attempt_run rt (so_machine so) (so_artifact_write so) (so_observers so) plan runner (sanitize_id run_id)))" for lineage
    by (rule built_manifest_ok [OF refl sanitize_id_ok assms])
  have "run_manifest_ok (xr_manifest (conduct_run rt so plan runner run_id resume))"
    using built [of "resume_lineage_of rt (so_parse so) resume"] by (auto simp: conduct_run_def Let_def ok_noted persisted_ok)
  with built show ?thesis by (cases "ob_record_dir (so_observers so)"; cases "so_open_fault so") (simp_all add: execute_run_def)
qed

text \<open>The event stream is complete. The events of a run are numbered from zero without gap and
  carry its identity; what precedes the last is what the runner emitted, or nothing if it never
  ran; the last is the terminal event with the state of the manifest; and the durable log holds
  exactly the events whose write did not fail.\<close>

theorem event_stream_is_complete:
  "let r = conduct_run rt so plan runner run_id resume in
    map re_seq (xr_events r) = [0..<length (xr_events r)]
    \<and> (\<exists>es t. xr_events r = es @ [t] \<and> cl_type t = Terminal_event \<and> cl_state t = Some (mf_state (xr_manifest r))
         \<and> map cl_type es \<in> {[], map cl_type (rn_calls runner)})
    \<and> list_all (\<lambda>e. re_run_id e = mf_run_id (xr_manifest r)) (xr_events r)
    \<and> lg_durable (xr_log r) = filter (\<lambda>e. ob_record_dir (so_observers so) \<and> ob_log_fault (so_observers so) e = None) (xr_events r)"
proof -
  let ?rid = "sanitize_id run_id" and ?ob = "so_observers so"
  define r where "r = conduct_run rt so plan runner run_id resume"
  define a where "a = attempt_run rt (so_machine so) (so_artifact_write so) ?ob plan runner ?rid"
  define built where "built = build_run_manifest plan runner ?rid (resume_lineage_of rt (so_parse so) resume) a"
  define persisted where "persisted = (if ob_record_dir ?ob then persist_manifest (so_manifest_write so) (attempt_peak runner a) built else (built, None))"
  note parts = conduct_run_parts [of rt so plan runner run_id resume, folded a_def, folded built_def, folded persisted_def, folded r_def]
  obtain m d where md: "persisted = (m, d)" by force
  note final = noted_frame [OF parts(1) [symmetric, unfolded md]]
  have "mf_run_id m = ?rid" using md by (auto simp: persisted_def persisted_frame(1) built_def build_run_manifest_def
      split: if_splits dest: arg_cong [of _ _ "\<lambda>x. mf_run_id (fst x)"])
  with final have m: "mf_run_id (xr_manifest r) = ?rid" "mf_state (xr_manifest r) = mf_state m" by simp_all
  have log: "stream_ok ?ob ?rid (at_log a)" and types: "map cl_type (lg_events (at_log a)) \<in> {[], map cl_type (rn_calls runner)}"
    using attempt_log [of rt "so_machine so" "so_artifact_write so" ?ob plan runner ?rid] fold_emit_types [of ?ob ?rid "rn_calls runner" empty_log]
    by (auto simp: a_def [symmetric] stream_ok_fold stream_ok_empty no_events)
  from stream_ok_emit [OF log] have ok: "stream_ok ?ob ?rid (xr_log r)" by (simp add: parts(3) emit_terminal_def)
  have ev: "xr_events r = lg_events (xr_log r)" by (simp add: parts(2,3))
  from ok have "map re_seq (xr_events r) = [0..<lg_seq (xr_log r)]" by (simp add: stream_ok_def ev)
  moreover from this have "lg_seq (xr_log r) = length (xr_events r)" by (metis length_map diff_zero length_upt)
  moreover obtain t where "xr_events r = lg_events (at_log a) @ [t]" "cl_type t = Terminal_event" "cl_state t = Some (mf_state m)"
    using emit_log(2) [of ?ob ?rid "\<lparr>cl_type = Terminal_event, cl_stage = None, cl_step = None, cl_metrics = None, cl_state = Some (mf_state m)\<rparr>" "at_log a"]
    by (auto simp: parts(2) emit_terminal_def md)
  ultimately show ?thesis using ok types unfolding r_def [symmetric] Let_def by (auto simp: stream_ok_def ev [symmetric] m)
qed

text \<open>A pretraining run whose model is on disk as proposed, with an observer that fails.\<close>

definition sample_config :: execution_config where
  "sample_config = \<lparr>ec_payload = JObj [(''lr'', JInt 1)], ec_configuration_hash = canonical_sha256 sample_rt (JObj [(''lr'', JInt 1)]),
     ec_runtime_mode = ''cuda'', ec_objective_id = ''pretraining'', ec_output_dir = ''/out'', ec_max_steps = Some 2\<rparr>"

definition sample_plan :: sealed_plan where
  "sample_plan = \<lparr>pl_plan_id = ''p1'', pl_plan_hash = canonical_sha256 sample_rt (JObj [(''plan'', JStr ''p1'')]),
     pl_payload = JObj [(''plan'', JStr ''p1'')], pl_execution = (\<lambda>v. if v = V_pretraining then Some sample_config else None),
     pl_backend_id = ''corpus_studio'',
     pl_backend_hash = Some \<lparr>hr_algo = ''sha256'', hr_value = Some (sample_hash [])\<rparr>, pl_environment = \<lparr>rf_id = ''e1'', rf_hash = None\<rparr>,
     pl_dataset = \<lparr>rf_id = ''d1'', rf_hash = None\<rparr>, pl_allocator = Alloc_default, pl_task = Pretraining_task, pl_base_model = ''gpt2'', pl_output_dir = ''/out''\<rparr>"

definition sample_machine :: machine where
  "sample_machine = \<lparr>mc_disk = (\<lambda>_. Dir_node [\<lparr>df_rel = ''config.json'', df_bytes = ''{}'', df_mtime_ns = 1\<rparr>,
       \<lparr>df_rel = ''model.safetensors'', df_bytes = ''weights'', df_mtime_ns = 2\<rparr>]),
     mc_absolute = (\<lambda>p. p), mc_output_ok = (\<lambda>_. True), mc_unlinked = (\<lambda>_. True), mc_header_loads = (\<lambda>_. Not_json), mc_sealed_adapter = (\<lambda>_ _ _. None),
     mc_reload_model = (\<lambda>_. Some ''after''), mc_reload_adapter = (\<lambda>_. None)\<rparr>"

definition sample_runner :: runner where
  "sample_runner = \<lparr>rn_name = ''pretraining'', rn_class = Pretraining_runner,
     rn_calls = [\<lparr>cl_type = Stage_event, cl_stage = Some Process_start, cl_step = None, cl_metrics = None, cl_state = None\<rparr>,
       \<lparr>cl_type = Metric_event, cl_stage = None, cl_step = Some 1, cl_metrics = Some (Some 3), cl_state = None\<rparr>],
     rn_outcome = Returned [\<lparr>pa_artifact_id = ''m1'', pa_kind = ''model'', pa_path = ''/out/m'', pa_reload_verified = True\<rparr>],
     rn_checkpoints = [], rn_final_fit = None, rn_measured_peak = Some (sample_of 8 0), rn_training = None,
     rn_proposed = (\<lambda>_. Some \<lparr>px_completed_steps = 2, px_after_sha256 = ''after'', px_tensor_names = [''w''], px_weights_sha256 = sample_hash ''weights'',
       px_config_sha256 = sample_hash ''{}'', px_measured_peak = None\<rparr>)\<rparr>"

definition sample_surroundings :: surroundings_of_run where
  "sample_surroundings = \<lparr>so_machine = sample_machine,
     so_observers = \<lparr>ob_record_dir = True, ob_log_fault = (\<lambda>_. None), ob_sink = True, ob_sink_fault = (\<lambda>_. Some ''OSError''),
       ob_telemetry = True, ob_warmup_steps = 2\<rparr>,
     so_artifact_write = (\<lambda>_. True), so_manifest_write = (\<lambda>_. None), so_open_fault = None, so_parse = (\<lambda>_. None)\<rparr>"

lemma sample_run_succeeds:
  "mf_state (xr_manifest (conduct_run sample_rt sample_surroundings sample_plan sample_runner ''r1'' None)) = Succeeded"
  by code_simp

definition sample_supervised :: supervised_run where
  "sample_supervised = conduct_run sample_rt sample_surroundings sample_plan sample_runner ''r1'' None"

lemma sample_executed: "execute_run sample_rt sample_surroundings sample_plan sample_runner ''r1'' None = Inr sample_supervised"
  by (simp add: execute_run_def sample_supervised_def sample_surroundings_def)

theorem success_is_earned_witness:
  "\<exists>e. mf_evidence (xr_manifest sample_supervised) V_pretraining = Some e
     \<and> evidence_holds sample_rt sample_machine ''r1'' (xr_events sample_supervised) (xr_artifacts sample_supervised) V_pretraining sample_config e
     \<and> xr_durable_artifacts sample_supervised = xr_artifacts sample_supervised"
proof -
  note earned = success_is_earned [OF sample_executed sample_run_succeeds [folded sample_supervised_def]]
  then have "case pl_execution sample_plan V_pretraining of
        None \<Rightarrow> mf_evidence (xr_manifest sample_supervised) V_pretraining = None
      | Some cfg \<Rightarrow> V_pretraining \<noteq> V_rollout \<and> ec_configuration_hash cfg = canonical_sha256 sample_rt (ec_payload cfg)
          \<and> (case mf_evidence (xr_manifest sample_supervised) V_pretraining of None \<Rightarrow> False
             | Some e \<Rightarrow> evidence_holds sample_rt (so_machine sample_surroundings) (sanitize_id ''r1'') (xr_events sample_supervised)
                 (xr_artifacts sample_supervised) V_pretraining cfg e)"
    unfolding list_all_iff using all_variants by blast
  moreover have "pl_execution sample_plan V_pretraining = Some sample_config" by (simp add: sample_plan_def)
  moreover have "ob_record_dir (so_observers sample_surroundings)" "so_machine sample_surroundings = sample_machine"
    by (simp_all add: sample_surroundings_def)
  moreover have "sanitize_id ''r1'' = ''r1''" by code_simp
  ultimately show ?thesis using earned by (auto split: option.splits)
qed

theorem every_run_ends_in_a_valid_manifest_witness:
  "run_manifest_ok (xr_manifest sample_supervised)"
proof -
  have "\<not> proven_native (rn_final_fit sample_runner)" by (simp add: sample_runner_def proven_native_def)
  from every_run_ends_in_a_valid_manifest [OF this, where rt = sample_rt and so = sample_surroundings and plan = sample_plan
      and run_id = "''r1''" and resume = None]
  show ?thesis by (simp add: sample_executed)
qed

end
