(* ===== verification/Corpus_Packing.thy ===== *)
theory Corpus_Packing
  imports Py_Float
begin

text \<open>
  Sequence packing for pretraining (\<open>training/corpus_packing.py\<close>): token streams cut into blocks of
  one length, chunk by chunk with a carried remainder, and the accounting of every token.
\<close>

record packing_coverage =
  cv_total_tokens :: int
  cv_packed_tokens :: int
  cv_dropped_tokens :: int
  cv_padded_tokens :: int
  cv_num_blocks :: int
  cv_num_documents :: int

definition coverage_ratio :: "packing_coverage \<Rightarrow> rat" where
  "coverage_ratio c = (if cv_total_tokens c \<noteq> 0 then int_div_int (cv_packed_tokens c) (cv_total_tokens c) else 0)"

record packed_chunk =
  ck_blocks :: "int list list"
  ck_remainder :: "int list"
  ck_sequence_len :: int
  ck_tokens_consumed :: int
  ck_num_documents :: int

record finalized_remainder =
  fz_blocks :: "int list list"
  fz_dropped_tokens :: int
  fz_padded_tokens :: int

record packed_corpus =
  pk_blocks :: "int list list"
  pk_sequence_len :: int
  pk_coverage :: packing_coverage

datatype packing_error = Sequence_len_not_positive | Eos_negative | Remainder_not_packed

definition validate_packing :: "int \<Rightarrow> int \<Rightarrow> packing_error option" where
  "validate_packing sequence_len eos_id =
     (if sequence_len < 1 then Some Sequence_len_not_positive
      else if eos_id < 0 then Some Eos_negative else None)"

definition add_document :: "int \<Rightarrow> int list \<Rightarrow> int list \<times> int \<times> int \<Rightarrow> int list \<times> int \<times> int" where
  "add_document eos_id document acc = (case acc of (stream, consumed, documents) \<Rightarrow>
     if document = [] then acc
     else (stream @ document @ [eos_id], consumed + (int (length document) + 1), documents + 1))"

definition pack_chunk :: "int list list \<Rightarrow> int \<Rightarrow> int \<Rightarrow> int list \<Rightarrow> packing_error + packed_chunk" where
  "pack_chunk documents sequence_len eos_id carry_in = (case validate_packing sequence_len eos_id of
      Some e \<Rightarrow> Inl e
    | None \<Rightarrow>
        (case fold (add_document eos_id) documents (carry_in, 0, 0) of (stream, consumed, count) \<Rightarrow>
          let n = nat sequence_len; full_blocks = length stream div n
          in Inr \<lparr>ck_blocks = map (\<lambda>i. take n (drop (i * n) stream)) [0..<full_blocks],
               ck_remainder = drop (full_blocks * n) stream, ck_sequence_len = sequence_len,
               ck_tokens_consumed = consumed, ck_num_documents = count\<rparr>))"

definition finalize_remainder :: "int list \<Rightarrow> int \<Rightarrow> int \<Rightarrow> bool \<Rightarrow> packing_error + finalized_remainder" where
  "finalize_remainder remainder sequence_len eos_id pad = (case validate_packing sequence_len eos_id of
      Some e \<Rightarrow> Inl e
    | None \<Rightarrow>
        if remainder = [] then Inr \<lparr>fz_blocks = [], fz_dropped_tokens = 0, fz_padded_tokens = 0\<rparr>
        else if sequence_len \<le> int (length remainder) then Inl Remainder_not_packed
        else if \<not> pad then Inr \<lparr>fz_blocks = [], fz_dropped_tokens = int (length remainder), fz_padded_tokens = 0\<rparr>
        else let padded = sequence_len - int (length remainder) in
          Inr \<lparr>fz_blocks = [remainder @ replicate (nat padded) eos_id], fz_dropped_tokens = 0, fz_padded_tokens = padded\<rparr>)"

definition pack_documents :: "int list list \<Rightarrow> int \<Rightarrow> int \<Rightarrow> bool \<Rightarrow> packing_error + packed_corpus" where
  "pack_documents documents sequence_len eos_id drop_remainder =
     (case pack_chunk documents sequence_len eos_id [] of
        Inl e \<Rightarrow> Inl e
      | Inr chunk \<Rightarrow>
          (case finalize_remainder (ck_remainder chunk) sequence_len eos_id (\<not> drop_remainder) of
             Inl e \<Rightarrow> Inl e
           | Inr tail \<Rightarrow>
               let blocks = ck_blocks chunk @ fz_blocks tail in
               Inr \<lparr>pk_blocks = blocks, pk_sequence_len = sequence_len,
                 pk_coverage = \<lparr>cv_total_tokens = ck_tokens_consumed chunk,
                   cv_packed_tokens = ck_tokens_consumed chunk - fz_dropped_tokens tail,
                   cv_dropped_tokens = fz_dropped_tokens tail, cv_padded_tokens = fz_padded_tokens tail,
                   cv_num_blocks = int (length blocks), cv_num_documents = ck_num_documents chunk\<rparr>\<rparr>))"

text \<open>A loader that threads the remainder from chunk to chunk.\<close>

fun pack_chunks :: "int list list list \<Rightarrow> int \<Rightarrow> int \<Rightarrow> int list \<Rightarrow> packing_error + int list list \<times> int list" where
  "pack_chunks [] sequence_len eos_id carry = Inr ([], carry)"
| "pack_chunks (c # cs) sequence_len eos_id carry = (case pack_chunk c sequence_len eos_id carry of
      Inl e \<Rightarrow> Inl e
    | Inr chunk \<Rightarrow> (case pack_chunks cs sequence_len eos_id (ck_remainder chunk) of
          Inl e \<Rightarrow> Inl e
        | Inr (blocks, rest) \<Rightarrow> Inr (ck_blocks chunk @ blocks, rest)))"


section \<open>The stream and its blocks\<close>

text \<open>The stream the documents stand for.\<close>

definition token_stream :: "int \<Rightarrow> int list list \<Rightarrow> int list" where
  "token_stream eos_id documents = concat (map (\<lambda>d. d @ [eos_id]) (filter (\<lambda>d. d \<noteq> []) documents))"

lemma token_stream_append: "token_stream e (ds @ ds') = token_stream e ds @ token_stream e ds'"
  by (simp add: token_stream_def)

lemma fold_documents:
  "fold (add_document e) ds (s, k, n) = (s @ token_stream e ds, k + int (length (token_stream e ds)),
     n + int (length (filter (\<lambda>d. d \<noteq> []) ds)))"
  by (induction ds arbitrary: s k n) (simp_all add: add_document_def token_stream_def)

text \<open>Cutting a list into blocks of \<open>n\<close>, as the chunks are cut.\<close>

definition cut :: "nat \<Rightarrow> int list \<Rightarrow> int list list" where
  "cut n s = map (\<lambda>i. take n (drop (i * n) s)) [0..<length s div n]"

definition cut_rest :: "nat \<Rightarrow> int list \<Rightarrow> int list" where
  "cut_rest n s = drop (length s div n * n) s"

lemma pack_chunk_eq:
  assumes "validate_packing l e = None"
  shows "pack_chunk ds l e carry = Inr \<lparr>ck_blocks = cut (nat l) (carry @ token_stream e ds),
     ck_remainder = cut_rest (nat l) (carry @ token_stream e ds), ck_sequence_len = l,
     ck_tokens_consumed = int (length (token_stream e ds)), ck_num_documents = int (length (filter (\<lambda>d. d \<noteq> []) ds))\<rparr>"
  by (simp add: pack_chunk_def assms fold_documents cut_def cut_rest_def Let_def)

lemma length_cut_rest: "0 < n \<Longrightarrow> length (cut_rest n s) < n"
proof -
  assume "0 < n"
  have "length (cut_rest n s) = length s mod n" by (simp add: cut_rest_def minus_div_mult_eq_mod)
  with \<open>0 < n\<close> show ?thesis by simp
qed

lemma cut_blocks: "b \<in> set (cut n s) \<Longrightarrow> length b = n"
proof -
  assume "b \<in> set (cut n s)"
  then obtain i where i: "b = take n (drop (i * n) s)" "Suc i \<le> length s div n" by (auto simp: cut_def)
  from mult_le_mono1 [OF i(2), of n] have "Suc i * n \<le> length s" using div_times_less_eq_dividend le_trans by blast
  then show ?thesis by (simp add: i(1))
qed

text \<open>Blocks can be cut from the front.\<close>

lemma cut_short: "length s < n \<Longrightarrow> cut n s = [] \<and> cut_rest n s = s"
  by (simp add: cut_def cut_rest_def)

lemma cut_front: "length b = n \<Longrightarrow> 0 < n \<Longrightarrow> cut n (b @ s) = b # cut n s \<and> cut_rest n (b @ s) = cut_rest n s"
proof -
  assume b: "length b = n" "0 < n"
  then have d: "length (b @ s) div n = Suc (length s div n)" by simp
  have "map (\<lambda>i. take n (drop (i * n) (b @ s))) [0..<Suc k] = b # map (\<lambda>i. take n (drop (i * n) s)) [0..<k]" for k
    using b by (simp add: upt_conv_Cons map_Suc_upt [symmetric] comp_def del: upt_Suc)
  with b d show ?thesis unfolding cut_def cut_rest_def d by simp
qed

lemma cut_blocks_front: "list_all (\<lambda>b. length b = n) bs \<Longrightarrow> 0 < n \<Longrightarrow>
    cut n (concat bs @ s) = bs @ cut n s \<and> cut_rest n (concat bs @ s) = cut_rest n s"
  by (induction bs) (simp_all add: cut_front)

lemma cut_concat: "0 < n \<Longrightarrow> concat (cut n s) @ cut_rest n s = s"
proof (induction s rule: length_induct)
  case (1 s)
  show ?case
  proof (cases "length s < n")
    case False
    let ?b = "take n s" and ?t = "drop n s"
    from False 1(2) have "length ?t < length s" "length ?b = n" by auto
    with 1 cut_front [of ?b n ?t] show ?thesis by simp
  qed (simp add: cut_short)
qed

lemma cut_append:
  assumes "0 < n"
  shows "cut n (s @ t) = cut n s @ cut n (cut_rest n s @ t) \<and> cut_rest n (s @ t) = cut_rest n (cut_rest n s @ t)"
proof -
  have "list_all (\<lambda>b. length b = n) (cut n s)" by (simp add: list_all_iff cut_blocks)
  from cut_blocks_front [OF this assms, of "cut_rest n s @ t"] cut_concat [OF assms, of s]
  show ?thesis by (metis append.assoc)
qed


section \<open>Properties\<close>

text \<open>C36: Streaming changes nothing. Packing a corpus shard by shard, with the remainder of each
  shard carried into the next, gives the blocks and the remainder of packing all its documents
  at once, however the corpus is divided.\<close>

theorem streaming_equals_whole:
  assumes "validate_packing sequence_len eos_id = None"
  shows "\<exists>whole. pack_chunk (concat shards) sequence_len eos_id carry = Inr whole
    \<and> pack_chunks shards sequence_len eos_id carry = Inr (if shards = [] then ([], carry) else (ck_blocks whole, ck_remainder whole))"
proof -
  have n: "0 < nat sequence_len" using assms by (simp add: validate_packing_def split: if_splits)
  have "shards \<noteq> [] \<Longrightarrow> pack_chunks shards sequence_len eos_id carry
      = Inr (cut (nat sequence_len) (carry @ token_stream eos_id (concat shards)),
          cut_rest (nat sequence_len) (carry @ token_stream eos_id (concat shards)))" for carry
  proof (induction shards arbitrary: carry)
    case (Cons s ss)
    have "carry @ token_stream eos_id (concat (s # ss)) = (carry @ token_stream eos_id s) @ token_stream eos_id (concat ss)"
      by (simp add: token_stream_append)
    from cut_append [OF n, of "carry @ token_stream eos_id s" "token_stream eos_id (concat ss)", folded this] Cons
    show ?case by (cases ss) (simp_all add: pack_chunk_eq [OF assms] token_stream_def)
  qed simp
  then show ?thesis by (simp add: pack_chunk_eq [OF assms])
qed

theorem streaming_equals_whole_witness:
  "pack_chunks [[[1, 2], []], [[3, 4, 5]], []] 3 0 [] = Inr ([[1, 2, 0], [3, 4, 5]], [0])"
proof -
  have "validate_packing 3 0 = None" by (simp add: validate_packing_def)
  from streaming_equals_whole [OF this, of "[[[1, 2], []], [[3, 4, 5]], []]" "[]"] obtain whole where
    "pack_chunk [[1, 2], [], [3, 4, 5]] 3 0 [] = Inr whole"
    "pack_chunks [[[1, 2], []], [[3, 4, 5]], []] 3 0 [] = Inr (ck_blocks whole, ck_remainder whole)" by auto
  moreover have "pack_chunk [[1, 2], [], [3, 4, 5]] 3 0 [] = Inr \<lparr>ck_blocks = [[1, 2, 0], [3, 4, 5]], ck_remainder = [0],
      ck_sequence_len = 3, ck_tokens_consumed = 7, ck_num_documents = 2\<rparr>" by code_simp
  ultimately show ?thesis by (auto simp del: pack_chunks.simps)
qed

text \<open>C37: Every token is accounted for. A packed corpus has blocks of exactly the sequence length;
  read one after the other they are the document stream, cut by exactly the dropped tokens at
  its end or followed by exactly the padded ones; fewer tokens than one block are dropped, only
  when asked to, and the coverage adds up.\<close>

theorem packing_accounts_for_every_token:
  assumes "pack_documents documents sequence_len eos_id drop_remainder = Inr packed"
  shows "let c = pk_coverage packed; stream = token_stream eos_id documents in
    list_all (\<lambda>b. int (length b) = sequence_len) (pk_blocks packed)
    \<and> concat (pk_blocks packed) = take (nat (cv_packed_tokens c)) stream @ replicate (nat (cv_padded_tokens c)) eos_id
    \<and> cv_total_tokens c = int (length stream) \<and> cv_total_tokens c = cv_packed_tokens c + cv_dropped_tokens c
    \<and> 0 \<le> cv_dropped_tokens c \<and> cv_dropped_tokens c < sequence_len
    \<and> (if drop_remainder then cv_padded_tokens c = 0 else cv_dropped_tokens c = 0)
    \<and> cv_num_blocks c * sequence_len = cv_packed_tokens c + cv_padded_tokens c"
proof -
  have ok: "validate_packing sequence_len eos_id = None"
    using assms by (auto simp: pack_documents_def pack_chunk_def split: option.splits)
  then have pos: "1 \<le> sequence_len" by (auto simp: validate_packing_def split: if_splits)
  define n where "n = nat sequence_len"
  with pos have n: "0 < n" "sequence_len = int n" by simp_all
  let ?s = "token_stream eos_id documents"
  define bs where "bs = cut n ?s"
  define rest where "rest = cut_rest n ?s"
  have s: "?s = concat bs @ rest" and r: "length rest < n" and b: "\<forall>b \<in> set bs. length b = n"
    unfolding bs_def rest_def by (rule cut_concat [OF n(1), symmetric], rule length_cut_rest [OF n(1)], simp add: cut_blocks)
  have lb: "length (concat bs) = n * length bs" using b by (induction bs) simp_all
  have nat_len: "nat (int a + int n * int k) = a + n * k" "nat (int n * int k) = n * k" for a k
    by (simp_all flip: of_nat_mult of_nat_add)
  have "\<not> int n \<le> int (length rest)" using r by linarith
  with assms have packed: "packed = (let c = (\<lambda>extra dropped padded. \<lparr>pk_blocks = bs @ extra, pk_sequence_len = int n,
      pk_coverage = \<lparr>cv_total_tokens = int (length ?s), cv_packed_tokens = int (length ?s) - dropped, cv_dropped_tokens = dropped,
        cv_padded_tokens = padded, cv_num_blocks = int (length (bs @ extra)),
        cv_num_documents = int (length (filter (\<lambda>d. d \<noteq> []) documents))\<rparr>\<rparr>) in
      if rest = [] then c [] 0 0 else if drop_remainder then c [] (int (length rest)) 0
      else c [rest @ replicate (nat (int n - int (length rest))) eos_id] 0 (int n - int (length rest)))"
    using pack_chunk_eq [OF ok, unfolded n(2)] ok [unfolded n(2)] unfolding n(2)
    by (auto simp: pack_documents_def finalize_remainder_def Let_def bs_def [symmetric] rest_def [symmetric] split: if_splits)
  have pad: "nat (int n - int (length rest)) = n - length rest" by simp
  show ?thesis
    unfolding packed s n(2) using r b lb by (auto simp: Let_def list_all_iff pad nat_len algebra_simps)
qed

theorem packing_accounts_for_every_token_witness:
  "\<exists>packed. pack_documents [[1, 2], [], [3, 4, 5]] 4 0 False = Inr packed
     \<and> concat (pk_blocks packed) = [1, 2, 0, 3, 4, 5, 0] @ replicate (nat (cv_padded_tokens (pk_coverage packed))) 0"
proof -
  define packed where "packed = \<lparr>pk_blocks = [[1, 2, 0, 3], [4, 5, 0, 0]], pk_sequence_len = 4, pk_coverage =
    \<lparr>cv_total_tokens = 7, cv_packed_tokens = 7, cv_dropped_tokens = 0, cv_padded_tokens = 1, cv_num_blocks = 2, cv_num_documents = 2\<rparr>\<rparr>"
  have eq: "pack_documents [[1, 2], [], [3, 4, 5]] 4 0 False = Inr packed" unfolding packed_def by code_simp
  have "token_stream 0 [[1, 2], [], [3, 4, 5]] = [1, 2, 0, 3, 4, 5, 0]" by (simp add: token_stream_def)
  with packing_accounts_for_every_token [OF eq] have "concat (pk_blocks packed)
      = [1, 2, 0, 3, 4, 5, 0] @ replicate (nat (cv_padded_tokens (pk_coverage packed))) 0"
    by (simp add: Let_def packed_def)
  with eq show ?thesis by blast
qed

end
