(* ===== verification/Chat_Chunker.thy ===== *)
theory Chat_Chunker
  imports Json_Value
begin

text \<open>
  The structure-aware chunker of over-length chat records (\<open>splitters/structure_aware_chunker.py\<close>):
  a record is split at turn boundaries into rows that fit, or refused. The token counter is
  injected; \<open>str\<close> of a content that is not a string is a parameter.
\<close>

type_synonym message = "(string, json) dict"

record chunk_provenance =
  cp_source_row_index :: nat
  cp_chunk_index :: nat
  cp_strategy :: string
  cp_body_start :: nat
  cp_body_end :: nat
  cp_duplicated_prompt_context :: bool

record chunked_row =
  cr_messages :: "message list"
  cr_provenance :: chunk_provenance

text \<open>The two refusals, and the error for a length below one.\<close>

datatype chunking_error = Seq_len_below_one | Preamble_too_long nat | Turn_too_long nat nat nat

record counter =
  ct_token_len :: "string \<Rightarrow> int"
  ct_str :: "json \<Rightarrow> string"

definition message_content :: "counter \<Rightarrow> message \<Rightarrow> string" where
  "message_content ct m = (case dget m ''content'' of None \<Rightarrow> [] | Some (JStr s) \<Rightarrow> s | Some v \<Rightarrow> ct_str ct v)"

definition message_tokens :: "counter \<Rightarrow> message \<Rightarrow> int" where
  "message_tokens ct m = ct_token_len ct (message_content ct m)"

definition has_role :: "string \<Rightarrow> message \<Rightarrow> bool" where
  "has_role r m \<longleftrightarrow> dget m ''role'' = Some (JStr r)"

text \<open>Where the exchange beginning before \<open>j\<close> ends: just before the next user turn.\<close>

function exchange_end :: "message list \<Rightarrow> nat \<Rightarrow> nat" where
  "exchange_end body j = (if j < length body \<and> \<not> has_role ''user'' (body ! j) then exchange_end body (Suc j) else j)"
  by pat_completeness auto
termination by (relation "measure (\<lambda>(body, j). length body - j)") auto

declare exchange_end.simps [simp del]

lemma exchange_end_ge: "j \<le> exchange_end body j"
proof (induction body j rule: exchange_end.induct)
  case (1 body j)
  then show ?case by (subst exchange_end.simps) (auto dest: Suc_leD)
qed

lemma exchange_end_le: "j \<le> length body \<Longrightarrow> exchange_end body j \<le> length body"
proof (induction body j rule: exchange_end.induct)
  case (1 body j)
  then show ?case by (subst exchange_end.simps) auto
qed

text \<open>The exchanges of the body from \<open>i\<close>.\<close>

function exchanges_from :: "message list \<Rightarrow> nat \<Rightarrow> (nat \<times> nat) list" where
  "exchanges_from body i =
     (if i < length body then (i, exchange_end body (Suc i)) # exchanges_from body (exchange_end body (Suc i)) else [])"
  by pat_completeness auto
termination
proof (relation "measure (\<lambda>(body, i). length body - i)")
  fix body :: "message list" and i
  assume "i < length body"
  with exchange_end_ge [of "Suc i" body] show "((body, exchange_end body (Suc i)), body, i) \<in> measure (\<lambda>(body, i). length body - i)"
    by simp
qed simp

declare exchanges_from.simps [simp del]

definition span_tokens :: "int list \<Rightarrow> nat \<Rightarrow> nat \<Rightarrow> int" where
  "span_tokens lengths s e = sum_list (take (e - s) (drop s lengths))"

text \<open>Greedy packing of whole exchanges: the finished chunks and the current one with its tokens.\<close>

fun pack_exchanges ::
  "int list \<Rightarrow> int \<Rightarrow> int \<Rightarrow> (nat \<times> nat) list \<Rightarrow> (nat \<times> nat) list \<Rightarrow> ((nat \<times> nat) \<times> int) option
     \<Rightarrow> chunking_error + (nat \<times> nat) list" where
  "pack_exchanges lengths preamble seq_len [] chunks cur = Inr (case cur of None \<Rightarrow> chunks | Some (c, _) \<Rightarrow> chunks @ [c])"
| "pack_exchanges lengths preamble seq_len ((s, e) # es) chunks cur =
     (let et = span_tokens lengths s e in
      if seq_len < preamble + et then Inl (Turn_too_long s (e - 1) (nat (preamble + et)))
      else case cur of
        None \<Rightarrow> pack_exchanges lengths preamble seq_len es chunks (Some ((s, e), et))
      | Some (c, tokens) \<Rightarrow>
          if preamble + tokens + et \<le> seq_len
          then pack_exchanges lengths preamble seq_len es chunks (Some ((fst c, e), tokens + et))
          else pack_exchanges lengths preamble seq_len es (chunks @ [c]) (Some ((s, e), et)))"

definition chunk_chat_row :: "counter \<Rightarrow> message list \<Rightarrow> int \<Rightarrow> nat \<Rightarrow> chunking_error + chunked_row list" where
  "chunk_chat_row ct messages seq_len source_row_index =
     (if seq_len < 1 then Inl Seq_len_below_one
      else
        let lengths = map (message_tokens ct) messages;
            preamble = takeWhile (has_role ''system'') messages;
            preamble_end = length preamble;
            preamble_tokens = sum_list (take preamble_end lengths);
            body = drop preamble_end messages; body_lengths = drop preamble_end lengths
        in if sum_list lengths \<le> seq_len
           then Inr [\<lparr>cr_messages = messages, cr_provenance = \<lparr>cp_source_row_index = source_row_index, cp_chunk_index = 0,
             cp_strategy = ''passthrough'', cp_body_start = 0, cp_body_end = length body, cp_duplicated_prompt_context = False\<rparr>\<rparr>]
           else if body = [] then Inl (Preamble_too_long source_row_index)
           else case pack_exchanges body_lengths preamble_tokens seq_len (exchanges_from body 0) [] None of
               Inl e \<Rightarrow> Inl e
             | Inr chunks \<Rightarrow> Inr (map (\<lambda>(k, (s, e)).
                 \<lparr>cr_messages = preamble @ take (e - s) (drop s body),
                  cr_provenance = \<lparr>cp_source_row_index = source_row_index, cp_chunk_index = k, cp_strategy = ''chunk'',
                    cp_body_start = s, cp_body_end = e, cp_duplicated_prompt_context = (0 < k \<and> 0 < preamble_end)\<rparr>\<rparr>)
                 (enumerate 0 chunks)))"

text \<open>A record without a list of messages is refused too. A length below one is an error of the call.\<close>

datatype chunk_refusal = Not_a_chat_row nat | Refused_row nat chunking_error

record chunk_plan =
  ch_rows :: "chunked_row list"
  ch_refusals :: "chunk_refusal list"
  ch_source_row_count :: nat

definition chunk_plan_ok :: "chunk_plan \<Rightarrow> bool" where
  "chunk_plan_ok p \<longleftrightarrow> ch_refusals p = []"

fun chunk_rows :: "counter \<Rightarrow> int \<Rightarrow> nat \<Rightarrow> message list option list \<Rightarrow> chunked_row list \<times> chunk_refusal list" where
  "chunk_rows ct seq_len i [] = ([], [])"
| "chunk_rows ct seq_len i (r # rs) = (case chunk_rows ct seq_len (Suc i) rs of (rows, refusals) \<Rightarrow>
     (case r of
        None \<Rightarrow> (rows, Not_a_chat_row i # refusals)
      | Some messages \<Rightarrow> (case chunk_chat_row ct messages seq_len i of
            Inl e \<Rightarrow> (rows, Refused_row i e # refusals)
          | Inr out \<Rightarrow> (out @ rows, refusals))))"

definition chunk_chat_dataset :: "counter \<Rightarrow> message list option list \<Rightarrow> int \<Rightarrow> chunking_error + chunk_plan" where
  "chunk_chat_dataset ct rows seq_len =
     (if seq_len < 1 \<and> list_ex (\<lambda>r. r \<noteq> None) rows then Inl Seq_len_below_one
      else Inr \<lparr>ch_rows = fst (chunk_rows ct seq_len 0 rows), ch_refusals = snd (chunk_rows ct seq_len 0 rows),
        ch_source_row_count = length rows\<rparr>)"


section \<open>Ranges that tile the body\<close>

text \<open>Consecutive nonempty ranges from \<open>i\<close> to \<open>j\<close>.\<close>

fun tiles :: "nat \<Rightarrow> (nat \<times> nat) list \<Rightarrow> nat \<Rightarrow> bool" where
  "tiles i [] j \<longleftrightarrow> i = j"
| "tiles i ((s, e) # rs) j \<longleftrightarrow> s = i \<and> s < e \<and> tiles e rs j"

lemma tiles_append: "tiles i (rs @ qs) k \<longleftrightarrow> (\<exists>j. tiles i rs j \<and> tiles j qs k)"
  by (induction i rs k rule: tiles.induct) auto

lemma tiles_le: "tiles i rs j \<Longrightarrow> i \<le> j"
  by (induction i rs j rule: tiles.induct) auto

definition slice :: "'a list \<Rightarrow> nat \<times> nat \<Rightarrow> 'a list" where
  "slice xs r = take (snd r - fst r) (drop (fst r) xs)"

lemma slice_split: "i \<le> k \<Longrightarrow> k \<le> j \<Longrightarrow> slice xs (i, k) @ slice xs (k, j) = slice xs (i, j)"
proof -
  assume "i \<le> k" "k \<le> j"
  then have "j - i = (k - i) + (j - k)" "drop k xs = drop (k - i) (drop i xs)" by simp_all
  then show ?thesis unfolding slice_def by (simp add: take_add)
qed

lemma tiles_concat: "tiles i rs j \<Longrightarrow> concat (map (slice xs) rs) = slice xs (i, j)"
proof (induction i rs j rule: tiles.induct)
  case (2 i s e rs j)
  then show ?case using slice_split [of i e j xs] tiles_le by fastforce
qed (simp add: slice_def)

lemma exchanges_tile: "i \<le> length body \<Longrightarrow> tiles i (exchanges_from body i) (length body)"
proof (induction body i rule: exchanges_from.induct)
  case (1 body i)
  have "exchange_end body (Suc i) \<le> length body" "i < exchange_end body (Suc i)" if "i < length body"
    using that exchange_end_le [of "Suc i" body] exchange_end_ge [of "Suc i" body] by simp_all
  with 1 show ?case by (subst exchanges_from.simps) auto
qed

lemma span_slice: "span_tokens lengths s e = sum_list (slice lengths (s, e))"
  by (simp add: span_tokens_def slice_def)

text \<open>The ranges that are unions of consecutive exchanges.\<close>

definition joins :: "(nat \<times> nat) list \<Rightarrow> nat \<times> nat \<Rightarrow> bool" where
  "joins exs r \<longleftrightarrow> (\<exists>pre mid post. exs = pre @ mid @ post \<and> mid \<noteq> [] \<and> tiles (fst r) mid (snd r))"

lemma tiles_unique: "tiles i rs j \<Longrightarrow> tiles i rs j' \<Longrightarrow> j = j'"
  by (induction i rs j rule: tiles.induct) auto

lemma tiles_nonempty: "tiles i rs j \<Longrightarrow> rs \<noteq> [] \<Longrightarrow> i < j"
  by (cases "(i, rs, j)" rule: tiles.cases) (auto dest: tiles_le)

text \<open>The state of the packing: the finished chunks tile what is done, the current chunk the
  exchanges collected for it, and each fits.\<close>

definition packing_state ::
  "int list \<Rightarrow> int \<Rightarrow> int \<Rightarrow> nat \<Rightarrow> (nat \<times> nat) list \<Rightarrow> (nat \<times> nat) list \<Rightarrow> (nat \<times> nat) list \<Rightarrow> ((nat \<times> nat) \<times> int) option \<Rightarrow> bool" where
  "packing_state lengths p n i finished curs chunks cur \<longleftrightarrow>
     (\<exists>k. tiles i finished k \<and> tiles i chunks k
        \<and> (case cur of None \<Rightarrow> curs = []
           | Some (c, t) \<Rightarrow> curs \<noteq> [] \<and> fst c = k \<and> tiles k curs (snd c) \<and> t = span_tokens lengths (fst c) (snd c) \<and> p + t \<le> n))"

definition good_chunk :: "int list \<Rightarrow> int \<Rightarrow> int \<Rightarrow> (nat \<times> nat) list \<Rightarrow> nat \<times> nat \<Rightarrow> bool" where
  "good_chunk lengths p n exs r \<longleftrightarrow> joins exs r \<and> p + span_tokens lengths (fst r) (snd r) \<le> n"

lemma pack_exchanges_Inr:
  assumes "pack_exchanges lengths p n es chunks cur = Inr out" and "exs = finished @ curs @ es" and "tiles i exs j"
    and "packing_state lengths p n i finished curs chunks cur" and "list_all (good_chunk lengths p n exs) chunks"
  shows "tiles i out j \<and> list_all (good_chunk lengths p n exs) out"
  using assms
proof (induction lengths p n es chunks cur arbitrary: finished curs rule: pack_exchanges.induct)
  case (1 lengths p n chunks cur)
  from 1(4) obtain k where k: "tiles i finished k" "tiles i chunks k" by (auto simp: packing_state_def)
  show ?case
  proof (cases cur)
    case None
    with 1 k have "tiles i exs k" by (auto simp: packing_state_def)
    from tiles_unique [OF 1(3) this] 1 None k show ?thesis by simp
  next
    case (Some ct)
    obtain c t where c: "ct = (c, t)" by (cases ct)
    from 1(4) Some c k have cur: "curs \<noteq> []" "fst c = k" "tiles k curs (snd c)" "p + span_tokens lengths (fst c) (snd c) \<le> n"
      by (auto simp: packing_state_def dest: tiles_unique)
    have "tiles i exs (snd c)" using 1(2) k cur by (auto simp: tiles_append)
    from tiles_unique [OF 1(3) this] have "j = snd c" .
    moreover have "joins exs c" unfolding joins_def using 1(2) cur by (metis append_Nil2)
    ultimately show ?thesis using 1(1,5) Some c k cur tiles_nonempty [OF cur(3,1)]
      by (cases c) (auto simp: tiles_append good_chunk_def)
  qed
next
  case (2 lengths p n s e es chunks cur)
  let ?et = "span_tokens lengths s e"
  from 2(4) have fits: "\<not> n < p + ?et" by (simp add: Let_def split: if_splits)
  from 2(7) obtain k where k: "tiles i finished k" "tiles i chunks k" by (auto simp: packing_state_def)
  from 2(6) have here: "tiles i (finished @ curs) s" and "s < e" unfolding 2(5) by (auto simp: tiles_append)
  show ?case
  proof (cases cur)
    case None
    with 2(7) k have "curs = []" "k = s" using here by (auto simp: packing_state_def dest: tiles_unique)
    then have "packing_state lengths p n i finished [(s, e)] chunks (Some ((s, e), ?et))"
      using k \<open>s < e\<close> fits by (auto simp: packing_state_def)
    then show ?thesis using 2(1) [of ?et finished "[(s, e)]"] 2(4-8) None fits \<open>curs = []\<close> by (simp add: Let_def)
  next
    case (Some ct)
    obtain c t where c: "ct = (c, t)" by (cases ct)
    from 2(7) Some c k have cur: "curs \<noteq> []" "fst c = k" "tiles k curs (snd c)" "t = span_tokens lengths (fst c) (snd c)" "p + t \<le> n"
      by (auto simp: packing_state_def dest: tiles_unique)
    have "tiles i (finished @ curs) (snd c)" using k cur by (auto simp: tiles_append)
    from tiles_unique [OF this here] have sc: "snd c = s" .
    have lt: "fst c < s" using tiles_nonempty [OF cur(3,1)] cur(2) sc by simp
    show ?thesis
    proof (cases "p + t + ?et \<le> n")
      case True
      have "t + ?et = span_tokens lengths (fst c) e"
        using arg_cong [OF slice_split [of "fst c" s e lengths], of sum_list] lt \<open>s < e\<close> by (simp add: cur(4) sc span_slice)
      moreover have "tiles k (curs @ [(s, e)]) e" using cur(3) sc \<open>s < e\<close> by (auto simp: tiles_append)
      ultimately have "packing_state lengths p n i finished (curs @ [(s, e)]) chunks (Some ((fst c, e), t + ?et))"
        using k cur True by (auto simp: packing_state_def)
      moreover have "pack_exchanges lengths p n es chunks (Some ((fst c, e), t + ?et)) = Inr out"
        using 2(4) Some c fits True by (simp add: Let_def)
      ultimately show ?thesis using 2(2) [OF refl fits Some c [symmetric] True _ _ 2(6) _ 2(8), of finished "curs @ [(s, e)]"] 2(5) by simp
    next
      case False
      have "tiles i (chunks @ [c]) s" using k cur(2) lt sc by (cases c) (auto simp: tiles_append)
      then have "packing_state lengths p n i (finished @ curs) [(s, e)] (chunks @ [c]) (Some ((s, e), ?et))"
        using here \<open>s < e\<close> fits by (auto simp: packing_state_def)
      moreover have "joins exs c" unfolding joins_def using 2(5) cur by metis
      then have "good_chunk lengths p n exs c" using cur by (simp add: good_chunk_def)
      moreover have "pack_exchanges lengths p n es (chunks @ [c]) (Some ((s, e), ?et)) = Inr out"
        using 2(4) Some c fits False by (simp add: Let_def)
      ultimately show ?thesis using 2(3) [OF refl fits Some c [symmetric] False _ _ 2(6), of "finished @ curs" "[(s, e)]"] 2(5,8) by simp
    qed
  qed
qed

text \<open>Packing refuses exactly when some exchange does not fit by itself.\<close>

lemma pack_exchanges_Inl:
  "(\<exists>err. pack_exchanges lengths p n es chunks cur = Inl err) \<longleftrightarrow> list_ex (\<lambda>r. n < p + span_tokens lengths (fst r) (snd r)) es"
proof (induction lengths p n es chunks cur rule: pack_exchanges.induct)
  case (2 lengths p n s e es chunks cur)
  show ?case
  proof (cases cur)
    case (Some ct)
    obtain c t where "ct = (c, t)" by (cases ct)
    with Some 2(2,3) [OF refl _ Some] show ?thesis by (simp add: Let_def)
  qed (use 2(1) [OF refl] in \<open>simp add: Let_def\<close>)
qed simp

lemma exchange_end_user: "j \<le> length body \<Longrightarrow> exchange_end body j = length body \<or> has_role ''user'' (body ! exchange_end body j)"
proof (induction body j rule: exchange_end.induct)
  case (1 body j)
  show ?case
  proof (cases "j < length body \<and> \<not> has_role ''user'' (body ! j)")
    case True
    with 1 show ?thesis by (simp add: exchange_end.simps [of body j])
  next
    case False
    with 1(2) show ?thesis by (auto simp: exchange_end.simps [of body j])
  qed
qed

lemma exchange_starts: "(s, e) \<in> set (exchanges_from body i) \<Longrightarrow> i \<le> length body \<Longrightarrow> s = i \<or> has_role ''user'' (body ! s)"
proof (induction body i rule: exchanges_from.induct)
  case (1 body i)
  let ?j = "exchange_end body (Suc i)"
  show ?case
  proof (cases "i < length body")
    case True
    with 1(2) consider "s = i" | "(s, e) \<in> set (exchanges_from body ?j)" by (auto simp: exchanges_from.simps [of body i])
    then show ?thesis
    proof cases
      case 2
      then have "?j < length body" by (subst (asm) exchanges_from.simps) (simp split: if_splits)
      with exchange_end_user [of "Suc i" body] True have "has_role ''user'' (body ! ?j)" by auto
      with 1(1) [OF True 2] \<open>?j < length body\<close> show ?thesis by auto
    qed simp
  qed (use 1(2) in \<open>simp add: exchanges_from.simps\<close>)
qed

text \<open>A chunk starts where one of its exchanges starts.\<close>

lemma joins_start: "joins exs r \<Longrightarrow> fst r < snd r \<Longrightarrow> \<exists>e. (fst r, e) \<in> set exs"
proof -
  assume "joins exs r" "fst r < snd r"
  then obtain pre mid post where m: "exs = pre @ mid @ post" "tiles (fst r) mid (snd r)" by (auto simp: joins_def)
  with \<open>fst r < snd r\<close> obtain e mid' where "mid = (fst r, e) # mid'" by (cases mid) auto
  with m show ?thesis by auto
qed

text \<open>The parts of a record.\<close>

definition chat_preamble :: "message list \<Rightarrow> message list" where
  "chat_preamble messages = takeWhile (has_role ''system'') messages"

definition chat_body :: "message list \<Rightarrow> message list" where
  "chat_body messages = dropWhile (has_role ''system'') messages"

lemma chat_parts: "chat_preamble ms @ chat_body ms = ms" "drop (length (chat_preamble ms)) ms = chat_body ms"
  by (simp_all add: chat_preamble_def chat_body_def) (metis dropWhile_eq_drop)

definition tokens_of :: "counter \<Rightarrow> message list \<Rightarrow> int" where
  "tokens_of ct ms = sum_list (map (message_tokens ct) ms)"

lemma tokens_of_append: "tokens_of ct (ms @ ns) = tokens_of ct ms + tokens_of ct ns"
  by (simp add: tokens_of_def)

lemma span_tokens_of: "span_tokens (map (message_tokens ct) body) s e = tokens_of ct (slice body (s, e))"
  by (simp add: span_slice slice_def tokens_of_def take_map drop_map)

definition row_of_range :: "nat \<Rightarrow> message list \<Rightarrow> message list \<Rightarrow> nat \<times> (nat \<times> nat) \<Rightarrow> chunked_row" where
  "row_of_range index pre body kr = \<lparr>cr_messages = pre @ slice body (snd kr),
     cr_provenance = \<lparr>cp_source_row_index = index, cp_chunk_index = fst kr, cp_strategy = ''chunk'',
       cp_body_start = fst (snd kr), cp_body_end = snd (snd kr), cp_duplicated_prompt_context = (0 < fst kr \<and> pre \<noteq> [])\<rparr>\<rparr>"

lemma map_enumerate_snd: "map (\<lambda>x. f (snd x)) (enumerate n xs) = map f xs"
  by (induction xs arbitrary: n) simp_all

lemma enumerate_mem: "(k, r) \<in> set (enumerate n xs) \<Longrightarrow> r \<in> set xs"
  by (induction xs arbitrary: n) auto

lemma chunk_chat_row_eq:
  "chunk_chat_row ct ms n i =
     (if n < 1 then Inl Seq_len_below_one
      else if tokens_of ct ms \<le> n
      then Inr [\<lparr>cr_messages = ms, cr_provenance = \<lparr>cp_source_row_index = i, cp_chunk_index = 0, cp_strategy = ''passthrough'',
        cp_body_start = 0, cp_body_end = length (chat_body ms), cp_duplicated_prompt_context = False\<rparr>\<rparr>]
      else if chat_body ms = [] then Inl (Preamble_too_long i)
      else map_sum id (\<lambda>chunks. map (row_of_range i (chat_preamble ms) (chat_body ms)) (enumerate 0 chunks))
        (pack_exchanges (map (message_tokens ct) (chat_body ms)) (tokens_of ct (chat_preamble ms)) n
          (exchanges_from (chat_body ms) 0) [] None))"
proof -
  have body: "drop (length (chat_preamble ms)) (map (message_tokens ct) ms) = map (message_tokens ct) (chat_body ms)"
    by (simp add: drop_map chat_parts(2))
  have "take (length (chat_preamble ms)) ms = chat_preamble ms" by (metis append_eq_conv_conj chat_parts(1))
  then have pre: "sum_list (take (length (chat_preamble ms)) (map (message_tokens ct) ms)) = tokens_of ct (chat_preamble ms)"
    by (simp add: take_map tokens_of_def)
  show ?thesis
    unfolding chunk_chat_row_def Let_def chat_preamble_def [symmetric] body pre chat_parts(2) tokens_of_def [symmetric]
    by (auto simp: row_of_range_def slice_def case_prod_unfold split: sum.splits)
qed


section \<open>Properties\<close>

text \<open>C38: No turn is lost or severed. The rows a record is chunked into carry its system preamble
  and consecutive parts of its body, which together are the body; each fits the length; and
  each part begins at the start of the body or at a user turn, so no response is cut from its
  prompt.\<close>

theorem chunks_keep_every_turn:
  assumes "chunk_chat_row ct messages seq_len index = Inr rows"
  shows "concat (map (\<lambda>r. slice (chat_body messages) (cp_body_start (cr_provenance r), cp_body_end (cr_provenance r))) rows)
      = chat_body messages
    \<and> list_all (\<lambda>r. let start = cp_body_start (cr_provenance r) in
        cr_messages r = chat_preamble messages @ slice (chat_body messages) (start, cp_body_end (cr_provenance r))
        \<and> tokens_of ct (cr_messages r) \<le> seq_len
        \<and> (start = 0 \<or> has_role ''user'' (chat_body messages ! start))) rows"
proof (cases "tokens_of ct messages \<le> seq_len")
  case True
  with assms have "rows = [\<lparr>cr_messages = messages, cr_provenance = \<lparr>cp_source_row_index = index, cp_chunk_index = 0,
      cp_strategy = ''passthrough'', cp_body_start = 0, cp_body_end = length (chat_body messages), cp_duplicated_prompt_context = False\<rparr>\<rparr>]"
    by (simp add: chunk_chat_row_eq split: if_splits)
  with True chat_parts(1) [of messages] show ?thesis by (simp add: slice_def)
next
  case False
  let ?body = "chat_body messages" and ?pre = "chat_preamble messages"
  let ?ls = "map (message_tokens ct) ?body" and ?p = "tokens_of ct ?pre" and ?exs = "exchanges_from ?body 0"
  from False assms obtain chunks where c: "pack_exchanges ?ls ?p seq_len ?exs [] None = Inr chunks"
    "rows = map (row_of_range index ?pre ?body) (enumerate 0 chunks)"
    by (auto simp: chunk_chat_row_eq map_sum_def split: if_splits sum.splits)
  have "packing_state ?ls ?p seq_len 0 [] [] [] None" by (auto simp: packing_state_def)
  from pack_exchanges_Inr [OF c(1) _ exchanges_tile this] have good: "tiles 0 chunks (length ?body)"
    "list_all (good_chunk ?ls ?p seq_len ?exs) chunks" by simp_all
  have proper: "tiles i chunks j \<Longrightarrow> r \<in> set chunks \<Longrightarrow> fst r < snd r" for i j r
    by (induction i chunks j rule: tiles.induct) auto
  have each: "?p + tokens_of ct (slice ?body r) \<le> seq_len \<and> (fst r = 0 \<or> has_role ''user'' (?body ! fst r))" if "r \<in> set chunks" for r
  proof -
    from good(2) that have "joins ?exs r" and "?p + tokens_of ct (slice ?body r) \<le> seq_len"
      by (auto simp: list_all_iff good_chunk_def span_tokens_of)
    moreover from joins_start [OF this(1) proper [OF good(1) that]] exchange_starts [of "fst r" _ ?body 0]
    have "fst r = 0 \<or> has_role ''user'' (?body ! fst r)" by blast
    ultimately show ?thesis by blast
  qed
  have "concat (map (slice ?body) chunks) = ?body"
    using tiles_concat [OF good(1), of ?body] by (simp add: slice_def)
  moreover have "map (\<lambda>r. slice ?body (cp_body_start (cr_provenance r), cp_body_end (cr_provenance r))) rows = map (slice ?body) chunks"
    by (simp add: c(2) row_of_range_def comp_def map_enumerate_snd)
  moreover have "list_all (\<lambda>r. let start = cp_body_start (cr_provenance r) in
      cr_messages r = ?pre @ slice ?body (start, cp_body_end (cr_provenance r)) \<and> tokens_of ct (cr_messages r) \<le> seq_len
      \<and> (start = 0 \<or> has_role ''user'' (?body ! start))) rows"
    using each by (auto simp: c(2) row_of_range_def list_all_iff Let_def tokens_of_append dest!: enumerate_mem) blast
  ultimately show ?thesis by simp
qed

text \<open>A record is refused only when it must be. Chunking succeeds exactly when the whole record
  fits, or it has a body and each of its exchanges fits together with the preamble.\<close>

theorem chunking_refuses_exactly:
  "(\<exists>rows. chunk_chat_row ct messages seq_len index = Inr rows) \<longleftrightarrow> 1 \<le> seq_len
     \<and> (tokens_of ct messages \<le> seq_len
        \<or> (chat_body messages \<noteq> [] \<and> list_all (\<lambda>r. tokens_of ct (chat_preamble messages @ slice (chat_body messages) r) \<le> seq_len)
             (exchanges_from (chat_body messages) 0)))"
proof -
  have "(\<exists>chunks. pack_exchanges ls p n es [] None = Inr chunks) \<longleftrightarrow> list_all (\<lambda>r. p + span_tokens ls (fst r) (snd r) \<le> n) es"
    for ls p n es
  proof -
    have "(\<exists>chunks. pack_exchanges ls p n es [] None = Inr chunks) \<longleftrightarrow> \<not> (\<exists>err. pack_exchanges ls p n es [] None = Inl err)"
      by (cases "pack_exchanges ls p n es [] None") auto
    also have "\<dots> \<longleftrightarrow> list_all (\<lambda>r. p + span_tokens ls (fst r) (snd r) \<le> n) es"
      unfolding pack_exchanges_Inl by (auto simp: list_ex_iff list_all_iff not_less)
    finally show ?thesis .
  qed
  note packs = this [of "map (message_tokens ct) (chat_body messages)" "tokens_of ct (chat_preamble messages)" seq_len "exchanges_from (chat_body messages) 0"]
  have "(\<exists>x. map_sum id f v = Inr x) \<longleftrightarrow> (\<exists>y. v = Inr y)" for f :: "(nat \<times> nat) list \<Rightarrow> chunked_row list" and v :: "chunking_error + (nat \<times> nat) list"
    by (cases v) auto
  with packs show ?thesis
    by (auto simp: chunk_chat_row_eq tokens_of_append span_tokens_of)
qed

definition sample_counter :: counter where
  "sample_counter = \<lparr>ct_token_len = (\<lambda>s. int (length s)), ct_str = (\<lambda>_. [])\<rparr>"

definition said :: "string \<Rightarrow> string \<Rightarrow> message" where
  "said r c = [(''role'', JStr r), (''content'', JStr c)]"

definition sample_chat :: "message list" where
  "sample_chat = [said ''system'' ''s'', said ''user'' ''ab'', said ''assistant'' ''c'', said ''user'' ''d'', said ''assistant'' ''efg'']"

theorem chunks_keep_every_turn_witness:
  "\<exists>rows. chunk_chat_row sample_counter sample_chat 5 0 = Inr rows \<and> length rows = 2
     \<and> concat (map (\<lambda>r. slice (chat_body sample_chat) (cp_body_start (cr_provenance r), cp_body_end (cr_provenance r))) rows)
       = chat_body sample_chat"
proof -
  have "case chunk_chat_row sample_counter sample_chat 5 0 of Inl _ \<Rightarrow> False | Inr rows \<Rightarrow> length rows = 2" by code_simp
  then obtain rows where "chunk_chat_row sample_counter sample_chat 5 0 = Inr rows" "length rows = 2" by (auto split: sum.splits)
  with chunks_keep_every_turn show ?thesis by blast
qed

end
