(* ===== verification/Retry.thy ===== *)
theory Retry
  imports Py_Float
begin

text \<open>
  Bounded retries of a model call (\<open>model_backends/retry.py\<close>). A call is what its attempts return,
  the clock readings after them, and the random numbers drawn; parsing an HTTP date is a
  parameter that gives the seconds until it.
\<close>

section \<open>Errors and the delay\<close>

text \<open>An HTTP status with its Retry-After header, a connection-level failure, anything else.\<close>

datatype call_error = Http_error int "string option" | Connection_error | Other_error

record retry_policy =
  ry_max_attempts :: int
  ry_base_delay :: rat
  ry_backoff_factor :: rat
  ry_max_delay :: rat

definition default_policy :: retry_policy where
  "default_policy = \<lparr>ry_max_attempts = 3, ry_base_delay = 1 / 2, ry_backoff_factor = 2, ry_max_delay = 8\<rparr>"

definition single_policy :: retry_policy where
  "single_policy = default_policy\<lparr>ry_max_attempts := 1\<rparr>"

text \<open>The power of two floats is taken as correctly rounded; past the largest float it raises
  \<open>OverflowError\<close>, which is \<open>None\<close>.\<close>

definition float_power :: "rat \<Rightarrow> nat \<Rightarrow> rat option" where
  "float_power x k = (let y = fl (x ^ k) in if 2 ^ 1024 \<le> \<bar>y\<bar> then None else Some y)"

definition delay_for :: "retry_policy \<Rightarrow> nat \<Rightarrow> rat option" where
  "delay_for p attempt = map_option (\<lambda>y. min (fmul (ry_base_delay p) y) (ry_max_delay p))
     (float_power (ry_backoff_factor p) (attempt - 1))"

definition apply_jitter :: "rat \<Rightarrow> rat \<Rightarrow> rat" where
  "apply_jitter delay r = fadd (fmul delay (1 / 2)) (fmul (fmul delay (1 / 2)) r)"

text \<open>\<open>str.isdigit\<close> holds for the superscript digits too, which \<open>float\<close> does not read.\<close>

definition isdigit_char :: "char \<Rightarrow> bool" where
  "isdigit_char c \<longleftrightarrow> (let n = (of_char c :: nat) in (48 \<le> n \<and> n \<le> 57) \<or> n \<in> {178, 179, 185})"

definition decimal_digits :: "string \<Rightarrow> bool" where
  "decimal_digits s \<longleftrightarrow> list_all (\<lambda>c. let n = (of_char c :: nat) in 48 \<le> n \<and> n \<le> 57) s"

definition decimal_value :: "string \<Rightarrow> nat" where
  "decimal_value s = foldl (\<lambda>v c. 10 * v + (of_char c - 48)) 0 s"

datatype retry_hint = No_hint | Hint rat | Unreadable_digits

definition retry_after_seconds :: "(string \<Rightarrow> rat option) \<Rightarrow> call_error \<Rightarrow> retry_hint" where
  "retry_after_seconds date e = (case e of
      Http_error _ (Some raw) \<Rightarrow>
        if raw = [] then No_hint
        else let text' = strip raw in
          if text' \<noteq> [] \<and> list_all isdigit_char text'
          then if decimal_digits text' then Hint (fl (of_nat (decimal_value text'))) else Unreadable_digits
          else (case date text' of None \<Rightarrow> No_hint | Some s \<Rightarrow> Hint (max 0 s))
    | _ \<Rightarrow> No_hint)"

definition is_transient :: "call_error \<Rightarrow> bool" where
  "is_transient e = (case e of
      Http_error code _ \<Rightarrow> code = 429 \<or> (500 \<le> code \<and> code \<le> 599)
    | Connection_error \<Rightarrow> True
    | Other_error \<Rightarrow> False)"


section \<open>The loop\<close>

record 'a call_env =
  ce_call :: "nat \<Rightarrow> call_error + 'a"
  ce_start :: rat
  ce_now :: "nat \<Rightarrow> rat"
  ce_rng :: "nat \<Rightarrow> rat"
  ce_date :: "string \<Rightarrow> rat option"

text \<open>An error of the backoff itself replaces the error of the call.\<close>

datatype backoff_error = Value_error | Overflow_error

datatype 'a call_outcome = Value 'a | Raised call_error | Backoff_failed backoff_error

definition backoff :: "'a call_env \<Rightarrow> retry_policy \<Rightarrow> nat \<Rightarrow> call_error \<Rightarrow> backoff_error + rat" where
  "backoff env p attempt e = (case retry_after_seconds (ce_date env) e of
      Unreadable_digits \<Rightarrow> Inl Value_error
    | Hint s \<Rightarrow> Inr (min s (ry_max_delay p))
    | No_hint \<Rightarrow> (case delay_for p attempt of
          None \<Rightarrow> Inl Overflow_error
        | Some delay \<Rightarrow> Inr (apply_jitter delay (ce_rng env attempt))))"

definition past_deadline :: "'a call_env \<Rightarrow> rat option \<Rightarrow> nat \<Rightarrow> rat \<Rightarrow> bool" where
  "past_deadline env deadline attempt delay = (case deadline of
      None \<Rightarrow> False
    | Some d \<Rightarrow> d \<le> fadd (fsub (ce_now env attempt) (ce_start env)) delay)"

text \<open>The outcome, the delays slept, and the number of the last attempt.\<close>

function retry_from ::
  "'a call_env \<Rightarrow> retry_policy \<Rightarrow> rat option \<Rightarrow> nat \<Rightarrow> 'a call_outcome \<times> rat list \<times> nat" where
  "retry_from env p deadline attempt = (case ce_call env attempt of
      Inr v \<Rightarrow> (Value v, [], attempt)
    | Inl e \<Rightarrow>
        if ry_max_attempts p \<le> int attempt \<or> \<not> is_transient e then (Raised e, [], attempt)
        else (case backoff env p attempt e of
            Inl x \<Rightarrow> (Backoff_failed x, [], attempt)
          | Inr delay \<Rightarrow>
              if past_deadline env deadline attempt delay then (Raised e, [], attempt)
              else (case retry_from env p deadline (Suc attempt) of (r, sleeps, n) \<Rightarrow> (r, delay # sleeps, n))))"
  by pat_completeness auto
termination by (relation "measure (\<lambda>(env, p, deadline, attempt). nat (ry_max_attempts p - int attempt))") auto

declare retry_from.simps [simp del]

definition call_with_retry :: "'a call_env \<Rightarrow> retry_policy \<Rightarrow> rat option \<Rightarrow> 'a call_outcome \<times> rat list \<times> nat" where
  "call_with_retry env p deadline = retry_from env p deadline 1"

text \<open>A Retry-After of superscript digits replaces the HTTP error by a ValueError.\<close>

lemma superscript_header:
  assumes "ce_call env 1 = Inl (Http_error 429 (Some [CHR 0xB2]))" and "1 < ry_max_attempts p"
  shows "call_with_retry env p deadline = (Backoff_failed Value_error, [], 1)"
proof -
  have "retry_after_seconds (ce_date env) (Http_error 429 (Some [CHR 0xB2])) = Unreadable_digits"
    by (simp add: retry_after_seconds_def strip_def strip_with_def is_space_def isdigit_char_def decimal_digits_def)
  with assms show ?thesis
    by (simp add: call_with_retry_def retry_from.simps is_transient_def backoff_def)
qed

text \<open>So does a power past the largest float.\<close>

lemma bits_step: "0 < n \<Longrightarrow> bits n = 1 + bits (n div 2)" and bits_0: "bits 0 = 0"
  by (subst bits.simps; simp)+

lemma bits_power: "bits (2 ^ k) = int k + 1"
proof (induction k)
  case 0
  show ?case using bits_step [of 1] bits_0 by simp
next
  case (Suc k)
  have "bits (2 ^ Suc k) = 1 + bits (2 ^ Suc k div 2)" by (rule bits_step) simp
  moreover have "(2 :: int) ^ Suc k div 2 = 2 ^ k" by simp
  ultimately show ?case using Suc by simp
qed

lemma fl_power_ge: "2 ^ k \<le> fl (2 ^ k)"
proof -
  have "quotient_of (2 ^ k) = (2 ^ k, 1)" using quotient_of_int [of "2 ^ k"] by (simp add: Rat.of_int_def)
  then have "exponent (2 ^ k) \<le> int k"
    using bits_power [of k] bits_power [of 0] by (simp add: exponent_def Let_def)
  then have "pow2 (int k) \<le> fl (2 ^ k)"
    using grid_ge [of "max (exponent (2 ^ k) - 52) (- 1074)" "int k" "2 ^ k"] by (simp add: fl_def Let_def pow2_def [of "int k"])
  then show ?thesis by (simp add: pow2_def)
qed


lemma power_overflow:
  assumes "ry_backoff_factor p = 2" and "ry_max_attempts p = 2000"
    and "\<And>k. ce_call env k = Inl Connection_error" and "retry_from env p None 1025 = (r, sleeps, n)"
  shows "r = Backoff_failed Overflow_error" and "n = 1025"
proof -
  have big: "2 ^ 1024 \<le> \<bar>fl (2 ^ 1024)\<bar>" using fl_power_ge [of 1024] by (simp only: abs_ge_self order_trans)
  have "retry_after_seconds (ce_date env) Connection_error = No_hint" by (simp add: retry_after_seconds_def)
  with big assms show "r = Backoff_failed Overflow_error" "n = 1025"
    by (simp_all add: retry_from.simps [of env p None 1025] is_transient_def backoff_def delay_for_def float_power_def Let_def)
qed


section \<open>The schedule, as documented\<close>













section \<open>Properties\<close>


end
