(* ===== verification/Redaction.thy ===== *)
theory Redaction
  imports Pii Validator
begin

text \<open>
  Redaction of secrets and personal data in exports (\<open>exporters/redaction.py\<close>): private keys are
  found in the text of the whole row and masked back onto its leaves, the other patterns are
  masked leaf by leaf.
\<close>

section \<open>Replacing matches\<close>

text \<open>A text cut into its matches and the characters between them.\<close>

function pieces :: "re \<Rightarrow> pos \<Rightarrow> (bool \<times> string) list" where
  "pieces r (prev, []) = []"
| "pieces r (prev, c # cs) = (case match_here r (prev, c # cs) of
      Some q \<Rightarrow> (True, take (Suc (length cs) - length (snd q)) (c # cs)) # pieces r q
    | None \<Rightarrow> (False, [c]) # pieces r (Some c, cs))"
  by pat_completeness auto
termination
  by (relation "measure (\<lambda>(_, p). length (snd p))") (auto simp: match_here_def split: list.splits if_splits)

fun piece_spans :: "nat \<Rightarrow> (bool \<times> string) list \<Rightarrow> (nat \<times> nat) list" where
  "piece_spans n [] = []"
| "piece_spans n ((m, t) # ps) = (if m then [(n, n + length t)] else []) @ piece_spans (n + length t) ps"

definition finditer :: "re \<Rightarrow> string \<Rightarrow> (nat \<times> nat) list" where
  "finditer r s = piece_spans 0 (pieces r (None, s))"

definition re_sub :: "re \<Rightarrow> (string \<Rightarrow> string) \<Rightarrow> string \<Rightarrow> string" where
  "re_sub r f s = concat (map (\<lambda>(m, t). if m then f t else t) (pieces r (None, s)))"

definition slice :: "string \<Rightarrow> nat \<Rightarrow> nat \<Rightarrow> string" where
  "slice s a b = take (b - a) (drop a s)"

text \<open>\<open>s.rfind(p, a, b)\<close>.\<close>

definition rfind :: "string \<Rightarrow> string \<Rightarrow> nat \<Rightarrow> nat \<Rightarrow> nat option" where
  "rfind p s a b = (case filter (\<lambda>i. i + length p \<le> b \<and> has_prefix p (drop i s)) [a..<Suc b] of
      [] \<Rightarrow> None | js \<Rightarrow> Some (last js))"


section \<open>Private keys\<close>

definition REDACTION_MANIFEST_ROW_LIMIT :: nat where
  "REDACTION_MANIFEST_ROW_LIMIT = 50"

record redaction_hit =
  rh_kind :: string
  rh_count :: nat

record redaction_report =
  rr_redacted_spans :: nat
  rr_redacted_rows :: nat
  rr_by_kind :: "redaction_hit list"
  rr_affected_row_numbers :: "nat list"

definition placeholder :: "string \<Rightarrow> string" where
  "placeholder k = ''[REDACTED:'' @ k @ '']''"

fun key_spans :: "string \<Rightarrow> nat \<Rightarrow> (nat \<times> nat) list \<Rightarrow> (nat \<times> nat) list" where
  "key_spans s cursor [] = []"
| "key_spans s cursor ((start, end') # ms) =
     (if has_prefix ''-----END'' (drop start s)
      then (case rfind (placeholder ''private_key'') s cursor start of Some i \<Rightarrow> i | None \<Rightarrow> cursor)
      else start, end') # key_spans s end' ms"

definition private_key_spans :: "string \<Rightarrow> (nat \<times> nat) list" where
  "private_key_spans s = key_spans s 0 (finditer PII_PRIVATE_KEY_RE s)"

fun mask_from :: "string \<Rightarrow> nat \<Rightarrow> (nat \<times> nat) list \<Rightarrow> string" where
  "mask_from s cursor [] = drop cursor s"
| "mask_from s cursor ((start, end') # spans) =
     slice s cursor start @ placeholder ''private_key'' @ mask_from s end' spans"

definition mask_private_key_spans :: "string \<Rightarrow> (nat \<times> nat) list \<Rightarrow> string" where
  "mask_private_key_spans s spans = mask_from s 0 spans"

text \<open>The two loops of \<open>_leaf_segments\<close>; a position is a leaf's index and its offset in the joined text.\<close>

function skip_leaves :: "string list \<Rightarrow> nat \<Rightarrow> nat \<times> nat \<Rightarrow> nat \<times> nat" where
  "skip_leaves leaves start (first, offset) =
     (if first < length leaves \<and> offset + length (leaves ! first) \<le> start
      then skip_leaves leaves start (Suc first, offset + (length (leaves ! first) + 1)) else (first, offset))"
  by pat_completeness auto
termination by (relation "measure (\<lambda>(leaves, _, first, _). length leaves - first)") auto

declare skip_leaves.simps [simp del]

type_synonym segments = "(nat \<times> nat) list list"

function cover_leaves :: "string list \<Rightarrow> nat \<times> nat \<Rightarrow> nat \<times> nat \<Rightarrow> segments \<Rightarrow> segments" where
  "cover_leaves leaves (start, end') (index, offset) segs =
     (if index < length leaves \<and> offset < end'
      then
        let low = max start offset - offset;
            high = min end' (offset + length (leaves ! index)) - offset
        in cover_leaves leaves (start, end') (Suc index, offset + (length (leaves ! index) + 1))
             (if low < high then segs[index := segs ! index @ [(low, high)]] else segs)
      else segs)"
  by pat_completeness auto
termination by (relation "measure (\<lambda>(leaves, _, (index, _), _). length leaves - index)") auto

declare cover_leaves.simps [simp del]

definition leaf_segments :: "string list \<Rightarrow> (nat \<times> nat) list \<Rightarrow> segments" where
  "leaf_segments leaves spans = snd (fold
     (\<lambda>span (first, segs). let first' = skip_leaves leaves (fst span) first
        in (first', cover_leaves leaves span first' segs))
     spans ((0, 0), map (\<lambda>_. []) leaves))"

text \<open>The masks are taken one by one; \<open>None\<close> when they run out. \<open>None\<close> is not a leaf.\<close>

fun replace_leaves :: "string option \<Rightarrow> json \<Rightarrow> string option list \<Rightarrow> (json \<times> string option list) option"
and replace_items :: "json list \<Rightarrow> string option list \<Rightarrow> (json list \<times> string option list) option"
and replace_members :: "(string \<times> json) list \<Rightarrow> string option list \<Rightarrow> ((string \<times> json) list \<times> string option list) option" where
  "replace_leaves key (JObj kvs) masks = map_option (\<lambda>(kvs', ms). (JObj kvs', ms)) (replace_members kvs masks)"
| "replace_leaves key (JList vs) masks = map_option (\<lambda>(vs', ms). (JList vs', ms)) (replace_items vs masks)"
| "replace_leaves key JNull masks = Some (JNull, masks)"
| "replace_leaves key v [] = None"
| "replace_leaves key (JStr s) (Some t # ms) =
     Some (if key = Some ''role'' \<and> s \<in> set VALID_MESSAGE_ROLES then JStr s else JStr t, ms)"
| "replace_leaves key v (m # ms) = Some (v, ms)"
| "replace_items [] masks = Some ([], masks)"
| "replace_items (v # vs) masks = (case replace_leaves None v masks of
      None \<Rightarrow> None
    | Some (v', ms) \<Rightarrow> map_option (\<lambda>(vs', ms'). (v' # vs', ms')) (replace_items vs ms))"
| "replace_members [] masks = Some ([], masks)"
| "replace_members ((k, v) # kvs) masks = (case replace_leaves (Some k) v masks of
      None \<Rightarrow> None
    | Some (v', ms) \<Rightarrow> map_option (\<lambda>(kvs', ms'). ((k, v') # kvs', ms')) (replace_members kvs ms))"

type_synonym tally = "(string, nat) dict"

definition tally_add :: "string \<Rightarrow> nat \<Rightarrow> tally \<Rightarrow> tally" where
  "tally_add k n t = dset k ((case dget t k of None \<Rightarrow> 0 | Some m \<Rightarrow> m) + n) t"

definition leaf_masks :: "string list \<Rightarrow> (nat \<times> nat) list \<Rightarrow> string option list" where
  "leaf_masks leaves spans = map (\<lambda>(leaf, segs). if segs = [] then None else Some (mask_private_key_spans leaf segs))
     (zip leaves (leaf_segments leaves spans))"

definition redact_row_private_keys :: "runtime \<Rightarrow> json \<Rightarrow> tally \<Rightarrow> (json \<times> tally) option" where
  "redact_row_private_keys rt row t =
     (let leaves = collect_text_values rt row; spans = private_key_spans (join '' '' leaves) in
      if spans = [] then Some (row, t)
      else map_option (\<lambda>(row', _). (row', tally_add ''private_key'' (length spans) t))
        (replace_leaves None row (leaf_masks leaves spans)))"


section \<open>The other patterns\<close>

definition count_hits :: "string \<Rightarrow> nat \<Rightarrow> tally \<Rightarrow> tally" where
  "count_hits k n t = (if n = 0 then t else tally_add k n t)"

definition redact_pattern :: "pii_pattern \<times> re \<Rightarrow> string \<times> tally \<Rightarrow> string \<times> tally" where
  "redact_pattern pr st = (case (pr, st) of ((pt, r), (s, t)) \<Rightarrow>
     if pt_kind pt = ''private_key'' then (s, t)
     else (re_sub r (\<lambda>_. placeholder (pt_kind pt)) s, count_hits (pt_kind pt) (length (findall r s)) t))"

definition is_card :: "string \<Rightarrow> bool" where
  "is_card candidate = (let ds = card_digits candidate in
     13 \<le> length ds \<and> length ds \<le> 19 \<and> luhn_valid ds \<and> looks_like_payment_card ds)"

definition redact_cards :: "string \<times> tally \<Rightarrow> string \<times> tally" where
  "redact_cards st = (case st of (s, t) \<Rightarrow>
     (re_sub PII_CC_CANDIDATE_RE (\<lambda>m. if is_card m then placeholder ''credit_card'' else m) s,
      count_hits ''credit_card'' (length (filter is_card (findall PII_CC_CANDIDATE_RE s))) t))"

definition redact_other_patterns :: "string \<Rightarrow> tally \<Rightarrow> string \<times> tally" where
  "redact_other_patterns s t = redact_cards (fold redact_pattern PII_PATTERNS (s, t))"

definition redact_text :: "string \<Rightarrow> string \<times> tally" where
  "redact_text s =
     (let spans = private_key_spans s in
      if spans = [] then redact_other_patterns s []
      else redact_other_patterns (mask_private_key_spans s spans) [(''private_key'', length spans)])"

definition merge_tally :: "tally \<Rightarrow> tally \<Rightarrow> tally" where
  "merge_tally hits t = fold (\<lambda>(k, n). tally_add k n) hits t"

definition redact_number :: "json \<Rightarrow> string \<Rightarrow> tally \<Rightarrow> json \<times> tally" where
  "redact_number v s t = (case redact_other_patterns s [] of (s', hits) \<Rightarrow>
     if hits = [] then (v, t) else (JStr s', merge_tally hits t))"

fun redact_value :: "runtime \<Rightarrow> json \<Rightarrow> tally \<Rightarrow> json \<times> tally"
and redact_items :: "runtime \<Rightarrow> json list \<Rightarrow> tally \<Rightarrow> json list \<times> tally"
and redact_members :: "runtime \<Rightarrow> (string \<times> json) list \<Rightarrow> tally \<Rightarrow> (string \<times> json) list \<times> tally" where
  "redact_value rt (JStr s) t = map_prod JStr id (redact_other_patterns s t)"
| "redact_value rt (JList vs) t = map_prod JList id (redact_items rt vs t)"
| "redact_value rt (JObj kvs) t = map_prod JObj id (redact_members rt kvs t)"
| "redact_value rt (JInt i) t = redact_number (JInt i) (int_str i) t"
| "redact_value rt (JFloat x) t = redact_number (JFloat x) (float_repr rt x) t"
| "redact_value rt v t = (v, t)"
| "redact_items rt [] t = ([], t)"
| "redact_items rt (v # vs) t = (case redact_value rt v t of (v', t') \<Rightarrow> map_prod ((#) v') id (redact_items rt vs t'))"
| "redact_members rt [] t = ([], t)"
| "redact_members rt ((k, v) # kvs) t =
     (case redact_value rt v t of (v', t') \<Rightarrow> map_prod ((#) (k, v')) id (redact_members rt kvs t'))"

record redaction_state =
  rs_rows :: "json list"
  rs_by_kind :: tally
  rs_affected :: "nat list"
  rs_spans :: nat

definition redact_row :: "runtime \<Rightarrow> json \<Rightarrow> (json \<times> tally) option" where
  "redact_row rt row = (case row of
      JObj _ \<Rightarrow> (case redact_row_private_keys rt row [] of
          Some (JObj kvs, t) \<Rightarrow> Some (map_prod JObj id (redact_members rt kvs t))
        | _ \<Rightarrow> None)
    | _ \<Rightarrow> Some (row, []))"

definition redact_step :: "runtime \<Rightarrow> nat \<times> json \<Rightarrow> redaction_state option \<Rightarrow> redaction_state option" where
  "redact_step rt nr st = (case st of None \<Rightarrow> None | Some s \<Rightarrow> (case redact_row rt (snd nr) of
      None \<Rightarrow> None
    | Some (row, t) \<Rightarrow> Some (let s1 = s\<lparr>rs_rows := rs_rows s @ [row]\<rparr> in
        if t = [] then s1
        else s1\<lparr>rs_affected := rs_affected s @ [fst nr], rs_by_kind := merge_tally t (rs_by_kind s),
          rs_spans := rs_spans s + sum_list (map snd t)\<rparr>)))"

definition redact_rows :: "runtime \<Rightarrow> json list \<Rightarrow> (json list \<times> redaction_report) option" where
  "redact_rows rt rows = map_option (\<lambda>s. (rs_rows s,
     \<lparr>rr_redacted_spans = rs_spans s, rr_redacted_rows = length (rs_affected s),
      rr_by_kind = map (\<lambda>(k, n). \<lparr>rh_kind = k, rh_count = n\<rparr>) (sort (rs_by_kind s)),
      rr_affected_row_numbers = take REDACTION_MANIFEST_ROW_LIMIT (rs_affected s)\<rparr>))
     (for_rows (redact_step rt) rows (Some \<lparr>rs_rows = [], rs_by_kind = [], rs_affected = [], rs_spans = 0\<rparr>))"

end
