(* ===== verification/Redaction_Keys.thy ===== *)
theory Redaction_Keys
  imports Redaction
begin

text \<open>
  What redaction guarantees of private keys: the single pass over spans and leaves is exact, no
  marker of a key is left in the text the detector scans, and the report counts what the
  detector counts. A text is related to what masking makes of it by a relation on flagged
  characters, under which a marker in the result must have been there, unmasked, before.
\<close>

section \<open>Matches and what lies outside them\<close>

lemma match_here_shorter: "match_here r p = Some q \<Longrightarrow> length (snd q) < length (snd p) \<and> is_rest (snd p) (snd q)"
  using matches_rest [of q r p] by (auto simp: match_here_def split: list.splits if_splits)

lemma matched_text:
  assumes "match_here r (prev, s) = Some q"
  shows "take (length s - length (snd q)) s @ snd q = s" and "take (length s - length (snd q)) s \<noteq> []"
proof -
  from match_here_shorter [OF assms] obtain u where u: "s = u @ snd q" "length (snd q) < length s"
    unfolding is_rest_def snd_conv by blast
  from u(1) have "length s - length (snd q) = length u" by (metis add_diff_cancel_right' length_append)
  with u(1) have t: "take (length s - length (snd q)) s = u" by (metis append_eq_conv_conj)
  with u(1) show "take (length s - length (snd q)) s @ snd q = s" by simp
  from u(2) t show "take (length s - length (snd q)) s \<noteq> []" by auto
qed

lemma findall_pieces: "findall r s = map snd (filter fst (pieces r (None, s)))"
proof -
  have "scan r p = map snd (filter fst (pieces r p))" for p
    by (induction r p rule: pieces.induct) (auto split: option.splits)
  then show ?thesis by (simp add: findall_def)
qed

text \<open>A position lies in a match, or no match starts there.\<close>

lemma uncovered_no_match:
  assumes "i < length s"
  shows "(\<exists>a b. (a, b) \<in> set (piece_spans n (pieces r (prev, s))) \<and> a \<le> n + i \<and> n + i < b)
     \<or> (\<exists>prev'. match_here r (prev', drop i s) = None)"
  using assms
proof (induction r "(prev, s)" arbitrary: prev s i n rule: pieces.induct)
  case (2 r prev c cs)
  show ?case
  proof (cases "match_here r (prev, c # cs)")
    case None
    show ?thesis
    proof (cases i)
      case (Suc j)
      with 2(3) have "j < length cs" by simp
      from 2(1) [OF None this, of "Suc n"] None Suc show ?thesis by simp
    qed (use None in auto)
  next
    case (Some q)
    define u where "u = take (Suc (length cs) - length (snd q)) (c # cs)"
    have u: "u @ snd q = c # cs" using matched_text(1) [OF Some] by (simp add: u_def)
    have ps: "piece_spans n (pieces r (prev, c # cs)) = (n, n + length u) # piece_spans (n + length u) (pieces r q)"
      by (simp add: Some u_def)
    show ?thesis
    proof (cases "i < length u")
      case True
      then show ?thesis unfolding ps by (intro disjI1 exI [of _ n] exI [of _ "n + length u"]) simp
    next
      case False
      then have d: "drop i (c # cs) = drop (i - length u) (snd q)" by (simp add: u [symmetric])
      have "match_here r (prev, c # cs) = Some (fst q, snd q)" using Some by simp
      note IH = 2(2) [OF this]
      from False 2(3) u have "i - length u < length (snd q)" by (metis diff_less_mono length_append not_less add_diff_cancel_left')
      from IH [OF this, of "n + length u"] False show ?thesis unfolding ps d by auto
    qed
  qed
qed simp

fun increasing :: "nat \<Rightarrow> nat \<Rightarrow> (nat \<times> nat) list \<Rightarrow> bool" where
  "increasing lo hi [] \<longleftrightarrow> lo \<le> hi"
| "increasing lo hi ((a, b) # ss) \<longleftrightarrow> lo \<le> a \<and> a < b \<and> increasing b hi ss"

lemma increasing_le: "increasing lo hi ss \<Longrightarrow> lo \<le> hi"
  by (induction lo hi ss rule: increasing.induct) auto

lemma increasing_lower: "increasing lo hi ss \<Longrightarrow> lo' \<le> lo \<Longrightarrow> increasing lo' hi ss"
  by (cases ss) auto

lemma pieces_increasing: "increasing n (n + length s) (piece_spans n (pieces r (prev, s)))"
proof (induction r "(prev, s)" arbitrary: prev s n rule: pieces.induct)
  case (2 r prev c cs)
  show ?case
  proof (cases "match_here r (prev, c # cs)")
    case None
    from 2(1) [OF this, of "Suc n"] None show ?thesis by (auto intro: increasing_lower)
  next
    case (Some q)
    define u where "u = take (Suc (length cs) - length (snd q)) (c # cs)"
    have u: "u @ snd q = c # cs" "u \<noteq> []" using matched_text [OF Some] by (simp_all add: u_def)
    then have "length u + length (snd q) = Suc (length cs)" by (metis length_append length_Cons)
    moreover have "match_here r (prev, c # cs) = Some (fst q, snd q)" using Some by simp
    note 2(2) [OF this, of "n + length u"]
    ultimately show ?thesis using u(2)
      by (simp add: Some u_def [symmetric] add.assoc)
  qed
qed simp

lemma finditer_increasing: "increasing 0 (length s) (finditer r s)"
  using pieces_increasing [of 0 s r None] by (simp add: finditer_def)

lemma rfind_between: "rfind p s a b = Some i \<Longrightarrow> a \<le> i \<and> i \<le> b"
proof -
  assume "rfind p s a b = Some i"
  then obtain js where "filter (\<lambda>i. i + length p \<le> b \<and> has_prefix p (drop i s)) [a..<Suc b] = js" "js \<noteq> []" "i = last js"
    by (cases "filter (\<lambda>i. i + length p \<le> b \<and> has_prefix p (drop i s)) [a..<Suc b]") (auto simp: rfind_def simp del: upt_Suc)
  then have "i \<in> set (filter (\<lambda>i. i + length p \<le> b \<and> has_prefix p (drop i s)) [a..<Suc b])" using last_in_set by metis
  then show ?thesis by (auto simp del: upt_Suc)
qed

text \<open>The spans to mask are ordered and contain the matches.\<close>

lemma key_spans_cover:
  "increasing cursor hi ms \<Longrightarrow> increasing cursor hi (key_spans s cursor ms)
     \<and> list_all2 (\<lambda>(a, b) (a', b'). a' \<le> a \<and> b' = b) ms (key_spans s cursor ms)"
proof (induction s cursor ms rule: key_spans.induct)
  case (2 s cursor start e ms)
  from 2(2) have "cursor \<le> start" "start < e" "increasing e hi ms" by auto
  with 2(1) rfind_between [of "placeholder ''private_key''" s cursor start] show ?case
    by (fastforce split: option.splits)
qed simp

lemma private_key_spans_increasing: "increasing 0 (length s) (private_key_spans s)"
  using key_spans_cover [OF finditer_increasing] by (simp add: private_key_spans_def)

definition covered :: "(nat \<times> nat) list \<Rightarrow> nat \<Rightarrow> bool" where
  "covered spans i \<longleftrightarrow> list_ex (\<lambda>(a, b). a \<le> i \<and> i < b) spans"

lemma uncovered_no_key:
  assumes "i < length s" and "\<not> covered (private_key_spans s) i"
  shows "\<exists>prev. match_here PII_PRIVATE_KEY_RE (prev, drop i s) = None"
proof (rule ccontr)
  assume "\<not> ?thesis"
  with uncovered_no_match [OF assms(1), of 0 PII_PRIVATE_KEY_RE None] obtain a b where
    ab: "(a, b) \<in> set (finditer PII_PRIVATE_KEY_RE s)" "a \<le> i" "i < b" by (auto simp: finditer_def)
  have "list_all2 (\<lambda>(a, b) (a', b'). a' \<le> a \<and> b' = b) (finditer PII_PRIVATE_KEY_RE s) (private_key_spans s)"
    using key_spans_cover [OF finditer_increasing] by (simp add: private_key_spans_def)
  with ab(1) obtain a' b' where "(a', b') \<in> set (private_key_spans s)" "a' \<le> a" "b' = b"
    by (fastforce simp: list_all2_conv_all_nth in_set_conv_nth)
  with ab(2,3) assms(2) show False by (force simp: covered_def list_ex_iff)
qed


section \<open>The markers of a private key\<close>

text \<open>The rows of dashes that begin or end a key.\<close>

definition key_label_starts :: "string list" where
  "key_label_starts = [[], ''RSA '', ''EC '', ''DSA '', ''OPENSSH '', ''ENCRYPTED '', ''PGP '']"

definition key_labels :: "string list" where
  "key_labels = [a @ ''PRIVATE KEY'' @ b. a \<leftarrow> key_label_starts, b \<leftarrow> [[], '' BLOCK'']]"

definition key_markers :: "string list" where
  "key_markers = [a @ b @ ''-----''. a \<leftarrow> [''-----BEGIN '', ''-----END ''], b \<leftarrow> key_labels]"

text \<open>A pattern accepts a word when it can stop after it, whatever surrounds it; it only matches
  words of a set when every match is one.\<close>

definition accepts :: "re \<Rightarrow> string \<Rightarrow> bool" where
  "accepts r w \<longleftrightarrow> (\<forall>prev t. \<exists>c. (c, t) \<in> set (matches r (prev, w @ t)))"

definition only :: "re \<Rightarrow> string set \<Rightarrow> bool" where
  "only r A \<longleftrightarrow> (\<forall>p q. q \<in> set (matches r p) \<longrightarrow> (\<exists>w \<in> A. snd p = w @ snd q))"

lemma accepts_Seq: "accepts a u \<Longrightarrow> accepts b v \<Longrightarrow> accepts (Seq a b) (u @ v)"
  unfolding accepts_def by fastforce

lemma accepts_Alt: "accepts a u \<or> accepts b u \<Longrightarrow> accepts (Alt a b) u"
  unfolding accepts_def by fastforce

lemma accepts_alts: "accepts r u \<Longrightarrow> r \<in> set rs \<Longrightarrow> accepts (alts rs) u"
proof (induction rs rule: alts.induct)
  case (3 r' r'' rs)
  then show ?case using accepts_Alt by auto
qed auto

lemma only_Seq: "only a A \<Longrightarrow> only b B \<Longrightarrow> only (Seq a b) {u @ v |u v. u \<in> A \<and> v \<in> B}"
  unfolding only_def by fastforce

lemma only_Alt: "only a A \<Longrightarrow> only b B \<Longrightarrow> only (Alt a b) (A \<union> B)"
  unfolding only_def by fastforce

lemma only_mono: "only r A \<Longrightarrow> A \<subseteq> B \<Longrightarrow> only r B"
  unfolding only_def by blast

lemma only_alts: "(\<And>r. r \<in> set rs \<Longrightarrow> only r A) \<Longrightarrow> only (alts rs) A"
proof (induction rs rule: alts.induct)
  case (3 r' r'' rs)
  then show ?case using only_Alt [of r' A "alts (r'' # rs)" A] by simp
qed (simp_all add: only_def split: list.splits)

lemma only_any: "only r UNIV"
  unfolding only_def using matches_rest is_rest_def by blast

lemma matches_lit_Cons: "matches (lit (c # w)) p = (case snd p of [] \<Rightarrow> [] | d # s \<Rightarrow> if d = c then matches (lit w) (Some d, s) else [])"
  by (cases w; cases "snd p") (auto simp: lit_def)

lemma accepts_lit: "accepts (lit w) w"
  unfolding accepts_def
proof (induction w)
  case (Cons c w)
  then show ?case by (simp add: matches_lit_Cons)
qed (simp add: lit_def)

lemma only_lit: "only (lit w) {w}"
  unfolding only_def
proof (induction w)
  case (Cons c w)
  then show ?case by (auto simp: matches_lit_Cons split: list.splits if_splits)
qed (simp add: lit_def)

lemma only_lits: "only (alts (map lit ws)) (set ws)"
proof (rule only_alts)
  fix r assume "r \<in> set (map lit ws)"
  then obtain w where "r = lit w" "w \<in> set ws" by auto
  with only_mono [OF only_lit [of w]] show "only r (set ws)" by simp
qed

lemma matches_opt: "q \<in> set (matches (opt r) p) \<longleftrightarrow> q = p \<or> (q \<in> set (matches r p) \<and> length (snd q) < length (snd p))"
proof (cases "length (snd p)")
  case (Suc n)
  have "repeat n (matches r) True 0 (Some 0) q' = [q']" for q' by (cases n) simp_all
  with Suc show ?thesis by (auto simp: opt_def)
qed (simp add: opt_def)

lemma accepts_opt: "accepts (opt r) [] \<and> (accepts r w \<longrightarrow> w \<noteq> [] \<longrightarrow> accepts (opt r) w)"
  by (auto simp: accepts_def matches_opt)

lemma only_opt: "only r A \<Longrightarrow> only (opt r) (insert [] A)"
  by (auto simp: only_def matches_opt)

lemma label_accepts: "w \<in> set key_labels \<Longrightarrow> accepts PEM_PRIVATE_KEY_LABEL w"
proof -
  let ?p = "[''RSA'', ''EC'', ''DSA'', ''OPENSSH'', ''ENCRYPTED'', ''PGP'']"
  have word: "accepts (Seq (alts (map lit ?p)) (lit '' '')) (a @ '' '')" if "a \<in> set ?p" for a
    using that by (intro accepts_Seq accepts_lit accepts_alts [OF accepts_lit]) auto
  have "accepts (opt (Seq (alts (map lit ?p)) (lit '' ''))) a" if "a = [] \<or> (\<exists>b \<in> set ?p. a = b @ '' '')" for a
    using that accepts_opt word by blast
  moreover have "accepts (opt (lit '' BLOCK'')) b" if "b = [] \<or> b = '' BLOCK''" for b
    using that accepts_opt accepts_lit by blast
  ultimately have "accepts PEM_PRIVATE_KEY_LABEL (a @ ''PRIVATE KEY'' @ b)"
    if "a = [] \<or> (\<exists>b \<in> set ?p. a = b @ '' '')" "b = [] \<or> b = '' BLOCK''" for a b
    using that accepts_Seq [OF _ accepts_Seq [OF accepts_lit [of "''PRIVATE KEY''"]]]
    by (simp add: PEM_PRIVATE_KEY_LABEL_def)
  moreover assume "w \<in> set key_labels"
  then obtain a b where "w = a @ ''PRIVATE KEY'' @ b" "b = [] \<or> b = '' BLOCK''" "a \<in> set key_label_starts"
    unfolding key_labels_def by auto
  moreover from this(3) have "a = [] \<or> (\<exists>b \<in> set ?p. a = b @ '' '')" by (auto simp: key_label_starts_def)
  ultimately show ?thesis by blast
qed

lemma key_labelsI: "a \<in> set key_label_starts \<Longrightarrow> b \<in> insert [] {'' BLOCK''} \<Longrightarrow> a @ ''PRIVATE KEY'' @ b \<in> set key_labels"
  unfolding key_labels_def by auto

lemma key_markersI: "a \<in> {''-----BEGIN '', ''-----END ''} \<Longrightarrow> b \<in> set key_labels \<Longrightarrow> a @ b @ ''-----'' \<in> set key_markers"
  unfolding key_markers_def by auto

lemma label_only: "only PEM_PRIVATE_KEY_LABEL (set key_labels)"
proof -
  let ?p = "[''RSA'', ''EC'', ''DSA'', ''OPENSSH'', ''ENCRYPTED'', ''PGP'']"
  have "only (alts (map lit ?p)) (set ?p)" by (rule only_lits)
  note l = only_Seq [OF only_opt [OF only_Seq [OF this only_lit]] only_Seq [OF only_lit only_opt [OF only_lit]]]
  have eq: "PEM_PRIVATE_KEY_LABEL = Seq (opt (Seq (alts (map lit ?p)) (lit '' ''))) (Seq (lit ''PRIVATE KEY'') (opt (lit '' BLOCK'')))"
    by (simp add: PEM_PRIVATE_KEY_LABEL_def)
  have starts: "insert [] {u @ v |u v. u \<in> set ?p \<and> v \<in> {'' ''}} \<subseteq> set key_label_starts" by (auto simp: key_label_starts_def)
  show ?thesis unfolding eq
    using starts key_labelsI by (intro only_mono [OF l]) blast
qed

text \<open>A private-key match starts where a marker does.\<close>

lemma key_match_iff: "match_here PII_PRIVATE_KEY_RE (prev, s) \<noteq> None \<longleftrightarrow> list_ex (\<lambda>m. has_prefix m s) key_markers"
proof -
  let ?closing = "seq [lit ''-----END '', PEM_PRIVATE_KEY_LABEL, lit ''-----'']"
    and ?opening = "seq [lit ''-----BEGIN '', PEM_PRIVATE_KEY_LABEL, lit ''-----'',
      Alt (Seq (Rep False (Sat (\<lambda>_. True)) 0 None) (seq [lit ''-----END '', PEM_PRIVATE_KEY_LABEL, lit ''-----'']))
        (Rep True (Sat (\<lambda>_. True)) 0 None)]"
  have re: "PII_PRIVATE_KEY_RE = Alt ?opening ?closing" by (simp add: PII_PRIVATE_KEY_RE_def Let_def)
  have marked: "a @ b @ ''-----'' @ r \<in> {m @ r |m r. m \<in> set key_markers}"
    if "a \<in> {''-----BEGIN '', ''-----END ''}" "b \<in> set key_labels" for a b r
    using key_markersI [OF that] by (intro CollectI exI [of _ "a @ b @ ''-----''"] exI [of _ r]) simp
  have "only ?opening {m @ r |m r. m \<in> set key_markers}"
    unfolding seq.simps
    by (rule only_mono [OF only_Seq [OF only_lit only_Seq [OF label_only only_Seq [OF only_lit only_any]]]]) (use marked in blast)
  moreover have "only ?closing {m @ r |m r. m \<in> set key_markers}"
    unfolding seq.simps using marked [of "''-----END ''" _ "[]"]
    by (intro only_mono [OF only_Seq [OF only_lit only_Seq [OF label_only only_lit]]]) auto
  ultimately have only: "only PII_PRIVATE_KEY_RE {m @ r |m r. m \<in> set key_markers}" unfolding re using only_Alt by fastforce
  have stop: "accepts (Rep True (Sat (\<lambda>_. True)) 0 None) []"
  proof -
    have "p \<in> set (repeat n f True 0 None p)" for n f p by (cases n) simp_all
    then show ?thesis unfolding accepts_def matches.simps append_Nil by blast
  qed
  have "accepts PII_PRIVATE_KEY_RE m" if m: "m \<in> set key_markers" for m
  proof -
    from m obtain a b where b: "b \<in> set key_labels" "m = a @ b @ ''-----''" "a = ''-----BEGIN '' \<or> a = ''-----END ''"
      unfolding key_markers_def by auto
    from accepts_Seq [OF accepts_lit [of "''-----BEGIN ''"] accepts_Seq [OF label_accepts [OF b(1)] accepts_Seq [OF accepts_lit [of "''-----''"]
          accepts_Alt [OF disjI2 [OF stop]]]]] accepts_Seq [OF accepts_lit [of "''-----END ''"] accepts_Seq [OF label_accepts [OF b(1)] accepts_lit [of "''-----''"]]]
    have "accepts ?opening (''-----BEGIN '' @ b @ ''-----'')" "accepts ?closing (''-----END '' @ b @ ''-----'')" by simp_all
    with b(2,3) show ?thesis unfolding re by (metis accepts_Alt)
  qed
  then have some: "\<exists>q. q \<in> set (matches PII_PRIVATE_KEY_RE (prev, m @ t))" if "m \<in> set key_markers" for m t
    using that unfolding accepts_def by blast
  have "[] \<notin> set key_markers" by (auto simp: key_markers_def)
  show ?thesis
  proof (cases "matches PII_PRIVATE_KEY_RE (prev, s)")
    case Nil
    have "\<not> has_prefix m s" if "m \<in> set key_markers" for m
    proof
      assume "has_prefix m s"
      then have "m @ drop (length m) s = s" unfolding has_prefix_def by (metis append_take_drop_id)
      with some [OF that, of "drop (length m) s"] Nil show False by simp
    qed
    with Nil show ?thesis by (auto simp: match_here_def list_ex_iff)
  next
    case (Cons q qs)
    then have "q \<in> set (matches PII_PRIVATE_KEY_RE (prev, s))" by simp
    from only [unfolded only_def, rule_format, OF this, unfolded snd_conv] obtain m r where m: "m \<in> set key_markers" "s = (m @ r) @ snd q" by blast
    moreover from m(1) \<open>[] \<notin> set key_markers\<close> have "m \<noteq> []" by auto
    ultimately have "length (snd q) < length s" "has_prefix m s" by (simp_all add: has_prefix_def)
    with Cons m(1) show ?thesis by (auto simp: match_here_def list_ex_iff)
  qed
qed


section \<open>Masking creates no marker\<close>

text \<open>A text in which no marker occurs.\<close>

definition key_free :: "string \<Rightarrow> bool" where
  "key_free s \<longleftrightarrow> (\<forall>u m v. m \<in> set key_markers \<longrightarrow> s \<noteq> u @ m @ v)"

lemma key_free_findall: "key_free s \<Longrightarrow> findall PII_PRIVATE_KEY_RE s = []"
proof -
  have "filter fst (pieces PII_PRIVATE_KEY_RE (prev, s)) = []" if "key_free s" for prev
    using that
  proof (induction s arbitrary: prev)
    case (Cons c s)
    have "\<not> has_prefix m (c # s)" if "m \<in> set key_markers" for m
      using Cons(2) that unfolding key_free_def has_prefix_def by (metis append_Nil append_take_drop_id)
    then have "match_here PII_PRIVATE_KEY_RE (prev, c # s) = None"
      using key_match_iff [of prev "c # s"] unfolding list_ex_iff by blast
    moreover have "key_free s" using Cons(2) unfolding key_free_def by (metis append_Cons)
    ultimately show ?case using Cons(1) by simp
  qed simp
  then show "key_free s \<Longrightarrow> findall PII_PRIVATE_KEY_RE s = []" by (simp add: findall_pieces)
qed

text \<open>What replaces a part of the text: it begins with a bracket and has no dash.\<close>

definition plug :: "string \<Rightarrow> bool" where
  "plug h \<longleftrightarrow> (case h of [] \<Rightarrow> False | c # _ \<Rightarrow> c = CHR ''['') \<and> CHR ''-'' \<notin> set h"

text \<open>\<open>masks xs ys\<close>: \<open>ys\<close> is the text of \<open>xs\<close> with parts replaced; only characters that are not
  flagged are kept.\<close>

inductive masks :: "(char \<times> bool) list \<Rightarrow> string \<Rightarrow> bool" where
  masks_Nil: "masks [] []"
| masks_keep: "masks xs ys \<Longrightarrow> masks ((c, False) # xs) (c # ys)"
| masks_plug: "run \<noteq> [] \<Longrightarrow> plug h \<Longrightarrow> masks xs ys \<Longrightarrow> masks (run @ xs) (h @ ys)"

lemma masks_append: "masks xs ys \<Longrightarrow> masks xs' ys' \<Longrightarrow> masks (xs @ xs') (ys @ ys')"
  by (induction rule: masks.induct) (auto intro: masks.intros)

lemma masks_same: "masks (map (\<lambda>c. (c, False)) s) s"
  by (induction s) (auto intro: masks.intros)

text \<open>A marker in the result was there before, unflagged.\<close>

definition dashed :: "string \<Rightarrow> bool" where
  "dashed m \<longleftrightarrow> (case m of [] \<Rightarrow> False | c # _ \<Rightarrow> c = CHR ''-'') \<and> CHR ''['' \<notin> set m"

lemma masks_prefix: "masks xs ys \<Longrightarrow> ys = m @ v \<Longrightarrow> CHR ''['' \<notin> set m \<Longrightarrow> \<exists>v'. map fst xs = m @ v'"
proof (induction arbitrary: m v rule: masks.induct)
  case (masks_keep xs ys c)
  then show ?case by (cases m) auto
next
  case (masks_plug run h xs ys)
  then have "m = []" by (cases m) (auto simp: plug_def split: list.splits)
  then show ?case by simp
qed auto

lemma masks_occurs:
  assumes "masks xs ys" and "ys = u @ m @ v" and "dashed m"
  shows "\<exists>u' v'. map fst xs = u' @ m @ v' \<and> \<not> snd (xs ! length u')"
  using assms
proof (induction arbitrary: u v rule: masks.induct)
  case masks_Nil
  then show ?case by (simp add: dashed_def)
next
  case (masks_keep xs ys c)
  show ?case
  proof (cases u)
    case Nil
    with masks_keep(1,3,4) masks_prefix [OF masks.masks_keep [OF masks_keep(1)], of c m v] obtain v' where
      "map fst ((c, False) # xs) = m @ v'" by (auto simp: dashed_def)
    then show ?thesis by (intro exI [of _ "[]"] exI [of _ v']) simp
  next
    case (Cons d u1)
    with masks_keep(3) have "ys = u1 @ m @ v" by simp
    from masks_keep(2) [OF this masks_keep(4)] obtain u' v' where "map fst xs = u' @ m @ v'" "\<not> snd (xs ! length u')" by blast
    then show ?thesis by (intro exI [of _ "c # u'"] exI [of _ v']) simp
  qed
next
  case (masks_plug run h xs ys)
  have "\<exists>u1. u = h @ u1 \<and> ys = u1 @ m @ v"
  proof (cases "length h \<le> length u")
    case True
    with masks_plug(5) show ?thesis by (metis append_eq_append_conv_if append_eq_conv_conj)
  next
    case False
    from masks_plug(6) obtain m' where m: "m = CHR ''-'' # m'" by (cases m) (auto simp: dashed_def)
    from False have "(h @ ys) ! length u = h ! length u" by (simp add: nth_append)
    moreover have "(h @ ys) ! length u = CHR ''-''" by (simp add: masks_plug(5) m)
    ultimately have "CHR ''-'' \<in> set h" using False by (metis not_le nth_mem)
    with masks_plug(2) show ?thesis by (simp add: plug_def)
  qed
  then obtain u1 where "ys = u1 @ m @ v" by blast
  from masks_plug(4) [OF this masks_plug(6)] obtain u' v' where "map fst xs = u' @ m @ v'" "\<not> snd (xs ! length u')" by blast
  then show ?case by (intro exI [of _ "map fst run @ u'"] exI [of _ v']) (simp add: nth_append)
qed

lemma marker_dashed: "m \<in> set key_markers \<Longrightarrow> dashed m \<and> take 2 m = ''--''"
proof -
  have "list_all (\<lambda>m. dashed m \<and> take 2 m = ''--'') key_markers" by code_simp
  then show "m \<in> set key_markers \<Longrightarrow> dashed m \<and> take 2 m = ''--''" by (simp add: list_all_iff)
qed

lemma masks_key_free: "masks xs ys \<Longrightarrow> key_free (map fst xs) \<Longrightarrow> key_free ys"
  using masks_occurs marker_dashed unfolding key_free_def by metis


section \<open>Spans of the joined text on the leaves\<close>

text \<open>Where a leaf begins in the joined text, and the part of a span that lies on it.\<close>

definition leaf_offset :: "string list \<Rightarrow> nat \<Rightarrow> nat" where
  "leaf_offset leaves i = sum_list (map (\<lambda>w. length w + 1) (take i leaves))"

definition leaf_part :: "string list \<Rightarrow> nat \<Rightarrow> nat \<times> nat \<Rightarrow> (nat \<times> nat) list" where
  "leaf_part leaves i sp = (let offset = leaf_offset leaves i;
     low = max (fst sp) offset - offset; high = min (snd sp) (offset + length (leaves ! i)) - offset
     in if low < high then [(low, high)] else [])"

lemma leaf_offset_Suc: "i < length leaves \<Longrightarrow> leaf_offset leaves (Suc i) = leaf_offset leaves i + (length (leaves ! i) + 1)"
  by (simp add: leaf_offset_def take_Suc_conv_app_nth)

lemma leaf_offset_mono: "i \<le> j \<Longrightarrow> leaf_offset leaves i \<le> leaf_offset leaves j"
proof -
  assume "i \<le> j"
  then obtain ws where "take j leaves = take i leaves @ ws" by (metis le_Suc_ex take_add)
  then show ?thesis by (simp add: leaf_offset_def)
qed

lemma skip_leaves_spec:
  "offset = leaf_offset leaves first \<Longrightarrow> skip_leaves leaves start (first, offset) = (f, off) \<Longrightarrow>
    off = leaf_offset leaves f \<and> first \<le> f
    \<and> (\<forall>i. first \<le> i \<longrightarrow> i < f \<longrightarrow> leaf_offset leaves i + length (leaves ! i) \<le> start)"
proof (induction leaves start "(first, offset)" arbitrary: first offset rule: skip_leaves.induct)
  case (1 leaves start first offset)
  show ?case
  proof (cases "first < length leaves \<and> offset + length (leaves ! first) \<le> start")
    case True
    with 1(3) have "skip_leaves leaves start (Suc first, offset + (length (leaves ! first) + 1)) = (f, off)"
      by (simp add: skip_leaves.simps [of leaves start first])
    from 1(1) [OF True _ this] True 1(2) show ?thesis
      by (auto simp: leaf_offset_Suc) (metis Suc_leI le_neq_implies_less)
  next
    case False
    then have "skip_leaves leaves start (first, offset) = (first, offset)" by (subst skip_leaves.simps) (simp only: if_False)
    with 1(2,3) show ?thesis by simp
  qed
qed

lemma cover_leaves_spec:
  assumes "offset = leaf_offset leaves index" and "length segs = length leaves"
  shows "length (cover_leaves leaves sp (index, offset) segs) = length leaves
    \<and> (\<forall>i < length leaves. cover_leaves leaves sp (index, offset) segs ! i = segs ! i @ (if index \<le> i then leaf_part leaves i sp else []))"
  using assms
proof (induction leaves sp "(index, offset)" segs arbitrary: index offset rule: cover_leaves.induct)
  case (1 leaves start e index offset segs)
  show ?case
  proof (cases "index < length leaves \<and> offset < e")
    case True
    define low high where lh: "low = max start offset - offset" "high = min e (offset + length (leaves ! index)) - offset"
    let ?segs = "if low < high then segs[index := segs ! index @ [(low, high)]] else segs"
    have step: "cover_leaves leaves (start, e) (index, offset) segs
        = cover_leaves leaves (start, e) (Suc index, offset + (length (leaves ! index) + 1)) ?segs"
      using True by (subst cover_leaves.simps) (simp add: lh Let_def)
    have here: "?segs ! i = segs ! i @ (if i = index then leaf_part leaves i (start, e) else [])" if "i < length leaves" for i
      using 1(2,3) that by (auto simp: leaf_part_def lh Let_def)
    from 1(1) [OF True lh(1) lh(2)] 1(2,3) True have
      "length (cover_leaves leaves (start, e) (index, offset) segs) = length leaves
       \<and> (\<forall>i < length leaves. cover_leaves leaves (start, e) (index, offset) segs ! i
            = ?segs ! i @ (if Suc index \<le> i then leaf_part leaves i (start, e) else []))"
      unfolding step by (simp add: leaf_offset_Suc)
    with here show ?thesis by auto
  next
    case False
    have "leaf_part leaves i (start, e) = []" if "index \<le> i" "i < length leaves" for i
      using False that 1(2) leaf_offset_mono [OF that(1), of leaves] by (auto simp: leaf_part_def Let_def)
    moreover from False have "cover_leaves leaves (start, e) (index, offset) segs = segs"
      by (subst cover_leaves.simps) (simp only: if_False)
    ultimately show ?thesis using 1(3) by simp
  qed
qed

text \<open>The two loops find every part of every span, in order.\<close>

lemma segments_fold:
  assumes "increasing lo hi spans" and "\<And>i. i < first \<Longrightarrow> leaf_offset leaves i + length (leaves ! i) \<le> lo"
    and "length segs = length leaves"
  shows "snd (fold (\<lambda>sp (first, segs). let first' = skip_leaves leaves (fst sp) first
        in (first', cover_leaves leaves sp first' segs)) spans ((first, leaf_offset leaves first), segs))
    = map (\<lambda>i. segs ! i @ concat (map (leaf_part leaves i) spans)) [0..<length leaves]"
  using assms
proof (induction spans arbitrary: lo first segs)
  case Nil
  then show ?case by (auto intro: nth_equalityI)
next
  case (Cons sp spans)
  obtain a b where sp: "sp = (a, b)" by force
  obtain f off where f: "skip_leaves leaves a (first, leaf_offset leaves first) = (f, off)" by force
  from skip_leaves_spec [OF refl f] have off: "off = leaf_offset leaves f"
    and skip: "\<And>i. first \<le> i \<Longrightarrow> i < f \<Longrightarrow> leaf_offset leaves i + length (leaves ! i) \<le> a" by auto
  from Cons(2) have inc: "lo \<le> a" "a < b" "increasing b hi spans" by (simp_all add: sp)
  have before: "leaf_offset leaves i + length (leaves ! i) \<le> a" if "i < f" for i
  proof (cases "first \<le> i")
    case False
    with Cons(3) [of i] inc(1) show ?thesis by simp
  qed (use skip that in simp)
  let ?segs = "cover_leaves leaves (a, b) (f, off) segs"
  have none: "leaf_part leaves i (a, b) = []" if "i < f" for i
    using before [OF that] by (auto simp: leaf_part_def Let_def)
  from cover_leaves_spec [OF off Cons(4), of "(a, b)"] none have cov: "length ?segs = length leaves"
    "\<And>i. i < length leaves \<Longrightarrow> ?segs ! i = segs ! i @ leaf_part leaves i (a, b)" by (auto simp: not_le)
  have "\<And>i. i < f \<Longrightarrow> leaf_offset leaves i + length (leaves ! i) \<le> b" using before inc(2) by fastforce
  note IH = Cons(1) [of b f, OF inc(3) this cov(1)]
  have "map (\<lambda>i. ?segs ! i @ concat (map (leaf_part leaves i) spans)) [0..<length leaves]
      = map (\<lambda>i. segs ! i @ concat (map (leaf_part leaves i) (sp # spans))) [0..<length leaves]"
    by (rule map_cong) (simp_all add: sp cov(2))
  with IH show ?case by (simp add: sp f off [symmetric] Let_def del: map_eq_conv)
qed

lemma leaf_segments_parts:
  "increasing 0 hi spans \<Longrightarrow> leaf_segments leaves spans = map (\<lambda>i. concat (map (leaf_part leaves i) spans)) [0..<length leaves]"
  using segments_fold [of 0 hi spans 0 leaves "map (\<lambda>_. []) leaves"]
  by (simp add: leaf_segments_def leaf_offset_def cong: map_cong)


section \<open>Masking the leaves masks the joined text\<close>

lemma plug_placeholder: "CHR ''-'' \<notin> set k \<Longrightarrow> plug (placeholder k)"
  by (auto simp: plug_def placeholder_def)

lemma covered_Cons: "covered ((a, b) # spans) i \<longleftrightarrow> (a \<le> i \<and> i < b) \<or> covered spans i"
  by (simp add: covered_def)

lemma covered_increasing: "increasing lo hi spans \<Longrightarrow> covered spans i \<Longrightarrow> lo \<le> i"
  by (induction lo hi spans rule: increasing.induct) (force simp: covered_def)+

lemma masks_slice: "masks (map (\<lambda>i. (t ! i, False)) [a..<b]) (map ((!) t) [a..<b])"
  using masks_same [of "map ((!) t) [a..<b]"] by (simp add: comp_def)

lemma slice_nth: "b \<le> length t \<Longrightarrow> slice t a b = map ((!) t) [a..<b]"
  by (auto simp: slice_def intro: nth_equalityI)

lemma masks_mask_from:
  "increasing cursor (length t) segs \<Longrightarrow>
    masks (map (\<lambda>i. (t ! i, covered segs i)) [cursor..<length t]) (mask_from t cursor segs)"
proof (induction t cursor segs rule: mask_from.induct)
  case (1 t cursor)
  then show ?case
    using masks_slice [of t cursor "length t"] slice_nth [of "length t" t cursor] by (simp add: covered_def slice_def)
next
  case (2 t cursor a b segs)
  from 2(2) have i: "cursor \<le> a" "a < b" "increasing b (length t) segs" "b \<le> length t" using increasing_le by auto
  then have split: "[cursor..<length t] = [cursor..<a] @ [a..<b] @ [b..<length t]"
    using upt_add_eq_append [of cursor a "length t - a"] upt_add_eq_append [of a b "length t - b"] by simp
  have none: "covered segs j \<Longrightarrow> b \<le> j" for j using covered_increasing [OF i(3)] by blast
  have one: "map (\<lambda>j. (t ! j, covered ((a, b) # segs) j)) [cursor..<a] = map (\<lambda>j. (t ! j, False)) [cursor..<a]"
    using none i(2) by (fastforce simp: covered_Cons)
  have three: "map (\<lambda>j. (t ! j, covered ((a, b) # segs) j)) [b..<length t] = map (\<lambda>j. (t ! j, covered segs j)) [b..<length t]"
    by (simp add: covered_Cons)
  have "masks (map (\<lambda>j. (t ! j, covered ((a, b) # segs) j)) [a..<b] @ map (\<lambda>j. (t ! j, covered segs j)) [b..<length t])
      (placeholder ''private_key'' @ mask_from t b segs)"
    using i by (intro masks_plug plug_placeholder 2(1)) auto
  with masks_append [OF masks_slice [of t cursor a]] show ?case
    unfolding split map_append one three mask_from.simps using i by (simp add: slice_nth)
qed

text \<open>The joined text with its flags: a character of a leaf that may be masked is flagged when it
  is covered; separators and the other leaves are not.\<close>

fun flagged :: "(nat \<Rightarrow> bool) \<Rightarrow> nat \<Rightarrow> (string \<times> bool) list \<Rightarrow> (char \<times> bool) list" where
  "flagged cov off [] = []"
| "flagged cov off ((w, mk) # ws) = map (\<lambda>k. (w ! k, mk \<and> cov (off + k))) [0..<length w]
     @ (if ws = [] then [] else (CHR '' '', False) # flagged cov (off + (length w + 1)) ws)"

lemma join_Cons: "join sep (w # ws) = w @ (if ws = [] then [] else sep @ join sep ws)"
  by (cases ws) auto

lemma flagged_text: "map fst (flagged cov off ws) = join '' '' (map fst ws)"
  by (induction cov off ws rule: flagged.induct) (simp_all add: join_Cons comp_def map_nth)

lemma masks_flagged:
  assumes "length ws' = length ws"
    and "\<And>i. i < length ws \<Longrightarrow> masks (map (\<lambda>k. (fst (ws ! i) ! k, snd (ws ! i) \<and> cov (off + (leaf_offset (map fst ws) i + k))))
          [0..<length (fst (ws ! i))]) (ws' ! i)"
  shows "masks (flagged cov off ws) (join '' '' ws')"
  using assms
proof (induction cov off ws arbitrary: ws' rule: flagged.induct)
  case (2 cov off w mk ws)
  then obtain v vs where ws': "ws' = v # vs" "length vs = length ws" by (cases ws') auto
  have one: "masks (map (\<lambda>k. (w ! k, mk \<and> cov (off + k))) [0..<length w]) v"
    using 2(3) [of 0] by (simp add: ws' leaf_offset_def)
  show ?case
  proof (cases "ws = []")
    case True
    with one ws' show ?thesis by simp
  next
    case False
    have "masks (flagged cov (off + (length w + 1)) ws) (join '' '' vs)"
    proof (rule 2(1) [OF False ws'(2)])
      fix i assume "i < length ws"
      with 2(3) [of "Suc i"] show "masks (map (\<lambda>k. (fst (ws ! i) ! k, snd (ws ! i) \<and> cov (off + (length w + 1)
          + (leaf_offset (map fst ws) i + k)))) [0..<length (fst (ws ! i))]) (vs ! i)"
        by (simp add: ws' leaf_offset_def add.assoc)
    qed
    from masks_append [OF one masks_keep [OF this]] False ws'(2) show ?thesis
      by (cases vs) (simp_all add: ws')
  qed
qed (simp add: masks.intros)

definition double_dash :: "string \<Rightarrow> bool" where
  "double_dash w \<longleftrightarrow> (\<exists>u v. w = u @ ''--'' @ v)"

lemma double_dashI:
  assumes "Suc i < length w" and "w ! i = CHR ''-''" and "w ! Suc i = CHR ''-''"
  shows "double_dash w"
proof -
  have "drop i w = ''--'' @ drop (Suc (Suc i)) w"
    using assms Cons_nth_drop_Suc [of i w] Cons_nth_drop_Suc [of "Suc i" w] by simp
  then show ?thesis unfolding double_dash_def by (metis append_take_drop_id)
qed

text \<open>A covered character that is not flagged is no first dash of two, unless a leaf that cannot
  be masked has two.\<close>

lemma flagged_dash:
  assumes "Suc p < length (flagged cov off ws)" and "fst (flagged cov off ws ! p) = CHR ''-''"
    and "fst (flagged cov off ws ! Suc p) = CHR ''-''" and "\<not> snd (flagged cov off ws ! p)" and "cov (off + p)"
  shows "list_ex (\<lambda>(w, mk). \<not> mk \<and> double_dash w) ws"
  using assms
proof (induction cov off ws arbitrary: p rule: flagged.induct)
  case (2 cov off w mk ws)
  let ?here = "map (\<lambda>k. (w ! k, mk \<and> cov (off + k))) [0..<length w]"
  consider "Suc p < length w" | "Suc p = length w" "ws \<noteq> []" | "p = length w" "ws \<noteq> []" | "length w < p" "ws \<noteq> []"
    using 2(2) by (cases "ws = []") force+
  then show ?case
  proof cases
    case 1
    with 2(3-6) have "w ! p = CHR ''-''" "w ! Suc p = CHR ''-''" "\<not> mk" by (simp_all add: nth_append)
    with 1 double_dashI show ?thesis by auto
  next
    case a: 2
    with 2(4) show ?thesis by (simp add: nth_append)
  next
    case 3
    with 2(3) show ?thesis by (simp add: nth_append)
  next
    case 4
    define q where "q = p - (length w + 1)"
    have p: "p = length w + 1 + q" using 4(1) by (simp add: q_def)
    have "flagged cov off ((w, mk) # ws) ! p = flagged cov (off + (length w + 1)) ws ! q"
      "flagged cov off ((w, mk) # ws) ! Suc p = flagged cov (off + (length w + 1)) ws ! Suc q"
      using 4(2) by (simp_all add: p nth_append)
    with 2(1) [OF 4(2), of q] 2(2-6) 4(2) show ?thesis by (simp add: p add.assoc)
  qed
qed simp

text \<open>Masking the private-key spans of the joined text leaves no marker.\<close>

lemma masked_join_key_free:
  assumes "masks (flagged (covered (private_key_spans (join '' '' (map fst ws)))) 0 ws) t"
    and "\<not> list_ex (\<lambda>(w, mk). \<not> mk \<and> double_dash w) ws"
  shows "key_free t"
  unfolding key_free_def
proof (intro allI impI notI)
  fix u m v
  assume m: "m \<in> set key_markers" and t: "t = u @ m @ v"
  let ?s = "join '' '' (map fst ws)"
  let ?F = "flagged (covered (private_key_spans ?s)) 0 ws"
  from masks_occurs [OF assms(1) t] marker_dashed [OF m] obtain u' v' where
    o: "map fst ?F = u' @ m @ v'" "\<not> snd (?F ! length u')" by blast
  then have s: "?s = u' @ m @ v'" by (simp add: flagged_text)
  from marker_dashed [OF m] obtain m' where m': "m = ''--'' @ m'" by (metis append_take_drop_id)
  have len: "length ?F = length (u' @ m @ v')" using o(1) by (metis length_map)
  have ch: "fst (?F ! length u') = CHR ''-''" "fst (?F ! Suc (length u')) = CHR ''-''"
    using arg_cong [OF o(1), of "\<lambda>l. l ! length u'"] arg_cong [OF o(1), of "\<lambda>l. l ! Suc (length u')"] len
    by (simp_all add: m' nth_append)
  show False
  proof (cases "covered (private_key_spans ?s) (length u')")
    case True
    with flagged_dash [OF _ ch(1,2) o(2)] assms(2) len show False by (simp add: m')
  next
    case False
    have "length u' < length ?s" by (simp add: s m')
    from uncovered_no_key [OF this False] obtain prev where "match_here PII_PRIVATE_KEY_RE (prev, m @ v') = None" by (auto simp: s)
    with key_match_iff [of prev "m @ v'"] m show False by (auto simp: list_ex_iff has_prefix_def)
  qed
qed


section \<open>Replacing the leaves of a row\<close>

text \<open>Which leaves may be masked, in order.\<close>

fun maskable :: "string option \<Rightarrow> json \<Rightarrow> bool list" where
  "maskable key (JObj kvs) = concat (map (\<lambda>kv. maskable (Some (fst kv)) (snd kv)) kvs)"
| "maskable key (JList vs) = concat (map (maskable None) vs)"
| "maskable key JNull = []"
| "maskable key (JStr s) = [\<not> (key = Some ''role'' \<and> s \<in> set VALID_MESSAGE_ROLES)]"
| "maskable key v = [False]"

definition masked_leaf :: "string \<Rightarrow> bool \<times> string option \<Rightarrow> string" where
  "masked_leaf w mm = (case mm of (True, Some t) \<Rightarrow> t | _ \<Rightarrow> w)"

definition masked_leaves :: "string list \<Rightarrow> bool list \<Rightarrow> string option list \<Rightarrow> string list" where
  "masked_leaves ws mks ms = map2 masked_leaf ws (zip mks ms)"

lemma masked_leaves_append:
  "length mks = length ws \<Longrightarrow> length ms = length ws \<Longrightarrow>
    masked_leaves (ws @ ws') (mks @ mks') (ms @ ms') = masked_leaves ws mks ms @ masked_leaves ws' mks' ms'"
  by (simp add: masked_leaves_def)

lemma length_concat_eq:
  "(\<And>x. x \<in> set xs \<Longrightarrow> length (f x) = length (g x)) \<Longrightarrow> length (concat (map f xs)) = length (concat (map g xs))"
  by (induction xs) auto

lemma length_maskable: "length (maskable key v) = length (collect_text_values rt v)"
proof (induction v arbitrary: key)
  case (JList vs)
  then show ?case by (auto intro: length_concat_eq)
next
  case (JObj kvs)
  then show ?case by (fastforce intro: length_concat_eq)
qed auto

definition replaced :: "runtime \<Rightarrow> string option \<Rightarrow> json \<Rightarrow> json \<Rightarrow> string option list \<Rightarrow> bool" where
  "replaced rt key v v' ms \<longleftrightarrow> collect_text_values rt v' = masked_leaves (collect_text_values rt v) (maskable key v) ms
     \<and> (case v of JObj kvs \<Rightarrow> (case v' of JObj kvs' \<Rightarrow> map fst kvs' = map fst kvs | _ \<Rightarrow> False) | _ \<Rightarrow> True)"

lemma split_masks: "length (ms :: 'a list) = a + b \<Longrightarrow> \<exists>m1 m2. ms = m1 @ m2 \<and> length m1 = a \<and> length m2 = b"
  by (intro exI [of _ "take a ms"] exI [of _ "drop a ms"]) simp

lemma replace_leaves_total:
  "length ms = length (collect_text_values rt v) \<Longrightarrow>
    \<exists>v'. replace_leaves key v (ms @ rest) = Some (v', rest) \<and> replaced rt key v v' ms"
proof (induction v arbitrary: key ms rest)
  case (JList vs)
  have "\<exists>vs'. replace_items vs (ms @ rest) = Some (vs', rest)
      \<and> concat (map (collect_text_values rt) vs') = masked_leaves (concat (map (collect_text_values rt) vs)) (concat (map (maskable None) vs)) ms"
    using JList
  proof (induction vs arbitrary: ms)
    case (Cons v vs)
    from Cons(3) obtain m1 m2 where m: "ms = m1 @ m2" "length m1 = length (collect_text_values rt v)"
      "length m2 = length (collect_text_values rt (JList vs))"
      using split_masks [of ms "length (collect_text_values rt v)" "length (collect_text_values rt (JList vs))"] by auto
    from Cons(2) [of v m1 None "m2 @ rest"] m obtain v' where v': "replace_leaves None v (m1 @ m2 @ rest) = Some (v', m2 @ rest)"
      "replaced rt None v v' m1" by auto
    from Cons(1) [of m2] Cons(2) m(3) obtain vs' where "replace_items vs (m2 @ rest) = Some (vs', rest)"
      "concat (map (collect_text_values rt) vs') = masked_leaves (concat (map (collect_text_values rt) vs)) (concat (map (maskable None) vs)) m2"
      by auto
    with v' m show ?case by (simp add: replaced_def masked_leaves_append length_maskable)
  qed (simp add: masked_leaves_def)
  then show ?case by (auto simp: replaced_def)
next
  case (JObj kvs)
  have "\<exists>kvs'. replace_members kvs (ms @ rest) = Some (kvs', rest) \<and> map fst kvs' = map fst kvs
      \<and> concat (map (\<lambda>kv. collect_text_values rt (snd kv)) kvs')
        = masked_leaves (concat (map (\<lambda>kv. collect_text_values rt (snd kv)) kvs)) (concat (map (\<lambda>kv. maskable (Some (fst kv)) (snd kv)) kvs)) ms"
    using JObj
  proof (induction kvs arbitrary: ms)
    case (Cons kv kvs)
    obtain k v where kv: "kv = (k, v)" by force
    from Cons(3) obtain m1 m2 where m: "ms = m1 @ m2" "length m1 = length (collect_text_values rt v)"
      "length m2 = length (collect_text_values rt (JObj kvs))"
      using split_masks [of ms "length (collect_text_values rt v)" "length (collect_text_values rt (JObj kvs))"] by (auto simp: kv)
    from Cons(2) [of kv v m1 "Some k" "m2 @ rest"] m obtain v' where v': "replace_leaves (Some k) v (m1 @ m2 @ rest) = Some (v', m2 @ rest)"
      "replaced rt (Some k) v v' m1" by (auto simp: kv snds.simps)
    have "length m2 = length (collect_text_values rt (JObj kvs)) \<Longrightarrow> \<exists>kvs'. replace_members kvs (m2 @ rest) = Some (kvs', rest) \<and> map fst kvs' = map fst kvs
      \<and> concat (map (\<lambda>kv. collect_text_values rt (snd kv)) kvs')
        = masked_leaves (concat (map (\<lambda>kv. collect_text_values rt (snd kv)) kvs)) (concat (map (\<lambda>kv. maskable (Some (fst kv)) (snd kv)) kvs)) m2"
      by (rule Cons(1), rule Cons(2)) auto
    with v' m show ?case by (auto simp: kv replaced_def masked_leaves_append length_maskable)
  qed (simp add: masked_leaves_def)
  then show ?case by (auto simp: replaced_def)
next
  case (JStr s)
  then obtain m where "ms = [m]" by (cases ms) auto
  then show ?case by (cases m) (auto simp: replaced_def masked_leaves_def masked_leaf_def split: bool.splits)
next
  case (JBool b)
  then obtain m where "ms = [m]" by (cases ms) auto
  then show ?case by (auto simp: replaced_def masked_leaves_def masked_leaf_def)
next
  case (JInt i)
  then obtain m where "ms = [m]" by (cases ms) auto
  then show ?case by (auto simp: replaced_def masked_leaves_def masked_leaf_def)
next
  case (JFloat x)
  then obtain m where "ms = [m]" by (cases ms) auto
  then show ?case by (auto simp: replaced_def masked_leaves_def masked_leaf_def)
qed (simp add: replaced_def masked_leaves_def)

text \<open>A leaf that cannot be masked has no two dashes in a row, if no float's text has.\<close>

definition float_text_ok :: "runtime \<Rightarrow> bool" where
  "float_text_ok rt \<longleftrightarrow> (\<forall>x. \<not> double_dash (float_repr rt x))"

lemma no_double_dash: "CHR ''-'' \<notin> set w \<Longrightarrow> \<not> double_dash w \<and> \<not> double_dash (CHR ''-'' # w)"
  by (auto simp: double_dash_def Cons_eq_append_conv)

lemma nat_str_no_dash: "CHR ''-'' \<notin> set (nat_str n)"
proof (induction n rule: nat_str.induct)
  case (1 n)
  have d: "digit_char d \<noteq> CHR ''-''" if "d < 10" for d
  proof
    assume "digit_char d = CHR ''-''"
    then have "(of_char (digit_char d) :: nat) = 45" by simp
    with that show False by (simp add: digit_char_def)
  qed
  show ?case
  proof (cases "n < 10")
    case True
    with d [OF True] show ?thesis by (subst nat_str.simps) (simp add: eq_commute)
  next
    case False
    with 1 d [of "n mod 10"] show ?thesis by (subst nat_str.simps) (auto simp: eq_commute)
  qed
qed

lemma unmaskable_leaves:
  assumes "float_text_ok rt"
  shows "(w, False) \<in> set (zip (collect_text_values rt v) (maskable key v)) \<Longrightarrow> \<not> double_dash w"
proof (induction v arbitrary: key)
  case (JList vs)
  have "(w, False) \<in> set (zip (collect_text_values rt (JList vs)) (maskable key (JList vs))) \<Longrightarrow>
      \<exists>v \<in> set vs. (w, False) \<in> set (zip (collect_text_values rt v) (maskable None v))"
    by (induction vs) (auto simp: length_maskable [of _ _ rt])
  with JList show ?case by blast
next
  case (JObj kvs)
  have "(w, False) \<in> set (zip (collect_text_values rt (JObj kvs)) (maskable key (JObj kvs))) \<Longrightarrow>
      \<exists>(k, v) \<in> set kvs. (w, False) \<in> set (zip (collect_text_values rt v) (maskable (Some k) v))"
    by (induction kvs) (auto simp: length_maskable [of _ _ rt])
  with JObj show ?case by (fastforce simp: snds.simps)
next
  case (JStr s)
  then show ?case using no_double_dash by (auto simp: VALID_MESSAGE_ROLES_def split: if_splits)
next
  case (JInt i)
  then show ?case using no_double_dash [OF nat_str_no_dash] by (auto simp: int_str_def)
next
  case (JFloat x)
  with assms show ?case by (auto simp: float_text_ok_def)
next
  case (JBool b)
  then show ?case using no_double_dash by (cases b) auto
qed simp


section \<open>The first pass\<close>

lemma leaf_masked:
  assumes "increasing 0 hi spans" and "i < length leaves"
  shows "masks (map (\<lambda>k. (leaves ! i ! k, covered spans (leaf_offset leaves i + k))) [0..<length (leaves ! i)])
    (mask_private_key_spans (leaves ! i) (leaf_segments leaves spans ! i))"
    and "leaf_segments leaves spans ! i = [] \<Longrightarrow> k < length (leaves ! i) \<Longrightarrow> \<not> covered spans (leaf_offset leaves i + k)"
proof -
  let ?o = "leaf_offset leaves i" and ?n = "length (leaves ! i)"
  let ?parts = "\<lambda>ss. concat (map (leaf_part leaves i) ss)"
  have seg: "leaf_segments leaves spans ! i = ?parts spans" using assms by (simp add: leaf_segments_parts [OF assms(1)])
  have cov: "k < ?n \<Longrightarrow> covered (?parts ss) k \<longleftrightarrow> covered ss (?o + k)" for k ss
  proof (induction ss)
    case (Cons s ss)
    then show ?case by (cases s) (auto simp: covered_def leaf_part_def Let_def)
  qed (simp add: covered_def)
  have inc: "increasing lo hi ss \<Longrightarrow> increasing (min (lo - ?o) ?n) ?n (?parts ss)" for lo ss
  proof (induction ss arbitrary: lo)
    case (Cons s ss)
    obtain a b where s: "s = (a, b)" by force
    with Cons(2) have ab: "lo \<le> a" "a < b" "increasing b hi ss" by simp_all
    show ?case
    proof (cases "max a ?o - ?o < min b (?o + ?n) - ?o")
      case True
      then have "min (b - ?o) ?n = min b (?o + ?n) - ?o" by auto
      moreover have "lo - ?o \<le> max a ?o - ?o" using ab(1) by (intro diff_le_mono) simp
      then have "min (lo - ?o) ?n \<le> max a ?o - ?o" by simp
      ultimately show ?thesis using Cons(1) [OF ab(3)] True by (simp add: s leaf_part_def [of _ _ "(a, b)"] Let_def)
    next
      case False
      then have "leaf_part leaves i s = []" by (simp add: s leaf_part_def Let_def)
      moreover from ab(1,2) have "min (lo - ?o) ?n \<le> min (b - ?o) ?n" by auto
      ultimately show ?thesis using increasing_lower [OF Cons(1) [OF ab(3)]] by simp
    qed
  qed simp
  from inc [OF assms(1)] have "increasing 0 ?n (?parts spans)" by simp
  have same: "map (\<lambda>k. (leaves ! i ! k, covered (?parts spans) k)) [0..<?n] = map (\<lambda>k. (leaves ! i ! k, covered spans (?o + k))) [0..<?n]"
    by (rule map_cong [OF refl]) (simp add: cov)
  from masks_mask_from [OF \<open>increasing 0 ?n (?parts spans)\<close>, unfolded same] show "masks (map (\<lambda>k. (leaves ! i ! k, covered spans (?o + k))) [0..<?n])
    (mask_private_key_spans (leaves ! i) (leaf_segments leaves spans ! i))"
    by (simp only: seg mask_private_key_spans_def)
  show "leaf_segments leaves spans ! i = [] \<Longrightarrow> k < ?n \<Longrightarrow> \<not> covered spans (?o + k)"
  proof -
    assume "leaf_segments leaves spans ! i = []" and k: "k < ?n"
    then have "\<not> covered (?parts spans) k" unfolding seg by (simp only: covered_def list_ex_iff) simp
    with cov [OF k] show ?thesis by simp
  qed
qed

lemma length_leaf_segments: "increasing 0 hi spans \<Longrightarrow> length (leaf_segments leaves spans) = length leaves"
  by (simp add: leaf_segments_parts)

lemma first_pass_key_free:
  assumes "float_text_ok rt"
  shows "\<exists>row' t'. redact_row_private_keys rt (JObj kvs) t = Some (JObj row', t') \<and> key_free (row_text rt (JObj row'))
    \<and> t' = (if findall PII_PRIVATE_KEY_RE (row_text rt (JObj kvs)) = [] then t
        else tally_add ''private_key'' (length (findall PII_PRIVATE_KEY_RE (row_text rt (JObj kvs)))) t)
    \<and> (findall PII_PRIVATE_KEY_RE (row_text rt (JObj kvs)) = [] \<longrightarrow> row' = kvs)"
proof -
  let ?row = "JObj kvs"
  define leaves where "leaves = collect_text_values rt ?row"
  define spans where "spans = private_key_spans (join '' '' leaves)"
  define mks where "mks = maskable None ?row"
  define ms where "ms = leaf_masks leaves spans"
  have inc: "increasing 0 (length (join '' '' leaves)) spans" unfolding spans_def by (rule private_key_spans_increasing)
  have len: "length mks = length leaves" "length ms = length leaves"
    unfolding mks_def leaves_def by (rule length_maskable)
      (simp add: ms_def leaf_masks_def length_leaf_segments [OF inc] leaves_def [symmetric] del: collect_text_values.simps)
  have count: "length (findall PII_PRIVATE_KEY_RE (row_text rt ?row)) = length spans"
  proof -
    have "length (piece_spans n ps) = length (filter fst ps)" for n ps by (induction n ps rule: piece_spans.induct) auto
    moreover have "length (key_spans s c m) = length m" for s c m by (induction s c m rule: key_spans.induct) auto
    ultimately show ?thesis
      by (simp add: findall_pieces spans_def private_key_spans_def finditer_def row_text_def leaves_def)
  qed
  define ws' where "ws' = masked_leaves leaves mks ms"
  have free: "key_free (join '' '' ws')"
  proof (rule masked_join_key_free [of "zip leaves mks"])
    show "\<not> list_ex (\<lambda>(w, mk). \<not> mk \<and> double_dash w) (zip leaves mks)"
      using unmaskable_leaves [OF assms, of _ ?row None] by (auto simp: list_ex_iff leaves_def mks_def)
    show "masks (flagged (covered (private_key_spans (join '' '' (map fst (zip leaves mks))))) 0 (zip leaves mks)) (join '' '' ws')"
    proof (rule masks_flagged)
      show "length ws' = length (zip leaves mks)" by (simp add: ws'_def masked_leaves_def len)
      fix i assume "i < length (zip leaves mks)"
      then have i: "i < length leaves" by simp
      have w': "ws' ! i = masked_leaf (leaves ! i) (mks ! i, ms ! i)" using i len by (simp add: ws'_def masked_leaves_def)
      have mi: "ms ! i = (if leaf_segments leaves spans ! i = [] then None else Some (mask_private_key_spans (leaves ! i) (leaf_segments leaves spans ! i)))"
        using i by (simp add: ms_def leaf_masks_def length_leaf_segments [OF inc])
      have same: "masks (map (\<lambda>k. (leaves ! i ! k, False)) [0..<length (leaves ! i)]) (leaves ! i)"
        using masks_slice [of "leaves ! i" 0 "length (leaves ! i)"] by (simp only: map_nth)
      have "masks (map (\<lambda>k. (leaves ! i ! k, mks ! i \<and> covered spans (leaf_offset leaves i + k))) [0..<length (leaves ! i)]) (ws' ! i)"
      proof (cases "mks ! i \<and> leaf_segments leaves spans ! i \<noteq> []")
        case True
        then show ?thesis using leaf_masked(1) [OF inc i] by (simp add: w' mi masked_leaf_def)
      next
        case False
        have "map (\<lambda>k. (leaves ! i ! k, mks ! i \<and> covered spans (leaf_offset leaves i + k))) [0..<length (leaves ! i)]
            = map (\<lambda>k. (leaves ! i ! k, False)) [0..<length (leaves ! i)]"
          by (rule map_cong [OF refl]) (use False leaf_masked(2) [OF inc i] in auto)
        moreover from False have "ws' ! i = leaves ! i" by (auto simp: w' mi masked_leaf_def split: bool.splits)
        ultimately show ?thesis using same by (simp only:)
      qed
      then show "masks (map (\<lambda>k. (fst (zip leaves mks ! i) ! k, snd (zip leaves mks ! i)
          \<and> covered (private_key_spans (join '' '' (map fst (zip leaves mks)))) (0 + (leaf_offset (map fst (zip leaves mks)) i + k))))
          [0..<length (fst (zip leaves mks ! i))]) (ws' ! i)"
        using i len by (simp add: spans_def)
    qed
  qed
  have run: "redact_row_private_keys rt ?row t = (if spans = [] then Some (?row, t)
      else map_option (\<lambda>(row', _). (row', tally_add ''private_key'' (length spans) t)) (replace_leaves None ?row ms))"
    by (simp only: redact_row_private_keys_def Let_def leaves_def spans_def ms_def)
  have none: "findall PII_PRIVATE_KEY_RE (row_text rt ?row) = [] \<longleftrightarrow> spans = []" using count by auto
  show ?thesis
  proof (cases "spans = []")
    case True
    then have "leaf_masks leaves spans = map (\<lambda>_. None) leaves"
      using leaf_segments_parts [of 0 "[]" leaves] by (intro nth_equalityI) (simp_all add: leaf_masks_def)
    then have "ws' = leaves"
      using len by (auto simp: ws'_def masked_leaves_def ms_def masked_leaf_def intro!: nth_equalityI split: bool.splits)
    with free have "key_free (row_text rt ?row)" by (simp add: row_text_def leaves_def)
    with True none show ?thesis by (simp add: run)
  next
    case False
    from replace_leaves_total [of ms rt ?row None "[]"] len obtain v' where
      v': "replace_leaves None ?row ms = Some (v', [])" "replaced rt None ?row v' ms" by (auto simp: leaves_def)
    then obtain row' where row': "v' = JObj row'" by (auto simp: replaced_def split: json.splits)
    from v'(2) have "collect_text_values rt v' = ws'" by (simp only: replaced_def ws'_def leaves_def mks_def)
    with free have "key_free (row_text rt v')" by (simp add: row_text_def)
    with v'(1) row' False none count show ?thesis by (simp add: run del: replace_leaves.simps)
  qed
qed


section \<open>The second pass\<close>

text \<open>Replacing parts of single leaves keeps the joined text free of markers.\<close>

definition patched :: "string \<Rightarrow> string \<Rightarrow> bool" where
  "patched w w' \<longleftrightarrow> masks (map (\<lambda>c. (c, False)) w) w'"

lemma patched_refl: "patched w w"
  by (simp add: patched_def masks_same)

lemma patched_append: "patched u u' \<Longrightarrow> patched v v' \<Longrightarrow> patched (u @ v) (u' @ v')"
  using masks_append by (fastforce simp: patched_def)

lemma patched_plug: "u \<noteq> [] \<Longrightarrow> plug h \<Longrightarrow> patched u h"
  using masks_plug [OF _ _ masks_Nil, of "map (\<lambda>c. (c, False)) u" h] by (simp add: patched_def)

lemma patched_join: "list_all2 patched ws ws' \<Longrightarrow> patched (join '' '' ws) (join '' '' ws')"
proof (induction rule: list_all2_induct)
  case (Cons w ws w' ws')
  then have "(ws = []) = (ws' = [])" by auto
  with Cons patched_append [OF patched_refl [of "'' ''"]] show ?case by (auto simp: join_Cons intro!: patched_append)
qed (simp add: patched_refl)

lemma patched_key_free: "patched w w' \<Longrightarrow> key_free w \<Longrightarrow> key_free w'"
  using masks_key_free [of "map (\<lambda>c. (c, False)) w"] by (simp add: patched_def comp_def)

lemma patched_pow_join: "list_all2 (patched ^^ n) ws ws' \<Longrightarrow> key_free (join '' '' ws) \<Longrightarrow> key_free (join '' '' ws')"
proof (induction n arbitrary: ws')
  case 0
  then show ?case by (simp add: list.rel_eq)
next
  case (Suc n)
  then obtain vs where "list_all2 (patched ^^ n) ws vs" "list_all2 patched vs ws'"
    by (auto simp: list.rel_compp)
  with Suc patched_join patched_key_free show ?case by blast
qed

lemma re_sub_patched: "(\<And>t. f t = t \<or> plug (f t)) \<Longrightarrow> patched s (re_sub r f s)"
proof -
  assume f: "\<And>t. f t = t \<or> plug (f t)"
  have "patched s (concat (map (\<lambda>(m, t). if m then f t else t) (pieces r (prev, s))))" for prev
  proof (induction r "(prev, s)" arbitrary: prev s rule: pieces.induct)
    case (2 r prev c cs)
    show ?case
    proof (cases "match_here r (prev, c # cs)")
      case None
      with 2(1) patched_append [OF patched_refl [of "[c]"]] show ?thesis by fastforce
    next
      case (Some q)
      define u where "u = take (length (c # cs) - length (snd q)) (c # cs)"
      have u: "u @ snd q = c # cs" "u \<noteq> []" using matched_text [OF Some] by (simp_all add: u_def)
      have "match_here r (prev, c # cs) = Some (fst q, snd q)" using Some by simp
      note IH = 2(2) [OF this]
      from f [of u] patched_plug [OF u(2)] patched_refl have "patched u (f u)" by metis
      from patched_append [OF this IH] show ?thesis by (simp add: Some u u_def [simplified, symmetric])
    qed
  qed (simp add: patched_refl)
  then show ?thesis by (simp add: re_sub_def)
qed

lemma other_patterns_patched: "(patched ^^ 7) s (fst (redact_other_patterns s t))"
proof -
  have plugs: "list_all (\<lambda>pr. CHR ''-'' \<notin> set (pt_kind (fst pr))) PII_PATTERNS" by (simp add: PII_PATTERNS_def)
  have "list_all (\<lambda>pr. CHR ''-'' \<notin> set (pt_kind (fst pr))) ps \<Longrightarrow> (patched ^^ length ps) s (fst (fold redact_pattern ps (s, t)))" for ps s t
  proof (induction ps rule: rev_induct)
    case (snoc p ps)
    obtain s1 t1 where st: "fold redact_pattern ps (s, t) = (s1, t1)" by force
    have "patched s1 (fst (redact_pattern p (s1, t1)))"
      using snoc(2) by (cases p) (auto simp: redact_pattern_def patched_refl intro!: re_sub_patched plug_placeholder)
    with snoc st show ?case by auto
  qed simp
  from this [OF plugs, of s t] have "(patched ^^ length PII_PATTERNS) s (fst (fold redact_pattern PII_PATTERNS (s, t)))" .
  moreover have "length PII_PATTERNS = 6" by (simp add: PII_PATTERNS_def)
  ultimately have "(patched ^^ 6) s (fst (fold redact_pattern PII_PATTERNS (s, t)))" by (simp only:)
  moreover have "patched s1 (fst (redact_cards (s1, t1)))" for s1 t1
    by (auto simp: redact_cards_def intro!: re_sub_patched plug_placeholder)
  ultimately have "(patched ^^ Suc 6) s (fst (redact_other_patterns s t))"
    unfolding redact_other_patterns_def relpowp.simps by (metis prod.collapse relcomppI)
  then show ?thesis by simp
qed

lemma patched_pow_refl: "(patched ^^ n) w w"
  by (induction n) (auto intro: patched_refl)

lemma number_patched: "collect_text_values rt v = [s] \<Longrightarrow>
    list_all2 (patched ^^ 7) [s] (collect_text_values rt (fst (redact_number v s t)))"
  using other_patterns_patched [of s "[]"] by (auto simp: redact_number_def patched_pow_refl split: prod.splits)

lemma redact_value_patched:
  "list_all2 (patched ^^ 7) (collect_text_values rt v) (collect_text_values rt (fst (redact_value rt v t)))"
  and redact_items_patched: "list_all2 (patched ^^ 7) (concat (map (collect_text_values rt) vs))
    (concat (map (collect_text_values rt) (fst (redact_items rt vs t))))"
  and redact_members_patched: "list_all2 (patched ^^ 7) (concat (map (\<lambda>kv. collect_text_values rt (snd kv)) kvs))
    (concat (map (\<lambda>kv. collect_text_values rt (snd kv)) (fst (redact_members rt kvs t))))"
proof (induction rt v t and rt vs t and rt kvs t rule: redact_value_redact_items_redact_members.induct)
  case (1 rt s t)
  then show ?case using other_patterns_patched [of s t] by simp
next
  case (4 rt i t)
  then show ?case using number_patched [of rt "JInt i" "int_str i" t] by simp
next
  case (5 rt x t)
  then show ?case using number_patched [of rt "JFloat x" "float_repr rt x" t] by simp
qed (auto simp: patched_pow_refl intro!: list_all2_appendI split: prod.splits)

lemma redact_row_key_free:
  assumes "float_text_ok rt"
  shows "\<exists>kvs' t. redact_row rt (JObj kvs) = Some (JObj kvs', t) \<and> key_free (row_text rt (JObj kvs'))"
proof -
  from first_pass_key_free [OF assms, of kvs "[]"] obtain row' t' where
    r: "redact_row_private_keys rt (JObj kvs) [] = Some (JObj row', t')" "key_free (row_text rt (JObj row'))" by blast
  from patched_pow_join [OF redact_members_patched [of rt row' t']] r(2)
  have "key_free (row_text rt (JObj (fst (redact_members rt row' t'))))" by (simp add: row_text_def)
  with r(1) show ?thesis by (cases "redact_members rt row' t'") (simp add: redact_row_def)
qed


section \<open>Tallies and the report\<close>

text \<open>The count of a kind in a tally, and of every kind.\<close>

definition kind_sum :: "string \<Rightarrow> tally \<Rightarrow> nat" where
  "kind_sum k t = sum_list (map snd (filter (\<lambda>kn. fst kn = k) t))"

definition total_sum :: "tally \<Rightarrow> nat" where
  "total_sum t = sum_list (map snd t)"

lemma tally_add_sums:
  "kind_sum k (tally_add k' n t) = kind_sum k t + (if k = k' then n else 0) \<and> total_sum (tally_add k' n t) = total_sum t + n"
  unfolding tally_add_def kind_sum_def total_sum_def by (induction t) auto

lemma tally_add_Cons: "tally_add k n t \<noteq> []"
  unfolding tally_add_def by (cases t) auto

lemma merge_tally_sums:
  "kind_sum k (merge_tally hits t) = kind_sum k t + kind_sum k hits \<and> total_sum (merge_tally hits t) = total_sum t + total_sum hits"
proof (induction hits arbitrary: t)
  case (Cons kn hits)
  then show ?case
    by (cases kn) (simp add: merge_tally_def tally_add_sums, simp add: kind_sum_def total_sum_def)
qed (simp add: merge_tally_def kind_sum_def total_sum_def)

lemma merge_tally_Nil: "merge_tally hits t = [] \<longleftrightarrow> hits = [] \<and> t = []"
proof (induction hits rule: rev_induct)
  case (snoc kn hits)
  then show ?case using tally_add_Cons by (cases kn) (simp add: merge_tally_def)
qed (simp add: merge_tally_def)

lemma count_hits_other: "k \<noteq> k' \<Longrightarrow> kind_sum k (count_hits k' n t) = kind_sum k t"
  by (simp add: count_hits_def tally_add_sums)

lemma count_hits_Nil: "count_hits k n t = [] \<longleftrightarrow> n = 0 \<and> t = []"
  using tally_add_Cons by (simp add: count_hits_def)

text \<open>Without a hit nothing changes, and the second pass counts no private key.\<close>

lemma re_sub_same: "(\<And>m. m \<in> set (findall r s) \<Longrightarrow> f m = m) \<Longrightarrow> re_sub r f s = s"
proof -
  assume f: "\<And>m. m \<in> set (findall r s) \<Longrightarrow> f m = m"
  have "concat (map snd (pieces r p)) = snd p" for p
  proof (induction r p rule: pieces.induct)
    case (2 r prev c cs)
    then show ?case
      by (cases "match_here r (prev, c # cs)") (auto dest: matched_text(1))
  qed simp
  from this [of "(None, s)"] have "concat (map snd (pieces r (None, s))) = s" by simp
  moreover have "map (\<lambda>(m, t). if m then f t else t) (pieces r (None, s)) = map snd (pieces r (None, s))"
    using f by (force simp: findall_pieces)
  ultimately show ?thesis unfolding re_sub_def by (simp only:)
qed

lemma redact_pattern_tally:
  "kind_sum ''private_key'' (snd (redact_pattern pr st)) = kind_sum ''private_key'' (snd st)
   \<and> (snd (redact_pattern pr st) = [] \<longrightarrow> redact_pattern pr st = st)"
  by (cases pr; cases st) (auto simp: redact_pattern_def count_hits_other count_hits_Nil intro!: re_sub_same)

lemma redact_other_tally:
  "kind_sum ''private_key'' (snd (redact_other_patterns s t)) = kind_sum ''private_key'' t
   \<and> (snd (redact_other_patterns s t) = [] \<longrightarrow> redact_other_patterns s t = (s, t))"
proof -
  have "kind_sum ''private_key'' (snd (fold redact_pattern ps st)) = kind_sum ''private_key'' (snd st)
      \<and> (snd (fold redact_pattern ps st) = [] \<longrightarrow> fold redact_pattern ps st = st)" for ps st
  proof (induction ps rule: rev_induct)
    case (snoc p ps)
    then show ?case using redact_pattern_tally [of p "fold redact_pattern ps st"] by auto
  qed simp
  moreover have "kind_sum ''private_key'' (snd (redact_cards st)) = kind_sum ''private_key'' (snd st)
      \<and> (snd (redact_cards st) = [] \<longrightarrow> redact_cards st = st)" for st
    by (cases st) (auto simp: redact_cards_def count_hits_other count_hits_Nil filter_empty_conv intro!: re_sub_same)
  ultimately show ?thesis unfolding redact_other_patterns_def by (metis snd_conv)
qed

lemma redact_number_tally:
  "kind_sum ''private_key'' (snd (redact_number v s t)) = kind_sum ''private_key'' t
   \<and> (snd (redact_number v s t) = [] \<longrightarrow> redact_number v s t = (v, t))"
  using redact_other_tally [of s "[]"]
  by (auto simp: redact_number_def merge_tally_sums merge_tally_Nil split: prod.splits) (simp add: kind_sum_def)

lemma redact_value_tally:
  "kind_sum ''private_key'' (snd (redact_value rt v t)) = kind_sum ''private_key'' t
    \<and> (snd (redact_value rt v t) = [] \<longrightarrow> redact_value rt v t = (v, t))"
  and redact_items_tally: "kind_sum ''private_key'' (snd (redact_items rt vs t)) = kind_sum ''private_key'' t
    \<and> (snd (redact_items rt vs t) = [] \<longrightarrow> redact_items rt vs t = (vs, t))"
  and redact_members_tally: "kind_sum ''private_key'' (snd (redact_members rt kvs t)) = kind_sum ''private_key'' t
    \<and> (snd (redact_members rt kvs t) = [] \<longrightarrow> redact_members rt kvs t = (kvs, t))"
proof (induction rt v t and rt vs t and rt kvs t rule: redact_value_redact_items_redact_members.induct)
  case (1 rt s t)
  then show ?case using redact_other_tally [of s t] by (auto simp: map_prod_def split: prod.splits)
next
  case (4 rt i t)
  then show ?case using redact_number_tally by simp
next
  case (5 rt x t)
  then show ?case using redact_number_tally by simp
next
  case (2 rt vs t)
  then show ?case by (cases "redact_items rt vs t") auto
next
  case (3 rt kvs t)
  then show ?case by (cases "redact_members rt kvs t") auto
next
  case (8 rt v vs t)
  obtain v' t1 where v: "redact_value rt v t = (v', t1)" by force
  obtain vs' t2 where "redact_items rt vs t1 = (vs', t2)" by force
  with 8(1) 8(2) [OF v [symmetric]] v show ?case by auto
next
  case (10 rt k v kvs t)
  obtain v' t1 where v: "redact_value rt v t = (v', t1)" by force
  obtain kvs' t2 where "redact_members rt kvs t1 = (kvs', t2)" by force
  with 10(1) 10(2) [OF v [symmetric]] v show ?case by auto
qed simp_all

lemma redact_row_tally:
  assumes "float_text_ok rt" and "redact_row rt (JObj kvs) = Some (row, t)"
  shows "kind_sum ''private_key'' t = length (kind_matches rt ''private_key'' (JObj kvs)) \<and> (t = [] \<longrightarrow> row = JObj kvs)"
proof -
  from first_pass_key_free [OF assms(1), of kvs "[]"] obtain row' t' where
    r: "redact_row_private_keys rt (JObj kvs) [] = Some (JObj row', t')"
    "t' = (if findall PII_PRIVATE_KEY_RE (row_text rt (JObj kvs)) = [] then []
        else tally_add ''private_key'' (length (findall PII_PRIVATE_KEY_RE (row_text rt (JObj kvs)))) [])"
    "findall PII_PRIVATE_KEY_RE (row_text rt (JObj kvs)) = [] \<longrightarrow> row' = kvs" by blast
  have km: "kind_matches rt ''private_key'' (JObj kvs) = findall PII_PRIVATE_KEY_RE (row_text rt (JObj kvs))"
    by (auto simp: kind_matches_def row_matches_def Let_def PII_PATTERNS_def findall_def)
  have "kind_sum ''private_key'' t' = length (kind_matches rt ''private_key'' (JObj kvs))"
    unfolding km by (simp add: r(2) tally_add_sums) (simp add: kind_sum_def)
  moreover from r(1) assms(2) have row: "row = JObj (fst (redact_members rt row' t'))" "t = snd (redact_members rt row' t')"
    by (auto simp: redact_row_def map_prod_def split: prod.splits)
  moreover have "row = JObj kvs" if "t = []"
  proof -
    from that row redact_members_tally [of rt row' t'] have "t' = []" "fst (redact_members rt row' t') = row'" by auto
    moreover from this(1) tally_add_Cons r(2,3) have "row' = kvs" by (auto split: if_splits)
    ultimately show ?thesis using row by simp
  qed
  ultimately show ?thesis using redact_members_tally [of rt row' t'] by simp
qed

lemma kind_matches_private_key: "kind_matches rt ''private_key'' row = findall PII_PRIVATE_KEY_RE (row_text rt row)"
  by (auto simp: kind_matches_def row_matches_def Let_def PII_PATTERNS_def findall_def)

definition is_row :: "json \<Rightarrow> bool" where
  "is_row v \<longleftrightarrow> (case v of JObj _ \<Rightarrow> True | _ \<Rightarrow> False)"

definition redaction_inv :: "runtime \<Rightarrow> json list \<Rightarrow> redaction_state option \<Rightarrow> bool" where
  "redaction_inv rt rows st \<longleftrightarrow> (case st of None \<Rightarrow> False | Some s \<Rightarrow>
     length (rs_rows s) = length rows \<and> list_all (\<lambda>r. key_free (row_text rt r)) (rs_rows s)
     \<and> kind_sum ''private_key'' (rs_by_kind s) = sum_list (map (\<lambda>r. length (kind_matches rt ''private_key'' r)) rows)
     \<and> total_sum (rs_by_kind s) = rs_spans s
     \<and> list_all (\<lambda>(n, r, r'). r = r' \<or> n \<in> set (rs_affected s)) (enum_from 1 (zip rows (rs_rows s))))"

lemma redaction_inv_step:
  assumes "float_text_ok rt" and "is_row r" and "redaction_inv rt rows st"
  shows "redaction_inv rt (rows @ [r]) (redact_step rt (Suc (length rows), r) st)"
proof -
  from assms(2) obtain kvs where r: "r = JObj kvs" by (auto simp: is_row_def split: json.splits)
  from redact_row_key_free [OF assms(1), of kvs] obtain kvs' t where
    k: "redact_row rt (JObj kvs) = Some (JObj kvs', t)" "key_free (row_text rt (JObj kvs'))" by blast
  from assms(3) obtain s where s: "st = Some s" by (auto simp: redaction_inv_def split: option.splits)
  have mono: "list_all (\<lambda>(n, r, r'). r = r' \<or> n \<in> set xs) ys \<Longrightarrow> list_all (\<lambda>(n, r, r'). r = r' \<or> n = m \<or> n \<in> set xs) ys"
    for xs :: "nat list" and ys :: "(nat \<times> json \<times> json) list" and m by (auto simp: list_all_iff)
  show ?thesis
    using assms(3) redact_row_tally [OF assms(1) k(1)] k mono
    by (auto simp: redaction_inv_def redact_step_def s r Let_def merge_tally_sums total_sum_def [of t] kind_sum_def [of _ "[]"])
qed

lemma redaction_run:
  assumes "float_text_ok rt" and "list_all is_row rows"
  shows "redaction_inv rt rows (for_rows (redact_step rt) rows (Some \<lparr>rs_rows = [], rs_by_kind = [], rs_affected = [], rs_spans = 0\<rparr>))"
  using assms(2)
proof (induction rows rule: rev_induct)
  case (snoc r rows)
  then show ?case using redaction_inv_step [OF assms(1)] by simp
qed (simp add: redaction_inv_def kind_sum_def total_sum_def)

lemma no_hits_no_finding:
  assumes "hit_rows rt k rows = []"
  shows "k \<notin> set (map pf_kind (detect_pii rt rows))"
proof
  let ?d = "for_rows (record_row rt) rows []"
  assume "k \<in> set (map pf_kind (detect_pii rt rows))"
  then have "k \<in> set (dkeys ?d)" by (force simp: detect_pii_def finding_of_def)
  then obtain e where "dget ?d k = Some e" by (metis map_of_eq_None_iff not_None_eq set_map)
  with detect_entries [of rt rows] have "entry_ok rt rows k (Some e)" by metis
  with assms show False by (simp add: entry_ok_def)
qed


section \<open>Properties\<close>

text \<open>C40: The single pass over spans and leaves is exact. Walking both lists once, each leaf gets
  the parts of the private-key spans that lie on it, in order, as if every span were cut with
  every leaf.\<close>

theorem leaf_segments_exact:
  "let spans = private_key_spans (join '' '' leaves) in
    leaf_segments leaves spans = map (\<lambda>i. concat (map (leaf_part leaves i) spans)) [0..<length leaves]"
  using leaf_segments_parts [OF private_key_spans_increasing] by (simp add: Let_def)

text \<open>C18: No private key survives redaction. Redacting the rows of a dataset always succeeds, gives
  as many rows, and on them the detector reports no private key: not in a row whose key was
  split over several fields, not next to a placeholder, and not in what the later patterns
  rewrote.\<close>

theorem redaction_clears_private_keys:
  assumes "float_text_ok rt" and "list_all is_row rows"
  shows "\<exists>out report. redact_rows rt rows = Some (out, report) \<and> length out = length rows
    \<and> hit_rows rt ''private_key'' out = [] \<and> ''private_key'' \<notin> set (map pf_kind (detect_pii rt out))"
proof -
  from redaction_run [OF assms] obtain s where s:
    "for_rows (redact_step rt) rows (Some \<lparr>rs_rows = [], rs_by_kind = [], rs_affected = [], rs_spans = 0\<rparr>) = Some s"
    "length (rs_rows s) = length rows" "list_all (\<lambda>r. key_free (row_text rt r)) (rs_rows s)"
    by (auto simp: redaction_inv_def split: option.splits)
  have "hit_rows rt ''private_key'' (rs_rows s) = []"
  proof -
    have "snd nr \<in> set (rs_rows s)" if "nr \<in> set (enum_from 1 (rs_rows s))" for nr
    proof -
      from that have "snd nr \<in> set (map snd (enum_from 1 (rs_rows s)))" by (simp only: set_map image_eqI)
      then show ?thesis by (simp only: map_snd_enum_from)
    qed
    then show ?thesis using s(3) key_free_findall by (auto simp: hit_rows_def filter_empty_conv kind_matches_private_key list_all_iff)
  qed
  with s no_hits_no_finding show ?thesis by (auto simp: redact_rows_def)
qed

text \<open>The report tells what was masked. Its spans are the sum of its counts, its count of
  private keys is the detector's number of matches on the rows, and as long as no row number
  was cut off, every row that changed is listed.\<close>

theorem redaction_report_is_exact:
  assumes "float_text_ok rt" and "list_all is_row rows"
  shows "case redact_rows rt rows of None \<Rightarrow> False | Some (out, report) \<Rightarrow>
    rr_redacted_spans report = sum_list (map rh_count (rr_by_kind report))
    \<and> sum_list (map rh_count (filter (\<lambda>h. rh_kind h = ''private_key'') (rr_by_kind report)))
        = sum_list (map (\<lambda>r. length (kind_matches rt ''private_key'' r)) rows)
    \<and> (if rr_redacted_rows report \<le> REDACTION_MANIFEST_ROW_LIMIT
       then list_all (\<lambda>(n, r, r'). r = r' \<or> n \<in> set (rr_affected_row_numbers report)) (enum_from 1 (zip rows out)) else True)"
proof -
  from redaction_run [OF assms] obtain s where s:
    "for_rows (redact_step rt) rows (Some \<lparr>rs_rows = [], rs_by_kind = [], rs_affected = [], rs_spans = 0\<rparr>) = Some s"
    "kind_sum ''private_key'' (rs_by_kind s) = sum_list (map (\<lambda>r. length (kind_matches rt ''private_key'' r)) rows)"
    "total_sum (rs_by_kind s) = rs_spans s"
    "list_all (\<lambda>(n, r, r'). r = r' \<or> n \<in> set (rs_affected s)) (enum_from 1 (zip rows (rs_rows s)))"
    by (auto simp: redaction_inv_def split: option.splits)
  have sums: "sum_list (map rh_count (map (\<lambda>(k, n). \<lparr>rh_kind = k, rh_count = n\<rparr>) (sort t))) = total_sum t"
    "sum_list (map rh_count (filter (\<lambda>h. rh_kind h = k) (map (\<lambda>(k, n). \<lparr>rh_kind = k, rh_count = n\<rparr>) (sort t)))) = kind_sum k t" for k t
  proof -
    have c: "rh_count \<circ> (\<lambda>(k, n). \<lparr>rh_kind = k, rh_count = n\<rparr>) = snd" "(\<lambda>h. rh_kind h = k) \<circ> (\<lambda>(k, n). \<lparr>rh_kind = k, rh_count = n\<rparr>) = (\<lambda>kn. fst kn = k)"
      by auto
    have m: "sum_list (map snd (filter P (sort t))) = sum_list (map snd (filter P t))" for P
      by (metis mset_filter mset_map mset_sort sum_mset_sum_list)
    show "sum_list (map rh_count (map (\<lambda>(k, n). \<lparr>rh_kind = k, rh_count = n\<rparr>) (sort t))) = total_sum t"
      using m [of "\<lambda>_. True"] by (simp add: c total_sum_def)
    show "sum_list (map rh_count (filter (\<lambda>h. rh_kind h = k) (map (\<lambda>(k, n). \<lparr>rh_kind = k, rh_count = n\<rparr>) (sort t)))) = kind_sum k t"
      by (simp only: filter_map map_map c m kind_sum_def)
  qed
  show ?thesis using s sums by (simp add: redact_rows_def)
qed

lemma sample_float_text_ok: "float_text_ok sample_rt"
proof -
  have "\<not> double_dash (sample_repr x)" for x
  proof -
    obtain p q where x: "quotient_of x = (p, q)" by force
    with quotient_of_denom_pos have "0 < q" by blast
    then have "CHR ''-'' \<notin> set (int_str q)" by (simp add: int_str_def nat_str_no_dash)
    then have tail: "CHR ''-'' \<notin> set (nat_str n @ CHR ''.'' # int_str q)" for n by (simp add: nat_str_no_dash)
    from no_double_dash [OF tail] show ?thesis by (auto simp: sample_repr_def x int_str_def split: if_splits)
  qed
  then show ?thesis by (simp add: float_text_ok_def sample_rt_def)
qed

text \<open>A key split over two fields.\<close>

definition split_key_row :: json where
  "split_key_row = JObj [(''a'', JStr ''-----BEGIN PRIVATE''), (''b'', JStr ''KEY-----abc'')]"

lemma split_key_found: "length (kind_matches sample_rt ''private_key'' split_key_row) = 1"
  unfolding kind_matches_private_key by code_simp

theorem redaction_clears_private_keys_witness:
  "length (kind_matches sample_rt ''private_key'' split_key_row) = 1
   \<and> (\<exists>out report. redact_rows sample_rt [split_key_row] = Some (out, report) \<and> hit_rows sample_rt ''private_key'' out = [])"
proof
  show "length (kind_matches sample_rt ''private_key'' split_key_row) = 1" by (rule split_key_found)
  have "list_all is_row [split_key_row]" by (simp add: is_row_def split_key_row_def)
  from redaction_clears_private_keys [OF sample_float_text_ok this]
  show "\<exists>out report. redact_rows sample_rt [split_key_row] = Some (out, report) \<and> hit_rows sample_rt ''private_key'' out = []"
    by blast
qed

theorem redaction_report_is_exact_witness:
  "case redact_rows sample_rt [split_key_row] of None \<Rightarrow> False | Some (out, report) \<Rightarrow>
    sum_list (map rh_count (filter (\<lambda>h. rh_kind h = ''private_key'') (rr_by_kind report))) = 1"
proof -
  have "list_all is_row [split_key_row]" by (simp add: is_row_def split_key_row_def)
  from redaction_report_is_exact [OF sample_float_text_ok this]
  have e: "case redact_rows sample_rt [split_key_row] of None \<Rightarrow> False | Some (out, report) \<Rightarrow>
    sum_list (map rh_count (filter (\<lambda>h. rh_kind h = ''private_key'') (rr_by_kind report)))
      = length (kind_matches sample_rt ''private_key'' split_key_row)" by (auto split: option.splits)
  then show ?thesis unfolding split_key_found .
qed

text \<open>The other patterns are masked leaf by leaf, but searched in the joined text: a card number
  over two fields is still reported after redaction, and one followed by a number is not
  reported at all.\<close>

lemma kind_matches_credit_card: "kind_matches rt ''credit_card'' row = credit_cards (row_text rt row)"
  by (auto simp: kind_matches_def row_matches_def Let_def PII_PATTERNS_def credit_card_pattern_def credit_cards_def findall_def)

lemma card_over_two_fields:
  "let row = JObj [(''a'', JStr ''41111111''), (''b'', JStr ''11111111'')] in
    redact_row sample_rt row = Some (row, []) \<and> kind_matches sample_rt ''credit_card'' row \<noteq> []"
  unfolding kind_matches_credit_card by code_simp

lemma card_before_number:
  "let card = JObj [(''card'', JStr ''4111111111111111'')];
       both = JObj [(''card'', JStr ''4111111111111111''), (''cvv'', JStr ''123'')] in
    kind_matches sample_rt ''credit_card'' card \<noteq> [] \<and> kind_matches sample_rt ''credit_card'' both = []"
  unfolding kind_matches_credit_card by code_simp

end
