(* ===== verification/Worker_Protocol.thy ===== *)
theory Worker_Protocol
  imports Supervisor
begin

text \<open>
  The protocol between the run supervisor and its worker process (\<open>platform/worker_protocol.py\<close>,
  the message contracts of \<open>platform/contracts.py\<close>) and the worker (\<open>platform/worker.py\<close>). A line is
  text; parameters give what \<open>json.loads\<close> makes of it and what pydantic reads from the JSON of a
  body, by the type of the message. Process ids, time stamps and message texts are left out.
\<close>

section \<open>Messages\<close>

datatype message_type = M_hello | M_capability_probe_request | M_capability_report | M_run_dispatch | M_run_accepted
  | M_run_rejected | M_run_control | M_event | M_heartbeat | M_terminal_result | M_failure

record backend_manifest =
  bm_backend_id :: string
  bm_payload :: json

record hello_body =
  hb_worker_id :: string
  hb_backend :: backend_manifest
  hb_environment :: ref

record dispatch_body =
  db_run_id :: string
  db_plan :: sealed_plan
  db_heartbeat :: int
  db_resume :: "resume_request option"

record accepted_body =
  ab_run_id :: string
  ab_configuration_hash :: "string option"
  ab_allocator_conf :: "string option"

record terminal_body =
  tb_run_id :: string
  tb_outcome :: failure_taxonomy
  tb_manifest :: run_manifest
  tb_artifacts :: "artifact_manifest list"
  tb_failure :: "failure_record option"

datatype worker_body = Hello hello_body | Other_body | Dispatch dispatch_body | Accepted accepted_body | Failure_body failure_record
  | Event_body run_event | Heartbeat string | Terminal_body terminal_body

text \<open>The evidence of a family has the family's shape.\<close>

definition evidence_shaped :: "run_manifest \<Rightarrow> bool" where
  "evidence_shaped m \<longleftrightarrow> list_all (\<lambda>v. case mf_evidence m v of
      None \<Rightarrow> True
    | Some (Training_success _ _ _ _) \<Rightarrow> v = V_training
    | Some (Reverified_success _) \<Rightarrow> v \<noteq> V_training) EXECUTION_VARIANTS"

definition terminal_consistency :: "terminal_body \<Rightarrow> bool" where
  "terminal_consistency b \<longleftrightarrow> mf_run_id (tb_manifest b) = tb_run_id b
     \<and> (if tb_outcome b = TAX_PASS
        then tb_failure b = None \<and> mf_failure (tb_manifest b) = None \<and> mf_state (tb_manifest b) = Succeeded
        else (case tb_failure b of
            None \<Rightarrow> False
          | Some f \<Rightarrow> fl_taxonomy f = tb_outcome b \<and> fl_run_id f \<in> {None, Some (tb_run_id b)}
              \<and> mf_state (tb_manifest b) \<noteq> Succeeded))
     \<and> mf_failure (tb_manifest b) = tb_failure b"

text \<open>The contract of a body: the type selects its class, whose constraints it meets.\<close>

definition body_ok :: "message_type \<Rightarrow> worker_body \<Rightarrow> bool" where
  "body_ok ty body \<longleftrightarrow> (case body of
      Hello b \<Rightarrow> ty = M_hello \<and> hb_worker_id b \<noteq> [] \<and> rf_id (hb_environment b) \<noteq> []
    | Other_body \<Rightarrow> ty \<in> {M_capability_probe_request, M_capability_report, M_run_control}
    | Dispatch b \<Rightarrow> ty = M_run_dispatch \<and> db_run_id b \<noteq> [] \<and> 1 \<le> db_heartbeat b
    | Accepted b \<Rightarrow> ty = M_run_accepted \<and> ab_run_id b \<noteq> [] \<and> opt_ok sha256_pattern (ab_configuration_hash b)
    | Failure_body f \<Rightarrow> ty \<in> {M_run_rejected, M_failure} \<and> fl_taxonomy f \<noteq> TAX_PASS
    | Event_body e \<Rightarrow> ty = M_event \<and> re_run_id e \<noteq> [] \<and> (case cl_step e of None \<Rightarrow> True | Some n \<Rightarrow> 0 \<le> n)
    | Heartbeat run_id \<Rightarrow> ty = M_heartbeat \<and> run_id \<noteq> []
    | Terminal_body b \<Rightarrow> ty = M_terminal_result \<and> tb_run_id b \<noteq> [] \<and> run_manifest_ok (tb_manifest b)
        \<and> evidence_shaped (tb_manifest b) \<and> terminal_consistency b)"

record worker_message =
  wm_message_id :: string
  wm_correlation_id :: "string option"
  wm_core_to_worker :: bool
  wm_type :: message_type
  wm_body :: worker_body

definition sent_by_core :: "message_type \<Rightarrow> bool" where
  "sent_by_core ty \<longleftrightarrow> ty \<in> {M_capability_probe_request, M_run_dispatch, M_run_control}"

definition message_ok :: "worker_message \<Rightarrow> bool" where
  "message_ok m \<longleftrightarrow> wm_message_id m \<noteq> [] \<and> wm_core_to_worker m = sent_by_core (wm_type m) \<and> body_ok (wm_type m) (wm_body m)"


section \<open>The codec\<close>

text \<open>A nesting too deep for the parser raises \<open>RecursionError\<close>, which is not a \<open>ValueError\<close>.\<close>

datatype line_json = Line_value json | Line_error | Line_recursion

record wire =
  wi_loads :: "string \<Rightarrow> line_json"
  wi_body :: "message_type \<Rightarrow> json \<Rightarrow> worker_body option"

definition PROTOCOL_VERSION :: string where "PROTOCOL_VERSION = ''2.0.0''"

definition MESSAGE_TYPES :: "(string \<times> message_type) list" where
  "MESSAGE_TYPES = [(''hello'', M_hello), (''capability_probe_request'', M_capability_probe_request),
     (''capability_report'', M_capability_report), (''run_dispatch'', M_run_dispatch), (''run_accepted'', M_run_accepted),
     (''run_rejected'', M_run_rejected), (''run_control'', M_run_control), (''event'', M_event), (''heartbeat'', M_heartbeat),
     (''terminal_result'', M_terminal_result), (''failure'', M_failure)]"

definition ENVELOPE_FIELDS :: "string list" where
  "ENVELOPE_FIELDS = [''protocol_version'', ''message_id'', ''correlation_id'', ''direction'', ''sent_at'', ''type'', ''body'']"

definition optional_text :: "json option \<Rightarrow> string option option" where
  "optional_text v = (case v of
      None \<Rightarrow> Some None | Some JNull \<Rightarrow> Some None | Some (JStr s) \<Rightarrow> Some (Some s) | _ \<Rightarrow> None)"

text \<open>\<open>WorkerMessage.model_validate\<close>; an unknown field is refused.\<close>

definition read_envelope :: "wire \<Rightarrow> (string \<times> json) list \<Rightarrow> worker_message option" where
  "read_envelope wi entries =
     (if \<not> set (map fst entries) \<subseteq> set ENVELOPE_FIELDS then None
      else case (dget entries ''message_id'', optional_text (dget entries ''correlation_id''), optional_text (dget entries ''sent_at'')) of
        (Some (JStr message_id), Some correlation, Some _) \<Rightarrow>
          (case (dget entries ''direction'', dget entries ''type'', dget entries ''body'') of
             (Some (JStr direction), Some (JStr ty), Some body_json) \<Rightarrow>
               (case dget MESSAGE_TYPES ty of
                  None \<Rightarrow> None
                | Some ty \<Rightarrow>
                    (case wi_body wi ty body_json of
                       None \<Rightarrow> None
                     | Some body \<Rightarrow>
                         let m = \<lparr>wm_message_id = message_id, wm_correlation_id = correlation,
                           wm_core_to_worker = (direction = ''core_to_worker''), wm_type = ty, wm_body = body\<rparr>
                         in if direction \<in> {''core_to_worker'', ''worker_to_core''} \<and> message_ok m then Some m else None))
           | _ \<Rightarrow> None)
      | _ \<Rightarrow> None)"

datatype decoded = Decoded worker_message | Undecodable violation | Recursion_escapes

definition decode_worker_message :: "wire \<Rightarrow> string \<Rightarrow> bool \<Rightarrow> decoded" where
  "decode_worker_message wi line expect_core =
     (if strip line = [] then Undecodable Blank_line
      else case wi_loads wi line of
        Line_error \<Rightarrow> Undecodable Invalid_message
      | Line_recursion \<Rightarrow> Recursion_escapes
      | Line_value (JObj entries) \<Rightarrow>
          if dget entries ''protocol_version'' \<noteq> Some (JStr PROTOCOL_VERSION) then Undecodable Wrong_version
          else (case read_envelope wi entries of
              None \<Rightarrow> Undecodable Invalid_message
            | Some m \<Rightarrow> if wm_core_to_worker m \<noteq> expect_core then Undecodable Wrong_direction else Decoded m)
      | Line_value _ \<Rightarrow> Undecodable Invalid_message)"

text \<open>A message is built only when it validates; otherwise the constructor raises.\<close>

definition build_worker_message :: "message_type \<Rightarrow> worker_body \<Rightarrow> string \<Rightarrow> string option \<Rightarrow> worker_message option" where
  "build_worker_message ty body message_id correlation =
     (let m = \<lparr>wm_message_id = message_id, wm_correlation_id = correlation, wm_core_to_worker = sent_by_core ty,
        wm_type = ty, wm_body = body\<rparr> in if message_ok m then Some m else None)"


section \<open>The worker\<close>

text \<open>What a worker has sent, and its exit code; a message that cannot be built ends the process.\<close>

record transcript =
  tr_sent :: "worker_message list"
  tr_exit :: "int option"

definition message_number :: "nat \<Rightarrow> string" where "message_number n = ''w-'' @ nat_str n"

definition send :: "message_type \<Rightarrow> worker_body \<Rightarrow> string option \<Rightarrow> transcript \<Rightarrow> transcript" where
  "send ty body correlation tr =
     (if tr_exit tr \<noteq> None then tr
      else case build_worker_message ty body (message_number (length (tr_sent tr))) correlation of
        None \<Rightarrow> tr\<lparr>tr_exit := Some 1\<rparr>
      | Some m \<Rightarrow> tr\<lparr>tr_sent := tr_sent tr @ [m]\<rparr>)"

definition exit_with :: "int \<Rightarrow> transcript \<Rightarrow> transcript" where
  "exit_with code tr = (if tr_exit tr \<noteq> None then tr else tr\<lparr>tr_exit := Some code\<rparr>)"

definition apply_allocator_policy :: "runtime \<Rightarrow> sealed_plan \<Rightarrow> violation + string" where
  "apply_allocator_policy rt plan = (case pl_allocator plan of
      Alloc_default \<Rightarrow> Inr ''default''
    | Alloc_expandable_segments \<Rightarrow> Inr ''expandable_segments:True''
    | Alloc_max_split_size None \<Rightarrow> Inl No_split_size
    | Alloc_max_split_size (Some mb) \<Rightarrow> Inr (''max_split_size_mb:'' @ int_str mb)
    | Alloc_garbage_collection None \<Rightarrow> Inl No_gc_threshold
    | Alloc_garbage_collection (Some x) \<Rightarrow> Inr (''garbage_collection_threshold:'' @ float_repr rt x))"

definition backend_manifest_digest :: "runtime \<Rightarrow> backend_manifest \<Rightarrow> string" where
  "backend_manifest_digest rt b = canonical_sha256 rt (bm_payload b)"

text \<open>The surroundings of a worker: the backends it knows, its own identity, the runner its lane
  builds, and the checkpoint a resume request names.\<close>

record worker_env =
  we_machine :: machine
  we_wire :: wire
  we_parse :: "bytes \<Rightarrow> checkpoint_manifest option"
  we_backends :: "string \<Rightarrow> backend_manifest option"
  we_backend_id :: string
  we_environment :: ref
  we_runner_name :: string
  we_runner :: "string \<Rightarrow> runner"
  we_checkpoint :: "resume_request \<Rightarrow> checkpoint_dir"

definition pinned_to :: "hash_ref option \<Rightarrow> string \<Rightarrow> bool" where
  "pinned_to h digest \<longleftrightarrow> h = Some \<lparr>hr_algo = ''sha256'', hr_value = Some digest\<rparr>"

text \<open>The checks of a dispatched plan, in order; the result is what the acceptance echoes.\<close>

definition check_dispatch :: "runtime \<Rightarrow> worker_env \<Rightarrow> sealed_plan \<Rightarrow> failure_reason + string option \<times> string" where
  "check_dispatch rt we plan =
     (if \<not> verify_run_plan_hash rt plan then Inl Plan_hash_failed
      else case resolved_execution_binding plan of
        Inl r \<Rightarrow> Inl r
      | Inr binding \<Rightarrow>
          if (case binding of None \<Rightarrow> False | Some v \<Rightarrow> \<not> verify_configuration_hash rt (the (pl_execution plan v)))
          then Inl Configuration_hash_failed
          else (case verify_runner_lane plan (we_runner_name we) of
              Some r \<Rightarrow> Inl r
            | None \<Rightarrow>
                (case we_backends we (we_backend_id we) of
                   None \<Rightarrow> Inl (Protocol_violated Unknown_backend)
                 | Some backend \<Rightarrow>
                     if pl_backend_id plan \<noteq> we_backend_id we \<or> \<not> pinned_to (pl_backend_hash plan) (backend_manifest_digest rt backend)
                     then Inl (Protocol_violated Wrong_backend)
                     else if pl_environment plan \<noteq> we_environment we then Inl (Protocol_violated Wrong_environment)
                     else (case apply_allocator_policy rt plan of
                         Inl v \<Rightarrow> Inl (Protocol_violated v)
                       | Inr conf \<Rightarrow> Inr (map_option (\<lambda>v. ec_configuration_hash (the (pl_execution plan v))) binding, conf)))))"

definition rejection :: "string \<Rightarrow> failure_reason \<Rightarrow> failure_record" where
  "rejection run_id reason = \<lparr>fl_run_id = Some run_id, fl_taxonomy = ENVIRONMENT_FAILURE, fl_stage = None, fl_exit_code = None,
     fl_reason = reason, fl_exception_type = []\<rparr>"

text \<open>The only observer in a worker is the sink that forwards every event.\<close>

definition worker_surroundings :: "worker_env \<Rightarrow> surroundings_of_run" where
  "worker_surroundings we = \<lparr>so_machine = we_machine we,
     so_observers = \<lparr>ob_record_dir = False, ob_log_fault = (\<lambda>_. None), ob_sink = True, ob_sink_fault = (\<lambda>_. None),
       ob_telemetry = False, ob_warmup_steps = 2\<rparr>,
     so_artifact_write = (\<lambda>_. True), so_manifest_write = (\<lambda>_. None), so_open_fault = None, so_parse = we_parse we\<rparr>"

definition terminal_of :: "string \<Rightarrow> supervised_run \<Rightarrow> terminal_body" where
  "terminal_of run_id r = (let m = xr_manifest r in
     \<lparr>tb_run_id = run_id, tb_outcome = (case mf_failure m of None \<Rightarrow> TAX_PASS | Some f \<Rightarrow> fl_taxonomy f),
      tb_manifest = m, tb_artifacts = xr_artifacts r, tb_failure = mf_failure m\<rparr>)"

text \<open>A worker passes no output directory, so \<open>execute_run\<close> has no record to open.\<close>

definition worker_run :: "runtime \<Rightarrow> worker_env \<Rightarrow> sealed_plan \<Rightarrow> string \<Rightarrow> resume_request option \<Rightarrow> supervised_run" where
  "worker_run rt we plan run_id resume =
     conduct_run rt (worker_surroundings we) plan (we_runner we (we_runner_name we)) run_id
       (map_option (\<lambda>rq. (rq, we_checkpoint we rq)) resume)"

definition run_worker :: "runtime \<Rightarrow> worker_env \<Rightarrow> string \<Rightarrow> transcript \<Rightarrow> transcript" where
  "run_worker rt we line tr =
     (let reject = (\<lambda>run_id correlation reason.
        exit_with 2 (send M_run_rejected (Failure_body (rejection run_id reason)) correlation tr))
      in case decode_worker_message (we_wire we) line True of
        Recursion_escapes \<Rightarrow> exit_with 1 tr
      | Undecodable v \<Rightarrow> reject ''unknown'' None (Protocol_violated v)
      | Decoded m \<Rightarrow>
          let correlation = Some (wm_message_id m) in
          (case wm_body m of
             Dispatch b \<Rightarrow>
               if wm_correlation_id m \<noteq> None then reject ''unknown'' correlation (Protocol_violated Dispatch_correlated)
               else (case check_dispatch rt we (db_plan b) of
                   Inl reason \<Rightarrow> reject (db_run_id b) correlation reason
                 | Inr (configuration_hash, conf) \<Rightarrow>
                     let accepted = send M_run_accepted (Accepted \<lparr>ab_run_id = db_run_id b,
                           ab_configuration_hash = configuration_hash, ab_allocator_conf = Some conf\<rparr>) correlation tr;
                         r = worker_run rt we (db_plan b) (db_run_id b) (db_resume b);
                         streamed = fold (\<lambda>e. send M_event (Event_body e) correlation) (xr_events r) accepted
                     in exit_with 0 (send M_terminal_result (Terminal_body (terminal_of (db_run_id b) r)) correlation streamed))
           | _ \<Rightarrow> reject ''unknown'' correlation (Protocol_violated Not_a_dispatch)))"

definition worker_hello :: "worker_env \<Rightarrow> string \<Rightarrow> transcript" where
  "worker_hello we worker_id =
     (let fresh = \<lparr>tr_sent = [], tr_exit = None\<rparr> in
      case we_backends we (we_backend_id we) of
        None \<Rightarrow> exit_with 2 (send M_failure (Failure_body ((rejection [] (Protocol_violated Unknown_backend))\<lparr>fl_run_id := None\<rparr>)) None fresh)
      | Some backend \<Rightarrow>
          send M_hello (Hello \<lparr>hb_worker_id = worker_id, hb_backend = backend, hb_environment = we_environment we\<rparr>) None fresh)"

definition worker_main :: "runtime \<Rightarrow> worker_env \<Rightarrow> string \<Rightarrow> string \<Rightarrow> transcript" where
  "worker_main rt we worker_id line =
     (let tr = worker_hello we worker_id in
      if tr_exit tr \<noteq> None then tr
      else if strip line = [] then exit_with 2 (send M_run_rejected (Failure_body (rejection ''unknown'' (Protocol_violated Blank_line))) None tr)
      else run_worker rt we line tr)"

end
