(* ===== verification/Subprocess_Supervisor.thy ===== *)
theory Subprocess_Supervisor
  imports Worker_Protocol
begin

text \<open>
  The parent of a worker process (\<open>platform/subprocess_supervisor.py\<close>): it checks the worker's
  identity, dispatches the plan, follows the protocol under two deadlines, and admits a success only
  after deriving it again. The monotonic clock and the queue of lines are the input: each pass of
  the loop reads the clock, gets a line, the end of the stream or nothing, and reads the clock once
  more where a line resets a deadline.
\<close>

section \<open>The export tree\<close>

definition EXPORT_WEIGHT_SUFFIXES :: "string list" where
  "EXPORT_WEIGHT_SUFFIXES = [''.bin'', ''.ckpt'', ''.gguf'', ''.onnx'', ''.pt'', ''.pth'', ''.safetensors'']"

definition MODEL_WEIGHT_SUFFIXES :: "string list" where
  "MODEL_WEIGHT_SUFFIXES = EXPORT_WEIGHT_SUFFIXES @ [''.h5'', ''.msgpack'']"

definition ROOT_AUXILIARY_METADATA_FILES :: "string list" where
  "ROOT_AUXILIARY_METADATA_FILES = [''training_args.bin'']"

text \<open>The directory parts of a relative path.\<close>

definition directories_of :: "string \<Rightarrow> string list" where
  "directories_of rel = butlast (split_on (CHR ''/'') rel)"

definition file_admitted :: "string \<Rightarrow> string list \<Rightarrow> string list \<Rightarrow> disk_file \<Rightarrow> bool" where
  "file_admitted primary suffixes prefixes f \<longleftrightarrow>
     \<not> list_ex (\<lambda>d. has_prefix ''checkpoint-'' d) (directories_of (df_rel f))
     \<and> (if df_rel f = primary then True
        else if df_rel f \<in> set ROOT_AUXILIARY_METADATA_FILES then int (length (df_bytes f)) \<le> 1048576
        else lower (path_suffix (df_rel f)) \<notin> set suffixes \<and> \<not> list_ex (\<lambda>p. has_prefix p (file_name (df_rel f))) prefixes)"

definition validate_export_tree :: "machine \<Rightarrow> string \<Rightarrow> string \<Rightarrow> string list \<Rightarrow> string list \<Rightarrow> bool" where
  "validate_export_tree mc path primary suffixes prefixes \<longleftrightarrow> mc_unlinked mc path
     \<and> (case mc_disk mc path of Dir_node fs \<Rightarrow> list_all (file_admitted primary suffixes prefixes) fs | _ \<Rightarrow> False)"

definition validate_adapter_tree :: "machine \<Rightarrow> string \<Rightarrow> bool" where
  "validate_adapter_tree mc path =
     validate_export_tree mc path ''adapter_model.safetensors'' EXPORT_WEIGHT_SUFFIXES [''adapter_model.'', ''pytorch_model'']"

definition validate_model_tree :: "machine \<Rightarrow> string \<Rightarrow> bool" where
  "validate_model_tree mc path = validate_export_tree mc path ''model.safetensors'' MODEL_WEIGHT_SUFFIXES
     [''model.'', ''pytorch_model'', ''tf_model'', ''flax_model'']"


section \<open>Admission of a success\<close>

datatype refusal = Broken violation | Refused runner_failure

definition artifact_kind :: "variant \<Rightarrow> string" where
  "artifact_kind v = (if v \<in> {V_pretraining, V_full_finetune} then ''model'' else ''adapter'')"

definition export_failure :: "failure_reason \<Rightarrow> refusal" where
  "export_failure reason = Refused (refuse ARTIFACT_FAILURE Export reason)"

definition evidence_peak :: "success_evidence \<Rightarrow> memory_metrics option" where
  "evidence_peak e = (case e of Training_success _ _ _ peak \<Rightarrow> peak | Reverified_success px \<Rightarrow> px_measured_peak px)"

definition produced_of :: "artifact_manifest \<Rightarrow> produced_artifact" where
  "produced_of m = \<lparr>pa_artifact_id = am_artifact_id m, pa_kind = am_kind m, pa_path = am_path m, pa_reload_verified = False\<rparr>"

definition verify_variant_schedule :: "execution_config \<Rightarrow> proposed_evidence \<Rightarrow> refusal option" where
  "verify_variant_schedule cfg px =
     (if (case ec_max_steps cfg of Some n \<Rightarrow> px_completed_steps px \<noteq> n | None \<Rightarrow> px_completed_steps px < 1)
      then Some (Refused (refuse OPTIMIZER_FAILURE Optimizer_step Schedule_mismatch)) else None)"

definition verify_variant_export_tree :: "machine \<Rightarrow> variant \<Rightarrow> artifact_manifest \<Rightarrow> refusal option" where
  "verify_variant_export_tree mc v m =
     (if (if artifact_kind v = ''adapter'' then validate_adapter_tree mc (am_path m) else validate_model_tree mc (am_path m))
      then None else Some (export_failure Export_tree_refused))"

definition verify_variant_export_bytes ::
  "runtime \<Rightarrow> machine \<Rightarrow> variant \<Rightarrow> artifact_manifest \<Rightarrow> proposed_evidence \<Rightarrow> refusal option" where
  "verify_variant_export_bytes rt mc v m px =
     (let adapter = (artifact_kind v = ''adapter''); node = mc_disk mc (am_path m);
          config_sha256 = map_option (sha256_hex rt)
            (if adapter then stable_bounded_file_bytes node ''adapter_config.json'' 1048576 else member_bytes node ''config.json'');
          weights = member_bytes node (if adapter then ''adapter_model.safetensors'' else ''model.safetensors'')
      in if config_sha256 = None then Some (export_failure Adapter_invalid)
         else if adapter \<and> config_sha256 \<noteq> am_metadata_hash m then Some (export_failure Config_changed)
         else case validate_safetensors_tensor_file rt (mc_header_loads mc) weights of
           Inl Escaped_value_error \<Rightarrow> Some (export_failure Terminal_admission_raised)
         | Inl _ \<Rightarrow> Some (export_failure Safetensors_refused)
         | Inr state \<Rightarrow>
             if st_content_sha256 state \<noteq> px_weights_sha256 px then Some (export_failure Weights_not_proposed)
             else if config_sha256 \<noteq> Some (px_config_sha256 px) then Some (export_failure Config_not_proposed)
             else if st_tensor_state_sha256 state \<noteq> px_after_sha256 px \<or> st_tensor_names state \<noteq> px_tensor_names px
             then Some (export_failure Tensor_state_differs) else None)"

definition verify_training_evidence ::
  "runtime \<Rightarrow> machine \<Rightarrow> execution_config \<Rightarrow> string \<Rightarrow> run_event list \<Rightarrow> artifact_manifest \<Rightarrow> success_evidence \<Rightarrow> refusal option" where
  "verify_training_evidence rt mc cfg rid events m e =
     (let execution = (case e of Training_success tx _ _ _ \<Rightarrow> Some tx | Reverified_success _ \<Rightarrow> None) in
      case validate_training_success_evidence rt mc cfg rid events [produced_of m] [m] execution (evidence_peak e) of
        Inl f \<Rightarrow> Some (Refused f)
      | Inr validated \<Rightarrow>
          if validated \<noteq> e then Some (Refused (refuse UPDATE_FAILURE Optimizer_step Evidence_differs)) else None)"

definition verify_variant_evidence ::
  "runtime \<Rightarrow> machine \<Rightarrow> variant \<Rightarrow> execution_config \<Rightarrow> string \<Rightarrow> run_event list \<Rightarrow> artifact_manifest \<Rightarrow> success_evidence \<Rightarrow> refusal option" where
  "verify_variant_evidence rt mc v cfg rid events m e =
     (if v = V_training then verify_training_evidence rt mc cfg rid events m e
      else case e of
        Training_success _ _ _ _ \<Rightarrow> Some (Refused (refuse UPDATE_FAILURE Optimizer_step No_evidence))
      | Reverified_success px \<Rightarrow>
          (case verify_variant_schedule cfg px of
             Some r \<Rightarrow> Some r
           | None \<Rightarrow> verify_variant_export_bytes rt mc v m px))"

definition verify_fit :: "memory_metrics option \<Rightarrow> fit_classification option \<Rightarrow> refusal option" where
  "verify_fit peak fit =
     (if (peak = None) \<noteq> (fit = None) then Some (export_failure Fit_not_bound)
      else case peak of
        None \<Rightarrow> None
      | Some pk \<Rightarrow>
          if Some (reconcile_measured_fit pk Unknown_residency True) \<noteq> fit then Some (export_failure Fit_differs) else None)"

text \<open>The one artifact: its place, its tree, and the bytes its manifest hashes.\<close>

definition verify_artifact ::
  "runtime \<Rightarrow> machine \<Rightarrow> variant \<Rightarrow> execution_config \<Rightarrow> string \<Rightarrow> run_manifest \<Rightarrow> artifact_manifest \<Rightarrow> refusal option" where
  "verify_artifact rt mc v cfg rid manifest m =
     (let leaf = artifact_kind v in
      if list_ex (\<lambda>p. verify_run_scoped_output_path mc cfg rid leaf (Some p) = None) [mf_output_dir manifest, am_path m]
      then Some (export_failure Output_path_refused)
      else case (if v = V_training then None else verify_variant_export_tree mc v m) of
        Some r \<Rightarrow> Some r
      | None \<Rightarrow>
          if am_current_integrity m \<noteq> OK \<or> am_content_hash m = None \<or> leaf = ''adapter'' \<and> am_metadata_hash m = None
          then Some (export_failure Integrity_incomplete)
          else if compute_weight_content_hash rt (am_path m) (mc_disk mc (am_path m)) \<noteq> am_content_hash m
          then Some (export_failure Weights_changed) else None)"

definition admit_terminal_success ::
  "runtime \<Rightarrow> machine \<Rightarrow> variant option \<Rightarrow> sealed_plan \<Rightarrow> string \<Rightarrow> run_manifest \<Rightarrow> artifact_manifest list \<Rightarrow> run_event list
     \<Rightarrow> refusal option" where
  "admit_terminal_success rt mc binding plan rid manifest artifacts events =
     (if list_ex (\<lambda>v. Some v \<noteq> binding \<and> mf_evidence manifest v \<noteq> None) EXECUTION_VARIANTS then Some (Broken Foreign_evidence)
      else case binding of
        None \<Rightarrow> if artifacts \<noteq> [] \<or> mf_final_fit manifest \<noteq> None then Some (export_failure Claims_without_execution) else None
      | Some v \<Rightarrow>
          let cfg = the (pl_execution plan v) in
          (case mf_evidence manifest v of
             None \<Rightarrow> Some (Refused (refuse UPDATE_FAILURE Optimizer_step No_evidence))
           | Some e \<Rightarrow>
               (case artifacts of
                  [m] \<Rightarrow>
                    if am_kind m \<noteq> artifact_kind v then Some (export_failure Wrong_artifacts)
                    else (case verify_artifact rt mc v cfg rid manifest m of
                        Some r \<Rightarrow> Some r
                      | None \<Rightarrow>
                          (case verify_variant_evidence rt mc v cfg rid events m e of
                             Some r \<Rightarrow> Some r
                           | None \<Rightarrow> verify_fit (evidence_peak e) (mf_final_fit manifest)))
                | _ \<Rightarrow> Some (export_failure Wrong_artifacts))))"

text \<open>The links of a terminal, then its admission.\<close>

definition terminal_links :: "sealed_plan \<Rightarrow> string \<Rightarrow> terminal_body \<Rightarrow> violation option" where
  "terminal_links plan rid b =
     (let m = tb_manifest b in
      if tb_run_id b \<noteq> rid then Some Wrong_run_id
      else if mf_plan_ref m \<noteq> plan_ref plan then Some Plan_link_differs
      else if mf_environment m \<noteq> Some (pl_environment plan) then Some Environment_link_differs
      else if mf_dataset m \<noteq> Some (pl_dataset plan) then Some Dataset_link_differs
      else if mf_target m \<noteq> pl_backend_id plan then Some Target_differs
      else if mf_base_model m \<noteq> pl_base_model plan then Some Base_model_differs
      else if tb_failure b \<noteq> mf_failure m then Some Failure_differs
      else if list_ex (\<lambda>a. am_run_id a \<noteq> rid) (tb_artifacts b) then Some Artifact_of_other_run
      else if list_ex (\<lambda>a. am_base_model a \<noteq> pl_base_model plan) (tb_artifacts b) then Some Artifact_of_other_model
      else if map am_artifact_id (tb_artifacts b) \<noteq> mf_artifact_ids m then Some Artifact_ids_differ
      else None)"

definition parse_terminal ::
  "runtime \<Rightarrow> machine \<Rightarrow> sealed_plan \<Rightarrow> string \<Rightarrow> run_event list \<Rightarrow> terminal_body \<Rightarrow> refusal option" where
  "parse_terminal rt mc plan rid events b = (case terminal_links plan rid b of
      Some v \<Rightarrow> Some (Broken v)
    | None \<Rightarrow>
        if mf_state (tb_manifest b) \<noteq> Succeeded then None
        else (case resolved_execution_binding plan of
            Inl r \<Rightarrow> Some (export_failure Terminal_admission_raised)
          | Inr binding \<Rightarrow> admit_terminal_success rt mc binding plan rid (tb_manifest b) (tb_artifacts b) events))"


section \<open>The state of the parent\<close>

definition PREFLIGHT_STAGES :: "stage_marker list" where
  "PREFLIGHT_STAGES = [Process_start, Dataset_verification, Execution_config_verified, Env_loaded, Cuda_init, Tokenizer_load,
     Dataset_formatting, Truncation_analysis, Attention_policy_applied, Model_load, Placement_verified, Model_loaded,
     Quantized, Adapter_attached]"

record killed =
  kl_taxonomy :: failure_taxonomy
  kl_reason :: failure_reason
  kl_stage :: "stage_marker option"

record parent_state =
  ps_dispatched :: bool
  ps_accepted :: bool
  ps_seen :: "string list"
  ps_last_seq :: "nat option"
  ps_stage :: "stage_marker option"
  ps_preflight_deadline :: "rat option"
  ps_preflight_finished :: bool
  ps_progress_deadline :: rat
  ps_log :: run_log
  ps_deferred :: "run_event option"
  ps_artifacts :: "artifact_manifest list"
  ps_terminal :: "run_manifest option"
  ps_terminal_seen :: bool
  ps_rejection :: "failure_record option"
  ps_killed :: "killed option"
  ps_admission_failure :: "runner_failure option"
  ps_violation :: "violation option"

text \<open>The world of the parent: the machine, the wire, the observers, the process and the disk.\<close>

record parent_env =
  pe_machine :: machine
  pe_wire :: wire
  pe_observers :: observers
  pe_open_fault :: "string option"
  pe_spawns :: bool
  pe_returncode :: "int option"
  pe_artifact_write :: "artifact_manifest \<Rightarrow> bool"
  pe_manifest_write :: "nat \<Rightarrow> string option"
  pe_silence :: rat
  pe_preflight :: rat
  pe_heartbeat :: int
  pe_started :: rat

definition initial_state :: "parent_env \<Rightarrow> parent_state" where
  "initial_state pe = \<lparr>ps_dispatched = False, ps_accepted = False, ps_seen = [], ps_last_seq = None, ps_stage = None,
     ps_preflight_deadline = None, ps_preflight_finished = False, ps_progress_deadline = fadd (pe_started pe) (pe_silence pe),
     ps_log = empty_log, ps_deferred = None, ps_artifacts = [], ps_terminal = None, ps_terminal_seen = False, ps_rejection = None,
     ps_killed = None, ps_admission_failure = None, ps_violation = None\<rparr>"

definition reset_progress_deadline :: "parent_env \<Rightarrow> rat \<Rightarrow> parent_state \<Rightarrow> parent_state" where
  "reset_progress_deadline pe now st = st\<lparr>ps_progress_deadline := fadd now (pe_silence pe)\<rparr>"

definition observe_stage :: "parent_env \<Rightarrow> sealed_plan \<Rightarrow> stage_marker \<Rightarrow> rat \<Rightarrow> parent_state \<Rightarrow> parent_state" where
  "observe_stage pe plan stage now st =
     (let resolved_training = (pl_execution plan V_training \<noteq> None); st = st\<lparr>ps_stage := Some stage\<rparr> in
      if resolved_training \<and> \<not> ps_preflight_finished st \<and> stage \<in> set PREFLIGHT_STAGES
      then (if ps_preflight_deadline st = None then st\<lparr>ps_preflight_deadline := Some (fadd now (pe_preflight pe))\<rparr> else st)
      else st\<lparr>ps_preflight_finished := ps_preflight_finished st \<or> resolved_training, ps_preflight_deadline := None\<rparr>)"

definition deadline_failure :: "rat \<Rightarrow> parent_state \<Rightarrow> killed option" where
  "deadline_failure now st = (case ps_preflight_deadline st of
      Some d \<Rightarrow>
        if now < d then None else Some \<lparr>kl_taxonomy = TIMEOUT, kl_reason = Preflight_timeout, kl_stage = ps_stage st\<rparr>
    | None \<Rightarrow>
        if now < ps_progress_deadline st then None
        else Some \<lparr>kl_taxonomy = KERNEL_STALL, kl_reason = No_progress, kl_stage = ps_stage st\<rparr>)"


section \<open>One line\<close>

definition validate_hello :: "runtime \<Rightarrow> sealed_plan \<Rightarrow> worker_message \<Rightarrow> violation option" where
  "validate_hello rt plan m = (case wm_body m of
      Hello b \<Rightarrow>
        (case pl_backend_hash plan of
           None \<Rightarrow> Some Backend_not_pinned
         | Some h \<Rightarrow>
             if hr_algo h \<noteq> ''sha256'' \<or> hr_value h = None then Some Backend_not_pinned
             else if bm_backend_id (hb_backend b) \<noteq> pl_backend_id plan then Some Wrong_backend
             else if Some (backend_manifest_digest rt (hb_backend b)) \<noteq> hr_value h then Some Backend_digest_differs
             else if hb_environment b \<noteq> pl_environment plan then Some Wrong_environment
             else if wm_correlation_id m \<noteq> None then Some Hello_correlated else None)
    | _ \<Rightarrow> Some First_not_hello)"

definition accepted_variant :: "sealed_plan \<Rightarrow> variant option \<Rightarrow> accepted_body \<Rightarrow> violation option" where
  "accepted_variant plan binding b = (case binding of
      None \<Rightarrow> if ab_configuration_hash b \<noteq> None then Some Hash_must_be_null else None
    | Some v \<Rightarrow>
        if ab_configuration_hash b \<noteq> Some (ec_configuration_hash (the (pl_execution plan v))) then Some Wrong_variant_hash
        else None)"

datatype handled = Go parent_state | Stop parent_state | Escapes

definition violate :: "violation \<Rightarrow> parent_state \<Rightarrow> handled" where
  "violate v st = Stop (st\<lparr>ps_violation := Some v\<rparr>)"

definition on_accepted :: "parent_env \<Rightarrow> sealed_plan \<Rightarrow> variant option \<Rightarrow> string \<Rightarrow> rat \<Rightarrow> accepted_body \<Rightarrow> parent_state \<Rightarrow> handled" where
  "on_accepted pe plan binding rid later b st =
     (if ps_accepted st then violate Second_accept st
      else if ab_run_id b \<noteq> rid then violate Wrong_run_id st
      else case accepted_variant plan binding b of
        Some v \<Rightarrow> violate v st
      | None \<Rightarrow> Go (reset_progress_deadline pe later (st\<lparr>ps_accepted := True\<rparr>)))"

text \<open>The stage an event shows, if it shows one.\<close>

definition shown_stage :: "run_event \<Rightarrow> stage_marker option" where
  "shown_stage e = (case cl_stage e of
      Some s \<Rightarrow> Some s
    | None \<Rightarrow> if cl_type e = Metric_event \<and> cl_step e \<noteq> None then Some Optimizer_step else None)"

definition on_event :: "parent_env \<Rightarrow> sealed_plan \<Rightarrow> string \<Rightarrow> rat \<Rightarrow> run_event \<Rightarrow> parent_state \<Rightarrow> handled" where
  "on_event pe plan rid later e st =
     (if \<not> ps_accepted st then violate Event_before_accept st
      else if re_run_id e \<noteq> rid then violate Wrong_run_id st
      else if (case ps_last_seq st of None \<Rightarrow> False | Some s \<Rightarrow> re_seq e \<le> s) then violate Seq_not_greater st
      else let st1 = st\<lparr>ps_last_seq := Some (re_seq e)\<rparr>;
               st2 = (if cl_type e = Terminal_event then st1\<lparr>ps_deferred := Some e\<rparr>
                      else st1\<lparr>ps_log := collect (pe_observers pe) e (ps_log st1)\<rparr>);
               st3 = (case shown_stage e of None \<Rightarrow> st2 | Some s \<Rightarrow> observe_stage pe plan s later st2)
           in Go (reset_progress_deadline pe later st3))"

definition on_terminal :: "runtime \<Rightarrow> parent_env \<Rightarrow> sealed_plan \<Rightarrow> string \<Rightarrow> terminal_body \<Rightarrow> parent_state \<Rightarrow> handled" where
  "on_terminal rt pe plan rid b st =
     (if \<not> ps_accepted st then violate Terminal_before_accept st
      else let st = st\<lparr>ps_terminal_seen := True\<rparr> in
        if (case ps_deferred st of None \<Rightarrow> False | Some e \<Rightarrow> cl_state e \<noteq> Some (mf_state (tb_manifest b)))
        then violate Terminal_state_differs st
        else (case parse_terminal rt (pe_machine pe) plan rid (lg_events (ps_log st)) b of
            Some (Broken v) \<Rightarrow> violate v st
          | Some (Refused f) \<Rightarrow> Stop (st\<lparr>ps_admission_failure := Some f\<rparr>)
          | None \<Rightarrow> Stop (st\<lparr>ps_terminal := Some (tb_manifest b), ps_artifacts := tb_artifacts b\<rparr>)))"

definition on_failure :: "string \<Rightarrow> message_type \<Rightarrow> failure_record \<Rightarrow> parent_state \<Rightarrow> handled" where
  "on_failure rid ty f st =
     (if ty = M_run_rejected \<and> ps_accepted st then violate Rejected_after_accept st
      else if fl_run_id f \<noteq> None \<and> fl_run_id f \<noteq> Some rid then violate Wrong_run_id st
      else Stop (st\<lparr>ps_rejection := Some f\<rparr>))"

definition dispatch_message_id :: "string \<Rightarrow> string" where "dispatch_message_id rid = ''c-'' @ rid"

definition on_message ::
  "runtime \<Rightarrow> parent_env \<Rightarrow> sealed_plan \<Rightarrow> variant option \<Rightarrow> string \<Rightarrow> rat \<Rightarrow> worker_message \<Rightarrow> parent_state \<Rightarrow> handled" where
  "on_message rt pe plan binding rid later m st =
     (if wm_correlation_id m \<noteq> Some (dispatch_message_id rid) then violate Wrong_correlation st
      else if ps_deferred st \<noteq> None \<and> wm_type m \<noteq> M_terminal_result then violate After_terminal_event st
      else case wm_body m of
        Hello _ \<Rightarrow> violate Second_hello st
      | Accepted b \<Rightarrow> on_accepted pe plan binding rid later b st
      | Event_body e \<Rightarrow> on_event pe plan rid later e st
      | Heartbeat run_id \<Rightarrow>
          if \<not> ps_accepted st then violate Heartbeat_before_accept st
          else if run_id \<noteq> rid then violate Wrong_run_id st else Go st
      | Terminal_body b \<Rightarrow> on_terminal rt pe plan rid b st
      | Failure_body f \<Rightarrow> on_failure rid (wm_type m) f st
      | _ \<Rightarrow> violate Illegal_type st)"

definition on_line ::
  "runtime \<Rightarrow> parent_env \<Rightarrow> sealed_plan \<Rightarrow> variant option \<Rightarrow> string \<Rightarrow> rat \<Rightarrow> string \<Rightarrow> parent_state \<Rightarrow> handled" where
  "on_line rt pe plan binding rid later line st = (case decode_worker_message (pe_wire pe) line False of
      Recursion_escapes \<Rightarrow> Escapes
    | Undecodable v \<Rightarrow> violate v st
    | Decoded m \<Rightarrow>
        if wm_message_id m \<in> set (ps_seen st) then violate Duplicate_message_id st
        else let st = st\<lparr>ps_seen := wm_message_id m # ps_seen st\<rparr> in
          if \<not> ps_dispatched st
          then (case validate_hello rt plan m of
              Some v \<Rightarrow> violate v st
            | None \<Rightarrow> Go (reset_progress_deadline pe later (st\<lparr>ps_dispatched := True\<rparr>)))
          else on_message rt pe plan binding rid later m st)"


section \<open>The loop\<close>

text \<open>A pass of the loop: the clock, what the queue gave within the time left, the clock again.\<close>

datatype queued = Nothing_yet | End_of_stream | Line string

record tick =
  tk_now :: rat
  tk_got :: queued
  tk_later :: rat

definition one_pass ::
  "runtime \<Rightarrow> parent_env \<Rightarrow> sealed_plan \<Rightarrow> variant option \<Rightarrow> string \<Rightarrow> tick \<Rightarrow> parent_state \<Rightarrow> handled" where
  "one_pass rt pe plan binding rid t st = (case deadline_failure (tk_now t) st of
      Some k \<Rightarrow> Stop (st\<lparr>ps_killed := Some k\<rparr>)
    | None \<Rightarrow> (case tk_got t of
          Nothing_yet \<Rightarrow> Go st
        | End_of_stream \<Rightarrow> Stop st
        | Line line \<Rightarrow> on_line rt pe plan binding rid (tk_later t) line st))"

text \<open>The passes observed so far leave the loop running, stopped, or left by an exception.\<close>

fun supervise ::
  "runtime \<Rightarrow> parent_env \<Rightarrow> sealed_plan \<Rightarrow> variant option \<Rightarrow> string \<Rightarrow> tick list \<Rightarrow> parent_state \<Rightarrow> handled" where
  "supervise rt pe plan binding rid [] st = Go st"
| "supervise rt pe plan binding rid (t # ts) st = (case one_pass rt pe plan binding rid t st of
      Go st' \<Rightarrow> supervise rt pe plan binding rid ts st'
    | ended \<Rightarrow> ended)"


section \<open>The end of the run\<close>

definition parent_failed ::
  "sealed_plan \<Rightarrow> string \<Rightarrow> failure_taxonomy \<Rightarrow> failure_reason \<Rightarrow> stage_marker option \<Rightarrow> int option \<Rightarrow> run_manifest" where
  "parent_failed plan rid taxonomy reason stage exit_code =
     \<lparr>mf_run_id = rid, mf_plan_ref = plan_ref plan, mf_environment = Some (pl_environment plan), mf_dataset = Some (pl_dataset plan),
      mf_state = Failed_state, mf_base_model = pl_base_model plan, mf_target = pl_backend_id plan, mf_output_dir = pl_output_dir plan,
      mf_artifact_ids = [], mf_checkpoints = [], mf_resume_lineage = None,
      mf_failure = Some \<lparr>fl_run_id = Some rid, fl_taxonomy = taxonomy, fl_stage = stage, fl_exit_code = exit_code,
        fl_reason = reason, fl_exception_type = []\<rparr>,
      mf_final_fit = None, mf_evidence = (\<lambda>_. None), mf_notes = []\<rparr>"

definition bind_failure_record :: "string \<Rightarrow> stage_marker option \<Rightarrow> int option \<Rightarrow> failure_record \<Rightarrow> failure_record" where
  "bind_failure_record rid stage returncode f = f\<lparr>fl_run_id := Some rid,
     fl_stage := (if fl_stage f = None then stage else fl_stage f),
     fl_exit_code := (if fl_exit_code f \<noteq> None then fl_exit_code f
       else if returncode = Some 0 then None else returncode)\<rparr>"

definition finalize :: "sealed_plan \<Rightarrow> string \<Rightarrow> int option \<Rightarrow> parent_state \<Rightarrow> run_manifest" where
  "finalize plan rid returncode st = (case ps_killed st of
      Some k \<Rightarrow> parent_failed plan rid (kl_taxonomy k) (kl_reason k) (kl_stage k) returncode
    | None \<Rightarrow> (case ps_terminal st of
          Some m \<Rightarrow> m\<lparr>mf_failure := map_option (bind_failure_record rid (ps_stage st) returncode) (mf_failure m)\<rparr>
        | None \<Rightarrow> (case ps_admission_failure st of
              Some f \<Rightarrow> parent_failed plan rid (rf_taxonomy f) (rf_reason f) (rf_stage f) returncode
            | None \<Rightarrow> (case ps_violation st of
                  Some v \<Rightarrow> parent_failed plan rid ENVIRONMENT_FAILURE (Protocol_violated v) (ps_stage st) returncode
                | None \<Rightarrow> (case ps_rejection st of
                      Some f \<Rightarrow>
                        let bound = bind_failure_record rid (ps_stage st) returncode f in
                        (parent_failed plan rid (fl_taxonomy f) (fl_reason f) (fl_stage bound) (fl_exit_code bound))
                          \<lparr>mf_failure := Some bound\<rparr>
                    | None \<Rightarrow>
                        if ps_terminal_seen st
                        then parent_failed plan rid ENVIRONMENT_FAILURE Malformed_terminal (ps_stage st) returncode
                        else parent_failed plan rid ENVIRONMENT_FAILURE Worker_exited (ps_stage st) returncode)))))"

definition append_manifest_note :: "string \<Rightarrow> run_manifest \<Rightarrow> run_manifest" where
  "append_manifest_note note m = (if note = [] \<or> occurs_in note (mf_notes m) then m else add_note note m)"

definition measured_failure_fit :: "run_manifest \<Rightarrow> fit_classification option" where
  "measured_failure_fit m = (case List.map_filter (mf_evidence m) EXECUTION_VARIANTS of
      [] \<Rightarrow> None
    | e # _ \<Rightarrow> map_option (\<lambda>pk. reconcile_measured_fit pk Unknown_residency False) (evidence_peak e))"

definition downgraded :: "sealed_plan \<Rightarrow> string \<Rightarrow> failure_reason \<Rightarrow> run_manifest \<Rightarrow> run_manifest" where
  "downgraded plan rid reason m =
     (parent_failed plan rid ARTIFACT_FAILURE reason (Some Export) None)\<lparr>mf_final_fit := measured_failure_fit m\<rparr>"

text \<open>The manifest that is returned, and the one on disk.\<close>

definition persist_run ::
  "parent_env \<Rightarrow> sealed_plan \<Rightarrow> string \<Rightarrow> artifact_manifest list \<Rightarrow> string list \<Rightarrow> run_manifest \<Rightarrow> run_manifest \<times> run_manifest option" where
  "persist_run pe plan rid artifacts errors m =
     (let write = pe_manifest_write pe;
          m1 = (if mf_state m = Succeeded \<and> \<not> list_all (pe_artifact_write pe) artifacts
                then downgraded plan rid Artifacts_not_persisted m else m);
          m2 = (if errors \<noteq> [] then append_manifest_note (isolated_note errors) m1 else m1)
      in case write 0 of
        None \<Rightarrow> (m2, Some m2)
      | Some exc \<Rightarrow>
          if mf_state m2 = Succeeded
          then let m3 = downgraded plan rid Manifest_not_persisted m2 in
            (case write 1 of
               None \<Rightarrow> (m3, Some m3)
             | Some exc' \<Rightarrow> (append_manifest_note (''failed terminal manifest could not be persisted: '' @ exc') m3, None))
          else (append_manifest_note (''terminal manifest could not be persisted: '' @ exc) m2, None))"

text \<open>The terminal event is the parent's own; the sink sees it, the durable log does not.\<close>

definition terminal_event :: "string \<Rightarrow> parent_state \<Rightarrow> run_state \<Rightarrow> run_event" where
  "terminal_event rid st state = \<lparr>cl_type = Terminal_event, cl_stage = None, cl_step = None, cl_metrics = None, cl_state = Some state,
     re_run_id = rid, re_seq = (case ps_deferred st of Some e \<Rightarrow> re_seq e
       | None \<Rightarrow> (case ps_last_seq st of Some s \<Rightarrow> Suc s | None \<Rightarrow> 0))\<rparr>"

definition deliver_terminal ::
  "parent_env \<Rightarrow> run_event \<Rightarrow> run_log \<Rightarrow> run_manifest \<times> run_manifest option \<Rightarrow> run_log \<times> run_manifest \<times> run_manifest option" where
  "deliver_terminal pe e lg mm =
     (let ob = pe_observers pe; lg = lg\<lparr>lg_events := lg_events lg @ [e]\<rparr> in
      if \<not> ob_sink ob then (lg, mm)
      else let lg = lg\<lparr>lg_delivered := lg_delivered lg @ [e]\<rparr> in
        case ob_sink_fault ob e of
          None \<Rightarrow> (lg, mm)
        | Some exc \<Rightarrow>
            let errors = note_error exc (lg_sink_errors lg);
                m = append_manifest_note (isolated_note errors) (fst mm)
            in (lg\<lparr>lg_sink_errors := errors\<rparr>, m, if ob_record_dir ob \<and> pe_manifest_write pe 2 = None then Some m else snd mm))"

definition first_record :: "parent_env \<Rightarrow> sealed_plan \<Rightarrow> string \<Rightarrow> parent_state \<Rightarrow> run_manifest \<times> run_manifest option" where
  "first_record pe plan rid st =
     (let errors = lg_sink_errors (ps_log st); finished = finalize plan rid (pe_returncode pe) st in
      if ob_record_dir (pe_observers pe) then persist_run pe plan rid (ps_artifacts st) errors finished
      else (if errors \<noteq> [] then append_manifest_note (isolated_note errors) finished else finished, None))"

definition close_stream ::
  "parent_env \<Rightarrow> string \<Rightarrow> parent_state \<Rightarrow> run_manifest \<times> run_manifest option \<Rightarrow> run_log \<times> run_manifest \<times> run_manifest option" where
  "close_stream pe rid st mm =
     (if ps_accepted st then deliver_terminal pe (terminal_event rid st (mf_state (fst mm))) (ps_log st) mm else (ps_log st, mm))"

definition conclude :: "parent_env \<Rightarrow> sealed_plan \<Rightarrow> string \<Rightarrow> parent_state \<Rightarrow> supervised_run" where
  "conclude pe plan rid st = (case close_stream pe rid st (first_record pe plan rid st) of (lg, m, durable) \<Rightarrow>
     \<lparr>xr_manifest = m, xr_events = lg_events lg, xr_artifacts = ps_artifacts st, xr_durable_manifest = durable,
      xr_durable_artifacts = (if ob_record_dir (pe_observers pe) then stored_prefix (pe_artifact_write pe) (ps_artifacts st) else []),
      xr_log = lg\<rparr>)"


section \<open>The whole execution\<close>

text \<open>A plan is refused before a process exists; the manifest of the refusal is written unguarded.\<close>

definition refuse_before_spawn ::
  "parent_env \<Rightarrow> sealed_plan \<Rightarrow> string \<Rightarrow> failure_taxonomy \<Rightarrow> failure_reason \<Rightarrow> stage_marker option \<Rightarrow> string + supervised_run" where
  "refuse_before_spawn pe plan rid taxonomy reason stage =
     (let m = parent_failed plan rid taxonomy reason stage None;
          refused = (\<lambda>durable. Inr \<lparr>xr_manifest = m, xr_events = [], xr_artifacts = [], xr_durable_manifest = durable,
            xr_durable_artifacts = [], xr_log = empty_log\<rparr>)
      in if \<not> ob_record_dir (pe_observers pe) then refused None
         else case pe_manifest_write pe 0 of Some exc \<Rightarrow> Inl exc | None \<Rightarrow> refused (Some m))"

definition check_before_spawn ::
  "runtime \<Rightarrow> sealed_plan \<Rightarrow> string \<Rightarrow> int option \<Rightarrow> failure_reason + variant option \<times> string" where
  "check_before_spawn rt plan runner_name max_steps =
     (if \<not> verify_run_plan_hash rt plan then Inl Plan_hash_failed
      else case resolved_execution_binding plan of
        Inl r \<Rightarrow> Inl r
      | Inr binding \<Rightarrow>
          let cfg = (case binding of None \<Rightarrow> None | Some v \<Rightarrow> pl_execution plan v) in
          if (case cfg of None \<Rightarrow> False | Some c \<Rightarrow> \<not> verify_configuration_hash rt c) then Inl Configuration_hash_failed
          else if (case cfg of None \<Rightarrow> False | Some c \<Rightarrow> max_steps \<noteq> None \<and> max_steps \<noteq> ec_max_steps c) then Inl Steps_override
          else if runner_name = ''auto''
          then (case required_runner_lane plan of Inl r \<Rightarrow> Inl r | Inr lane \<Rightarrow> Inr (binding, lane))
          else (case verify_runner_lane plan runner_name of Some r \<Rightarrow> Inl r | None \<Rightarrow> Inr (binding, runner_name)))"

text \<open>A result is an exception that leaves the function, a run that is still going on after the
  passes given, or a supervised run.\<close>

datatype outcome = Raised string | Still_running parent_state | Supervised supervised_run

definition outcome_of :: "string + supervised_run \<Rightarrow> outcome" where
  "outcome_of r = (case r of Inl exc \<Rightarrow> Raised exc | Inr x \<Rightarrow> Supervised x)"

definition execute_run_subprocess ::
  "runtime \<Rightarrow> parent_env \<Rightarrow> sealed_plan \<Rightarrow> string \<Rightarrow> string \<Rightarrow> int option \<Rightarrow> tick list \<Rightarrow> outcome" where
  "execute_run_subprocess rt pe plan run_id runner_name max_steps ticks =
     (if pe_silence pe \<le> 0 \<or> pe_preflight pe \<le> 0 \<or> pe_heartbeat pe \<le> 0 then Raised ''ValueError''
      else let rid = sanitize_id run_id in
        case check_before_spawn rt plan runner_name max_steps of
          Inl r \<Rightarrow> outcome_of (refuse_before_spawn pe plan rid UNSUPPORTED_CONFIGURATION r None)
        | Inr (binding, lane) \<Rightarrow>
            (case (if ob_record_dir (pe_observers pe) then pe_open_fault pe else None) of
               Some exc \<Rightarrow> Raised exc
             | None \<Rightarrow>
                 if \<not> pe_spawns pe
                 then outcome_of (refuse_before_spawn pe plan rid ENVIRONMENT_FAILURE Spawn_failed (Some Process_start))
                 else (case supervise rt pe plan binding rid ticks (initial_state pe) of
                     Go st \<Rightarrow> Still_running st
                   | Escapes \<Rightarrow> Raised ''RecursionError''
                   | Stop st \<Rightarrow> Supervised (conclude pe plan rid st))))"

text \<open>The plan as the dispatch carries it.\<close>

definition dispatch_message :: "parent_env \<Rightarrow> sealed_plan \<Rightarrow> string \<Rightarrow> resume_request option \<Rightarrow> worker_message option" where
  "dispatch_message pe plan rid resume = build_worker_message M_run_dispatch
     (Dispatch \<lparr>db_run_id = rid, db_plan = plan, db_heartbeat = pe_heartbeat pe, db_resume = resume\<rparr>)
     (dispatch_message_id rid) None"

end
