(* ===== verification/Subprocess_Runs.thy ===== *)
theory Subprocess_Runs
  imports Subprocess_Supervisor
begin

text \<open>
  Properties of a supervised worker process: what a success was derived from, the event stream the
  parent passes on, the kill of a worker without progress, the manifest of every outcome, and the
  equality of an honest worker's run with the run in one process.
\<close>

section \<open>Passes and invariants\<close>

lemma supervise_append:
  "supervise rt pe plan b rid (ts @ us) st = (case supervise rt pe plan b rid ts st of
      Go st' \<Rightarrow> supervise rt pe plan b rid us st' | ended \<Rightarrow> ended)"
  by (induction ts arbitrary: st) (auto split: handled.splits)

text \<open>A property of the running state that every line keeps holds when the loop stops, up to the
  fields that say why it stopped.\<close>

definition still :: "(parent_state \<Rightarrow> bool) \<Rightarrow> handled \<Rightarrow> bool" where
  "still I h \<longleftrightarrow> (case h of Go st \<Rightarrow> I st | Stop st \<Rightarrow> I st | Escapes \<Rightarrow> True)"

lemma still_simps [simp]: "still I (Go st) = I st" "still I (Stop st) = I st" "still I Escapes"
  by (simp_all add: still_def)

lemma supervise_still:
  assumes "\<And>t st. I st \<Longrightarrow> still I (one_pass rt pe plan b rid t st)" and "I st"
  shows "still I (supervise rt pe plan b rid ts st)"
  using assms(2)
proof (induction ts arbitrary: st)
  case (Cons t ts)
  from assms(1) [OF Cons.prems, of t] Cons.IH show ?case by (auto split: handled.splits)
qed simp

text \<open>The log of the parent.\<close>

definition log_kept :: "observers \<Rightarrow> run_log \<Rightarrow> bool" where
  "log_kept ob lg \<longleftrightarrow> lg_durable lg = filter (\<lambda>e. ob_record_dir ob \<and> ob_log_fault ob e = None) (lg_events lg)
     \<and> Set_phase ''teardown'' \<notin> set (lg_telemetry lg)"

lemma collect_fields:
  "lg_events (collect ob e lg) = lg_events lg @ [e]"
  "lg_durable (collect ob e lg) = lg_durable lg @ filter (\<lambda>e. ob_record_dir ob \<and> ob_log_fault ob e = None) [e]"
  "lg_telemetry (collect ob e lg) = lg_telemetry lg @ drive_telemetry ob e"
  by (simp_all add: collect_def Let_def split: option.splits)

lemma log_kept_collect: "log_kept ob lg \<Longrightarrow> cl_type e \<noteq> Terminal_event \<Longrightarrow> log_kept ob (collect ob e lg)"
  by (auto simp: log_kept_def collect_fields drive_telemetry_def)

text \<open>The invariant of the loop: the numbering of the events, acceptance before any event, no terminal
  event among those passed on, the phase of the run, and what a stored terminal went through.\<close>

definition stream_inv :: "parent_env \<Rightarrow> string \<Rightarrow> parent_state \<Rightarrow> bool" where
  "stream_inv pe rid st \<longleftrightarrow>
     sorted_wrt (<) (map re_seq (lg_events (ps_log st)))
     \<and> (\<forall>e \<in> set (lg_events (ps_log st)). cl_type e \<noteq> Terminal_event \<and> re_run_id e = rid
          \<and> (\<exists>s. ps_last_seq st = Some s \<and> re_seq e \<le> s))
     \<and> (\<forall>d. ps_deferred st = Some d \<longrightarrow> ps_last_seq st = Some (re_seq d)
          \<and> (\<forall>e \<in> set (lg_events (ps_log st)). re_seq e < re_seq d))
     \<and> (\<not> ps_accepted st \<longrightarrow> lg_events (ps_log st) = [])
     \<and> log_kept (pe_observers pe) (ps_log st)"

definition preflight_inv :: "sealed_plan \<Rightarrow> parent_state \<Rightarrow> bool" where
  "preflight_inv plan st \<longleftrightarrow> (ps_preflight_deadline st \<noteq> None \<longrightarrow> pl_execution plan V_training \<noteq> None \<and> \<not> ps_preflight_finished st)"

lemma observe_stage_frame [simp]:
  "ps_dispatched (observe_stage pe plan s now st) = ps_dispatched st"
  "ps_accepted (observe_stage pe plan s now st) = ps_accepted st"
  "ps_seen (observe_stage pe plan s now st) = ps_seen st"
  "ps_last_seq (observe_stage pe plan s now st) = ps_last_seq st"
  "ps_log (observe_stage pe plan s now st) = ps_log st"
  "ps_deferred (observe_stage pe plan s now st) = ps_deferred st"
  "ps_artifacts (observe_stage pe plan s now st) = ps_artifacts st"
  "ps_terminal (observe_stage pe plan s now st) = ps_terminal st"
  "ps_terminal_seen (observe_stage pe plan s now st) = ps_terminal_seen st"
  "ps_rejection (observe_stage pe plan s now st) = ps_rejection st"
  "ps_killed (observe_stage pe plan s now st) = ps_killed st"
  "ps_admission_failure (observe_stage pe plan s now st) = ps_admission_failure st"
  "ps_violation (observe_stage pe plan s now st) = ps_violation st"
  by (simp_all add: observe_stage_def Let_def)

text \<open>What an event that is let through changes.\<close>

definition after_event :: "parent_env \<Rightarrow> sealed_plan \<Rightarrow> rat \<Rightarrow> run_event \<Rightarrow> parent_state \<Rightarrow> parent_state" where
  "after_event pe plan later e st =
     (let st1 = st\<lparr>ps_last_seq := Some (re_seq e)\<rparr>;
          st2 = (if cl_type e = Terminal_event then st1\<lparr>ps_deferred := Some e\<rparr>
                 else st1\<lparr>ps_log := collect (pe_observers pe) e (ps_log st1)\<rparr>);
          st3 = (case shown_stage e of None \<Rightarrow> st2 | Some s \<Rightarrow> observe_stage pe plan s later st2)
      in reset_progress_deadline pe later st3)"

lemma on_event_Go:
  "on_event pe plan rid later e st =
     (if \<not> ps_accepted st then violate Event_before_accept st
      else if re_run_id e \<noteq> rid then violate Wrong_run_id st
      else if (case ps_last_seq st of None \<Rightarrow> False | Some s \<Rightarrow> re_seq e \<le> s) then violate Seq_not_greater st
      else Go (after_event pe plan later e st))"
  by (simp add: on_event_def after_event_def Let_def)

lemma after_event_fields:
  "ps_last_seq (after_event pe plan later e st) = Some (re_seq e)"
  "ps_deferred (after_event pe plan later e st) = (if cl_type e = Terminal_event then Some e else ps_deferred st)"
  "ps_log (after_event pe plan later e st) = (if cl_type e = Terminal_event then ps_log st else collect (pe_observers pe) e (ps_log st))"
  "ps_accepted (after_event pe plan later e st) = ps_accepted st"
  "ps_dispatched (after_event pe plan later e st) = ps_dispatched st"
  "ps_seen (after_event pe plan later e st) = ps_seen st"
  "ps_artifacts (after_event pe plan later e st) = ps_artifacts st"
  "ps_terminal (after_event pe plan later e st) = ps_terminal st"
  "ps_terminal_seen (after_event pe plan later e st) = ps_terminal_seen st"
  "ps_rejection (after_event pe plan later e st) = ps_rejection st"
  "ps_killed (after_event pe plan later e st) = ps_killed st"
  "ps_admission_failure (after_event pe plan later e st) = ps_admission_failure st"
  "ps_violation (after_event pe plan later e st) = ps_violation st"
  by (simp_all add: after_event_def Let_def reset_progress_deadline_def split: option.splits)

lemma stream_inv_event:
  assumes "stream_inv pe rid st" and "ps_accepted st" and "re_run_id e = rid" and "ps_deferred st = None"
    and "\<not> (case ps_last_seq st of None \<Rightarrow> False | Some s \<Rightarrow> re_seq e \<le> s)"
  shows "stream_inv pe rid (after_event pe plan later e st)"
proof -
  from assms(1,5) have before: "re_seq x < re_seq e" if "x \<in> set (lg_events (ps_log st))" for x
    using that by (fastforce simp: stream_inv_def split: option.splits)
  show ?thesis
    using assms before log_kept_collect [of "pe_observers pe" "ps_log st" e]
    by (auto simp: stream_inv_def after_event_fields collect_fields sorted_wrt_append split: option.splits dest!: less_imp_le)
qed

lemma stream_inv_other [simp]:
  "stream_inv pe rid (st\<lparr>ps_violation := v\<rparr>) = stream_inv pe rid st"
  "stream_inv pe rid (st\<lparr>ps_dispatched := d\<rparr>) = stream_inv pe rid st"
  "stream_inv pe rid (st\<lparr>ps_seen := ids\<rparr>) = stream_inv pe rid st"
  "stream_inv pe rid (st\<lparr>ps_progress_deadline := q\<rparr>) = stream_inv pe rid st"
  "stream_inv pe rid (st\<lparr>ps_terminal := m\<rparr>) = stream_inv pe rid st"
  "stream_inv pe rid (st\<lparr>ps_terminal_seen := s\<rparr>) = stream_inv pe rid st"
  "stream_inv pe rid (st\<lparr>ps_artifacts := as\<rparr>) = stream_inv pe rid st"
  "stream_inv pe rid (st\<lparr>ps_killed := k\<rparr>) = stream_inv pe rid st"
  "stream_inv pe rid (st\<lparr>ps_rejection := r\<rparr>) = stream_inv pe rid st"
  "stream_inv pe rid (st\<lparr>ps_admission_failure := f\<rparr>) = stream_inv pe rid st"
  by (simp_all add: stream_inv_def)

lemma stream_inv_accepted: "stream_inv pe rid st \<Longrightarrow> stream_inv pe rid (st\<lparr>ps_accepted := True\<rparr>)"
  by (simp add: stream_inv_def)

lemma on_message_stream:
  assumes "stream_inv pe rid st" and "message_ok m"
  shows "still (stream_inv pe rid) (on_message rt pe plan b rid later m st)"
proof (cases "wm_body m")
  case (Event_body e)
  with assms(2) have "wm_type m \<noteq> M_terminal_result" by (auto simp: message_ok_def body_ok_def)
  with assms(1) stream_inv_event [OF assms(1)] show ?thesis
    by (simp add: on_message_def Event_body on_event_Go violate_def)
next
  case (Accepted a)
  with assms(1) stream_inv_accepted [OF assms(1)] show ?thesis
    by (simp add: on_message_def violate_def on_accepted_def reset_progress_deadline_def split: option.splits)
next
  case (Terminal_body t)
  with assms(1) show ?thesis
    by (simp add: on_message_def violate_def on_terminal_def Let_def split: option.splits refusal.splits)
qed (use assms(1) in \<open>simp_all add: on_message_def violate_def on_failure_def\<close>)

lemma decoded_ok: "decode_worker_message wi line c = Decoded m \<Longrightarrow> message_ok m"
  by (auto simp: decode_worker_message_def read_envelope_def Let_def split: if_splits line_json.splits json.splits option.splits)

lemma pass_stream:
  assumes "stream_inv pe rid st"
  shows "still (stream_inv pe rid) (one_pass rt pe plan b rid t st)"
proof -
  have "still (stream_inv pe rid) (on_message rt pe plan b rid (tk_later t) m (st\<lparr>ps_seen := ids\<rparr>))" if "message_ok m" for m ids
    by (rule on_message_stream) (use assms that in simp_all)
  with assms show ?thesis
    by (auto simp: one_pass_def on_line_def violate_def reset_progress_deadline_def Let_def dest: decoded_ok
      split: option.splits queued.splits decoded.splits)
qed

lemma initial_stream: "stream_inv pe rid (initial_state pe)"
  by (simp add: stream_inv_def initial_state_def empty_log_def log_kept_def)

lemma supervised_stream: "still (stream_inv pe rid) (supervise rt pe plan b rid ts (initial_state pe))"
  by (rule supervise_still [OF pass_stream initial_stream])


section \<open>Why the loop stops\<close>

definition running :: "parent_state \<Rightarrow> bool" where
  "running st \<longleftrightarrow> ps_terminal st = None \<and> ps_artifacts st = [] \<and> \<not> ps_terminal_seen st \<and> ps_rejection st = None \<and> ps_killed st = None
     \<and> ps_admission_failure st = None \<and> ps_violation st = None"

definition stop_reason :: "runtime \<Rightarrow> parent_env \<Rightarrow> sealed_plan \<Rightarrow> string \<Rightarrow> parent_state \<Rightarrow> bool" where
  "stop_reason rt pe plan rid st \<longleftrightarrow>
     (ps_terminal st = None \<and> ps_artifacts st = []
        \<and> (ps_killed st = None \<longrightarrow> ps_admission_failure st = None \<longrightarrow> ps_violation st = None \<longrightarrow> ps_rejection st = None \<longrightarrow> \<not> ps_terminal_seen st))
   \<or> (ps_killed st = None \<and> (\<exists>tb. ps_terminal st = Some (tb_manifest tb) \<and> ps_artifacts st = tb_artifacts tb
        \<and> body_ok M_terminal_result (Terminal_body tb)
        \<and> parse_terminal rt (pe_machine pe) plan rid (lg_events (ps_log st)) tb = None))"

lemma running_frame [simp]:
  "running (st\<lparr>ps_seen := ids\<rparr>) = running st" "running (st\<lparr>ps_dispatched := d\<rparr>) = running st"
  "running (st\<lparr>ps_accepted := a\<rparr>) = running st" "running (reset_progress_deadline pe now st) = running st"
  "running (after_event pe plan later e st) = running st"
  by (simp_all add: running_def after_event_fields reset_progress_deadline_def)

definition keeps_running :: "(parent_state \<Rightarrow> bool) \<Rightarrow> handled \<Rightarrow> bool" where
  "keeps_running E h \<longleftrightarrow> (case h of Go st \<Rightarrow> running st | Stop st \<Rightarrow> E st | Escapes \<Rightarrow> True)"

lemma keeps_running_simps [simp]:
  "keeps_running E (Go st) = running st" "keeps_running E (Stop st) = E st" "keeps_running E Escapes"
  by (simp_all add: keeps_running_def)

lemma violate_stops: "running st \<Longrightarrow> keeps_running (stop_reason rt pe plan rid) (violate v st)"
  by (simp add: violate_def running_def stop_reason_def)

lemma on_terminal_stops:
  assumes "running st" and "body_ok M_terminal_result (Terminal_body t)"
  shows "keeps_running (stop_reason rt pe plan rid) (on_terminal rt pe plan rid t st)"
  using assms violate_stops [OF assms(1)]
  by (auto simp: on_terminal_def Let_def violate_def running_def stop_reason_def split: option.splits refusal.splits)

lemma on_message_stops:
  assumes "running st" and "message_ok m"
  shows "keeps_running (stop_reason rt pe plan rid) (on_message rt pe plan b rid later m st)"
proof (cases "wm_body m")
  case (Terminal_body t)
  with assms(2) have "body_ok M_terminal_result (Terminal_body t)" by (auto simp: message_ok_def body_ok_def)
  from on_terminal_stops [OF assms(1) this] Terminal_body violate_stops [OF assms(1)] show ?thesis by (simp add: on_message_def)
next
  case (Failure_body f)
  with assms(1) violate_stops [OF assms(1)] show ?thesis by (simp add: on_message_def on_failure_def stop_reason_def running_def)
qed (use assms(1) violate_stops [OF assms(1)] in \<open>simp_all add: on_message_def on_event_Go on_accepted_def split: option.splits\<close>)

lemma pass_stops:
  assumes "running st"
  shows "keeps_running (stop_reason rt pe plan rid) (one_pass rt pe plan b rid t st)"
proof -
  have "keeps_running (stop_reason rt pe plan rid) (on_message rt pe plan b rid (tk_later t) m (st\<lparr>ps_seen := ids\<rparr>))" if "message_ok m" for m ids
    by (rule on_message_stops) (use assms that in simp_all)
  moreover have "keeps_running (stop_reason rt pe plan rid) (violate v (st\<lparr>ps_seen := ids\<rparr>))" for v ids
    by (rule violate_stops) (simp add: assms)
  moreover have "stop_reason rt pe plan rid st" "stop_reason rt pe plan rid (st\<lparr>ps_killed := Some k\<rparr>)" for k
    using assms by (simp_all add: stop_reason_def running_def)
  ultimately show ?thesis
    using assms violate_stops [OF assms]
    by (auto simp: one_pass_def on_line_def Let_def dest: decoded_ok split: option.splits queued.splits decoded.splits)
qed

lemma supervise_stops:
  "running st \<Longrightarrow> keeps_running (stop_reason rt pe plan rid) (supervise rt pe plan b rid ts st)"
proof (induction ts arbitrary: st)
  case (Cons t ts)
  from pass_stops [OF Cons.prems, of rt pe plan rid b t] Cons.IH show ?case by (cases "one_pass rt pe plan b rid t st") auto
qed simp

lemma initial_running: "running (initial_state pe)"
  by (simp add: running_def initial_state_def)

text \<open>The parts of a supervised execution.\<close>

lemma supervised_cases:
  assumes "execute_run_subprocess rt pe plan run_id runner_name max_steps ticks = Supervised r"
  obtains (refused) taxonomy reason stage durable where
      "r = \<lparr>xr_manifest = parent_failed plan (sanitize_id run_id) taxonomy reason stage None, xr_events = [], xr_artifacts = [],
        xr_durable_manifest = durable, xr_durable_artifacts = [], xr_log = empty_log\<rparr>"
      "durable = (if ob_record_dir (pe_observers pe) then Some (xr_manifest r) else None)"
    | (concluded) binding lane st where
      "check_before_spawn rt plan runner_name max_steps = Inr (binding, lane)"
      "supervise rt pe plan binding (sanitize_id run_id) ticks (initial_state pe) = Stop st"
      "stream_inv pe (sanitize_id run_id) st" "stop_reason rt pe plan (sanitize_id run_id) st"
      "r = conclude pe plan (sanitize_id run_id) st"
proof -
  let ?rid = "sanitize_id run_id"
  have refusal: thesis if "outcome_of (refuse_before_spawn pe plan ?rid taxonomy reason stage) = Supervised r" for taxonomy reason stage
    using that refused by (auto simp: outcome_of_def refuse_before_spawn_def Let_def split: if_splits option.splits)
  show thesis
  proof (cases "check_before_spawn rt plan runner_name max_steps")
    case (Inl x)
    with assms refusal show thesis by (auto simp: execute_run_subprocess_def Let_def split: if_splits)
  next
    case (Inr bl)
    obtain binding lane where bl: "bl = (binding, lane)" by force
    show thesis
    proof (cases "supervise rt pe plan binding ?rid ticks (initial_state pe)")
      case (Stop st)
      with supervised_stream [of pe ?rid rt plan binding ticks] supervise_stops [OF initial_running [of pe], of rt pe plan ?rid binding ticks]
      have st: "stream_inv pe ?rid st" "stop_reason rt pe plan ?rid st" by simp_all
      from assms Inr bl Stop have "r = conclude pe plan ?rid st \<or> (\<exists>taxonomy reason stage.
          outcome_of (refuse_before_spawn pe plan ?rid taxonomy reason stage) = Supervised r)"
        by (auto simp: execute_run_subprocess_def Let_def split: if_splits option.splits)
      with refusal concluded [OF Inr [unfolded bl] Stop st] show thesis by blast
    qed (use assms Inr bl refusal in \<open>auto simp: execute_run_subprocess_def Let_def split: if_splits option.splits\<close>)
  qed
qed


section \<open>The manifest of an outcome\<close>

text \<open>Valid, linked to the plan, and with a failure exactly when it did not succeed.\<close>

definition accountable :: "sealed_plan \<Rightarrow> string \<Rightarrow> run_manifest \<Rightarrow> bool" where
  "accountable plan rid m \<longleftrightarrow> run_manifest_ok m \<and> mf_run_id m = rid \<and> mf_plan_ref m = plan_ref plan
     \<and> mf_environment m = Some (pl_environment plan) \<and> mf_dataset m = Some (pl_dataset plan)
     \<and> mf_target m = pl_backend_id plan \<and> mf_base_model m = pl_base_model plan
     \<and> (mf_failure m = None \<longleftrightarrow> mf_state m = Succeeded)"

lemma parent_failed_ok: "id_pattern rid \<Longrightarrow> accountable plan rid (parent_failed plan rid taxonomy reason stage exit_code)"
  by (simp add: accountable_def parent_failed_def run_manifest_ok_def list_ex_iff proven_native_def)

lemma failure_update_ok: "accountable plan rid m \<Longrightarrow> f = None \<longleftrightarrow> mf_failure m = None \<Longrightarrow> accountable plan rid (m\<lparr>mf_failure := f\<rparr>)"
  unfolding accountable_def run_manifest_ok_def by auto

lemma note_ok [simp]: "accountable plan rid (append_manifest_note note m) = accountable plan rid m"
  by (simp add: append_manifest_note_def add_note_def accountable_def run_manifest_ok_def)

lemma note_state [simp]: "mf_state (append_manifest_note note m) = mf_state m"
  by (simp add: append_manifest_note_def add_note_def)

lemma downgraded_ok: "id_pattern rid \<Longrightarrow> accountable plan rid (downgraded plan rid reason m)"
  using parent_failed_ok [of rid plan ARTIFACT_FAILURE reason "Some Export" None] unproven_not_native
  by (auto simp: downgraded_def accountable_def run_manifest_ok_def measured_failure_fit_def proven_native_def parent_failed_def
    list_ex_iff split: list.splits option.splits)

lemma downgraded_state [simp]: "mf_state (downgraded plan rid reason m) = Failed_state"
  by (simp add: downgraded_def parent_failed_def)

lemma terminal_accountable:
  assumes "body_ok M_terminal_result (Terminal_body tb)" and "parse_terminal rt mc plan rid events tb = None"
  shows "accountable plan rid (tb_manifest tb)"
proof -
  have "terminal_links plan rid tb = None" using assms(2) by (simp add: parse_terminal_def split: option.splits)
  then have "tb_run_id tb = rid" "mf_plan_ref (tb_manifest tb) = plan_ref plan" "mf_environment (tb_manifest tb) = Some (pl_environment plan)"
    "mf_dataset (tb_manifest tb) = Some (pl_dataset plan)" "mf_target (tb_manifest tb) = pl_backend_id plan"
    "mf_base_model (tb_manifest tb) = pl_base_model plan"
    by (simp_all add: terminal_links_def Let_def split: if_splits)
  with assms(1) show ?thesis
    by (auto simp: accountable_def body_ok_def terminal_consistency_def split: if_splits option.splits)
qed

lemma finalize_ok:
  assumes "stop_reason rt pe plan rid st" and "id_pattern rid"
  shows "accountable plan rid (finalize plan rid returncode st)"
  using assms(1) unfolding stop_reason_def
proof
  assume "ps_killed st = None \<and> (\<exists>tb. ps_terminal st = Some (tb_manifest tb) \<and> ps_artifacts st = tb_artifacts tb
      \<and> body_ok M_terminal_result (Terminal_body tb) \<and> parse_terminal rt (pe_machine pe) plan rid (lg_events (ps_log st)) tb = None)"
  then obtain tb where tb: "ps_killed st = None" "ps_terminal st = Some (tb_manifest tb)"
    "body_ok M_terminal_result (Terminal_body tb)" "parse_terminal rt (pe_machine pe) plan rid (lg_events (ps_log st)) tb = None" by blast
  with terminal_accountable [OF tb(3,4)] show ?thesis by (simp add: finalize_def failure_update_ok)
qed (use parent_failed_ok [OF assms(2)] failure_update_ok [OF parent_failed_ok [OF assms(2)]] in
    \<open>auto simp: finalize_def Let_def parent_failed_def split: option.splits\<close>)

text \<open>Nothing after the classification changes more than the notes, except a failure to store.\<close>

definition noted :: "run_manifest \<Rightarrow> run_manifest \<Rightarrow> bool" where
  "noted m m' \<longleftrightarrow> m\<lparr>mf_notes := []\<rparr> = m'\<lparr>mf_notes := []\<rparr>"

lemma noted_refl [simp]: "noted m m"
  by (simp add: noted_def)

lemma noted_append [simp]:
  "noted m (append_manifest_note note m') = noted m m'" "noted (append_manifest_note note m) m' = noted m m'"
  by (simp_all add: noted_def append_manifest_note_def add_note_def)

lemma noted_state: "noted m m' \<Longrightarrow> mf_state m = mf_state m' \<and> mf_evidence m = mf_evidence m' \<and> mf_final_fit m = mf_final_fit m'
    \<and> mf_failure m = mf_failure m' \<and> mf_output_dir m = mf_output_dir m'"
  unfolding noted_def by (cases m, cases m') simp


lemma persist_run_facts:
  assumes "persist_run pe plan rid artifacts errors m = (m', disk)" and "id_pattern rid"
  shows "accountable plan rid m \<Longrightarrow> accountable plan rid m'"
    and "case disk of None \<Rightarrow> True | Some d \<Rightarrow> d = m'"
    and "mf_state m' = Succeeded \<Longrightarrow> noted m m' \<and> list_all (pe_artifact_write pe) artifacts \<and> disk \<noteq> None"
    and "mf_state m \<noteq> Succeeded \<Longrightarrow> noted m m'"
  using assms downgraded_ok [OF assms(2)]
  by (auto simp: persist_run_def Let_def split: option.splits if_splits)

lemma deliver_terminal_facts:
  assumes "deliver_terminal pe e lg (m, disk) = (lg', m', disk')"
  shows "noted m m'" and "accountable plan rid m' = accountable plan rid m"
    and "lg_events lg' = lg_events lg @ [e]" "lg_durable lg' = lg_durable lg" "lg_telemetry lg' = lg_telemetry lg"
    and "case disk of None \<Rightarrow> True | Some d \<Rightarrow> d = m \<Longrightarrow> case disk' of None \<Rightarrow> True | Some d \<Rightarrow> noted d m'"
    and "disk \<noteq> None \<Longrightarrow> disk' \<noteq> None" and "\<not> ob_record_dir (pe_observers pe) \<Longrightarrow> disk' = disk"
  using assms by (auto simp: deliver_terminal_def Let_def split: option.splits if_splits)

lemma first_record_facts:
  assumes "first_record pe plan rid st = (m, disk)" and "id_pattern rid"
  shows "accountable plan rid (finalize plan rid (pe_returncode pe) st) \<Longrightarrow> accountable plan rid m"
    and "case disk of None \<Rightarrow> True | Some d \<Rightarrow> d = m"
    and "mf_state m = Succeeded \<Longrightarrow> noted (finalize plan rid (pe_returncode pe) st) m"
    and "mf_state (finalize plan rid (pe_returncode pe) st) \<noteq> Succeeded \<Longrightarrow> noted (finalize plan rid (pe_returncode pe) st) m"
    and "mf_state m = Succeeded \<Longrightarrow> ob_record_dir (pe_observers pe) \<Longrightarrow> list_all (pe_artifact_write pe) (ps_artifacts st) \<and> disk \<noteq> None"
    and "\<not> ob_record_dir (pe_observers pe) \<Longrightarrow> disk = None"
proof -
  let ?fin = "finalize plan rid (pe_returncode pe) st" and ?errors = "lg_sink_errors (ps_log st)"
  have p: "persist_run pe plan rid (ps_artifacts st) ?errors ?fin = (m, disk)" if "ob_record_dir (pe_observers pe)"
    using assms(1) that by (simp add: first_record_def Let_def)
  have n: "m = (if ?errors \<noteq> [] then append_manifest_note (isolated_note ?errors) ?fin else ?fin) \<and> disk = None" if "\<not> ob_record_dir (pe_observers pe)"
    using assms(1) that by (simp add: first_record_def Let_def split: if_splits)
  show "accountable plan rid ?fin \<Longrightarrow> accountable plan rid m" "mf_state m = Succeeded \<Longrightarrow> noted ?fin m"
    "mf_state ?fin \<noteq> Succeeded \<Longrightarrow> noted ?fin m"
    "case disk of None \<Rightarrow> True | Some d \<Rightarrow> d = m"
    using persist_run_facts [OF p assms(2)] n by (cases "ob_record_dir (pe_observers pe)"; simp)+
  show "mf_state m = Succeeded \<Longrightarrow> ob_record_dir (pe_observers pe) \<Longrightarrow> list_all (pe_artifact_write pe) (ps_artifacts st) \<and> disk \<noteq> None"
    using persist_run_facts(3) [OF p assms(2)] by blast
  show "\<not> ob_record_dir (pe_observers pe) \<Longrightarrow> disk = None" using n by blast
qed

lemma close_stream_facts:
  assumes "close_stream pe rid st (m, disk) = (lg', m', disk')"
  shows "noted m m'" and "accountable plan r m' = accountable plan r m"
    and "lg_events lg' = lg_events (ps_log st) @ (if ps_accepted st then [terminal_event rid st (mf_state m)] else [])"
    and "lg_durable lg' = lg_durable (ps_log st)" "lg_telemetry lg' = lg_telemetry (ps_log st)"
    and "case disk of None \<Rightarrow> True | Some d \<Rightarrow> d = m \<Longrightarrow> case disk' of None \<Rightarrow> True | Some d \<Rightarrow> noted d m'"
    and "disk \<noteq> None \<Longrightarrow> disk' \<noteq> None" and "\<not> ob_record_dir (pe_observers pe) \<Longrightarrow> disk' = disk"
proof -
  let ?e = "terminal_event rid st (mf_state m)"
  have d: "deliver_terminal pe ?e (ps_log st) (m, disk) = (lg', m', disk')" if "ps_accepted st"
    using assms that by (simp add: close_stream_def)
  have n: "lg' = ps_log st \<and> m' = m \<and> disk' = disk" if "\<not> ps_accepted st"
    using assms that by (simp add: close_stream_def)
  show "noted m m'" "accountable plan r m' = accountable plan r m"
    "lg_events lg' = lg_events (ps_log st) @ (if ps_accepted st then [?e] else [])"
    "lg_durable lg' = lg_durable (ps_log st)" "lg_telemetry lg' = lg_telemetry (ps_log st)"
    "disk \<noteq> None \<Longrightarrow> disk' \<noteq> None" "\<not> ob_record_dir (pe_observers pe) \<Longrightarrow> disk' = disk"
    using deliver_terminal_facts [OF d] n by (cases "ps_accepted st"; simp)+
  assume "case disk of None \<Rightarrow> True | Some d \<Rightarrow> d = m"
  then show "case disk' of None \<Rightarrow> True | Some d \<Rightarrow> noted d m'"
    using deliver_terminal_facts(6) [OF d] n by (cases "ps_accepted st") (auto split: option.splits)
qed

lemma conclude_facts:
  assumes "r = conclude pe plan rid st" and "id_pattern rid" and "accountable plan rid (finalize plan rid (pe_returncode pe) st)"
  shows "accountable plan rid (xr_manifest r)"
    and "mf_state (xr_manifest r) = Succeeded \<Longrightarrow> noted (finalize plan rid (pe_returncode pe) st) (xr_manifest r)"
    and "xr_artifacts r = ps_artifacts st"
    and "xr_events r = lg_events (ps_log st) @ (if ps_accepted st then [terminal_event rid st (mf_state (xr_manifest r))] else [])"
    and "lg_durable (xr_log r) = lg_durable (ps_log st)" and "lg_telemetry (xr_log r) = lg_telemetry (ps_log st)"
    and "case xr_durable_manifest r of None \<Rightarrow> True | Some d \<Rightarrow> noted d (xr_manifest r)"
    and "mf_state (xr_manifest r) = Succeeded \<Longrightarrow> ob_record_dir (pe_observers pe) \<Longrightarrow> xr_durable_artifacts r = xr_artifacts r
      \<and> xr_durable_manifest r \<noteq> None"
    and "\<not> ob_record_dir (pe_observers pe) \<Longrightarrow> xr_durable_manifest r = None \<and> xr_durable_artifacts r = []"
    and "mf_state (finalize plan rid (pe_returncode pe) st) \<noteq> Succeeded \<Longrightarrow> noted (finalize plan rid (pe_returncode pe) st) (xr_manifest r)"
proof -
  obtain m disk where f: "first_record pe plan rid st = (m, disk)" by force
  obtain lg' m' disk' where c: "close_stream pe rid st (m, disk) = (lg', m', disk')" by (metis prod_cases3)
  note m = first_record_facts [OF f assms(2)] and o = close_stream_facts [OF c]
  have r: "xr_manifest r = m'" "xr_artifacts r = ps_artifacts st" "xr_events r = lg_events lg'" "xr_durable_manifest r = disk'"
    "xr_log r = lg'" "xr_durable_artifacts r = (if ob_record_dir (pe_observers pe) then stored_prefix (pe_artifact_write pe) (ps_artifacts st) else [])"
    by (simp_all add: assms(1) conclude_def f c)
  have state: "mf_state m = mf_state m'" using noted_state [OF o(1)] by blast
  show "accountable plan rid (xr_manifest r)" using m(1) [OF assms(3)] o(2) [of plan rid] by (simp add: r)
  show "mf_state (xr_manifest r) = Succeeded \<Longrightarrow> noted (finalize plan rid (pe_returncode pe) st) (xr_manifest r)"
    using m(3) o(1) state by (simp add: r noted_def)
  show "mf_state (finalize plan rid (pe_returncode pe) st) \<noteq> Succeeded \<Longrightarrow> noted (finalize plan rid (pe_returncode pe) st) (xr_manifest r)"
    using m(4) o(1) by (simp add: r noted_def)
  show "xr_artifacts r = ps_artifacts st" by (fact r(2))
  show "xr_events r = lg_events (ps_log st) @ (if ps_accepted st then [terminal_event rid st (mf_state (xr_manifest r))] else [])"
    using o(3) by (simp add: r state)
  show "lg_durable (xr_log r) = lg_durable (ps_log st)" "lg_telemetry (xr_log r) = lg_telemetry (ps_log st)"
    using o(4,5) by (simp_all add: r)
  show "case xr_durable_manifest r of None \<Rightarrow> True | Some d \<Rightarrow> noted d (xr_manifest r)" unfolding r using o(6) [OF m(2)] .
  show "\<not> ob_record_dir (pe_observers pe) \<Longrightarrow> xr_durable_manifest r = None \<and> xr_durable_artifacts r = []"
    using m(6) o(8) by (simp add: r)
  have "list_all w as \<Longrightarrow> stored_prefix w as = as" for w as
    by (simp add: stored_prefix_def takeWhile_eq_all_conv list_all_iff)
  then show "mf_state (xr_manifest r) = Succeeded \<Longrightarrow> ob_record_dir (pe_observers pe) \<Longrightarrow> xr_durable_artifacts r = xr_artifacts r
      \<and> xr_durable_manifest r \<noteq> None"
    using m(5) o(7) state by (simp add: r)
qed


text \<open>The three results of an execution, and what holds of a concluded one.\<close>

lemma supervised_run:
  assumes "execute_run_subprocess rt pe plan run_id runner_name max_steps ticks = Supervised r" and "rid = sanitize_id run_id"
  obtains (refused) "accountable plan rid (xr_manifest r)" "mf_state (xr_manifest r) = Failed_state" "xr_events r = []"
      "lg_durable (xr_log r) = []" "lg_telemetry (xr_log r) = []" "case xr_durable_manifest r of None \<Rightarrow> True | Some d \<Rightarrow> noted d (xr_manifest r)"
    | (concluded) binding lane st where
      "check_before_spawn rt plan runner_name max_steps = Inr (binding, lane)"
      "supervise rt pe plan binding rid ticks (initial_state pe) = Stop st"
      "stream_inv pe rid st" "stop_reason rt pe plan rid st" "r = conclude pe plan rid st"
      "accountable plan rid (finalize plan rid (pe_returncode pe) st)"
  using assms(1)
proof (cases rule: supervised_cases)
  case (refused taxonomy reason stage durable)
  from refused(2) have "case durable of None \<Rightarrow> True | Some d \<Rightarrow> noted d (xr_manifest r)" by simp
  with refused(1) parent_failed_ok [OF sanitize_id_ok, of plan run_id] that(1) assms(2) show thesis
    by (simp add: empty_log_def parent_failed_def)
next
  case (concluded binding lane st)
  with that(2) finalize_ok [OF concluded(4) sanitize_id_ok] assms(2) show thesis by blast
qed

lemma concluded_stream:
  assumes "stream_inv pe rid st" and "r = conclude pe plan rid st" and "id_pattern rid"
    and "accountable plan rid (finalize plan rid (pe_returncode pe) st)"
  shows "sorted_wrt (<) (map re_seq (xr_events r))" and "list_all (\<lambda>e. re_run_id e = rid) (xr_events r)"
    and "xr_events r = [] \<or> cl_type (last (xr_events r)) = Terminal_event \<and> cl_state (last (xr_events r)) = Some (mf_state (xr_manifest r))"
    and "butlast (xr_events r) = lg_events (ps_log st)" and "list_all (\<lambda>e. cl_type e \<noteq> Terminal_event) (lg_events (ps_log st))"
    and "lg_durable (xr_log r) = filter (\<lambda>e. ob_record_dir (pe_observers pe) \<and> ob_log_fault (pe_observers pe) e = None) (lg_events (ps_log st))"
    and "Set_phase ''teardown'' \<notin> set (lg_telemetry (xr_log r))"
proof -
  note c = conclude_facts [OF assms(2-4)]
  let ?t = "terminal_event rid st (mf_state (xr_manifest r))"
  have t: "cl_type ?t = Terminal_event" "cl_state ?t = Some (mf_state (xr_manifest r))" "re_run_id ?t = rid"
    by (simp_all add: terminal_event_def)
  have later: "re_seq e < re_seq ?t" if "e \<in> set (lg_events (ps_log st))" for e
    using assms(1) that by (fastforce simp: stream_inv_def terminal_event_def split: option.splits)
  show "sorted_wrt (<) (map re_seq (xr_events r))" "list_all (\<lambda>e. re_run_id e = rid) (xr_events r)"
    using assms(1) later t by (auto simp: c(4) stream_inv_def sorted_wrt_append list_all_iff)
  show "xr_events r = [] \<or> cl_type (last (xr_events r)) = Terminal_event \<and> cl_state (last (xr_events r)) = Some (mf_state (xr_manifest r))"
    "butlast (xr_events r) = lg_events (ps_log st)"
    using assms(1) t by (auto simp: c(4) stream_inv_def)
  show "list_all (\<lambda>e. cl_type e \<noteq> Terminal_event) (lg_events (ps_log st))"
    "lg_durable (xr_log r) = filter (\<lambda>e. ob_record_dir (pe_observers pe) \<and> ob_log_fault (pe_observers pe) e = None) (lg_events (ps_log st))"
    "Set_phase ''teardown'' \<notin> set (lg_telemetry (xr_log r))"
    using assms(1) by (simp_all add: c(5,6) stream_inv_def log_kept_def list_all_iff)
qed


section \<open>Deadlines\<close>

text \<open>The deadline in force, and the passes in which a worker makes no progress: nothing arrives, a
  heartbeat, and during the setup also events that show no stage beyond it.\<close>

definition budget :: "parent_state \<Rightarrow> rat" where
  "budget st = (case ps_preflight_deadline st of Some d \<Rightarrow> d | None \<Rightarrow> ps_progress_deadline st)"

definition without_progress :: "wire \<Rightarrow> bool \<Rightarrow> tick \<Rightarrow> bool" where
  "without_progress wi preflight t \<longleftrightarrow> (case tk_got t of
      Nothing_yet \<Rightarrow> True
    | End_of_stream \<Rightarrow> False
    | Line line \<Rightarrow> (case decode_worker_message wi line False of
          Decoded m \<Rightarrow> (case wm_body m of
              Heartbeat _ \<Rightarrow> True
            | Event_body e \<Rightarrow> preflight \<and> (case shown_stage e of None \<Rightarrow> True | Some s \<Rightarrow> s \<in> set PREFLIGHT_STAGES)
            | _ \<Rightarrow> False)
        | _ \<Rightarrow> False))"

lemma preflight_other [simp]:
  "preflight_inv plan (st\<lparr>ps_violation := v\<rparr>) = preflight_inv plan st"
  "preflight_inv plan (st\<lparr>ps_dispatched := d\<rparr>) = preflight_inv plan st"
  "preflight_inv plan (st\<lparr>ps_accepted := a\<rparr>) = preflight_inv plan st"
  "preflight_inv plan (st\<lparr>ps_seen := ids\<rparr>) = preflight_inv plan st"
  "preflight_inv plan (st\<lparr>ps_last_seq := q\<rparr>) = preflight_inv plan st"
  "preflight_inv plan (st\<lparr>ps_deferred := e\<rparr>) = preflight_inv plan st"
  "preflight_inv plan (st\<lparr>ps_log := lg\<rparr>) = preflight_inv plan st"
  "preflight_inv plan (reset_progress_deadline pe now st) = preflight_inv plan st"
  by (simp_all add: preflight_inv_def reset_progress_deadline_def)

lemma preflight_observe: "preflight_inv plan st \<Longrightarrow> preflight_inv plan (observe_stage pe plan s now st)"
  by (simp add: observe_stage_def Let_def preflight_inv_def)

lemma preflight_event: "preflight_inv plan st \<Longrightarrow> preflight_inv plan (after_event pe plan later e st)"
  by (auto simp: after_event_def Let_def intro: preflight_observe split: option.splits)

definition going :: "(parent_state \<Rightarrow> bool) \<Rightarrow> handled \<Rightarrow> bool" where
  "going I h \<longleftrightarrow> (case h of Go st \<Rightarrow> I st | _ \<Rightarrow> True)"

lemma going_simps [simp]: "going I (Go st) = I st" "going I (Stop st)" "going I Escapes" "going I (violate v st)"
  by (simp_all add: going_def violate_def)

lemma pass_preflight: "preflight_inv plan st \<Longrightarrow> going (preflight_inv plan) (one_pass rt pe plan b rid t st)"
  by (simp add: one_pass_def on_line_def on_message_def on_event_Go on_accepted_def on_terminal_def on_failure_def preflight_event Let_def
    split: option.splits queued.splits decoded.splits worker_body.splits refusal.splits)

lemma supervise_preflight: "preflight_inv plan st \<Longrightarrow> going (preflight_inv plan) (supervise rt pe plan b rid ts st)"
proof (induction ts arbitrary: st)
  case (Cons t ts)
  from pass_preflight [OF Cons.prems, of rt pe b rid t] Cons.IH show ?case by (cases "one_pass rt pe plan b rid t st") auto
qed simp

text \<open>Such a pass moves no deadline, and ends the run when the deadline has passed.\<close>

lemma observe_setup:
  assumes "preflight_inv plan st" and "ps_preflight_deadline st \<noteq> None" and "s \<in> set PREFLIGHT_STAGES"
  shows "ps_preflight_deadline (observe_stage pe plan s now st) = ps_preflight_deadline st"
  using assms by (simp add: observe_stage_def Let_def preflight_inv_def)

lemma event_in_setup:
  assumes "preflight_inv plan st" and "ps_preflight_deadline st \<noteq> None"
    and "case shown_stage e of None \<Rightarrow> True | Some s \<Rightarrow> s \<in> set PREFLIGHT_STAGES"
  shows "ps_preflight_deadline (after_event pe plan later e st) = ps_preflight_deadline st"
proof (cases "shown_stage e")
  case None
  then show ?thesis by (simp add: after_event_def Let_def reset_progress_deadline_def)
next
  case (Some s)
  have "ps_preflight_deadline (observe_stage pe plan s later x) = ps_preflight_deadline x"
    if "ps_preflight_deadline x = ps_preflight_deadline st" "ps_preflight_finished x = ps_preflight_finished st" for x
    by (rule observe_setup) (use assms that Some in \<open>simp_all add: preflight_inv_def\<close>)
  then show ?thesis by (simp add: after_event_def Let_def reset_progress_deadline_def Some)
qed

definition hung :: "bool \<Rightarrow> parent_state \<Rightarrow> bool" where
  "hung preflight st \<longleftrightarrow> ps_terminal st = None \<and> ps_admission_failure st = None
     \<and> (case ps_killed st of
          Some k \<Rightarrow> kl_taxonomy k = (if preflight then TIMEOUT else KERNEL_STALL)
            \<and> kl_reason k = (if preflight then Preflight_timeout else No_progress)
        | None \<Rightarrow> ps_violation st \<noteq> None)"

definition held :: "parent_state \<Rightarrow> rat \<Rightarrow> handled \<Rightarrow> bool" where
  "held st now h \<longleftrightarrow> (case h of
      Go st' \<Rightarrow> now < budget st \<and> budget st' = budget st \<and> (ps_preflight_deadline st' = None \<longleftrightarrow> ps_preflight_deadline st = None)
    | Stop st' \<Rightarrow> hung (ps_preflight_deadline st \<noteq> None) st' | Escapes \<Rightarrow> False)"

lemma violate_held: "running st \<Longrightarrow> held st0 now (violate v st)"
  by (simp add: held_def violate_def hung_def running_def)

lemma pass_held:
  assumes "running st" and "preflight_inv plan st" and "without_progress (pe_wire pe) (ps_preflight_deadline st \<noteq> None) t"
  shows "held st (tk_now t) (one_pass rt pe plan b rid t st)"
proof (cases "deadline_failure (tk_now t) st")
  case (Some k)
  with assms(1) show ?thesis
    by (auto simp: one_pass_def held_def hung_def deadline_failure_def running_def split: option.splits if_splits)
next
  case None
  then have now: "tk_now t < budget st" by (auto simp: deadline_failure_def budget_def split: option.splits if_splits)
  show ?thesis
  proof (cases "tk_got t")
    case Nothing_yet
    with None now show ?thesis by (simp add: one_pass_def held_def)
  next
    case (Line line)
    with assms(3) obtain m where m: "decode_worker_message (pe_wire pe) line False = Decoded m"
      by (auto simp: without_progress_def split: decoded.splits)
    define seen where "seen = st\<lparr>ps_seen := wm_message_id m # ps_seen st\<rparr>"
    have run: "running seen" "preflight_inv plan seen" "budget seen = budget st" "ps_preflight_deadline seen = ps_preflight_deadline st"
      using assms(1,2) by (simp_all add: seen_def budget_def split: option.split)
    have "held st (tk_now t) (on_message rt pe plan b rid (tk_later t) m seen)"
    proof (cases "wm_body m")
      case (Heartbeat run_id)
      with now run violate_held [OF run(1)] show ?thesis by (simp add: on_message_def held_def)
    next
      case (Event_body e)
      with assms(3) m Line have e: "ps_preflight_deadline seen \<noteq> None" "case shown_stage e of None \<Rightarrow> True | Some s \<Rightarrow> s \<in> set PREFLIGHT_STAGES"
        using run(4) by (auto simp: without_progress_def)
      from event_in_setup [OF run(2) e] e(1) have "budget (after_event pe plan (tk_later t) e seen) = budget seen"
        "ps_preflight_deadline (after_event pe plan (tk_later t) e seen) = ps_preflight_deadline seen"
        by (auto simp: budget_def)
      with now run violate_held [OF run(1)] Event_body show ?thesis by (simp add: on_message_def on_event_Go held_def)
    qed (use assms(3) m Line in \<open>simp_all add: without_progress_def\<close>)
    moreover have "validate_hello rt plan m \<noteq> None"
      using assms(3) m Line by (auto simp: without_progress_def validate_hello_def split: worker_body.splits)
    ultimately show ?thesis
      using None Line m violate_held [OF assms(1)] violate_held [OF run(1)]
      by (auto simp: one_pass_def on_line_def seen_def Let_def split: option.splits)
  qed (use assms(3) in \<open>simp add: without_progress_def\<close>)
qed

lemma supervise_held:
  assumes "list_ex (\<lambda>t. budget st \<le> tk_now t) ts"
  shows "running st \<Longrightarrow> preflight_inv plan st \<Longrightarrow> list_all (without_progress (pe_wire pe) (ps_preflight_deadline st \<noteq> None)) ts
     \<Longrightarrow> \<exists>st'. supervise rt pe plan b rid ts st = Stop st' \<and> hung (ps_preflight_deadline st \<noteq> None) st'"
  using assms
proof (induction ts arbitrary: st)
  case (Cons t ts)
  from Cons.prems have "held st (tk_now t) (one_pass rt pe plan b rid t st)" by (simp add: pass_held)
  moreover have "running st'" "preflight_inv plan st'" if "one_pass rt pe plan b rid t st = Go st'" for st'
    using pass_stops [OF Cons.prems(1), of rt pe plan rid b t] pass_preflight [OF Cons.prems(2), of rt pe b rid t] that by simp_all
  ultimately show ?case
  proof (cases "one_pass rt pe plan b rid t st")
    case (Go st')
    with \<open>held _ _ _\<close> have h: "tk_now t < budget st" "budget st' = budget st" "(ps_preflight_deadline st' \<noteq> None) = (ps_preflight_deadline st \<noteq> None)"
      by (auto simp: held_def)
    have "list_ex (\<lambda>t. budget st' \<le> tk_now t) ts" using Cons.prems(4) h(1,2) by (simp add: not_le)
    with Cons.IH [of st'] Cons.prems(3) Go h(3) \<open>\<And>st'. _ = Go st' \<Longrightarrow> running st'\<close> \<open>\<And>st'. _ = Go st' \<Longrightarrow> preflight_inv plan st'\<close>
    show ?thesis by simp
  qed (simp_all add: held_def)
qed simp


section \<open>What an admitted success is\<close>

text \<open>The evidence as derived again from the machine: for an adapter of the training variant the
  losses of the stream and the manifested bytes, for the others the sealed schedule, and weights and
  configuration on disk that hash to the proposal, whose tensors are those of the trained state.\<close>

definition rederived ::
  "runtime \<Rightarrow> machine \<Rightarrow> string \<Rightarrow> variant \<Rightarrow> execution_config \<Rightarrow> run_event list \<Rightarrow> artifact_manifest \<Rightarrow> success_evidence \<Rightarrow> bool" where
  "rederived rt mc rid v cfg events m e \<longleftrightarrow> (case e of
      Training_success _ _ _ _ \<Rightarrow> evidence_holds rt mc rid events [m] v cfg e
    | Reverified_success px \<Rightarrow> v \<noteq> V_training
        \<and> (case ec_max_steps cfg of Some n \<Rightarrow> px_completed_steps px = n | None \<Rightarrow> 1 \<le> px_completed_steps px)
        \<and> (let node = mc_disk mc (am_path m); adapter = (artifact_kind v = ''adapter'') in
           (case member_bytes node (if adapter then ''adapter_config.json'' else ''config.json'') of
              None \<Rightarrow> False | Some config \<Rightarrow> sha256_hex rt config = px_config_sha256 px)
           \<and> (case member_bytes node (if adapter then ''adapter_model.safetensors'' else ''model.safetensors'') of
              None \<Rightarrow> False
            | Some weights \<Rightarrow> sha256_hex rt weights = px_weights_sha256 px
                \<and> (case validate_safetensors_tensor_file rt (mc_header_loads mc) (Some weights) of
                     Inl _ \<Rightarrow> False
                   | Inr s \<Rightarrow> st_tensor_state_sha256 s = px_after_sha256 px \<and> st_tensor_names s = px_tensor_names px))))"

text \<open>The artifact: at the sealed place of the run, without another weights file for the variants that
  are not trained adapters, and with the bytes its manifest hashes.\<close>

definition artifact_secured :: "runtime \<Rightarrow> machine \<Rightarrow> variant \<Rightarrow> execution_config \<Rightarrow> string \<Rightarrow> artifact_manifest \<Rightarrow> bool" where
  "artifact_secured rt mc v cfg rid m \<longleftrightarrow> am_kind m = artifact_kind v \<and> am_run_id m = rid
     \<and> (case run_scoped_training_output cfg rid (artifact_kind v) of
          None \<Rightarrow> False | Some p \<Rightarrow> mc_absolute mc (am_path m) = mc_absolute mc p \<and> mc_output_ok mc (mc_absolute mc p))
     \<and> (v = V_training \<or> (if artifact_kind v = ''adapter'' then validate_adapter_tree mc (am_path m) else validate_model_tree mc (am_path m)))
     \<and> am_content_hash m \<noteq> None \<and> compute_weight_content_hash rt (am_path m) (mc_disk mc (am_path m)) = am_content_hash m"

definition fit_earned :: "memory_metrics option \<Rightarrow> fit_classification option \<Rightarrow> bool" where
  "fit_earned peak fit \<longleftrightarrow> fit = map_option (\<lambda>pk. reconcile_measured_fit pk Unknown_residency True) peak"

lemma verify_fit_None: "verify_fit peak fit = None \<Longrightarrow> fit_earned peak fit"
  by (auto simp: verify_fit_def fit_earned_def split: option.splits if_splits)

lemma stable_member: "stable_bounded_file_bytes node name limit = Some b \<Longrightarrow> member_bytes node name = Some b"
  by (auto simp: stable_bounded_file_bytes_def split: option.splits if_splits)

lemma export_bytes_None:
  assumes "verify_variant_export_bytes rt mc v m px = None" and "verify_variant_schedule cfg px = None" and "v \<noteq> V_training"
  shows "rederived rt mc rid v cfg events m (Reverified_success px)"
proof -
  let ?node = "mc_disk mc (am_path m)" and ?adapter = "artifact_kind v = ''adapter''"
  let ?weights = "member_bytes ?node (if ?adapter then ''adapter_model.safetensors'' else ''model.safetensors'')"
  from assms(1) obtain config where c: "member_bytes ?node (if ?adapter then ''adapter_config.json'' else ''config.json'') = Some config"
    "sha256_hex rt config = px_config_sha256 px"
    by (cases ?adapter) (auto simp: verify_variant_export_bytes_def Let_def dest: stable_member split: if_splits sum.splits header_error.splits)
  from assms(1) obtain s where w: "validate_safetensors_tensor_file rt (mc_header_loads mc) ?weights = Inr s"
    "st_content_sha256 s = px_weights_sha256 px" "st_tensor_state_sha256 s = px_after_sha256 px" "st_tensor_names s = px_tensor_names px"
    by (auto simp: verify_variant_export_bytes_def Let_def split: if_splits sum.splits header_error.splits)
  from w(1) obtain b where b: "?weights = Some b" by (cases ?weights) (auto simp: validate_safetensors_tensor_file_def)
  with w(1) have "st_content_sha256 s = sha256_hex rt b"
    by (auto simp: validate_safetensors_tensor_file_def split: sum.splits if_splits)
  with assms(2,3) c w b show ?thesis
    by (auto simp: rederived_def Let_def verify_variant_schedule_def split: option.splits if_splits)
qed

lemma verify_artifact_None:
  assumes "verify_artifact rt mc v cfg rid manifest m = None" and "am_kind m = artifact_kind v" and "am_run_id m = rid"
  shows "artifact_secured rt mc v cfg rid m"
  using assms
  by (auto simp: verify_artifact_def artifact_secured_def Let_def verify_run_scoped_output_path_def verify_variant_export_tree_def
    split: option.splits if_splits)

lemma verify_evidence_None:
  assumes "verify_variant_evidence rt mc v cfg rid events m e = None"
  shows "rederived rt mc rid v cfg events m e"
proof (cases "v = V_training")
  case True
  with assms obtain x where "validate_training_success_evidence rt mc cfg rid events [produced_of m] [m] x (evidence_peak e) = Inr e"
    by (auto simp: verify_variant_evidence_def verify_training_evidence_def Let_def split: sum.splits if_splits)
  from training_holds [OF this] True show ?thesis by (auto simp: rederived_def evidence_holds_def split: success_evidence.splits)
next
  case False
  with assms export_bytes_None [of rt mc v m _ cfg rid events] show ?thesis
    by (auto simp: verify_variant_evidence_def split: success_evidence.splits option.splits)
qed

lemma admit_None:
  assumes "admit_terminal_success rt mc binding plan rid manifest artifacts events = None"
  shows "list_all (\<lambda>v. Some v = binding \<or> mf_evidence manifest v = None) EXECUTION_VARIANTS"
    and "binding = None \<Longrightarrow> artifacts = [] \<and> mf_final_fit manifest = None"
    and "binding = Some v \<Longrightarrow> \<exists>m e. artifacts = [m] \<and> mf_evidence manifest v = Some e \<and> am_kind m = artifact_kind v
      \<and> verify_artifact rt mc v (the (pl_execution plan v)) rid manifest m = None
      \<and> verify_variant_evidence rt mc v (the (pl_execution plan v)) rid events m e = None \<and> verify_fit (evidence_peak e) (mf_final_fit manifest) = None"
  using assms
  by (auto simp: admit_terminal_success_def Let_def list_ex_iff list_all_iff split: if_splits option.splits list.splits)

lemma rederived_events:
  "optimizer_events es = optimizer_events es' \<Longrightarrow> step_metrics es = step_metrics es' \<Longrightarrow>
     rederived rt mc rid v cfg es m e = rederived rt mc rid v cfg es' m e"
  unfolding rederived_def by (simp only: evidence_holds_events [of es es'])

lemma binding_selected: "resolved_execution_binding plan = Inr (Some v) \<Longrightarrow> \<exists>cfg. pl_execution plan v = Some cfg"
proof -
  assume "resolved_execution_binding plan = Inr (Some v)"
  then have "v \<in> set (selected_variants plan)" by (auto simp: resolved_execution_binding_def Let_def split: if_splits)
  then show ?thesis by (auto simp: selected_mem)
qed

lemma checked_before_spawn:
  assumes "check_before_spawn rt plan runner_name max_steps = Inr (binding, lane)"
  shows "verify_run_plan_hash rt plan" and "resolved_execution_binding plan = Inr binding" and "required_runner_lane plan = Inr lane"
    and "binding = Some v \<Longrightarrow> pl_execution plan v = Some cfg \<Longrightarrow> verify_configuration_hash rt cfg \<and> v \<noteq> V_rollout"
proof -
  show c: "verify_run_plan_hash rt plan" "resolved_execution_binding plan = Inr binding" "required_runner_lane plan = Inr lane"
    using assms by (auto simp: check_before_spawn_def Let_def verify_runner_lane_def split: if_splits sum.splits option.splits)
  assume v: "binding = Some v" "pl_execution plan v = Some cfg"
  then have "length (selected_variants plan) \<le> 1" using c(2) by (auto simp: resolved_execution_binding_def Let_def split: if_splits)
  with no_rollout_lane c(3) v(2) have "v \<noteq> V_rollout" by fastforce
  with assms v c(2) show "verify_configuration_hash rt cfg \<and> v \<noteq> V_rollout"
    by (auto simp: check_before_spawn_def Let_def split: if_splits)
qed


lemma lane_named: "check_before_spawn rt plan name max_steps = Inr (binding, lane) \<Longrightarrow> name \<in> {''auto'', lane}"
  by (auto simp: check_before_spawn_def Let_def split: if_splits sum.splits option.splits)


section \<open>Properties\<close>

text \<open>C22: Whatever a worker process sends, its run is accounted for. Under any lines, deadlines,
  exits and failing writes, the manifest that is returned satisfies the contract's validators, is
  linked to the dispatched plan, its environment, dataset, backend and base model, and carries a
  failure exactly when the run did not succeed; the manifest on disk is the same up to its notes.
  An exception leaves the function only for an invalid timeout, a nesting of the worker's JSON too
  deep for the parser, or a record directory that cannot be written before the process exists.\<close>

theorem worker_run_is_accounted_for:
  "case execute_run_subprocess rt pe plan run_id runner_name max_steps ticks of
     Supervised r \<Rightarrow> accountable plan (sanitize_id run_id) (xr_manifest r)
       \<and> (case xr_durable_manifest r of None \<Rightarrow> True | Some d \<Rightarrow> noted d (xr_manifest r))
   | Raised exc \<Rightarrow> exc \<in> {''ValueError'', ''RecursionError''} \<or> Some exc \<in> {pe_open_fault pe, pe_manifest_write pe 0}
   | Still_running st \<Rightarrow> True"
proof (cases "execute_run_subprocess rt pe plan run_id runner_name max_steps ticks")
  case (Supervised r)
  from this refl show ?thesis
  proof (cases rule: supervised_run)
    case (concluded binding lane st)
    from conclude_facts(1,7) [OF concluded(5) sanitize_id_ok concluded(6)] Supervised show ?thesis by simp
  qed (use Supervised in simp)
next
  case (Raised exc)
  then show ?thesis
    by (auto simp: execute_run_subprocess_def Let_def outcome_of_def refuse_before_spawn_def
      split: if_splits sum.splits option.splits handled.splits)
qed simp

text \<open>C23: The events of a supervised worker are one numbered stream that ends once. Their numbers
  increase strictly and carry the run's identity, although the worker chooses what it sends; there
  is exactly one terminal event, the parent's own, last, with the state of the manifest, or no
  event at all. The durable log has the events whose write worked except the terminal one, and
  the telemetry is never told of the teardown.\<close>

theorem worker_events_are_one_stream:
  "case execute_run_subprocess rt pe plan run_id runner_name max_steps ticks of
     Supervised r \<Rightarrow> sorted_wrt (<) (map re_seq (xr_events r)) \<and> list_all (\<lambda>e. re_run_id e = sanitize_id run_id) (xr_events r)
       \<and> (if xr_events r = [] then True else cl_type (last (xr_events r)) = Terminal_event
           \<and> cl_state (last (xr_events r)) = Some (mf_state (xr_manifest r)))
       \<and> list_all (\<lambda>e. cl_type e \<noteq> Terminal_event) (butlast (xr_events r))
       \<and> lg_durable (xr_log r) = filter (\<lambda>e. ob_record_dir (pe_observers pe) \<and> ob_log_fault (pe_observers pe) e = None)
           (butlast (xr_events r))
       \<and> Set_phase ''teardown'' \<notin> set (lg_telemetry (xr_log r))
   | _ \<Rightarrow> True"
proof (cases "execute_run_subprocess rt pe plan run_id runner_name max_steps ticks")
  case (Supervised r)
  from this refl show ?thesis
  proof (cases rule: supervised_run)
    case (concluded binding lane st)
    from concluded_stream [OF concluded(3,5) sanitize_id_ok concluded(6)] Supervised show ?thesis by auto
  qed (use Supervised in simp)
qed simp_all


text \<open>C20: A worker that makes no progress is killed, and cannot buy time. Take a run that is still
  going on, and any further passes in which only heartbeats arrive, or during the setup of a
  training run also events that show no later stage: as soon as the clock is seen at the deadline
  that was in force at the start, the run has ended, failed, as a timeout of the setup or as a
  stall, or for a violation of the protocol before that.\<close>

theorem hung_worker_is_killed:
  assumes "execute_run_subprocess rt pe plan run_id runner_name max_steps ticks = Still_running st"
    and "list_all (without_progress (pe_wire pe) (ps_preflight_deadline st \<noteq> None)) idle"
    and "list_ex (\<lambda>t. budget st \<le> tk_now t) idle"
  shows "case execute_run_subprocess rt pe plan run_id runner_name max_steps (ticks @ idle) of
      Supervised r \<Rightarrow> mf_state (xr_manifest r) = Failed_state
        \<and> (case mf_failure (xr_manifest r) of
             None \<Rightarrow> False
           | Some f \<Rightarrow> (case fl_reason f of
                 Preflight_timeout \<Rightarrow> ps_preflight_deadline st \<noteq> None \<and> fl_taxonomy f = TIMEOUT
               | No_progress \<Rightarrow> ps_preflight_deadline st = None \<and> fl_taxonomy f = KERNEL_STALL
               | Protocol_violated _ \<Rightarrow> fl_taxonomy f = ENVIRONMENT_FAILURE
               | _ \<Rightarrow> False))
    | _ \<Rightarrow> False"
proof -
  let ?rid = "sanitize_id run_id"
  from assms(1) obtain binding lane where x:
    "check_before_spawn rt plan runner_name max_steps = Inr (binding, lane)" "0 < pe_silence pe" "0 < pe_preflight pe" "0 < pe_heartbeat pe"
    "(if ob_record_dir (pe_observers pe) then pe_open_fault pe else None) = None" "pe_spawns pe"
    "supervise rt pe plan binding ?rid ticks (initial_state pe) = Go st"
    by (auto simp: execute_run_subprocess_def Let_def outcome_of_def refuse_before_spawn_def not_le
      split: if_splits sum.splits option.splits handled.splits)
  have run: "running st" "preflight_inv plan st"
    using supervise_stops [OF initial_running [of pe], of rt pe plan ?rid binding ticks]
      supervise_preflight [of plan "initial_state pe" rt pe binding ?rid ticks] x(7)
    by (simp_all add: initial_state_def preflight_inv_def)
  from supervise_held [OF assms(3) run assms(2), of rt binding ?rid] obtain st' where st':
    "supervise rt pe plan binding ?rid idle st = Stop st'" "hung (ps_preflight_deadline st \<noteq> None) st'" by blast
  define r where "r = conclude pe plan ?rid st'"
  have stop: "supervise rt pe plan binding ?rid (ticks @ idle) (initial_state pe) = Stop st'"
    by (simp add: supervise_append x(7) st'(1))
  then have e: "execute_run_subprocess rt pe plan run_id runner_name max_steps (ticks @ idle) = Supervised r"
    using x by (simp add: execute_run_subprocess_def r_def)
  from supervise_stops [OF initial_running [of pe], of rt pe plan ?rid binding "ticks @ idle"] stop
  have "stop_reason rt pe plan ?rid st'" by simp
  from conclude_facts(10) [OF r_def sanitize_id_ok finalize_ok [OF this sanitize_id_ok]] st'(2)
  have n: "noted (finalize plan ?rid (pe_returncode pe) st') (xr_manifest r)"
    by (auto simp: finalize_def hung_def parent_failed_def split: option.splits)
  then have "mf_state (xr_manifest r) = mf_state (finalize plan ?rid (pe_returncode pe) st')"
    "mf_failure (xr_manifest r) = mf_failure (finalize plan ?rid (pe_returncode pe) st')"
    using noted_state by metis+
  with st'(2) show ?thesis
    by (auto simp: e finalize_def hung_def parent_failed_def split: option.splits if_splits)
qed


text \<open>C3: A worker's success is never taken on its word. When the parent reports a succeeded run,
  whatever the worker sent, the plan's seal verifies and it carries one execution at most, whose
  lane is the requested one unless the choice was left open, whose seal verifies too and which is not an on-policy rollout; there is evidence for that execution
  and for no other; the one artifact lies at the sealed place of the run and has the bytes its
  manifest hashes; the evidence was derived again from the machine; and a fit is reported exactly
  as the measured peak gives it. An echo run claims no artifact and no fit. With a record
  directory the artifact manifests and the run manifest are on disk.\<close>

theorem worker_success_is_rederived:
  assumes "execute_run_subprocess rt pe plan run_id runner_name max_steps ticks = Supervised r"
    and "mf_state (xr_manifest r) = Succeeded"
  shows "canonical_sha256 rt (pl_payload plan) = pl_plan_hash plan
    \<and> (\<exists>lane. sealed_lane plan lane (expected_class plan) \<and> runner_name \<in> {''auto'', lane})
    \<and> (case resolved_execution_binding plan of
         Inl _ \<Rightarrow> False
       | Inr binding \<Rightarrow> list_all (\<lambda>v. Some v = binding \<or> mf_evidence (xr_manifest r) v = None) EXECUTION_VARIANTS
           \<and> (case binding of
                None \<Rightarrow> xr_artifacts r = [] \<and> mf_final_fit (xr_manifest r) = None
              | Some v \<Rightarrow> v \<noteq> V_rollout
                  \<and> (case (pl_execution plan v, xr_artifacts r, mf_evidence (xr_manifest r) v) of
                       (Some cfg, [m], Some e) \<Rightarrow> ec_configuration_hash cfg = canonical_sha256 rt (ec_payload cfg)
                         \<and> artifact_secured rt (pe_machine pe) v cfg (sanitize_id run_id) m
                         \<and> rederived rt (pe_machine pe) (sanitize_id run_id) v cfg (xr_events r) m e
                         \<and> fit_earned (evidence_peak e) (mf_final_fit (xr_manifest r))
                     | _ \<Rightarrow> False)))
    \<and> (if ob_record_dir (pe_observers pe)
       then xr_durable_artifacts r = xr_artifacts r \<and> (case xr_durable_manifest r of None \<Rightarrow> False | Some d \<Rightarrow> noted d (xr_manifest r))
       else xr_durable_manifest r = None)"
  using assms(1) refl
proof (cases rule: supervised_run)
  case (concluded binding lane st)
  let ?rid = "sanitize_id run_id" and ?mc = "pe_machine pe"
  note c = conclude_facts [OF concluded(5) sanitize_id_ok concluded(6)]
  note before = checked_before_spawn [OF concluded(1)]
  let ?fin = "finalize plan ?rid (pe_returncode pe) st"
  have same: "mf_evidence (xr_manifest r) = mf_evidence ?fin" "mf_final_fit (xr_manifest r) = mf_final_fit ?fin" "mf_state ?fin = Succeeded"
    using noted_state [OF c(2) [OF assms(2)]] assms(2) by simp_all
  from same(3) concluded(4) obtain tb where tb: "ps_terminal st = Some (tb_manifest tb)" "ps_artifacts st = tb_artifacts tb" "ps_killed st = None"
    "parse_terminal rt ?mc plan ?rid (lg_events (ps_log st)) tb = None"
    by (auto simp: stop_reason_def finalize_def parent_failed_def Let_def split: option.splits)
  with same have m: "mf_evidence (xr_manifest r) = mf_evidence (tb_manifest tb)" "mf_final_fit (xr_manifest r) = mf_final_fit (tb_manifest tb)"
    "mf_state (tb_manifest tb) = Succeeded" by (simp_all add: finalize_def)
  from tb(4) m(3) before(2) have adm: "admit_terminal_success rt ?mc binding plan ?rid (tb_manifest tb) (tb_artifacts tb) (lg_events (ps_log st)) = None"
    and links: "terminal_links plan ?rid tb = None" by (simp_all add: parse_terminal_def split: option.splits)
  note a = admit_None [OF adm]
  have stream: "optimizer_events (xr_events r) = optimizer_events (lg_events (ps_log st))" "step_metrics (xr_events r) = step_metrics (lg_events (ps_log st))"
    by (simp_all add: c(4) optimizer_events_def step_metrics_def terminal_event_def)
  have shape: "case binding of
                None \<Rightarrow> xr_artifacts r = [] \<and> mf_final_fit (xr_manifest r) = None
              | Some v \<Rightarrow> v \<noteq> V_rollout
                  \<and> (case (pl_execution plan v, xr_artifacts r, mf_evidence (xr_manifest r) v) of
                       (Some cfg, [m], Some e) \<Rightarrow> ec_configuration_hash cfg = canonical_sha256 rt (ec_payload cfg)
                         \<and> artifact_secured rt ?mc v cfg ?rid m \<and> rederived rt ?mc ?rid v cfg (xr_events r) m e
                         \<and> fit_earned (evidence_peak e) (mf_final_fit (xr_manifest r))
                     | _ \<Rightarrow> False)"
  proof (cases binding)
    case None
    with a(2) show ?thesis by (simp add: c(3) tb(2) m(2))
  next
    case (Some v)
    with before(2) binding_selected obtain cfg where cfg: "pl_execution plan v = Some cfg" by blast
    from a(3) [OF Some] cfg obtain x e where x: "tb_artifacts tb = [x]" "mf_evidence (tb_manifest tb) v = Some e" "am_kind x = artifact_kind v"
      "verify_artifact rt ?mc v cfg ?rid (tb_manifest tb) x = None" "verify_variant_evidence rt ?mc v cfg ?rid (lg_events (ps_log st)) x e = None"
      "verify_fit (evidence_peak e) (mf_final_fit (tb_manifest tb)) = None" by auto
    have "am_run_id x = ?rid" using links x(1) by (auto simp: terminal_links_def Let_def split: if_splits)
    with verify_artifact_None [OF x(4,3)] verify_evidence_None [OF x(5)] verify_fit_None [OF x(6)] before(4) [OF Some cfg] Some cfg x(1,2)
    show ?thesis by (simp add: c(3) tb(2) m rederived_events [OF stream] verify_configuration_hash_def)
  qed
  have "length (selected_variants plan) \<le> 1"
    using before(2) by (auto simp: resolved_execution_binding_def Let_def split: if_splits)
  from lane_sealed [OF this before(3) refl] have lane: "\<exists>lane. sealed_lane plan lane (expected_class plan) \<and> runner_name \<in> {''auto'', lane}"
    using lane_named [OF concluded(1)] by auto
  show ?thesis
    using before(1) a(1) shape c(7,9) c(8) [OF assms(2)] before(2) lane
    by (auto simp: verify_run_plan_hash_def m(1) split: option.splits)
qed (use assms(2) in simp)


section \<open>A worker that trains a tiny model\<close>

text \<open>A wire on which a line is the identity of a message, out of those given.\<close>

definition wire_of :: "worker_message list \<Rightarrow> wire" where
  "wire_of ms = \<lparr>wi_loads = (\<lambda>line. case find (\<lambda>m. wm_message_id m = line) ms of
       None \<Rightarrow> Line_error
     | Some m \<Rightarrow> Line_value (JObj [(''protocol_version'', JStr PROTOCOL_VERSION), (''message_id'', JStr line),
         (''correlation_id'', case wm_correlation_id m of None \<Rightarrow> JNull | Some c \<Rightarrow> JStr c),
         (''direction'', JStr (if wm_core_to_worker m then ''core_to_worker'' else ''worker_to_core'')),
         (''type'', JStr (case find (\<lambda>p. snd p = wm_type m) MESSAGE_TYPES of Some p \<Rightarrow> fst p | None \<Rightarrow> [])),
         (''body'', JStr line)])),
     wi_body = (\<lambda>_ body. case body of
       JStr line \<Rightarrow> map_option wm_body (find (\<lambda>m. wm_message_id m = line) ms)
     | _ \<Rightarrow> None)\<rparr>"

lemma type_name: "find (\<lambda>p. snd p = ty) MESSAGE_TYPES = Some p \<Longrightarrow> dget MESSAGE_TYPES (fst p) = Some ty"
  "find (\<lambda>p. snd p = ty) MESSAGE_TYPES \<noteq> None"
  by (cases ty; auto simp: MESSAGE_TYPES_def)+

lemma wire_of_decodes:
  assumes "find (\<lambda>x. wm_message_id x = wm_message_id m) ms = Some m" and "message_ok m" and "strip (wm_message_id m) \<noteq> []"
  shows "decode_worker_message (wire_of ms) (wm_message_id m) c = (if wm_core_to_worker m = c then Decoded m else Undecodable Wrong_direction)"
proof -
  obtain p where p: "find (\<lambda>p. snd p = wm_type m) MESSAGE_TYPES = Some p" "dget MESSAGE_TYPES (fst p) = Some (wm_type m)"
    using type_name by fastforce
  have "read_envelope (wire_of ms) [(''protocol_version'', JStr PROTOCOL_VERSION), (''message_id'', JStr (wm_message_id m)),
         (''correlation_id'', case wm_correlation_id m of None \<Rightarrow> JNull | Some c \<Rightarrow> JStr c),
         (''direction'', JStr (if wm_core_to_worker m then ''core_to_worker'' else ''worker_to_core'')),
         (''type'', JStr (fst p)), (''body'', JStr (wm_message_id m))] = Some m"
    using assms(1,2) p(2)
    by (cases m; cases "wm_correlation_id m"; cases "wm_core_to_worker m") (simp_all add: wire_of_def read_envelope_def ENVELOPE_FIELDS_def optional_text_def Let_def)
  with assms(1,3) p(1) show ?thesis by (simp add: decode_worker_message_def wire_of_def)
qed

text \<open>The plan, and the machine on which the model lies.\<close>

definition sample_backend :: backend_manifest where
  "sample_backend = \<lparr>bm_backend_id = ''corpus_studio'', bm_payload = JObj [(''id'', JStr ''b'')]\<rparr>"

definition lane_plan :: sealed_plan where
  "lane_plan = sample_plan\<lparr>pl_backend_hash := Some \<lparr>hr_algo = ''sha256'', hr_value = Some (backend_manifest_digest sample_rt sample_backend)\<rparr>\<rparr>"

definition lane_machine :: machine where
  "lane_machine = sample_machine\<lparr>mc_disk := (\<lambda>_. Dir_node [\<lparr>df_rel = ''config.json'', df_bytes = ''{}'', df_mtime_ns = 1\<rparr>,
       \<lparr>df_rel = ''model.safetensors'', df_bytes = tiny_file, df_mtime_ns = 2\<rparr>]),
     mc_header_loads := tiny_loads, mc_reload_model := (\<lambda>_. Some (sample_hash (replicate 8 (CHR 0x00))))\<rparr>"

lemma lane_execution: "pl_execution lane_plan v = (if v = V_pretraining then Some sample_config else None)"
  by (simp add: lane_plan_def sample_plan_def)

lemma lane_seals:
  "verify_run_plan_hash sample_rt lane_plan" "verify_configuration_hash sample_rt sample_config"
  "resolved_execution_binding lane_plan = Inr (Some V_pretraining)" "required_runner_lane lane_plan = Inr ''pretraining''"
proof -
  show "verify_run_plan_hash sample_rt lane_plan" "verify_configuration_hash sample_rt sample_config"
    by (simp_all add: verify_run_plan_hash_def verify_configuration_hash_def lane_plan_def sample_plan_def sample_config_def)
  show "resolved_execution_binding lane_plan = Inr (Some V_pretraining)"
    by (simp add: resolved_execution_binding_def selected_variants_def EXECUTION_VARIANTS_def lane_execution Let_def)
  have "admits_task Pretraining_task None False" by code_simp
  then show "required_runner_lane lane_plan = Inr ''pretraining''"
    by (simp add: required_runner_lane_def lane_execution sample_config_def)
qed

lemma lane_before:
  "check_before_spawn sample_rt lane_plan ''auto'' None = Inr (Some V_pretraining, ''pretraining'')"
  using lane_seals by (simp add: check_before_spawn_def lane_execution Let_def)

lemma lane_id: "sanitize_id ''r1'' = ''r1''" by code_simp

text \<open>What the worker reports holds on that machine.\<close>

definition lane_digest :: string where
  "lane_digest = canonical_tensor_state_sha256 sample_rt (map (tensor_digest_of sample_rt tiny_file 16) (tiny_tensors 0 2))"

definition lane_proposed :: proposed_evidence where
  "lane_proposed = \<lparr>px_completed_steps = 2, px_after_sha256 = lane_digest, px_tensor_names = [''a'', ''b''],
     px_weights_sha256 = sample_hash tiny_file, px_config_sha256 = sample_hash ''{}'', px_measured_peak = None\<rparr>"

definition lane_artifact :: artifact_manifest where
  "lane_artifact = \<lparr>am_artifact_id = ''m1'', am_run_id = ''r1'', am_base_model = ''gpt2'', am_kind = ''model'',
     am_path = ''/out/runs/r1/artifacts/model'', am_cheap_fingerprint = None,
     am_content_hash = compute_weight_content_hash sample_rt ''/out/runs/r1/artifacts/model'' (mc_disk lane_machine []), am_metadata_hash = None,
     am_current_integrity = OK, am_reload_verified = True\<rparr>"

definition lane_manifest :: run_manifest where
  "lane_manifest = \<lparr>mf_run_id = ''r1'', mf_plan_ref = plan_ref lane_plan, mf_environment = Some \<lparr>rf_id = ''e1'', rf_hash = None\<rparr>,
     mf_dataset = Some \<lparr>rf_id = ''d1'', rf_hash = None\<rparr>, mf_state = Succeeded, mf_base_model = ''gpt2'', mf_target = ''corpus_studio'',
     mf_output_dir = ''/out/runs/r1/artifacts/model'', mf_artifact_ids = [''m1''], mf_checkpoints = [], mf_resume_lineage = None,
     mf_failure = None, mf_final_fit = None, mf_evidence = (\<lambda>v. if v = V_pretraining then Some (Reverified_success lane_proposed) else None), mf_notes = []\<rparr>"

lemma lane_weights:
  "validate_safetensors_tensor_file sample_rt (mc_header_loads lane_machine) (Some tiny_file)
     = Inr \<lparr>st_content_sha256 = sample_hash tiny_file, st_tensor_state_sha256 = lane_digest, st_tensor_names = [''a'', ''b'']\<rparr>"
proof -
  have "sha256_hex sample_rt = sample_hash" "mc_header_loads lane_machine = tiny_loads" by (simp_all add: sample_rt_def lane_machine_def)
  then show ?thesis
    by (simp add: validate_safetensors_tensor_file_def tiny_reads lane_digest_def) (simp add: tiny_tensors_def)
qed

lemma lane_tree: "validate_model_tree lane_machine p"
  by code_simp

lemma lane_artifact_facts:
  "run_scoped_training_output sample_config ''r1'' ''model'' = Some ''/out/runs/r1/artifacts/model''"
  "compute_weight_content_hash sample_rt p (mc_disk lane_machine q) = am_content_hash lane_artifact" "am_content_hash lane_artifact \<noteq> None"
proof -
  show "run_scoped_training_output sample_config ''r1'' ''model'' = Some ''/out/runs/r1/artifacts/model''"
    by code_simp
  have "weight_files [\<lparr>df_rel = ''config.json'', df_bytes = ''{}'', df_mtime_ns = 1\<rparr>,
       \<lparr>df_rel = ''model.safetensors'', df_bytes = tiny_file, df_mtime_ns = 2\<rparr>] \<noteq> []" by code_simp
  then show "am_content_hash lane_artifact \<noteq> None"  "compute_weight_content_hash sample_rt p (mc_disk lane_machine q) = am_content_hash lane_artifact" 
    by (simp_all add: lane_artifact_def lane_machine_def compute_weight_content_hash_def)
qed

lemma lane_admitted:
  "admit_terminal_success sample_rt lane_machine (Some V_pretraining) lane_plan ''r1'' lane_manifest [lane_artifact] events = None"
proof -
  have "verify_artifact sample_rt lane_machine V_pretraining sample_config ''r1'' lane_manifest lane_artifact = None"
    using lane_artifact_facts lane_tree
    by (simp add: verify_artifact_def artifact_kind_def verify_variant_export_tree_def verify_run_scoped_output_path_def lane_manifest_def
      Let_def) (simp add: lane_artifact_def lane_machine_def sample_machine_def)
  moreover have "verify_variant_evidence sample_rt lane_machine V_pretraining sample_config ''r1'' events lane_artifact (Reverified_success lane_proposed) = None"
    using lane_weights
    by (simp add: verify_variant_evidence_def verify_variant_schedule_def verify_variant_export_bytes_def artifact_kind_def lane_proposed_def sample_config_def Let_def)
     (simp add: lane_machine_def sample_rt_def member_bytes_def)
  ultimately show ?thesis
    by (simp add: admit_terminal_success_def lane_execution lane_manifest_def EXECUTION_VARIANTS_def Let_def)
     (simp add: lane_artifact_def artifact_kind_def verify_fit_def evidence_peak_def lane_proposed_def)
qed

text \<open>The four lines of the worker.\<close>

definition lane_body :: terminal_body where
  "lane_body = \<lparr>tb_run_id = ''r1'', tb_outcome = TAX_PASS, tb_manifest = lane_manifest,
         tb_artifacts = [lane_artifact], tb_failure = None\<rparr>"

definition lane_message :: "nat \<Rightarrow> worker_message" where
  "lane_message n = \<lparr>wm_message_id = message_number n, wm_correlation_id = (if n = 0 then None else Some ''c-r1''), wm_core_to_worker = False,
     wm_type = [M_hello, M_run_accepted, M_heartbeat, M_terminal_result] ! n,
     wm_body = [Hello \<lparr>hb_worker_id = ''worker'', hb_backend = sample_backend, hb_environment = \<lparr>rf_id = ''e1'', rf_hash = None\<rparr>\<rparr>,
       Accepted \<lparr>ab_run_id = ''r1'', ab_configuration_hash = Some (ec_configuration_hash sample_config), ab_allocator_conf = Some ''default''\<rparr>,
       Heartbeat ''r1'', Terminal_body lane_body] ! n\<rparr>"

definition lane_wire :: wire where "lane_wire = wire_of (map lane_message [0..<4])"

definition lane_parent :: "wire \<Rightarrow> parent_env" where
  "lane_parent wi = \<lparr>pe_machine = lane_machine, pe_wire = wi,
     pe_observers = \<lparr>ob_record_dir = True, ob_log_fault = (\<lambda>_. None), ob_sink = True, ob_sink_fault = (\<lambda>_. None),
       ob_telemetry = True, ob_warmup_steps = 2\<rparr>,
     pe_open_fault = None, pe_spawns = True, pe_returncode = Some 0, pe_artifact_write = (\<lambda>_. True), pe_manifest_write = (\<lambda>_. None),
     pe_silence = 30, pe_preflight = 60, pe_heartbeat = 5, pe_started = 0\<rparr>"

definition lane_tick :: "nat \<Rightarrow> tick" where "lane_tick n = \<lparr>tk_now = 1, tk_got = Line (message_number n), tk_later = 2\<rparr>"

definition lane_outcome :: "tick list \<Rightarrow> outcome" where
  "lane_outcome ticks = execute_run_subprocess sample_rt (lane_parent lane_wire) lane_plan ''r1'' ''auto'' None ticks"

lemma lane_numbers: "message_number 0 = ''w-0''" "message_number 1 = ''w-1''" "message_number 2 = ''w-2''" "message_number 3 = ''w-3''"
  by code_simp+

lemma sample_hash_pattern: "sha256_pattern (sample_hash s)"
proof -
  have "of_char (hex_digit d) = (if d < 10 then 48 + d else 87 + d)" if "d < 16" for d :: nat
    using that by (simp add: hex_digit_def)
  from this [of "length s mod 16"] show ?thesis by (auto simp: sha256_pattern_def sample_hash_def Let_def list_all_iff)
qed

lemma lane_message_ok: "n < 4 \<Longrightarrow> message_ok (lane_message n)"
proof -
  have "sha256_pattern (ec_configuration_hash sample_config)"
    by (simp add: sample_config_def canonical_sha256_def sample_rt_def sample_hash_pattern)
  moreover have "id_pattern ''r1''" by code_simp
  moreover assume "n < 4"
  then have "n = 0 \<or> n = 1 \<or> n = 2 \<or> n = 3" by auto
  ultimately show ?thesis
    by (auto simp: lane_message_def message_ok_def sent_by_core_def body_ok_def message_number_def opt_ok_def
      lane_body_def lane_manifest_def run_manifest_ok_def evidence_shaped_def terminal_consistency_def proven_native_def EXECUTION_VARIANTS_def)
qed

lemma lane_decodes: "n < 4 \<Longrightarrow> decode_worker_message lane_wire (message_number n) False = Decoded (lane_message n)"
proof -
  assume "n < 4"
  then have "n = 0 \<or> n = 1 \<or> n = 2 \<or> n = 3" by auto
  moreover have "[0..<4] = [0, 1, 2, 3::nat]" by code_simp
  moreover have "strip ''w-0'' \<noteq> [] \<and> strip ''w-1'' \<noteq> [] \<and> strip ''w-2'' \<noteq> [] \<and> strip ''w-3'' \<noteq> []" by code_simp
  ultimately show ?thesis
    using wire_of_decodes [of "lane_message n" "map lane_message [0..<4]" False, OF _ lane_message_ok [OF \<open>n < 4\<close>]]
    by (auto simp: lane_wire_def lane_message_def lane_numbers lane_numbers [unfolded One_nat_def])
qed

lemma lane_clock: "fadd 0 30 = 30" "fadd 2 30 = 32" by code_simp+

lemma lane_hello: "validate_hello sample_rt lane_plan (lane_message 0) = None"
  by (simp add: lane_message_def validate_hello_def) (simp add: lane_plan_def sample_plan_def sample_backend_def)

lemma lane_links: "terminal_links lane_plan ''r1'' lane_body = None"
  by (simp add: terminal_links_def lane_body_def lane_manifest_def lane_artifact_def Let_def) (simp add: lane_plan_def sample_plan_def plan_ref_def)

lemma lane_parse: "parse_terminal sample_rt lane_machine lane_plan ''r1'' events lane_body = None"
  using lane_links by (simp add: parse_terminal_def lane_seals lane_admitted lane_body_def)

lemma lane_taken:
  "supervise sample_rt (lane_parent lane_wire) lane_plan (Some V_pretraining) ''r1'' (map lane_tick [0, 1]) (initial_state (lane_parent lane_wire)) =
     Go ((initial_state (lane_parent lane_wire))\<lparr>ps_dispatched := True, ps_accepted := True, ps_seen := [message_number 1, message_number 0], ps_progress_deadline := 32\<rparr>)"
proof -
  have "pe_wire (lane_parent lane_wire) = lane_wire" "pe_silence (lane_parent lane_wire) = 30" "pe_started (lane_parent lane_wire) = 0" by (simp_all add: lane_parent_def)
  moreover have "wm_message_id (lane_message n) = message_number n" for n by (simp add: lane_message_def)
  moreover have "accepted_variant lane_plan (Some V_pretraining) \<lparr>ab_run_id = ''r1'', ab_configuration_hash = Some (ec_configuration_hash sample_config), ab_allocator_conf = Some ''default''\<rparr> = None"
    by (simp add: accepted_variant_def lane_execution)
  ultimately show ?thesis
    using lane_hello lane_decodes [of 0] lane_decodes [of 1] lane_clock
    by (simp add: lane_tick_def one_pass_def deadline_failure_def initial_state_def on_line_def reset_progress_deadline_def Let_def
      on_message_def on_accepted_def lane_message_def [of "Suc 0"] dispatch_message_id_def lane_numbers [unfolded One_nat_def])
qed

lemma lane_succeeds:
  "\<exists>r. lane_outcome (map lane_tick [0..<4]) = Supervised r \<and> mf_state (xr_manifest r) = Succeeded"
proof -
  have pe: "pe_wire (lane_parent lane_wire) = lane_wire" "pe_machine (lane_parent lane_wire) = lane_machine" "pe_silence (lane_parent lane_wire) = 30" "pe_preflight (lane_parent lane_wire) = 60"
    "pe_heartbeat (lane_parent lane_wire) = 5" "pe_open_fault (lane_parent lane_wire) = None" "pe_spawns (lane_parent lane_wire)"
    by (simp_all add: lane_parent_def)
  have four: "[0..<4] = [0, 1] @ [2, 3::nat]" by code_simp
  let ?st = "(initial_state (lane_parent lane_wire))\<lparr>ps_dispatched := True, ps_accepted := True, ps_seen := [message_number 1, message_number 0], ps_progress_deadline := 32\<rparr>"
  let ?st' = "?st\<lparr>ps_seen := [message_number 3, message_number 2, message_number 1, message_number 0], ps_terminal_seen := True, 
       ps_terminal := Some lane_manifest, ps_artifacts := [lane_artifact]\<rparr>"
  have "supervise sample_rt (lane_parent lane_wire) lane_plan (Some V_pretraining) ''r1'' (map lane_tick [2, 3]) ?st = Stop ?st'"
    using lane_decodes [of 2] lane_decodes [of 3] lane_parse 
    by (simp add: lane_tick_def one_pass_def deadline_failure_def initial_state_def on_line_def Let_def pe on_terminal_def
      on_message_def lane_message_def [of 2] lane_message_def [of 3] dispatch_message_id_def lane_numbers lane_numbers [unfolded One_nat_def] lane_body_def)
  then have "lane_outcome (map lane_tick [0..<4]) = Supervised (conclude (lane_parent lane_wire) lane_plan ''r1'' ?st')"
    unfolding lane_outcome_def four map_append
    by (simp add: execute_run_subprocess_def pe lane_id lane_before supervise_append lane_taken [unfolded One_nat_def] Let_def del: list.map)
  moreover have "mf_state (xr_manifest (conclude (lane_parent lane_wire) lane_plan ''r1'' ?st')) = Succeeded"
    by (simp add: conclude_def close_stream_def first_record_def finalize_def initial_state_def persist_run_def deliver_terminal_def lane_parent_def empty_log_def lane_manifest_def Let_def)
  ultimately show ?thesis by blast
qed

theorem worker_success_is_rederived_witness:
  "\<exists>r m e. lane_outcome (map lane_tick [0..<4]) = Supervised r \<and> xr_artifacts r = [m]
     \<and> mf_evidence (xr_manifest r) V_pretraining = Some e
     \<and> artifact_secured sample_rt lane_machine V_pretraining sample_config ''r1'' m
     \<and> rederived sample_rt lane_machine ''r1'' V_pretraining sample_config (xr_events r) m e \<and> xr_durable_artifacts r = [m]"
proof -
  from lane_succeeds obtain r where r: "lane_outcome (map lane_tick [0..<4]) = Supervised r" "mf_state (xr_manifest r) = Succeeded" by blast
  have cfg: "pl_execution lane_plan V_pretraining = Some sample_config" by (simp add: lane_execution)
  have pe: "pe_machine (lane_parent lane_wire) = lane_machine" "ob_record_dir (pe_observers (lane_parent lane_wire))" by (simp_all add: lane_parent_def)
  from worker_success_is_rederived [OF r(1) [unfolded lane_outcome_def] r(2)] r(1) lane_seals(3) lane_id cfg pe
  show ?thesis by (auto split: option.splits list.splits)
qed

text \<open>The same worker, when after the acceptance only a heartbeat arrives.\<close>

lemma lane_hangs:
  "\<exists>st. lane_outcome (map lane_tick [0, 1]) = Still_running st \<and> ps_preflight_deadline st = None \<and> budget st = 32"
proof -
  have pe: "pe_silence (lane_parent lane_wire) = 30" "pe_preflight (lane_parent lane_wire) = 60" "pe_heartbeat (lane_parent lane_wire) = 5" "pe_open_fault (lane_parent lane_wire) = None" "pe_spawns (lane_parent lane_wire)"
    by (simp_all add: lane_parent_def)
  show ?thesis
    by (simp add: lane_outcome_def execute_run_subprocess_def pe lane_id lane_before lane_taken [unfolded One_nat_def] Let_def del: list.map) (simp add: budget_def initial_state_def)
qed

definition lane_idle :: "tick list" where
  "lane_idle = [\<lparr>tk_now = 3, tk_got = Line (message_number 2), tk_later = 3\<rparr>, \<lparr>tk_now = 40, tk_got = Nothing_yet, tk_later = 40\<rparr>]"

theorem hung_worker_is_killed_witness:
  "\<exists>r. lane_outcome (map lane_tick [0, 1] @ lane_idle) = Supervised r \<and> mf_state (xr_manifest r) = Failed_state"
proof -
  from lane_hangs obtain st where st: "lane_outcome (map lane_tick [0, 1]) = Still_running st" "ps_preflight_deadline st = None" "budget st = 32" by blast
  have "wm_body (lane_message 2) = Heartbeat ''r1''" by (simp add: lane_message_def)
  then have "list_all (without_progress (pe_wire (lane_parent lane_wire)) (ps_preflight_deadline st \<noteq> None)) lane_idle"
    using lane_decodes [of 2] by (simp add: without_progress_def lane_idle_def lane_parent_def)
  moreover have "list_ex (\<lambda>t. budget st \<le> tk_now t) lane_idle" by (simp add: st(3) lane_idle_def)
  ultimately show ?thesis
    using hung_worker_is_killed [OF st(1) [unfolded lane_outcome_def], of lane_idle] unfolding lane_outcome_def by (auto split: outcome.splits)
qed

end
