(* ===== verification/Worker_Equivalence.thy ===== *)
theory Worker_Equivalence
  imports Subprocess_Runs
begin

text \<open>
  The process boundary is transparent: when the worker is the engine's own, its lines arrive in
  time and nothing on the parent's side fails, the parent returns the run that the worker's own
  supervisor made, its manifest, events and artifacts.
\<close>

section \<open>Names\<close>

lemma dash_runs_id: "list_all id_char s \<Longrightarrow> dash_runs False s = s"
  by (induction s) simp_all

lemma sanitize_idem [simp]: "sanitize_id (sanitize_id v) = sanitize_id v"
proof (cases "strip_with (\<lambda>c. c = CHR ''-'') (dash_runs False v) = []")
  case True
  then have "sanitize_id v = ''run''" by (simp add: sanitize_id_def)
  moreover have "sanitize_id ''run'' = ''run''" by code_simp
  ultimately show ?thesis by simp
next
  case False
  then have s: "sanitize_id v = strip_with (\<lambda>c. c = CHR ''-'') (dash_runs False v)" by (simp add: sanitize_id_def)
  have "dash_runs False (sanitize_id v) = sanitize_id v"
    using sanitize_id_ok [of v] by (intro dash_runs_id) (simp add: id_pattern_def)
  then have "strip_with (\<lambda>c. c = CHR ''-'') (dash_runs False (sanitize_id v)) = sanitize_id v" by (simp add: s)
  moreover have "sanitize_id v \<noteq> []" using sanitize_id_ok [of v] by (simp add: id_pattern_def)
  moreover have "sanitize_id x = x" if "strip_with (\<lambda>c. c = CHR ''-'') (dash_runs False x) = x" "x \<noteq> []" for x
    using that by (simp add: sanitize_id_def)
  ultimately show ?thesis by blast
qed

lemma message_number_eq [simp]: "message_number m = message_number n \<longleftrightarrow> m = n"
proof
  assume "message_number m = message_number n"
  then have "nat_val (nat_str m) = nat_val (nat_str n)" by (simp add: message_number_def)
  then show "m = n" by simp
qed simp


section \<open>What the worker sends\<close>

text \<open>A transcript grows while every message can be built, and is final once the process has ended.\<close>

lemma send_alive:
  assumes "tr_exit (send ty body c tr) = None"
  shows "tr_exit tr = None" and "send ty body c tr = tr\<lparr>tr_sent := tr_sent tr
      @ [\<lparr>wm_message_id = message_number (length (tr_sent tr)), wm_correlation_id = c, wm_core_to_worker = sent_by_core ty,
          wm_type = ty, wm_body = body\<rparr>]\<rparr>"
    and "body_ok ty body"
  using assms by (auto simp: send_def build_worker_message_def Let_def message_ok_def split: if_splits option.splits)

lemma send_not_done: "tr_exit tr \<noteq> Some 0 \<Longrightarrow> tr_exit (send ty body c tr) \<noteq> Some 0"
  by (simp add: send_def split: option.splits)

definition event_message :: "string option \<Rightarrow> nat \<Rightarrow> run_event \<Rightarrow> worker_message" where
  "event_message c n e = \<lparr>wm_message_id = message_number n, wm_correlation_id = c, wm_core_to_worker = False,
     wm_type = M_event, wm_body = Event_body e\<rparr>"

fun event_messages :: "string option \<Rightarrow> nat \<Rightarrow> run_event list \<Rightarrow> worker_message list" where
  "event_messages c n [] = []"
| "event_messages c n (e # es) = event_message c n e # event_messages c (Suc n) es"

lemma event_messages_append:
  "event_messages c n (es @ fs) = event_messages c n es @ event_messages c (n + length es) fs"
  by (induction es arbitrary: n) simp_all

lemma length_event_messages [simp]: "length (event_messages c n es) = length es"
  by (induction es arbitrary: n) simp_all

lemma send_events_not_done: "tr_exit tr \<noteq> Some 0 \<Longrightarrow> tr_exit (fold (\<lambda>e. send M_event (Event_body e) c) es tr) \<noteq> Some 0"
  by (induction es arbitrary: tr) (simp_all add: send_not_done)

lemma send_events_alive:
  assumes "tr_exit (fold (\<lambda>e. send M_event (Event_body e) c) es tr) = None"
  shows "tr_exit tr = None \<and> fold (\<lambda>e. send M_event (Event_body e) c) es tr = tr\<lparr>tr_sent := tr_sent tr @ event_messages c (length (tr_sent tr)) es\<rparr>"
  using assms
proof (induction es arbitrary: tr)
  case (Cons e es)
  let ?tr = "send M_event (Event_body e) c tr"
  from Cons.IH [of ?tr] Cons.prems have f: "tr_exit ?tr = None"
    "fold (\<lambda>e. send M_event (Event_body e) c) es ?tr = ?tr\<lparr>tr_sent := tr_sent ?tr @ event_messages c (length (tr_sent ?tr)) es\<rparr>" by simp_all
  from send_alive [OF f(1)] f(2) show ?case by (simp add: event_message_def sent_by_core_def)
qed simp

text \<open>An exit code of zero means that the whole exchange was sent.\<close>

definition hello_message :: "worker_env \<Rightarrow> string \<Rightarrow> backend_manifest \<Rightarrow> worker_message" where
  "hello_message we worker_id backend = \<lparr>wm_message_id = message_number 0, wm_correlation_id = None, wm_core_to_worker = False,
     wm_type = M_hello, wm_body = Hello \<lparr>hb_worker_id = worker_id, hb_backend = backend, hb_environment = we_environment we\<rparr>\<rparr>"

definition accepted_message :: "string option \<Rightarrow> string \<Rightarrow> string option \<Rightarrow> string \<Rightarrow> worker_message" where
  "accepted_message c rid hash conf = \<lparr>wm_message_id = message_number 1, wm_correlation_id = c, wm_core_to_worker = False,
     wm_type = M_run_accepted, wm_body = Accepted \<lparr>ab_run_id = rid, ab_configuration_hash = hash, ab_allocator_conf = Some conf\<rparr>\<rparr>"

definition terminal_message :: "string option \<Rightarrow> nat \<Rightarrow> terminal_body \<Rightarrow> worker_message" where
  "terminal_message c n b = \<lparr>wm_message_id = message_number n, wm_correlation_id = c, wm_core_to_worker = False,
     wm_type = M_terminal_result, wm_body = Terminal_body b\<rparr>"

lemma transcript_done:
  assumes "tr = worker_main rt we worker_id line" and "tr_exit tr = Some 0"
    and "decode_worker_message (we_wire we) line True = Decoded d" and "wm_correlation_id d = None"
    and "wm_body d = Dispatch b" and "rid = db_run_id b" and "w = worker_run rt we (db_plan b) rid (db_resume b)"
  obtains backend hash conf where
    "we_backends we (we_backend_id we) = Some backend" "check_dispatch rt we (db_plan b) = Inr (hash, conf)"
    "tr_sent tr = hello_message we worker_id backend # accepted_message (Some (wm_message_id d)) rid hash conf
       # event_messages (Some (wm_message_id d)) 2 (xr_events w)
       @ [terminal_message (Some (wm_message_id d)) (2 + length (xr_events w)) (terminal_of rid w)]"
    "body_ok M_terminal_result (Terminal_body (terminal_of rid w))"
proof -
  let ?c = "Some (wm_message_id d)"
  have line: "strip line \<noteq> []" using assms(3) by (auto simp: decode_worker_message_def split: if_splits)
  have no_failure: "tr_exit (exit_with 2 t) \<noteq> Some 0" if "tr_exit t \<noteq> Some 0" for t using that by (simp add: exit_with_def)
  have fresh: "tr_exit \<lparr>tr_sent = [], tr_exit = None\<rparr> \<noteq> Some 0" by simp
  obtain backend where backend: "we_backends we (we_backend_id we) = Some backend"
    using assms(1,2) no_failure [OF send_not_done [OF fresh]]
    by (cases "we_backends we (we_backend_id we)")
      (auto simp: worker_main_def worker_hello_def Let_def exit_with_def split: if_splits)
  let ?hello = "send M_hello (Hello \<lparr>hb_worker_id = worker_id, hb_backend = backend, hb_environment = we_environment we\<rparr>) None \<lparr>tr_sent = [], tr_exit = None\<rparr>"
  have h0: "tr_exit ?hello \<noteq> Some 0" by (rule send_not_done) simp
  have hello: "tr_exit ?hello = None" and main: "tr = run_worker rt we line ?hello"
    using assms(1,2) backend line h0 by (auto simp: worker_main_def worker_hello_def Let_def split: if_splits)
  have rejected: "tr_exit (exit_with 2 (send ty body c ?hello)) \<noteq> Some 0" for ty body c
    by (rule no_failure [OF send_not_done [OF h0]])
  obtain hash conf where check: "check_dispatch rt we (db_plan b) = Inr (hash, conf)"
    using main assms(2-5) rejected by (cases "check_dispatch rt we (db_plan b)") (auto simp: run_worker_def Let_def)
  define acc where "acc = send M_run_accepted (Accepted \<lparr>ab_run_id = rid, ab_configuration_hash = hash, ab_allocator_conf = Some conf\<rparr>) ?c ?hello"
  define streamed where "streamed = fold (\<lambda>e. send M_event (Event_body e) ?c) (xr_events w) acc"
  define ended where "ended = send M_terminal_result (Terminal_body (terminal_of rid w)) ?c streamed"
  have tr: "tr = exit_with 0 ended"
    using main assms(3-7) check by (simp add: run_worker_def Let_def acc_def streamed_def ended_def)
  have "tr_exit ended \<noteq> Some 0"
    unfolding ended_def streamed_def acc_def by (intro send_not_done send_events_not_done h0)
  with tr assms(2) have e: "tr_exit ended = None" by (auto simp: exit_with_def split: if_splits)
  note t = send_alive [OF e [unfolded ended_def], folded ended_def]
  note s = send_events_alive [OF t(1) [unfolded streamed_def], folded streamed_def]
  note a = send_alive [OF s [THEN conjunct1, unfolded acc_def], folded acc_def]
  note hl = send_alive [OF hello]
  have sent: "tr_sent ?hello = [hello_message we worker_id backend]"
    by (subst hl(2)) (simp add: hello_message_def sent_by_core_def)
  then have "tr_sent acc = [hello_message we worker_id backend, accepted_message ?c rid hash conf]"
    by (subst a(2)) (simp add: accepted_message_def sent_by_core_def)
  then have "tr_sent streamed = [hello_message we worker_id backend, accepted_message ?c rid hash conf] @ event_messages ?c 2 (xr_events w)"
    using s by (simp add: numeral_2_eq_2)
  then have "tr_sent ended = hello_message we worker_id backend # accepted_message ?c rid hash conf
       # event_messages ?c 2 (xr_events w) @ [terminal_message ?c (2 + length (xr_events w)) (terminal_of rid w)]"
    by (subst t(2)) (simp add: terminal_message_def sent_by_core_def)
  moreover have "tr_sent tr = tr_sent ended" by (simp add: tr exit_with_def)
  ultimately show thesis using that backend check t(3) by simp
qed


section \<open>What the parent makes of it\<close>

text \<open>No deadline passes while the lines arrive.\<close>

fun on_time :: "runtime \<Rightarrow> parent_env \<Rightarrow> sealed_plan \<Rightarrow> variant option \<Rightarrow> string \<Rightarrow> tick list \<Rightarrow> parent_state \<Rightarrow> bool" where
  "on_time rt pe plan b rid [] st \<longleftrightarrow> True"
| "on_time rt pe plan b rid (t # ts) st \<longleftrightarrow> deadline_failure (tk_now t) st = None
     \<and> (case one_pass rt pe plan b rid t st of Go st' \<Rightarrow> on_time rt pe plan b rid ts st' | _ \<Rightarrow> True)"

definition last_stage :: "run_event list \<Rightarrow> stage_marker option" where
  "last_stage es = fold (\<lambda>e s. case shown_stage e of None \<Rightarrow> s | Some x \<Rightarrow> Some x) es None"

lemma last_stage_snoc: "last_stage (es @ [e]) = (case shown_stage e of None \<Rightarrow> last_stage es | Some x \<Rightarrow> Some x)"
  by (simp add: last_stage_def split: option.split)

text \<open>After some events of the stream.\<close>

definition following :: "parent_state \<Rightarrow> nat \<Rightarrow> run_event list \<Rightarrow> bool" where
  "following st n es \<longleftrightarrow> running st \<and> ps_dispatched st \<and> ps_accepted st \<and> ps_deferred st = None
     \<and> set (ps_seen st) = message_number ` {..<n} \<and> lg_events (ps_log st) = es \<and> lg_sink_errors (ps_log st) = []
     \<and> ps_last_seq st = (if es = [] then None else Some (re_seq (last es))) \<and> ps_stage st = last_stage es"

definition silent_observers :: "observers \<Rightarrow> bool" where
  "silent_observers ob \<longleftrightarrow> (\<forall>e. ob_log_fault ob e = None \<and> ob_sink_fault ob e = None)"

lemma silent_collect: "silent_observers ob \<Longrightarrow> lg_sink_errors (collect ob e lg) = lg_sink_errors lg"
  by (simp add: collect_def Let_def silent_observers_def)

lemma after_event_stage: "ps_stage (after_event pe plan later e st) = (case shown_stage e of None \<Rightarrow> ps_stage st | Some s \<Rightarrow> Some s)"
  by (simp add: after_event_def Let_def reset_progress_deadline_def observe_stage_def split: option.splits)

text \<open>A message that is let through changes nothing else.\<close>

lemma pass_decoded:
  assumes "deadline_failure (tk_now t) st = None" and "tk_got t = Line line"
    and "decode_worker_message (pe_wire pe) line False = Decoded m" and "wm_message_id m \<notin> set (ps_seen st)"
  shows "one_pass rt pe plan b rid t st =
    (let st = st\<lparr>ps_seen := wm_message_id m # ps_seen st\<rparr> in
      if \<not> ps_dispatched st
      then (case validate_hello rt plan m of
          Some v \<Rightarrow> violate v st
        | None \<Rightarrow> Go (reset_progress_deadline pe (tk_later t) (st\<lparr>ps_dispatched := True\<rparr>)))
      else on_message rt pe plan b rid (tk_later t) m st)"
  using assms by (simp add: one_pass_def on_line_def)

lemma follow_event:
  assumes "following st n es" and "silent_observers (pe_observers pe)"
    and "deadline_failure (tk_now t) st = None" and "tk_got t = Line line"
    and "decode_worker_message (pe_wire pe) line False = Decoded (event_message (Some (dispatch_message_id rid)) n e)"
    and "re_run_id e = rid" and "es = [] \<or> re_seq (last es) < re_seq e"
  shows "one_pass rt pe plan b rid t st
      = Go (after_event pe plan (tk_later t) e (st\<lparr>ps_seen := message_number n # ps_seen st\<rparr>))"
    and "cl_type e \<noteq> Terminal_event \<Longrightarrow> following (after_event pe plan (tk_later t) e (st\<lparr>ps_seen := message_number n # ps_seen st\<rparr>)) (Suc n) (es @ [e])"
proof -
  have new: "wm_message_id (event_message (Some (dispatch_message_id rid)) n e) \<notin> set (ps_seen st)"
    using assms(1) by (auto simp: following_def event_message_def)
  show "one_pass rt pe plan b rid t st
      = Go (after_event pe plan (tk_later t) e (st\<lparr>ps_seen := message_number n # ps_seen st\<rparr>))"
    unfolding pass_decoded [OF assms(3-5) new] using assms(1,6,7)
    by (auto simp: following_def event_message_def on_message_def on_event_Go Let_def)
  have "message_number ` {..<Suc n} = insert (message_number n) (message_number ` {..<n})" by (simp add: lessThan_Suc)
  then show "cl_type e \<noteq> Terminal_event \<Longrightarrow> following (after_event pe plan (tk_later t) e (st\<lparr>ps_seen := message_number n # ps_seen st\<rparr>)) (Suc n) (es @ [e])"
    using assms(1,2) by (simp add: following_def after_event_fields after_event_stage silent_collect collect_fields last_stage_snoc
      split: option.split)
qed

lemma follow_events:
  assumes "following st n es" and "silent_observers (pe_observers pe)"
    and "map tk_got ts = map (\<lambda>m. Line (enc m)) (event_messages (Some (dispatch_message_id rid)) n us)"
    and "list_all (\<lambda>m. decode_worker_message (pe_wire pe) (enc m) False = Decoded m) (event_messages (Some (dispatch_message_id rid)) n us)"
    and "list_all (\<lambda>e. re_run_id e = rid \<and> cl_type e \<noteq> Terminal_event) us" and "sorted_wrt (<) (map re_seq (es @ us))"
    and "on_time rt pe plan b rid (ts @ rest) st"
  shows "\<exists>st'. following st' (n + length us) (es @ us) \<and> on_time rt pe plan b rid rest st'
    \<and> supervise rt pe plan b rid (ts @ rest) st = supervise rt pe plan b rid rest st'"
  using assms
proof (induction us arbitrary: st n es ts)
  case (Cons e us)
  from Cons.prems(3) obtain t ts' where ts: "ts = t # ts'" "tk_got t = Line (enc (event_message (Some (dispatch_message_id rid)) n e))"
    "map tk_got ts' = map (\<lambda>m. Line (enc m)) (event_messages (Some (dispatch_message_id rid)) (Suc n) us)" by (cases ts) auto
  have before: "es = [] \<or> re_seq (last es) < re_seq e"
    using Cons.prems(6) by (cases es rule: rev_cases) (auto simp: sorted_wrt_append)
  from Cons.prems(4,5,7) ts have now: "deadline_failure (tk_now t) st = None"
    "decode_worker_message (pe_wire pe) (enc (event_message (Some (dispatch_message_id rid)) n e)) False
      = Decoded (event_message (Some (dispatch_message_id rid)) n e)" "re_run_id e = rid" "cl_type e \<noteq> Terminal_event" by simp_all
  note step = follow_event [OF Cons.prems(1,2) now(1) ts(2) now(2,3) before]
  let ?st = "after_event pe plan (tk_later t) e (st\<lparr>ps_seen := message_number n # ps_seen st\<rparr>)"
  have "\<exists>st'. following st' (Suc n + length us) ((es @ [e]) @ us) \<and> on_time rt pe plan b rid rest st'
      \<and> supervise rt pe plan b rid (ts' @ rest) ?st = supervise rt pe plan b rid rest st'"
    by (rule Cons.IH [OF step(2) [OF now(4)] Cons.prems(2) ts(3)]) (use Cons.prems(4-7) ts(1) step(1) in simp_all)
  then show ?case using step(1) ts(1) by simp
qed auto

text \<open>The first two messages.\<close>

lemma follow_hello:
  assumes "map tk_got ts = map (\<lambda>m. Line (enc m)) [hello_message we worker_id backend, accepted_message (Some (dispatch_message_id rid)) rid hash conf]"
    and "list_all (\<lambda>m. decode_worker_message (pe_wire pe) (enc m) False = Decoded m)
      [hello_message we worker_id backend, accepted_message (Some (dispatch_message_id rid)) rid hash conf]"
    and "on_time rt pe plan b rid (ts @ rest) (initial_state pe)"
    and "validate_hello rt plan (hello_message we worker_id backend) = None"
    and "accepted_variant plan b \<lparr>ab_run_id = rid, ab_configuration_hash = hash, ab_allocator_conf = Some conf\<rparr> = None"
  shows "\<exists>st'. following st' 2 [] \<and> on_time rt pe plan b rid rest st'
    \<and> supervise rt pe plan b rid (ts @ rest) (initial_state pe) = supervise rt pe plan b rid rest st'"
proof -
  from assms(1) obtain t u where ts: "ts = [t, u]" "tk_got t = Line (enc (hello_message we worker_id backend))"
    "tk_got u = Line (enc (accepted_message (Some (dispatch_message_id rid)) rid hash conf))" by auto
  let ?h = "hello_message we worker_id backend" and ?a = "accepted_message (Some (dispatch_message_id rid)) rid hash conf"
  define st1 where "st1 = reset_progress_deadline pe (tk_later t) ((initial_state pe)\<lparr>ps_seen := [message_number 0], ps_dispatched := True\<rparr>)"
  define st2 where "st2 = reset_progress_deadline pe (tk_later u) (st1\<lparr>ps_seen := [message_number 1, message_number 0], ps_accepted := True\<rparr>)"
  from assms(3) ts(1) have d: "deadline_failure (tk_now t) (initial_state pe) = None" by simp
  have s1: "one_pass rt pe plan b rid t (initial_state pe) = Go st1"
    using pass_decoded [OF d ts(2), of pe ?h rt plan b rid] assms(2,4)
    by (simp add: initial_state_def hello_message_def st1_def)
  with assms(3) ts(1) have d1: "deadline_failure (tk_now u) st1 = None" by simp
  have s2: "one_pass rt pe plan b rid u st1 = Go st2"
    using pass_decoded [OF d1 ts(3), of pe ?a rt plan b rid] assms(2,5)
    by (simp add: st1_def st2_def reset_progress_deadline_def initial_state_def accepted_message_def on_message_def on_accepted_def)
  have "{..<2::nat} = {0, 1}" by auto
  then have "following st2 2 []"
    by (auto simp: following_def st1_def st2_def reset_progress_deadline_def initial_state_def running_def empty_log_def last_stage_def)
  with s1 s2 assms(3) ts(1) show ?thesis by auto
qed


section \<open>The worker's own run\<close>

lemma emit_quiet: "lg_sink_errors (emit (so_observers (worker_surroundings we)) rid c lg) = lg_sink_errors lg"
  by (simp add: emit_def collect_def Let_def worker_surroundings_def)

lemma fold_emit_quiet: "lg_sink_errors (fold (emit (so_observers (worker_surroundings we)) rid) cs lg) = lg_sink_errors lg"
  by (induction cs arbitrary: lg) (simp_all add: emit_quiet)

text \<open>Without a record directory and without faults the manifest is the one that was built, and the
  stream is the runner's, numbered from zero, with the terminal event at its end.\<close>

lemma worker_run_parts:
  fixes rt we plan rid resume
  defines "runner \<equiv> we_runner we (we_runner_name we)" and "w \<equiv> worker_run rt we plan rid resume"
  defines "a \<equiv> attempt_run rt (we_machine we) (\<lambda>_. True) (so_observers (worker_surroundings we)) plan runner rid"
  assumes "sanitize_id rid = rid"
  shows "\<exists>lineage. xr_manifest w = build_run_manifest plan runner rid lineage a" and "xr_artifacts w = at_artifacts a"
    and "xr_events w = lg_events (at_log a) @ [\<lparr>cl_type = Terminal_event, cl_stage = None, cl_step = None, cl_metrics = None,
      cl_state = Some (mf_state (xr_manifest w)), re_run_id = rid, re_seq = length (lg_events (at_log a))\<rparr>]"
    and "map re_seq (lg_events (at_log a)) = [0..<length (lg_events (at_log a))]"
    and "list_all (\<lambda>e. re_run_id e = rid) (lg_events (at_log a))"
    and "list_all (\<lambda>c. cl_type c \<noteq> Terminal_event) (rn_calls runner) \<Longrightarrow> list_all (\<lambda>e. cl_type e \<noteq> Terminal_event) (lg_events (at_log a))"
proof -
  let ?so = "worker_surroundings we"
  define res where "res = map_option (\<lambda>rq. (rq, we_checkpoint we rq)) resume"
  define lineage where "lineage = resume_lineage_of rt (so_parse ?so) res"
  have so: "so_machine ?so = we_machine we" "so_artifact_write ?so = (\<lambda>_. True)" "\<not> ob_record_dir (so_observers ?so)"
    by (simp_all add: worker_surroundings_def)
  have w: "w = conduct_run rt ?so plan runner rid res" by (simp add: w_def worker_run_def runner_def res_def)
  define built where "built = build_run_manifest plan runner rid lineage a"
  define lg where "lg = emit_terminal (so_observers ?so) rid (mf_state built) (at_log a)"
  have log: "at_log a = (if at_ran a then fold (emit (so_observers ?so) rid) (rn_calls runner) empty_log else empty_log)"
    unfolding a_def by (rule attempt_log)
  have errors: "lg_sink_errors lg = []" "lg_sink_errors (at_log a) = []"
    unfolding lg_def emit_terminal_def emit_quiet log by (simp_all add: fold_emit_quiet empty_log_def)
  have ok: "stream_ok (so_observers ?so) rid (at_log a)" by (simp add: log stream_ok_fold stream_ok_empty)
  then have seq: "lg_seq (at_log a) = length (lg_events (at_log a))"
    unfolding stream_ok_def by (metis length_map diff_zero length_upt)
  have m: "xr_manifest w = built" "xr_artifacts w = at_artifacts a" "xr_events w = lg_events lg"
    unfolding w conduct_run_def
    by (simp_all add: Let_def assms(4) so a_def [symmetric] lineage_def [symmetric] built_def [symmetric] lg_def [symmetric]
      note_isolated_def errors)
  from m(1) show "\<exists>lineage. xr_manifest w = build_run_manifest plan runner rid lineage a" by (auto simp: built_def)
  show "xr_artifacts w = at_artifacts a" by (fact m(2))
  show "xr_events w = lg_events (at_log a) @ [\<lparr>cl_type = Terminal_event, cl_stage = None, cl_step = None, cl_metrics = None,
      cl_state = Some (mf_state (xr_manifest w)), re_run_id = rid, re_seq = length (lg_events (at_log a))\<rparr>]"
    by (simp add: m lg_def emit_terminal_def emit_def collect_fields seq [symmetric])
  show "map re_seq (lg_events (at_log a)) = [0..<length (lg_events (at_log a))]" "list_all (\<lambda>e. re_run_id e = rid) (lg_events (at_log a))"
    using ok seq by (simp_all add: stream_ok_def)
  assume calls: "list_all (\<lambda>c. cl_type c \<noteq> Terminal_event) (rn_calls runner)"
  have "map cl_type (lg_events (at_log a)) \<in> {[], map cl_type (rn_calls runner)}"
    by (simp add: log fold_emit_types)
  moreover have "Terminal_event \<notin> set (map cl_type (rn_calls runner))" using calls by (auto simp: list_all_iff)
  ultimately have "Terminal_event \<notin> set (map cl_type (lg_events (at_log a)))" by (metis empty_iff insert_iff list.set(1))
  then show "list_all (\<lambda>e. cl_type e \<noteq> Terminal_event) (lg_events (at_log a))"
    unfolding list_all_iff set_map by (metis image_eqI)
qed

text \<open>The parent derives the success of an adapter training again with the gate the worker used.\<close>

lemma training_artifact_gate_cong:
  "pa_kind p = pa_kind q \<Longrightarrow> pa_path p = pa_path q \<Longrightarrow> pa_artifact_id p = pa_artifact_id q
     \<Longrightarrow> training_artifact_gate rt mc cfg rid [p] ms tx = training_artifact_gate rt mc cfg rid [q] ms tx"
  by (cases "verify_run_scoped_output_path mc cfg rid ''adapter'' None"; cases "pa_kind q = ''adapter''")
    (simp_all add: training_artifact_gate_def Let_def)

lemma training_artifact_gate_one:
  assumes "training_artifact_gate rt mc cfg rid produced manifests tx = Inr ws"
  obtains p x expected where "produced = [p]" "manifests = [x]" "pa_kind p = ''adapter''" "am_kind x = ''adapter''"
    "verify_run_scoped_output_path mc cfg rid ''adapter'' None = Some expected" "mc_absolute mc (pa_path p) = expected"
    "am_current_integrity x = OK" "am_content_hash x \<noteq> None" "am_metadata_hash x \<noteq> None"
    "compute_weight_content_hash rt (am_path x) (mc_disk mc (am_path x)) = am_content_hash x"
proof -
  from assms have l: "length produced = 1" "length (filter (\<lambda>a. pa_kind a = ''adapter'') produced) = 1"
    "length manifests = 1" "length (filter (\<lambda>m. am_kind m = ''adapter'') manifests) = 1"
    by (auto simp: training_artifact_gate_def Let_def split: option.splits if_splits)
  then obtain p x where px: "produced = [p]" "manifests = [x]" by (auto simp: length_Suc_conv)
  with l have kinds: "pa_kind p = ''adapter''" "am_kind x = ''adapter''" by (auto split: if_splits)
  obtain expected where e: "verify_run_scoped_output_path mc cfg rid ''adapter'' None = Some expected"
    using assms by (cases "verify_run_scoped_output_path mc cfg rid ''adapter'' None") (simp_all add: training_artifact_gate_def)
  have path: "mc_absolute mc (pa_path p) = expected"
  proof (rule ccontr)
    assume "mc_absolute mc (pa_path p) \<noteq> expected"
    with assms px kinds e show False by (simp add: training_artifact_gate_def)
  qed
  have whole: "am_current_integrity x = OK \<and> am_content_hash x \<noteq> None \<and> am_metadata_hash x \<noteq> None"
  proof (rule ccontr)
    assume "\<not> ?thesis"
    then have "am_current_integrity x \<noteq> OK \<or> am_content_hash x = None \<or> am_metadata_hash x = None \<or> am_cheap_fingerprint x = None" by blast
    with assms px kinds e show False by (simp add: training_artifact_gate_def Let_def split: if_splits)
  qed
  have same: "compute_weight_content_hash rt (am_path x) (mc_disk mc (am_path x)) = am_content_hash x"
  proof (rule ccontr)
    assume "compute_weight_content_hash rt (am_path x) (mc_disk mc (am_path x)) \<noteq> am_content_hash x"
    with assms px kinds e show False by (simp add: training_artifact_gate_def Let_def split: if_splits option.splits prod.splits)
  qed
  from that [OF px kinds e path] whole same show thesis by blast
qed

lemma observed_path:
  assumes "verify_run_scoped_output_path mc cfg rid leaf None = Some expected" and "mc_absolute mc q = expected"
  shows "verify_run_scoped_output_path mc cfg rid leaf (Some q) = Some expected"
proof (cases "run_scoped_training_output cfg rid leaf")
  case (Some p)
  with assms(1) have "mc_absolute mc p = expected" "mc_output_ok mc expected"
    by (simp_all add: verify_run_scoped_output_path_def Let_def split: if_splits)
  with Some assms(2) show ?thesis by (simp add: verify_run_scoped_output_path_def)
qed (use assms(1) in \<open>simp add: verify_run_scoped_output_path_def\<close>)

lemma built_manifest_fields:
  assumes "build_artifact_manifest rt disk rid base p = Some m"
  shows "am_artifact_id m = pa_artifact_id p" "am_path m = pa_path p" "am_run_id m = rid" "am_base_model m = base"
  using assms by (auto simp: build_artifact_manifest_def Let_def split: if_splits)

lemma built_manifests_fields:
  "build_artifact_manifests rt disk rid base produced = Some ms \<Longrightarrow>
     map am_artifact_id ms = map pa_artifact_id produced \<and> list_all (\<lambda>m. am_run_id m = rid \<and> am_base_model m = base) ms"
  by (induction produced arbitrary: ms) (auto simp: built_manifest_fields split: option.splits)

lemma attempt_artifacts:
  "list_all (\<lambda>m. am_run_id m = rid \<and> am_base_model m = pl_base_model plan) (at_artifacts (attempt_run rt mc w ob plan runner rid))"
  using built_manifests_fields
  by (fastforce simp: attempt_run_def Let_def split: option.splits runner_outcome.splits sum.splits)

lemma training_readmitted:
  assumes "validate_training_success_evidence rt mc cfg rid events produced manifests tx peak = Inr e"
    and "build_artifact_manifests rt (mc_disk mc) rid base produced = Some manifests"
    and "mf_output_dir m = pa_path (hd produced)"
  obtains x where "manifests = [x]" "am_kind x = ''adapter''" "pa_kind (hd produced) = ''adapter''" "length produced = 1"
    "verify_artifact rt mc V_training cfg rid m x = None" "verify_variant_evidence rt mc V_training cfg rid events x e = None"
    "evidence_peak e = peak"
proof -
  from assms(1) obtain t ws where g: "training_stream_gate cfg events tx = Inr t" "training_artifact_gate rt mc cfg rid produced manifests t = Inr ws"
    "e = Training_success t (fst ws) (snd ws) peak"
    by (auto simp: validate_training_success_evidence_def split: sum.splits)
  have tx: "tx = Some t" using g(1) by (auto simp: training_stream_gate_def split: option.splits if_splits)
  from g(2) obtain p x expected where px: "produced = [p]" "manifests = [x]" "pa_kind p = ''adapter''" "am_kind x = ''adapter''"
    "verify_run_scoped_output_path mc cfg rid ''adapter'' None = Some expected" "mc_absolute mc (pa_path p) = expected"
    "am_current_integrity x = OK" "am_content_hash x \<noteq> None" "am_metadata_hash x \<noteq> None"
    "compute_weight_content_hash rt (am_path x) (mc_disk mc (am_path x)) = am_content_hash x"
    by (rule training_artifact_gate_one)
  from assms(2) px(1,2) have x: "am_artifact_id x = pa_artifact_id p" "am_path x = pa_path p"
    by (auto dest: built_manifest_fields split: option.splits)
  have "training_artifact_gate rt mc cfg rid [produced_of x] [x] t = training_artifact_gate rt mc cfg rid [p] [x] t"
    by (rule training_artifact_gate_cong) (simp_all add: produced_of_def px(3,4) x)
  with g(2) px(1,2) have again: "training_artifact_gate rt mc cfg rid [produced_of x] [x] t = Inr ws" by simp
  have "verify_artifact rt mc V_training cfg rid m x = None"
    using px(1,3-10) assms(3) x(2) observed_path [OF px(5)]
    by (simp add: verify_artifact_def artifact_kind_def)
  moreover have "verify_variant_evidence rt mc V_training cfg rid events x e = None"
    using g again by (cases ws) (auto simp: verify_variant_evidence_def verify_training_evidence_def Let_def
      validate_training_success_evidence_def evidence_peak_def tx)
  ultimately show thesis using that px g(3) by (simp add: evidence_peak_def)
qed


section \<open>Admission of an honest terminal\<close>

text \<open>The binding is the one execution of the plan.\<close>

lemma only_binding:
  assumes "resolved_execution_binding plan = Inr (Some v)"
  shows "pl_execution plan u \<noteq> None \<longleftrightarrow> u = v"
proof -
  from assms have "selected_variants plan = [v]"
    by (cases "selected_variants plan") (auto simp: resolved_execution_binding_def Let_def split: if_splits)
  then show ?thesis using selected_mem [of u plan] by auto
qed

lemma honest_links:
  assumes "xr_manifest w = build_run_manifest plan runner rid lineage a" and "xr_artifacts w = at_artifacts a"
    and "a = attempt_run rt mc wr ob plan runner rid" and "resolved_execution_binding plan = Inr (Some v)"
    and "mf_artifact_ids (xr_manifest w) = map am_artifact_id (xr_artifacts w)"
  shows "terminal_links plan rid (terminal_of rid w) = None"
proof -
  have "resolved_run plan" using only_binding [OF assms(4)] all_variants [of v] by (auto simp: resolved_run_def list_ex_iff)
  moreover have "list_all (\<lambda>m. am_run_id m = rid \<and> am_base_model m = pl_base_model plan) (xr_artifacts w)"
    using attempt_artifacts [of rid plan rt mc wr ob runner] by (simp add: assms(2,3))
  ultimately show ?thesis
    using assms(1,5) by (auto simp: terminal_links_def terminal_of_def Let_def build_run_manifest_def list_ex_iff list_all_iff)
qed

lemma honest_success_admitted:
  assumes "xr_manifest w = build_run_manifest plan runner rid lineage a" and "xr_artifacts w = at_artifacts a"
    and "a = attempt_run rt mc wr ob plan runner rid" and "resolved_execution_binding plan = Inr (Some V_training)"
    and "mf_state (xr_manifest w) = Succeeded" and "rn_final_fit runner = None \<or> rn_measured_peak runner \<noteq> None"
  shows "admit_terminal_success rt mc (Some V_training) plan rid (xr_manifest w) (xr_artifacts w) (lg_events (at_log a)) = None"
proof -
  from assms(4) binding_selected obtain cfg where cfg: "pl_execution plan V_training = Some cfg" by blast
  have resolved: "resolved_run plan" using cfg all_variants [of V_training] by (auto simp: resolved_run_def list_ex_iff)
  have "attempt_state (at_end a) = Succeeded" using assms(1,5) by (simp add: build_run_manifest_def)
  then obtain evidence where e: "at_end a = Attempt_succeeded evidence" by (auto simp: attempt_state_def split: attempt_end.splits)
  from e assms(3) have "at_end (attempt_run rt mc wr ob plan runner rid) = Attempt_succeeded evidence" by simp
  then obtain produced manifests where p: "build_artifact_manifests rt (mc_disk mc) rid (pl_base_model plan) produced = Some manifests"
    "gate_variants plan (gate_for rt mc runner rid (lg_events (at_log a)) produced manifests) GATE_ORDER (\<lambda>_. None) = Inr evidence"
    "at_artifacts a = manifests" "at_produced a = produced" "at_ran a"
    by (rule attempt_succeeded) (simp add: assms(3))
  note evidence_of = gate_variants_Inr [OF p(2) gate_order(2)]
  from evidence_of [of V_training cfg] cfg gate_order(1) obtain g where g:
    "gate_for rt mc runner rid (lg_events (at_log a)) produced manifests V_training cfg = Inr g" "evidence V_training = Some g" by blast
  have none: "evidence v = None" if "v \<noteq> V_training" for v
    using evidence_of [of v] only_binding [OF assms(4), of v] that by auto
  have mf: "mf_evidence (xr_manifest w) = evidence" by (simp add: assms(1) build_run_manifest_def e)
  from g(1) have v: "validate_training_success_evidence rt mc cfg rid (lg_events (at_log a)) produced manifests (rn_training runner)
      (rn_measured_peak runner) = Inr g" by (simp add: gate_for_def)
  have out: "mf_output_dir (xr_manifest w) = (case find (\<lambda>p. pa_kind p \<in> {''adapter'', ''model''}) produced of
      Some p \<Rightarrow> pa_path p | None \<Rightarrow> pl_output_dir plan)"
    by (simp add: assms(1) build_run_manifest_def resolved p(4))
  from v obtain t ws where gate: "training_artifact_gate rt mc cfg rid produced manifests t = Inr ws"
    by (auto simp: validate_training_success_evidence_def split: sum.splits)
  then have "mf_output_dir (xr_manifest w) = pa_path (hd produced)"
    by (rule training_artifact_gate_one) (simp add: out)
  from training_readmitted [OF v p(1) this] obtain x where x: "manifests = [x]" "am_kind x = ''adapter''"
    "verify_artifact rt mc V_training cfg rid (xr_manifest w) x = None"
    "verify_variant_evidence rt mc V_training cfg rid (lg_events (at_log a)) x g = None" "evidence_peak g = rn_measured_peak runner"
    by metis
  have "mf_final_fit (xr_manifest w) = attempt_fit plan runner a" by (simp add: assms(1) build_run_manifest_def)
  then have "verify_fit (evidence_peak g) (mf_final_fit (xr_manifest w)) = None"
    using assms(6) resolved p(5) e
    by (auto simp: verify_fit_def x(5) attempt_fit_def attempt_state_def Let_def split: option.splits)
  moreover have "\<not> list_ex (\<lambda>v. Some v \<noteq> Some V_training \<and> evidence v \<noteq> None) EXECUTION_VARIANTS"
    unfolding list_ex_iff using none by metis
  ultimately show ?thesis
    using cfg g(2) x by (simp add: admit_terminal_success_def mf assms(2) p(3) artifact_kind_def)
qed

lemma honest_terminal_admitted:
  assumes "xr_manifest w = build_run_manifest plan runner rid lineage a" and "xr_artifacts w = at_artifacts a"
    and "a = attempt_run rt mc wr ob plan runner rid" and "resolved_execution_binding plan = Inr (Some v)"
    and "mf_artifact_ids (xr_manifest w) = map am_artifact_id (xr_artifacts w)"
    and "mf_state (xr_manifest w) = Succeeded \<Longrightarrow> v = V_training"
    and "rn_final_fit runner = None \<or> rn_measured_peak runner \<noteq> None"
  shows "parse_terminal rt mc plan rid (lg_events (at_log a)) (terminal_of rid w) = None"
  using honest_links [OF assms(1-5)] honest_success_admitted [OF assms(1-3) _ _ assms(7)] assms(4,6)
  by (auto simp: parse_terminal_def terminal_of_def Let_def)


section \<open>The end of the exchange\<close>

definition healthy :: "parent_env \<Rightarrow> bool" where
  "healthy pe \<longleftrightarrow> 0 < pe_silence pe \<and> 0 < pe_preflight pe \<and> 0 < pe_heartbeat pe \<and> pe_open_fault pe = None \<and> pe_spawns pe
     \<and> silent_observers (pe_observers pe) \<and> (\<forall>n. pe_manifest_write pe n = None) \<and> (\<forall>m. pe_artifact_write pe m)"

text \<open>What the parent returns when the terminal was admitted and nothing on its side fails.\<close>

lemma conclude_healthy:
  assumes "healthy pe" and "ps_killed st = None" and "ps_terminal st = Some m" and "ps_accepted st" and "lg_sink_errors (ps_log st) = []"
  shows "xr_manifest (conclude pe plan rid st) = m\<lparr>mf_failure := map_option (bind_failure_record rid (ps_stage st) (pe_returncode pe)) (mf_failure m)\<rparr>"
    and "xr_events (conclude pe plan rid st) = lg_events (ps_log st) @ [terminal_event rid st (mf_state m)]"
    and "xr_artifacts (conclude pe plan rid st) = ps_artifacts st"
proof -
  let ?m = "m\<lparr>mf_failure := map_option (bind_failure_record rid (ps_stage st) (pe_returncode pe)) (mf_failure m)\<rparr>"
  have f: "finalize plan rid (pe_returncode pe) st = ?m" using assms(2,3) by (simp add: finalize_def)
  have w: "pe_manifest_write pe n = None" "list_all (pe_artifact_write pe) as" "ob_sink_fault (pe_observers pe) e = None" for n as e
    using assms(1) by (simp_all add: healthy_def silent_observers_def list_all_iff)
  obtain disk where r: "first_record pe plan rid st = (?m, disk)"
    by (cases "ob_record_dir (pe_observers pe)") (simp_all add: first_record_def f persist_run_def Let_def assms(5) w)
  obtain lg where c: "close_stream pe rid st (?m, disk) = (lg, ?m, disk)" "lg_events lg = lg_events (ps_log st) @ [terminal_event rid st (mf_state m)]"
    using assms(4) by (cases "ob_sink (pe_observers pe)") (simp_all add: close_stream_def deliver_terminal_def Let_def w)
  show "xr_manifest (conclude pe plan rid st) = ?m"
    "xr_events (conclude pe plan rid st) = lg_events (ps_log st) @ [terminal_event rid st (mf_state m)]"
    "xr_artifacts (conclude pe plan rid st) = ps_artifacts st"
    by (simp_all add: conclude_def r c)
qed


text \<open>The last two messages of the stream.\<close>

lemma follow_terminal:
  assumes "following st n es" and "silent_observers (pe_observers pe)"
    and "t = \<lparr>cl_type = Terminal_event, cl_stage = None, cl_step = None, cl_metrics = None, cl_state = Some (mf_state (tb_manifest b)),
      re_run_id = rid, re_seq = k\<rparr>" and "es = [] \<or> re_seq (last es) < k"
    and "map tk_got ts = map (\<lambda>m. Line (enc m)) [event_message (Some (dispatch_message_id rid)) n t,
      terminal_message (Some (dispatch_message_id rid)) (Suc n) b]"
    and "list_all (\<lambda>m. decode_worker_message (pe_wire pe) (enc m) False = Decoded m)
      [event_message (Some (dispatch_message_id rid)) n t, terminal_message (Some (dispatch_message_id rid)) (Suc n) b]"
    and "on_time rt pe plan v rid ts st" and "parse_terminal rt (pe_machine pe) plan rid es b = None"
  shows "\<exists>st'. supervise rt pe plan v rid ts st = Stop st' \<and> ps_killed st' = None \<and> ps_terminal st' = Some (tb_manifest b)
    \<and> ps_artifacts st' = tb_artifacts b \<and> ps_accepted st' \<and> lg_sink_errors (ps_log st') = [] \<and> lg_events (ps_log st') = es
    \<and> ps_deferred st' = Some t \<and> ps_stage st' = last_stage es"
proof -
  let ?c = "Some (dispatch_message_id rid)"
  from assms(5) obtain x y where ts: "ts = [x, y]" "tk_got x = Line (enc (event_message ?c n t))"
    "tk_got y = Line (enc (terminal_message ?c (Suc n) b))" by auto
  from assms(6,7) ts(1) have now: "deadline_failure (tk_now x) st = None"
    "decode_worker_message (pe_wire pe) (enc (event_message ?c n t)) False = Decoded (event_message ?c n t)" by simp_all
  define st1 where "st1 = after_event pe plan (tk_later x) t (st\<lparr>ps_seen := message_number n # ps_seen st\<rparr>)"
  have s1: "one_pass rt pe plan v rid x st = Go st1"
    unfolding st1_def by (rule follow_event(1) [OF assms(1,2) now(1) ts(2) now(2)]) (use assms(3,4) in auto)
  have st1: "running st1" "ps_dispatched st1" "ps_accepted st1" "ps_deferred st1 = Some t" "set (ps_seen st1) = message_number ` {..<Suc n}"
    "lg_events (ps_log st1) = es" "lg_sink_errors (ps_log st1) = []" "ps_stage st1 = last_stage es"
    using assms(1,3) by (auto simp: st1_def following_def after_event_fields after_event_stage shown_stage_def)
  have new: "wm_message_id (terminal_message ?c (Suc n) b) \<notin> set (ps_seen st1)" using st1(5) by (auto simp: terminal_message_def)
  from assms(6,7) ts(1) s1 have d: "deadline_failure (tk_now y) st1 = None"
    "decode_worker_message (pe_wire pe) (enc (terminal_message ?c (Suc n) b)) False = Decoded (terminal_message ?c (Suc n) b)" by simp_all
  show ?thesis
    unfolding ts(1) using s1 pass_decoded [OF d(1) ts(3) d(2) new, of rt plan v rid] st1 assms(3,8)
    by (auto simp: terminal_message_def on_message_def on_terminal_def Let_def running_def)
qed


lemma map_three:
  assumes "map f ts = xs @ ys @ zs"
  obtains h1 h2 h3 where "ts = h1 @ h2 @ h3" "map f h1 = xs" "map f h2 = ys" "map f h3 = zs"
proof -
  from assms [unfolded map_eq_append_conv [of f ts xs]] obtain h1 h where 1: "ts = h1 @ h" "xs = map f h1" "ys @ zs = map f h" by blast
  from 1(3) [symmetric, unfolded map_eq_append_conv] obtain h2 h3 where "h = h2 @ h3" "ys = map f h2" "zs = map f h3" by blast
  with 1 that show thesis by simp
qed


section \<open>Property\<close>

text \<open>C21: Supervision through a process is supervision. When the worker is the engine's own and ran to
  its exit code of zero, its lines reach the parent as they were sent and before any deadline, both
  look at the same machine, and nothing on the parent's side fails, the parent returns exactly the
  run the worker's supervisor made: the same events, the same artifacts and the same manifest,
  in which a failure record is only completed by the last stage and the exit code. Asked of a
  success is that it be an adapter training, whose gate both sides share; asked of a failure, that
  its manifest name the artifacts that were sent.\<close>

theorem process_boundary_is_transparent:
  assumes "check_before_spawn rt plan runner_name max_steps = Inr (Some v, lane)" and "healthy pe" and "rid = sanitize_id run_id"
    and "dispatch_message pe plan rid resume = Some d" and "decode_worker_message (we_wire we) line True = Decoded d"
    and "tr = worker_main rt we worker_id line" and "tr_exit tr = Some 0"
    and "we_machine we = pe_machine pe" and "map_option bm_backend_id (we_backends we (we_backend_id we)) = Some (we_backend_id we)"
    and "list_all (\<lambda>m. decode_worker_message (pe_wire pe) (enc m) False = Decoded m) (tr_sent tr)"
    and "map tk_got ticks = map (\<lambda>m. Line (enc m)) (tr_sent tr)" and "on_time rt pe plan (Some v) rid ticks (initial_state pe)"
    and "runner = we_runner we (we_runner_name we)" and "list_all (\<lambda>c. cl_type c \<noteq> Terminal_event) (rn_calls runner)"
    and "rn_final_fit runner = None \<or> rn_measured_peak runner \<noteq> None"
    and "w = worker_run rt we plan rid resume" and "mf_state (xr_manifest w) = Succeeded \<Longrightarrow> v = V_training"
    and "mf_artifact_ids (xr_manifest w) = map am_artifact_id (xr_artifacts w)"
  shows "case execute_run_subprocess rt pe plan run_id runner_name max_steps ticks of
      Supervised r \<Rightarrow> xr_events r = xr_events w \<and> xr_artifacts r = xr_artifacts w
        \<and> xr_manifest r = (xr_manifest w)\<lparr>mf_failure :=
            map_option (bind_failure_record rid (last_stage (xr_events w)) (pe_returncode pe)) (mf_failure (xr_manifest w))\<rparr>
    | _ \<Rightarrow> False"
proof -
  let ?c = "Some (dispatch_message_id rid)" and ?b = "\<lparr>db_run_id = rid, db_plan = plan, db_heartbeat = pe_heartbeat pe, db_resume = resume\<rparr>"
  have d: "wm_correlation_id d = None" "wm_body d = Dispatch ?b" "wm_message_id d = dispatch_message_id rid"
    using assms(4) by (auto simp: dispatch_message_def build_worker_message_def Let_def split: if_splits)
  have wd: "w = worker_run rt we (db_plan ?b) (db_run_id ?b) (db_resume ?b)" by (simp add: assms(16))
  obtain backend hash conf where tr: "we_backends we (we_backend_id we) = Some backend" "check_dispatch rt we plan = Inr (hash, conf)"
    "tr_sent tr = hello_message we worker_id backend # accepted_message ?c rid hash conf # event_messages ?c 2 (xr_events w)
       @ [terminal_message ?c (2 + length (xr_events w)) (terminal_of rid w)]"
    by (rule transcript_done [OF assms(6,7,5) d(1,2) refl wd]) (simp add: d(3))
  have rid: "sanitize_id rid = rid" by (simp add: assms(3))
  define a where "a = attempt_run rt (we_machine we) (\<lambda>_. True) (so_observers (worker_surroundings we)) plan runner rid"
  note parts = worker_run_parts(1-3) [where rt = rt and we = we and plan = plan and resume = resume, OF rid, folded assms(13,16), folded a_def]
    worker_run_parts(4-6) [where rt = rt and we = we and plan = plan, OF rid, folded assms(13), folded a_def]
  obtain lineage where m: "xr_manifest w = build_run_manifest plan runner rid lineage a" using parts(1) by blast
  let ?es = "lg_events (at_log a)"
  define t where "t = \<lparr>cl_type = Terminal_event, cl_stage = None, cl_step = None, cl_metrics = None, cl_state = Some (mf_state (xr_manifest w)),
    re_run_id = rid, re_seq = length ?es\<rparr>"
  have ev: "xr_events w = ?es @ [t]" using parts(3) by (simp add: t_def)
  note before = checked_before_spawn [OF assms(1)]
  have admitted: "parse_terminal rt (pe_machine pe) plan rid ?es (terminal_of rid w) = None"
    by (rule honest_terminal_admitted [OF m parts(2) a_def [unfolded assms(8)] before(2) assms(18,17,15)])
  from tr(2) before(2) have check: "pl_backend_id plan = we_backend_id we" "pinned_to (pl_backend_hash plan) (backend_manifest_digest rt backend)"
    "pl_environment plan = we_environment we" "hash = Some (ec_configuration_hash (the (pl_execution plan v)))"
    by (auto simp: check_dispatch_def tr(1) split: if_splits option.splits sum.splits)
  have hello: "validate_hello rt plan (hello_message we worker_id backend) = None"
    using check(1-3) assms(9) tr(1) by (simp add: validate_hello_def hello_message_def pinned_to_def)
  let ?a = "\<lparr>ab_run_id = rid, ab_configuration_hash = hash, ab_allocator_conf = Some conf\<rparr>"
  have acc: "accepted_variant plan (Some v) ?a = None" by (simp add: accepted_variant_def check(4))
  have sent: "tr_sent tr = [hello_message we worker_id backend, accepted_message ?c rid hash conf] @ event_messages ?c 2 ?es
      @ [event_message ?c (2 + length ?es) t, terminal_message ?c (Suc (2 + length ?es)) (terminal_of rid w)]"
    by (simp add: tr(3) ev event_messages_append)
  obtain h1 h2 h3 where ticks: "ticks = h1 @ h2 @ h3"
    "map tk_got h1 = map (\<lambda>m. Line (enc m)) [hello_message we worker_id backend, accepted_message ?c rid hash conf]"
    "map tk_got h2 = map (\<lambda>m. Line (enc m)) (event_messages ?c 2 ?es)"
    "map tk_got h3 = map (\<lambda>m. Line (enc m)) [event_message ?c (2 + length ?es) t, terminal_message ?c (Suc (2 + length ?es)) (terminal_of rid w)]"
    by (rule map_three [OF assms(11) [unfolded sent map_append]])
  note faithful = assms(10) [unfolded sent list_all_append]
  obtain st1 where s1: "following st1 2 []" "on_time rt pe plan (Some v) rid (h2 @ h3) st1"
    "supervise rt pe plan (Some v) rid ticks (initial_state pe) = supervise rt pe plan (Some v) rid (h2 @ h3) st1"
    using follow_hello [OF ticks(2) faithful [THEN conjunct1] assms(12) [unfolded ticks(1)] hello acc] unfolding ticks(1) by blast
  have silent: "silent_observers (pe_observers pe)" using assms(2) by (simp add: healthy_def)
  have events: "list_all (\<lambda>e. re_run_id e = rid \<and> cl_type e \<noteq> Terminal_event) ?es"
    using parts(5) parts(6) [OF assms(14)] by (simp add: list_all_iff)
  have order: "sorted_wrt (<) (map re_seq ([] @ ?es))" using parts(4) by (simp add: sorted_wrt_upt)
  obtain st2 where s2: "following st2 (2 + length ?es) ?es" "on_time rt pe plan (Some v) rid h3 st2"
    "supervise rt pe plan (Some v) rid (h2 @ h3) st1 = supervise rt pe plan (Some v) rid h3 st2"
    using follow_events [OF s1(1) silent ticks(3) _ events order s1(2)] faithful by auto
  have last: "?es = [] \<or> re_seq (last ?es) < length ?es"
  proof (cases ?es rule: rev_cases)
    case (snoc ys y)
    then have "re_seq y = length ys" using parts(4) by simp
    with snoc show ?thesis by simp
  qed simp
  have "t = \<lparr>cl_type = Terminal_event, cl_stage = None, cl_step = None, cl_metrics = None,
      cl_state = Some (mf_state (tb_manifest (terminal_of rid w))), re_run_id = rid, re_seq = length ?es\<rparr>"
    by (simp add: t_def terminal_of_def Let_def)
  from follow_terminal [OF s2(1) silent this last ticks(4) _ s2(2) admitted] faithful obtain st3 where s3:
    "supervise rt pe plan (Some v) rid h3 st2 = Stop st3" "ps_killed st3 = None" "ps_terminal st3 = Some (xr_manifest w)"
    "ps_artifacts st3 = xr_artifacts w" "ps_accepted st3" "lg_sink_errors (ps_log st3) = []" "lg_events (ps_log st3) = ?es"
    "ps_deferred st3 = Some t" "ps_stage st3 = last_stage ?es"
    by (auto simp: terminal_of_def Let_def)
  have "supervise rt pe plan (Some v) rid ticks (initial_state pe) = Stop st3" using s1(3) s2(3) s3(1) by simp
  then have run: "execute_run_subprocess rt pe plan run_id runner_name max_steps ticks = Supervised (conclude pe plan rid st3)"
    using assms(1,2) by (simp add: execute_run_subprocess_def healthy_def assms(3) not_le)
  have stage: "last_stage (?es @ [t]) = last_stage ?es" by (simp add: last_stage_snoc t_def shown_stage_def)
  have te: "terminal_event rid st3 (mf_state (xr_manifest w)) = t" by (simp add: terminal_event_def s3(8) t_def)
  from conclude_healthy [OF assms(2) s3(2,3,5,6), of plan rid] show ?thesis
    by (simp add: run s3(4,7,9) te stage ev)
qed


section \<open>A worker whose trainer crashes\<close>

lemma wire_of_faithful:
  assumes "distinct (map wm_message_id ms)"
    and "list_all (\<lambda>m. message_ok m \<and> strip (wm_message_id m) \<noteq> [] \<and> wm_core_to_worker m = c) ms"
  shows "list_all (\<lambda>m. decode_worker_message (wire_of ms) (wm_message_id m) c = Decoded m) ms"
proof -
  have "find (\<lambda>x. wm_message_id x = wm_message_id m) ms = Some m" if "m \<in> set ms" for m
    using assms(1) that by (induction ms) (auto simp: image_iff)
  with assms(2) wire_of_decodes show ?thesis by (simp add: list_all_iff)
qed

definition well_sent :: "transcript \<Rightarrow> bool" where
  "well_sent tr \<longleftrightarrow> list_all (\<lambda>m. message_ok m \<and> \<not> wm_core_to_worker m) (tr_sent tr)
     \<and> map wm_message_id (tr_sent tr) = map message_number [0..<length (tr_sent tr)]"

lemma well_sent_send: "well_sent tr \<Longrightarrow> \<not> sent_by_core ty \<Longrightarrow> well_sent (send ty body c tr)"
  by (auto simp: well_sent_def send_def build_worker_message_def Let_def split: option.split)

lemma well_sent_events: "well_sent tr \<Longrightarrow> well_sent (fold (\<lambda>e. send M_event (Event_body e) c) es tr)"
  by (induction es arbitrary: tr) (simp_all add: well_sent_send sent_by_core_def)

lemma well_sent_exit [simp]: "well_sent (exit_with code tr) = well_sent tr"
  by (simp add: well_sent_def exit_with_def)

lemma worker_well_sent: "well_sent (worker_main rt we worker_id line)"
proof -
  have "well_sent \<lparr>tr_sent = [], tr_exit = None\<rparr>" by (simp add: well_sent_def)
  then have "well_sent (worker_hello we worker_id)"
    by (auto simp: worker_hello_def Let_def well_sent_send sent_by_core_def split: option.split)
  then show ?thesis
    by (auto simp: worker_main_def run_worker_def Let_def well_sent_send well_sent_events sent_by_core_def
      split: decoded.split worker_body.split sum.split)
qed

lemma strip_number [simp]: "strip (message_number n) \<noteq> []"
proof -
  have "\<not> is_space (CHR ''w'')" by code_simp
  then show ?thesis by (auto simp: message_number_def strip_def strip_with_def dropWhile_eq_Nil_conv)
qed

lemma wire_of_transcript:
  assumes "well_sent tr"
  shows "list_all (\<lambda>m. decode_worker_message (wire_of (tr_sent tr)) (wm_message_id m) False = Decoded m) (tr_sent tr)"
proof (rule wire_of_faithful)
  from assms show "distinct (map wm_message_id (tr_sent tr))" by (simp add: well_sent_def distinct_map inj_on_def)
  have "m \<in> set (tr_sent tr) \<Longrightarrow> strip (wm_message_id m) \<noteq> []" for m
  proof -
    assume "m \<in> set (tr_sent tr)"
    then have "wm_message_id m \<in> set (map wm_message_id (tr_sent tr))" by simp
    with assms show ?thesis by (auto simp: well_sent_def)
  qed
  with assms show "list_all (\<lambda>m. message_ok m \<and> strip (wm_message_id m) \<noteq> [] \<and> wm_core_to_worker m = False) (tr_sent tr)"
    by (simp add: well_sent_def list_all_iff)
qed

lemma send_goes_on: "tr_exit tr = None \<Longrightarrow> body_ok ty body \<Longrightarrow> tr_exit (send ty body c tr) = None"
  by (simp add: send_def build_worker_message_def message_ok_def message_number_def Let_def)

lemma events_go_on:
  "tr_exit tr = None \<Longrightarrow> list_all (\<lambda>e. body_ok M_event (Event_body e)) es \<Longrightarrow> tr_exit (fold (\<lambda>e. send M_event (Event_body e) c) es tr) = None"
  by (induction es arbitrary: tr) (simp_all add: send_goes_on)

lemma exits: "tr_exit tr = None \<Longrightarrow> tr_exit (exit_with code tr) = Some code"
  by (simp add: exit_with_def)

text \<open>Clocks that stay before every deadline.\<close>

definition early :: "parent_state \<Rightarrow> bool" where
  "early st \<longleftrightarrow> ps_preflight_deadline st = None \<and> 1 < ps_progress_deadline st"

lemma early_pass:
  assumes "early st" and "1 < fadd (tk_later t) (pe_silence pe)" and "pl_execution plan V_training = None"
  shows "still early (one_pass rt pe plan b rid t st)"
  using assms
  by (auto simp: early_def one_pass_def on_line_def on_message_def on_accepted_def on_event_Go after_event_def on_terminal_def on_failure_def
      observe_stage_def violate_def reset_progress_deadline_def Let_def split: option.splits queued.splits decoded.splits worker_body.splits refusal.splits)

lemma early_on_time:
  assumes "list_all (\<lambda>t. tk_now t = 1 \<and> 1 < fadd (tk_later t) (pe_silence pe)) ts" and "pl_execution plan V_training = None" and "early st"
  shows "on_time rt pe plan b rid ts st"
  using assms(1,3)
proof (induction ts arbitrary: st)
  case (Cons t ts)
  with early_pass [OF Cons.prems(2) _ assms(2), of t pe rt b rid] show ?case
    by (auto simp: deadline_failure_def early_def split: handled.splits)
qed simp

definition lane_trainer :: runner where
  "lane_trainer = \<lparr>rn_name = ''pretraining'', rn_class = Pretraining_runner,
     rn_calls = [\<lparr>cl_type = Stage_event, cl_stage = Some Process_start, cl_step = None, cl_metrics = None, cl_state = None\<rparr>,
       \<lparr>cl_type = Metric_event, cl_stage = None, cl_step = Some 1, cl_metrics = Some (Some 3), cl_state = None\<rparr>],
     rn_outcome = Crashed ''OSError'', rn_checkpoints = [], rn_final_fit = None, rn_measured_peak = None, rn_training = None,
     rn_proposed = (\<lambda>_. None)\<rparr>"

definition lane_dispatch :: worker_message where
  "lane_dispatch = \<lparr>wm_message_id = dispatch_message_id ''r1'', wm_correlation_id = None, wm_core_to_worker = True, wm_type = M_run_dispatch,
     wm_body = Dispatch \<lparr>db_run_id = ''r1'', db_plan = lane_plan, db_heartbeat = 5, db_resume = None\<rparr>\<rparr>"

definition lane_work :: worker_env where
  "lane_work = \<lparr>we_machine = lane_machine, we_wire = wire_of [lane_dispatch], we_parse = (\<lambda>_. None),
     we_backends = (\<lambda>_. Some sample_backend), we_backend_id = ''corpus_studio'', we_environment = \<lparr>rf_id = ''e1'', rf_hash = None\<rparr>,
     we_runner_name = ''pretraining'', we_runner = (\<lambda>_. lane_trainer),
     we_checkpoint = (\<lambda>_. \<lparr>cd_manifest = None, cd_tmp = None, cd_member = (\<lambda>_. \<lparr>mb_symlink = False, mb_contained = True, mb_is_file = False, mb_nlink = 1, mb_bytes = []\<rparr>)\<rparr>)\<rparr>"

definition lane_report :: supervised_run where "lane_report = worker_run sample_rt lane_work lane_plan ''r1'' None"

definition lane_said :: transcript where "lane_said = worker_main sample_rt lane_work ''worker'' ''c-r1''"

lemma lane_report_facts:
  "mf_state (xr_manifest lane_report) = Failed_state" "mf_artifact_ids (xr_manifest lane_report) = []" "xr_artifacts lane_report = []"
  "list_all (\<lambda>e. body_ok M_event (Event_body e)) (xr_events lane_report)" "run_manifest_ok (xr_manifest lane_report)"
  "mf_run_id (xr_manifest lane_report) = ''r1''" "mf_evidence (xr_manifest lane_report) = (\<lambda>_. None)"
  "mf_failure (xr_manifest lane_report) = Some \<lparr>fl_run_id = Some ''r1'', fl_taxonomy = TAX_FAIL, fl_stage = None, fl_exit_code = None,
     fl_reason = Raised_by_runner ''OSError'', fl_exception_type = ''OSError''\<rparr>"
proof -
  have "admit_plan sample_rt lane_plan ''pretraining'' Pretraining_runner = None"
    by (simp add: admit_plan_def lane_seals lane_execution verify_runner_lane_def expected_class_def)
  moreover have "id_pattern ''r1''" by code_simp
  ultimately show "mf_state (xr_manifest lane_report) = Failed_state" "mf_artifact_ids (xr_manifest lane_report) = []" "xr_artifacts lane_report = []"
   "list_all (\<lambda>e. body_ok M_event (Event_body e)) (xr_events lane_report)" "run_manifest_ok (xr_manifest lane_report)"
  "mf_run_id (xr_manifest lane_report) = ''r1''" "mf_evidence (xr_manifest lane_report) = (\<lambda>_. None)"
  "mf_failure (xr_manifest lane_report) = Some \<lparr>fl_run_id = Some ''r1'', fl_taxonomy = TAX_FAIL, fl_stage = None, fl_exit_code = None,
     fl_reason = Raised_by_runner ''OSError'', fl_exception_type = ''OSError''\<rparr>"
    by (simp_all add: lane_report_def worker_run_def conduct_run_def lane_id lane_work_def lane_trainer_def attempt_run_def worker_surroundings_def
      build_run_manifest_def attempt_state_def emit_terminal_def emit_def collect_def note_isolated_def empty_log_def run_manifest_ok_def attempt_fit_def proven_native_def list_ex_iff body_ok_def attempt_failure_def Let_def)
qed

lemma lane_dispatched:
  "dispatch_message pe lane_plan ''r1'' None = (if 1 \<le> pe_heartbeat pe then Some \<lparr>wm_message_id = ''c-r1'', wm_correlation_id = None, wm_core_to_worker = True, wm_type = M_run_dispatch,
     wm_body = Dispatch \<lparr>db_run_id = ''r1'', db_plan = lane_plan, db_heartbeat = pe_heartbeat pe, db_resume = None\<rparr>\<rparr> else None)"
  by (simp add: dispatch_message_def build_worker_message_def dispatch_message_id_def sent_by_core_def message_ok_def body_ok_def Let_def)

lemma lane_read: "decode_worker_message (we_wire lane_work) ''c-r1'' True = Decoded lane_dispatch"
proof -
  have "strip ''c-r1'' \<noteq> []" by code_simp
  moreover have "message_ok lane_dispatch"
    by (simp add: message_ok_def body_ok_def lane_dispatch_def dispatch_message_id_def sent_by_core_def)
  ultimately show ?thesis
    using wire_of_decodes [of lane_dispatch "[lane_dispatch]" True] by (simp add: lane_work_def lane_dispatch_def dispatch_message_id_def)
qed

lemma lane_checked: "check_dispatch sample_rt lane_work lane_plan = Inr (Some (ec_configuration_hash sample_config), ''default'')"
  by (simp add: check_dispatch_def lane_seals lane_execution verify_runner_lane_def lane_work_def apply_allocator_policy_def)
    (simp add: lane_plan_def sample_plan_def sample_backend_def pinned_to_def)

lemma lane_exits: "tr_exit lane_said = Some 0"
proof -
  let ?fresh = "\<lparr>tr_sent = [], tr_exit = None\<rparr>" and ?c = "Some ''c-r1''"
  have pattern: "sha256_pattern (ec_configuration_hash sample_config)"
    by (simp add: sample_config_def canonical_sha256_def sample_rt_def sample_hash_pattern)
  have "tr_exit (worker_hello lane_work ''worker'') = None"
    by (simp add: worker_hello_def lane_work_def) (rule send_goes_on; simp add: body_ok_def)
  moreover have "strip ''c-r1'' \<noteq> []" by code_simp
  moreover have "body_ok M_terminal_result (Terminal_body (terminal_of ''r1'' lane_report))"
    using lane_report_facts by (simp add: body_ok_def terminal_of_def evidence_shaped_def terminal_consistency_def list_all_iff Let_def)
  ultimately show ?thesis
    using pattern lane_report_facts(4)
    by (simp add: lane_said_def worker_main_def run_worker_def lane_read Let_def lane_dispatch_def dispatch_message_id_def lane_checked exits
      send_goes_on events_go_on body_ok_def opt_ok_def lane_report_def)
qed

definition lane_ticks :: "worker_message list \<Rightarrow> tick list" where
  "lane_ticks ms = map (\<lambda>m. \<lparr>tk_now = 1, tk_got = Line (wm_message_id m), tk_later = 2\<rparr>) ms"

lemma lane_on_time:
  "on_time sample_rt (lane_parent (wire_of ms)) lane_plan b ''r1'' (lane_ticks ms) (initial_state (lane_parent (wire_of ms)))"
proof -
  have "pl_execution lane_plan V_training = None" by (simp add: lane_execution)
  with lane_clock show ?thesis
    by (intro early_on_time) (simp_all add: lane_ticks_def lane_parent_def early_def initial_state_def list_all_iff)
qed

theorem process_boundary_is_transparent_witness:
  "\<exists>r. execute_run_subprocess sample_rt (lane_parent (wire_of (tr_sent lane_said))) lane_plan ''r1'' ''auto'' None (lane_ticks (tr_sent lane_said)) = Supervised r
     \<and> xr_events r = xr_events lane_report \<and> mf_state (xr_manifest r) = Failed_state"
proof -
  let ?pe = "lane_parent (wire_of (tr_sent lane_said))"
  have pe: "healthy ?pe" "pe_machine ?pe = lane_machine" "pe_wire ?pe = wire_of (tr_sent lane_said)" "pe_heartbeat ?pe = 5"
    by (simp_all add: healthy_def lane_parent_def silent_observers_def)
  have sent: "dispatch_message ?pe lane_plan ''r1'' None = Some lane_dispatch"
    by (simp add: lane_dispatched pe(4) lane_dispatch_def dispatch_message_id_def)
  note t = process_boundary_is_transparent [OF lane_before pe(1) lane_id [symmetric] sent lane_read lane_said_def lane_exits _ _ _ _ lane_on_time
      refl _ _ lane_report_def, of wm_message_id]
  from t wire_of_transcript [OF worker_well_sent [of sample_rt lane_work "''worker''" "''c-r1''", folded lane_said_def]] lane_report_facts(1-3)
  show ?thesis
    by (auto simp: pe lane_work_def lane_trainer_def lane_ticks_def sample_backend_def split: outcome.splits)
qed

end
