(* ===== verification/Spec2Isabelle.thy ===== *)
theory Spec2Isabelle
  imports Splitters Version_Protocol Provider_Policy Validator Quality Gate_Runner Supervisor
    Corpus_Packing Chat_Chunker Retry Redaction_Keys Worker_Equivalence
begin

text \<open>
  Corpus Studio, the engine (\<open>src/engine/corpus_studio\<close>).

  The engine prepares text datasets for training and runs the training. Its core is a chain of
  decisions that must not be wrong silently: rows are validated against a schema, measured for
  quality, cleaned, split and exported behind gates; a dataset version pins its rows by hash in
  a row store shared by all versions; a model provider may only be asked for what its policy
  allows; a training plan is admitted, supervised and recorded, and its checkpoints and weights
  are trusted again only after their hashes agree. The theories model that chain, each part
  from the module named beside it, on one representation of JSON values and text.

  \<^bold>\<open>Foundations.\<close> \<open>Prelude\<close>: Python text as lists of code points up to U+00FF, string methods,
  dictionaries in insertion order, list lemmas. \<open>Json_Value\<close>, \<open>Json_Text\<close>: JSON values and
  \<open>json.dumps\<close>, with the proof that the text written determines the value. \<open>Py_Float\<close>: binary64
  arithmetic on rationals, rounding every result; infinities and NaN are outside the model.
  \<open>Regex_Match\<close>: backtracking matching in the order of Python's \<open>re\<close>; a repetition's fuel is the
  length of the text left, enough because every iteration consumes a character.
  \<open>Sample_Runtime\<close>: the concrete environment the witnesses run in.

  \<^bold>\<open>Rows.\<close> \<open>Row_Text\<close>: text and signatures of a row (\<open>quality/text.py\<close>, \<open>exporters/cleaning.py\<close>).
  \<open>Dataset_Schema\<close>, \<open>Validator\<close>: schemas, the check of a row and of a file, and the containment
  of image paths, with the links that \<open>Path.resolve\<close> follows (\<open>schemas/base.py\<close>,
  \<open>validators/basic_validator.py\<close>); a recursive validator is shown to find no issue exactly on the rows a declarative predicate accepts. \<open>Jsonl\<close>: the strict
  reader (\<open>importers/jsonl_importer.py\<close>). \<open>Cleaning\<close>: the export cleaner. \<open>Splitters\<close>: the random
  splitter and split leakage (\<open>splitters/\<close>). \<open>Chat_Chunker\<close>: splitting over-long chat records at
  turn boundaries. \<open>Corpus_Packing\<close>: packing token streams into blocks
  (\<open>training/corpus_packing.py\<close>).

  \<^bold>\<open>Quality.\<close> \<open>Applicability\<close> (\<open>quality/applicability.py\<close>), and from
  \<open>quality/basic_quality.py\<close>: \<open>Pii\<close>, \<open>Synthetic\<close>, \<open>Quality\<close>: which signals apply, secrets and
  personal data, templated text, and the report. \<open>Redaction\<close> (\<open>exporters/redaction.py\<close>) is the
  masking pass of the export on the same detectors; \<open>Redaction_Keys\<close> proves that a private key
  found in the joined text of a row is masked in the leaf strings it was joined from.

  \<^bold>\<open>Versions.\<close> \<open>Row_Store\<close>, \<open>Version_Store\<close>, \<open>Version_Gc\<close>, \<open>Version_Capture\<close>,
  \<open>Version_Restore\<close>: the content-addressed store on bytes, the registry, garbage collection,
  capture and publication, restore and diff (\<open>versions/\<close>, \<open>storage/examples_writer.py\<close>). Each
  operation takes an environment that says which reads, writes, locks and renames fail, so
  every failure and partial write is a branch. \<open>Version_Protocol\<close> puts them together as a step
  relation of critical sections, with crashes, and carries an invariant over it: a published
  version stays restorable.

  \<^bold>\<open>Policies and gates.\<close> \<open>Provider_Policy\<close>: roles, overrides and authorization
  (\<open>providers/\<close>). \<open>Severity_Scale\<close>: the locale of ranked grades that the gates and the quality
  clusters interpret. \<open>Gate_Models\<close>, \<open>Gate_Checks\<close>, \<open>Gate_Runner\<close>: thresholds, the gates, the
  reports they judge, and the promotion of an artifact through them (\<open>gates/\<close>, the gate commands
  of \<open>cli.py\<close>).

  \<^bold>\<open>Training.\<close> \<open>Run_Registry\<close>, \<open>Artifact_Registry\<close>: run and weight records, reconciliation with
  the processes and files that exist (\<open>training/run_registry.py\<close>, \<open>training/artifact_registry.py\<close>
  and their commands, the back-link of a stamped version included). \<open>Checkpoint\<close>: sealed checkpoints, hashing and exact resume
  (\<open>platform/checkpoint.py\<close>). \<open>Watchdog\<close>, \<open>Execution_Variants\<close>, \<open>Run_Admission\<close>, \<open>Supervisor\<close>: the
  stall watchdog and measured fit, the admissible shapes of a run, its seals and the evidence a
  success needs, and \<open>execute_run\<close> from the opening of its record to the last write
  (\<open>platform/\<close>). \<open>Retry\<close>: bounded retries of a model call, and the errors of their own
  arithmetic (\<open>model_backends/retry.py\<close>).

  \<^bold>\<open>Worker processes.\<close> \<open>Safetensors\<close>: the strict reading of a weights file and the canonical
  identity of its tensors (\<open>platform/parameter_accounting.py\<close>). \<open>Worker_Protocol\<close>: the messages,
  their validators, and the worker from its hello to its exit (\<open>platform/worker_protocol.py\<close>,
  \<open>platform/worker.py\<close>, the message contracts). \<open>Subprocess_Supervisor\<close>: the parent, that is the
  checks before the spawn, the deadlines, the handling of each line, the admission of a reported
  success, and the record (\<open>platform/subprocess_supervisor.py\<close>); a run is the list of the passes
  of its loop, each with the time and what the queue of lines gives. \<open>Subprocess_Runs\<close> proves what
  holds whatever a worker sends: one stream, a valid record, an end for a silent worker, a success
  only as derived again. \<open>Worker_Equivalence\<close> puts worker and parent together: between a healthy
  worker and its parent the process boundary changes nothing but the failure record.

  \<^bold>\<open>Lemma groups.\<close> Every theory first gives its definitions in the order of the source, then the
  lemmas on its operations, then its properties under a heading of their own. The groups worth
  knowing: injectivity of the JSON text and of signatures (\<open>Json_Text\<close>, \<open>Row_Text\<close>); the frame and
  preservation lemmas of each version operation, which the invariant of \<open>Version_Protocol\<close> only
  has to collect; the status lemmas of the gates, from the locale; the laws of admission and of
  each evidence gate, from which the safety of a succeeded run follows.

  \<^bold>\<open>Parameters.\<close> SHA-256 and SHA-1, NFKC, float \<open>repr\<close>, \<open>json.loads\<close> where its errors matter, the
  permutation of a seeded shuffle, tokenizers, the coercion of pydantic, the reading of
  a line of a worker, the reload of weights through torch, clocks, random tokens, and the file
  system are arguments. A hash is assumed free of collisions only in theorems that
  say so, and their witnesses discharge the assumption for a concrete function.

  \<^bold>\<open>Not modelled.\<close> Text above U+00FF; messages for people, where a constructor with the
  interpolated values stands for them; threads other than as interleavings of steps. Of the
  engine: the command line beyond the commands above, the importers and exporters of other
  formats, the environment manager, hardware probes, profilers and telemetry, the planner, the
  trainers and the workers' bodies, which call torch and operating-system services, and the
  desktop application, which is not Python.
\<close>

end
